(* ===== verification/Prelude.thy ===== *)
theory Prelude
  imports Main "HOL-Library.Word"
begin

text \<open>
  Shared vocabulary of the development: the machine types of the server (bytes, 16, 32 and 64 bit
  integers, the bit pattern of a 32 bit \<open>float\<close>), the little-endian layout in which the code
  stores them through \<open>reinterpret_cast\<close>, \<open>memcpy\<close> into an array, and the collections of
  rules that carry the component proofs.
\<close>

unbundle bit_operations_syntax

section \<open>Machine types\<close>

type_synonym byte = "8 word"
type_synonym u8 = "8 word"
type_synonym u16 = "16 word"
type_synonym u32 = "32 word"
type_synonym u64 = "64 word"
type_synonym f32 = "32 word"
type_synonym cstring = "byte list"

text \<open>The bytes of a string literal.\<close>

definition ascii :: "string \<Rightarrow> cstring" where
  "ascii s = map of_char s"


section \<open>Little-endian layout of a machine integer\<close>

fun le_bytes :: "nat \<Rightarrow> 'a::len word \<Rightarrow> byte list" where
  "le_bytes 0 w = []"
| "le_bytes (Suc n) w = ucast w # le_bytes n (drop_bit 8 w)"

fun le_word :: "byte list \<Rightarrow> 'a::len word" where
  "le_word [] = 0"
| "le_word (b # bs) = ucast b OR push_bit 8 (le_word bs)"

lemma length_le_bytes [simp]: "length (le_bytes n w) = n"
  by (induction n arbitrary: w) auto

lemma bit_le_word_le_bytes:
  "bit (le_word (le_bytes n w) :: 'a::len word) i \<longleftrightarrow> bit (w :: 'a word) i \<and> i < 8 * n"
proof (induction n arbitrary: w i)
  case 0
  then show ?case by simp
next
  case (Suc n)
  show ?case
  proof (cases "i < 8")
    case True
    then show ?thesis
      by (auto simp: bit_simps dest: bit_imp_le_length)
  next
    case False
    have "bit (ucast (ucast w :: byte) :: 'a word) i = False"
      using False by (simp add: bit_simps)
    moreover have "bit (push_bit 8 (le_word (le_bytes n (drop_bit 8 w)) :: 'a word)) i
        = (bit w i \<and> i < 8 * Suc n)"
      using False by (auto simp: bit_simps Suc dest: bit_imp_le_length)
    ultimately show ?thesis
      by (simp add: bit_or_iff)
  qed
qed

lemma le_word_le_bytes [simp]:
  "LENGTH('a) \<le> 8 * n \<Longrightarrow> le_word (le_bytes n w) = (w :: 'a::len word)"
  by (rule bit_word_eqI) (simp add: bit_le_word_le_bytes)

lemma le_bytes_1 [simp]: "le_bytes (Suc 0) (b :: byte) = [b]"
  by simp

lemma le_word_single [simp]: "le_word [b] = (b :: byte)"
  by simp

lemma le_bytes_le_word:
  "length bs = n \<Longrightarrow> 8 * n \<le> LENGTH('a) \<Longrightarrow> le_bytes n (le_word bs :: 'a::len word) = bs"
proof (induction bs arbitrary: n)
  case Nil
  then show ?case by simp
next
  case (Cons b bs)
  then obtain m where n: "n = Suc m" "length bs = m" by auto
  have w: "8 + 8 * m \<le> LENGTH('a)" using Cons.prems n by simp
  have "ucast (ucast b OR push_bit 8 (le_word bs :: 'a word)) = b"
    using w by (intro bit_word_eqI) (auto simp: bit_simps)
  moreover have "le_bytes m (drop_bit 8 (ucast b OR push_bit 8 (le_word bs :: 'a word))) = bs"
  proof -
    have high: "\<not> bit (le_word bs :: 'a word) i" if "8 * m \<le> i" for i
      using that n(2)
    proof (induction bs arbitrary: m i)
      case Nil
      then show ?case by simp
    next
      case (Cons c cs)
      then obtain k where k: "m = Suc k" "length cs = k" by auto
      then have "\<not> bit (le_word cs :: 'a word) (i - 8)" using Cons by force
      then show ?case using Cons.prems(1) k by (auto simp: bit_simps dest: bit_imp_le_length)
    qed
    have "drop_bit 8 (ucast b OR push_bit 8 (le_word bs :: 'a word)) = (le_word bs :: 'a word)"
    proof (rule bit_word_eqI)
      fix i assume "i < LENGTH('a)"
      have "\<not> bit (ucast b :: 'a word) (8 + i)" by (auto simp: bit_simps dest: bit_imp_le_length)
      moreover have "bit (le_word bs :: 'a word) i \<Longrightarrow> 8 + i < LENGTH('a)"
        using high [of i] w by (cases "8 * m \<le> i") auto
      ultimately show "bit (drop_bit 8 (ucast b OR push_bit 8 (le_word bs :: 'a word))) i
          = bit (le_word bs :: 'a word) i"
        by (auto simp: bit_simps ac_simps)
    qed
    then show ?thesis using Cons.IH [of m] n w by simp
  qed
  ultimately show ?case using n by simp
qed

lemma unat_of_nat_small: "x < 2 ^ LENGTH('a) \<Longrightarrow> unat (of_nat x :: 'a::len word) = x"
  by (simp add: unat_of_nat)

lemma sint_eq_unat_small:
  fixes x :: "'a::len word"
  assumes "unat x < 2 ^ (LENGTH('a) - Suc 0)"
  shows "sint x = int (unat x)"
proof -
  have "int (unat x) < 2 ^ (LENGTH('a) - Suc 0)"
    using assms by (metis of_nat_less_iff of_nat_numeral of_nat_power)
  then have "uint x < 2 ^ (LENGTH('a) - Suc 0)" by simp
  moreover have "- (2 ^ (LENGTH('a) - Suc 0)) \<le> uint x"
    by (rule order_trans [of _ 0]) simp_all
  ultimately show ?thesis by (simp add: sint_uint signed_take_bit_int_eq_self)
qed

section \<open>Copying into an array\<close>

text \<open>\<open>memcpy(xs + off, bs, n)\<close> for an \<open>off\<close> and \<open>n\<close> inside the array.\<close>

definition blit :: "nat \<Rightarrow> 'a list \<Rightarrow> 'a list \<Rightarrow> 'a list" where
  "blit off bs xs = take off xs @ bs @ drop (off + length bs) xs"

lemma length_blit [simp]:
  "off + length bs \<le> length xs \<Longrightarrow> length (blit off bs xs) = length xs"
  by (simp add: blit_def)

lemma blit_append:
  "off = length ys \<Longrightarrow> blit off bs (ys @ zs) = ys @ bs @ drop (length bs) zs"
  by (simp add: blit_def)

lemma take_blit:
  "off + length bs \<le> length xs \<Longrightarrow> take (off + length bs) (blit off bs xs) = take off xs @ bs"
  by (simp add: blit_def)

lemma blit_nth:
  "off + length bs \<le> length xs \<Longrightarrow> i < length xs \<Longrightarrow>
    blit off bs xs ! i = (if off \<le> i \<and> i < off + length bs then bs ! (i - off) else xs ! i)"
  by (auto simp: blit_def nth_append)

section \<open>Sequences of updates\<close>

text \<open>\<open>chain [f, g, h]\<close> is the statement sequence \<open>f; g; h\<close> on the state it is applied to. Reads that
  return a value are sequenced with \<open>scomp\<close> of the library.\<close>

primrec chain :: "('s \<Rightarrow> 's) list \<Rightarrow> 's \<Rightarrow> 's" where
  "chain [] s = s"
| "chain (f # fs) s = chain fs (f s)"

lemma chain_append: "chain (fs @ gs) s = chain gs (chain fs s)"
  by (induction fs arbitrary: s) auto

declare scomp_apply [simp del]

end
