(* ===== verification/CRosePacket.thy ===== *)
theory CRosePacket
  imports Prelude
begin

text \<open>
  The packet buffer of \<open>rosecommon/include/crosepacket.h\<close>. A packet owns an array of
  \<open>MAX_PACKET_SIZE\<close> bytes that the constructors do not initialise (the argument \<open>g\<close> of the
  constructors below is what the memory held), a cursor, and the three header fields. A data member
  \<open>foo_\<close> of a class is the record field \<open>m_foo\<close> throughout. The cursor
  \<open>m_current\<close> is an offset into \<open>m_buffer\<close>. The stream operators are state-passing functions:
  an \<open>operator<<\<close> of a \<open>T\<close> writes the little-endian image of the value, an \<open>operator>>\<close>
  returns the value and the packet with the cursor moved.
\<close>

section \<open>State\<close>

definition MAX_PACKET_SIZE :: nat where
  "MAX_PACKET_SIZE = 0x7FF"

record CRosePacket =
  m_buffer :: "byte list"
  m_current :: nat
  m_size :: u16
  m_type :: u16
  m_CRC :: u16

datatype packet_error =
    WrongPacket u16
  | MemcpyOutOfBounds nat

section \<open>Reading and writing at the cursor\<close>

text \<open>\<open>readNext<T>\<close>: past the end the value is \<open>T()\<close>, all of whose bytes are zero, and the
  cursor stays.\<close>

definition readNext :: "nat \<Rightarrow> CRosePacket \<Rightarrow> byte list \<times> CRosePacket" where
  "readNext n p =
    (if m_current p + n \<ge> MAX_PACKET_SIZE then (replicate n 0, p)
     else (take n (drop (m_current p) (m_buffer p)), p\<lparr>m_current := m_current p + n\<rparr>))"

text \<open>\<open>writeNext<T>\<close>: past the end nothing is written; otherwise the payload goes to the cursor
  and the running size is stored again in the first two bytes.\<close>

definition writeNext :: "byte list \<Rightarrow> CRosePacket \<Rightarrow> CRosePacket" where
  "writeNext payload p =
    (if m_current p + length payload \<ge> MAX_PACKET_SIZE then p
     else let sz = m_size p + of_nat (length payload) in
       p\<lparr>m_current := m_current p + length payload,
         m_size := sz,
         m_buffer := blit 0 (le_bytes 2 sz) (blit (m_current p) payload (m_buffer p))\<rparr>)"

definition put_u8 :: "u8 \<Rightarrow> CRosePacket \<Rightarrow> CRosePacket" where
  "put_u8 x = writeNext (le_bytes 1 x)"

definition put_u16 :: "u16 \<Rightarrow> CRosePacket \<Rightarrow> CRosePacket" where
  "put_u16 x = writeNext (le_bytes 2 x)"

definition put_u32 :: "u32 \<Rightarrow> CRosePacket \<Rightarrow> CRosePacket" where
  "put_u32 x = writeNext (le_bytes 4 x)"

definition put_u64 :: "u64 \<Rightarrow> CRosePacket \<Rightarrow> CRosePacket" where
  "put_u64 x = writeNext (le_bytes 8 x)"

definition get_u8 :: "CRosePacket \<Rightarrow> u8 \<times> CRosePacket" where
  "get_u8 p = (let (bs, q) = readNext 1 p in (le_word bs, q))"

definition get_u16 :: "CRosePacket \<Rightarrow> u16 \<times> CRosePacket" where
  "get_u16 p = (let (bs, q) = readNext 2 p in (le_word bs, q))"

definition get_u32 :: "CRosePacket \<Rightarrow> u32 \<times> CRosePacket" where
  "get_u32 p = (let (bs, q) = readNext 4 p in (le_word bs, q))"

definition get_u64 :: "CRosePacket \<Rightarrow> u64 \<times> CRosePacket" where
  "get_u64 p = (let (bs, q) = readNext 8 p in (le_word bs, q))"

text \<open>The container overloads: element by element, no length prefix.\<close>

definition put_list :: "('a \<Rightarrow> CRosePacket \<Rightarrow> CRosePacket) \<Rightarrow> 'a list \<Rightarrow> CRosePacket \<Rightarrow> CRosePacket" where
  "put_list put xs = fold put xs"

fun get_list :: "(CRosePacket \<Rightarrow> 'a \<times> CRosePacket) \<Rightarrow> nat \<Rightarrow> CRosePacket \<Rightarrow> 'a list \<times> CRosePacket" where
  "get_list get 0 = Pair []"
| "get_list get (Suc n) = scomp get (\<lambda>x. scomp (get_list get n) (\<lambda>xs. Pair (x # xs)))"

text \<open>\<open>operator<<(std::string)\<close> writes the characters and a terminating NUL;
  \<open>operator<<(const char *)\<close> stops at the first NUL and writes none;
  \<open>operator>>(char[n])\<close> reads exactly \<open>n\<close> characters.\<close>

definition put_string :: "cstring \<Rightarrow> CRosePacket \<Rightarrow> CRosePacket" where
  "put_string s = chain [put_list put_u8 s, put_u8 0]"

fun put_c_str :: "cstring \<Rightarrow> CRosePacket \<Rightarrow> CRosePacket" where
  "put_c_str [] p = p"
| "put_c_str (c # cs) p = (if c = 0 then p else put_c_str cs (put_u8 c p))"

definition get_chars :: "nat \<Rightarrow> CRosePacket \<Rightarrow> cstring \<times> CRosePacket" where
  "get_chars n = get_list get_u8 n"

text \<open>\<open>operator>>(std::string)\<close> loops until it reads a NUL. Every iteration that does not stop
  moves the cursor by one, and at the end of the buffer \<open>readNext\<close> yields NUL, so the loop ends.\<close>

lemma readNext_1_cases:
  "readNext (Suc 0) p = (bs, q) \<Longrightarrow>
    q = p \<and> bs = [0] \<or> m_current q = Suc (m_current p) \<and> m_current p < MAX_PACKET_SIZE"
  by (auto simp: readNext_def split: if_splits)

function get_string_loop :: "cstring \<Rightarrow> CRosePacket \<Rightarrow> cstring \<times> CRosePacket" where
  "get_string_loop acc p =
    (let (next, q) = get_u8 p in
     if next = 0 then (acc, q) else get_string_loop (acc @ [next]) q)"
  by pat_completeness auto
termination
  by (relation "measure (\<lambda>(acc, p). MAX_PACKET_SIZE - m_current p)")
     (auto simp: get_u8_def split: prod.splits dest!: readNext_1_cases)

declare get_string_loop.simps [simp del]

definition get_string :: "CRosePacket \<Rightarrow> cstring \<times> CRosePacket" where
  "get_string = get_string_loop []"

section \<open>Constructors and accessors\<close>

definition CRosePacket_new :: "u16 \<Rightarrow> u16 \<Rightarrow> byte list \<Rightarrow> CRosePacket" where
  "CRosePacket_new type CRC g =
    chain [put_u16 0, put_u16 type, put_u16 CRC]
      \<lparr>m_buffer = g, m_current = 0, m_size = 0, m_type = type, m_CRC = CRC\<rparr>"

text \<open>The static helpers read a header field of a raw buffer.\<close>

definition packet_size :: "byte list \<Rightarrow> u16" where
  "packet_size buffer = le_word (take 2 buffer)"

definition packet_type :: "byte list \<Rightarrow> u16" where
  "packet_type buffer = le_word (take 2 (drop 2 buffer))"

definition packet_CRC :: "byte list \<Rightarrow> u8" where
  "packet_CRC buffer = le_word (take 1 (drop 4 buffer))"

text \<open>The receiving constructor copies as many bytes as the size field says; a size beyond the
  source or beyond \<open>m_buffer\<close> is an out-of-bounds copy.\<close>

definition CRosePacket_recv :: "byte list \<Rightarrow> byte list \<Rightarrow> packet_error + CRosePacket" where
  "CRosePacket_recv g buffer =
    (let n = unat (packet_size buffer) in
     if n > length buffer \<or> n > MAX_PACKET_SIZE then Inl (MemcpyOutOfBounds n)
     else
       let p0 = \<lparr>m_buffer = blit 0 (take n buffer) g, m_current = 0, m_size = 0, m_type = 0, m_CRC = 0\<rparr>;
           (sz, p1) = get_u16 p0; (ty, p2) = get_u16 p1; (crc, p3) = get_u16 p2
       in Inr (p3\<lparr>m_size := sz, m_type := ty, m_CRC := crc\<rparr>))"

definition resetCurrent :: "CRosePacket \<Rightarrow> CRosePacket" where
  "resetCurrent p = p\<lparr>m_current := 0\<rparr>"

text \<open>\<open>getPacked\<close> runs the virtual \<open>pack\<close> of the class and copies \<open>m_size\<close> bytes out; the
  packet keeps what \<open>pack\<close> wrote.\<close>

definition getPacked :: "(CRosePacket \<Rightarrow> CRosePacket) \<Rightarrow> CRosePacket \<Rightarrow> byte list \<times> CRosePacket" where
  "getPacked pack p = (let q = pack p in (take (unat (m_size q)) (m_buffer q), q))"

text \<open>The receiving constructor of a packet class: the base constructor, the \<open>throw_assert\<close> on the
  type, then the class's own reads.\<close>

definition recv_packet :: "u16 \<Rightarrow> (CRosePacket \<Rightarrow> 'a \<times> CRosePacket) \<Rightarrow> byte list \<Rightarrow> byte list
    \<Rightarrow> packet_error + 'a" where
  "recv_packet ty read g buffer =
    (case CRosePacket_recv g buffer of
       Inl e \<Rightarrow> Inl e
     | Inr p \<Rightarrow> if m_type p \<noteq> ty then Inl (WrongPacket (m_type p)) else Inr (fst (read p)))"

section \<open>What an operation appends\<close>

text \<open>\<open>pkt_of ty crc bs g\<close> is the packet whose body is \<open>bs\<close> over memory that held \<open>g\<close>.\<close>

definition header_bytes :: "nat \<Rightarrow> u16 \<Rightarrow> u16 \<Rightarrow> byte list" where
  "header_bytes n ty crc = le_bytes 2 (of_nat (6 + n) :: u16) @ le_bytes 2 ty @ le_bytes 2 crc"

definition pkt_of :: "u16 \<Rightarrow> u16 \<Rightarrow> byte list \<Rightarrow> byte list \<Rightarrow> CRosePacket" where
  "pkt_of ty crc bs g =
    \<lparr>m_buffer = header_bytes (length bs) ty crc @ bs @ drop (6 + length bs) g,
     m_current = 6 + length bs, m_size = of_nat (6 + length bs), m_type = ty, m_CRC = crc\<rparr>"

definition emits :: "(CRosePacket \<Rightarrow> CRosePacket) \<Rightarrow> byte list \<Rightarrow> bool" where
  "emits f bs \<longleftrightarrow> (\<forall>ty crc body g. length g = MAX_PACKET_SIZE \<longrightarrow>
     6 + length body + length bs < MAX_PACKET_SIZE \<longrightarrow>
     f (pkt_of ty crc body g) = pkt_of ty crc (body @ bs) g)"

definition parses :: "(CRosePacket \<Rightarrow> 'a \<times> CRosePacket) \<Rightarrow> 'a \<Rightarrow> byte list \<Rightarrow> bool" where
  "parses f a bs \<longleftrightarrow> (\<forall>p. length (m_buffer p) = MAX_PACKET_SIZE \<longrightarrow>
     m_current p + length bs < MAX_PACKET_SIZE \<longrightarrow>
     take (length bs) (drop (m_current p) (m_buffer p)) = bs \<longrightarrow>
     f p = (a, p\<lparr>m_current := m_current p + length bs\<rparr>))"

lemma length_header_bytes [simp]: "length (header_bytes n ty crc) = 6"
  by (simp add: header_bytes_def)

lemma length_buffer_pkt_of [simp]:
  "length g = MAX_PACKET_SIZE \<Longrightarrow> 6 + length bs \<le> MAX_PACKET_SIZE \<Longrightarrow>
    length (m_buffer (pkt_of ty crc bs g)) = MAX_PACKET_SIZE"
  by (simp add: pkt_of_def)

lemma blit_header:
  "blit 0 (le_bytes 2 sz) (header_bytes n ty crc @ xs)
     = le_bytes 2 sz @ le_bytes 2 ty @ le_bytes 2 crc @ xs"
  by (simp add: header_bytes_def blit_def)

lemma emits_writeNext: "emits (writeNext bs) bs"
proof -
  have "writeNext bs (pkt_of ty crc body g) = pkt_of ty crc (body @ bs) g"
    if "6 + length body + length bs < MAX_PACKET_SIZE" for ty crc body g
  proof -
    have "blit (6 + length body) bs (header_bytes (length body) ty crc @ body @ drop (6 + length body) g)
        = header_bytes (length body) ty crc @ body @ bs @ drop (6 + length body + length bs) g"
      by (subst append_assoc [symmetric], subst blit_append)
         (simp_all add: ac_simps)
    then show ?thesis
      using that
      by (simp add: writeNext_def pkt_of_def blit_header Let_def ac_simps)
         (simp add: header_bytes_def ac_simps)
  qed
  then show ?thesis by (simp add: emits_def)
qed

lemma emits_nil: "emits (\<lambda>p. p) []"
  by (simp add: emits_def)

lemma emits_chain_nil: "emits (chain []) []"
  by (simp add: emits_def)

lemma emits_chain_one: "emits f xs \<Longrightarrow> emits (chain [f]) xs"
  by (simp add: emits_def)

lemma emits_chain:
  "emits f xs \<Longrightarrow> emits (chain (g # gs)) ys \<Longrightarrow> emits (chain (f # g # gs)) (xs @ ys)"
  by (simp add: emits_def)

lemmas emits_chains = emits_chain_nil emits_chain_one emits_chain

lemma emits_put_u8: "emits (put_u8 x) [x]"
  using emits_writeNext [of "le_bytes 1 x"] by (simp add: put_u8_def)

lemma emits_put_u16: "emits (put_u16 x) (le_bytes 2 x)"
  unfolding put_u16_def by (rule emits_writeNext)

lemma emits_put_u32: "emits (put_u32 x) (le_bytes 4 x)"
  unfolding put_u32_def by (rule emits_writeNext)

lemma emits_put_u64: "emits (put_u64 x) (le_bytes 8 x)"
  unfolding put_u64_def by (rule emits_writeNext)

lemma emits_put_list:
  assumes "\<And>x. x \<in> set xs \<Longrightarrow> emits (put x) (enc x)"
  shows "emits (put_list put xs) (concat (map enc xs))"
  using assms
proof (induction xs)
  case Nil
  then show ?case using emits_nil by (simp add: put_list_def id_def)
next
  case (Cons x xs)
  have "put_list put (x # xs) = chain [put x, put_list put xs]"
    by (simp add: put_list_def fun_eq_iff)
  moreover have "emits (chain [put x, put_list put xs]) (enc x @ concat (map enc xs))"
    using Cons by (intro emits_chains) auto
  ultimately show ?case by (simp only: list.map concat.simps)
qed

lemma emits_put_chars: "emits (put_list put_u8 s) s"
  using emits_put_list [of s put_u8 "\<lambda>c. [c]"] by (simp add: emits_put_u8)

lemma emits_put_string: "emits (put_string s) (s @ [0])"
  unfolding put_string_def by (intro emits_chains emits_put_chars emits_put_u8)

lemma emits_put_c_str: "emits (put_c_str s) (takeWhile (\<lambda>c. c \<noteq> 0) s)"
proof (induction s)
  case Nil
  have "put_c_str [] = (\<lambda>p. p)" by (simp add: fun_eq_iff)
  then show ?case by (simp add: emits_nil)
next
  case (Cons c cs)
  have "put_c_str (c # cs) = (if c = 0 then (\<lambda>p. p) else chain [put_u8 c, put_c_str cs])"
    by (simp add: fun_eq_iff)
  then show ?case
    using emits_chain [OF emits_put_u8 [of c] emits_chain_one [OF Cons]] emits_nil
    by (cases "c = 0") (simp_all del: put_c_str.simps chain.simps)
qed

section \<open>What an operation reads\<close>

lemma parses_readNext: "length bs = n \<Longrightarrow> parses (readNext n) bs bs"
  by (simp add: parses_def readNext_def)

lemma parses_Pair: "parses (Pair a) a []"
  by (simp add: parses_def)

lemma parses_scomp:
  assumes "parses f a xs" and "parses (h a) b ys"
  shows "parses (scomp f h) b (xs @ ys)"
proof -
  have "(scomp f h) p = (b, p\<lparr>m_current := m_current p + length (xs @ ys)\<rparr>)"
    if p: "length (m_buffer p) = MAX_PACKET_SIZE" "m_current p + length (xs @ ys) < MAX_PACKET_SIZE"
      "take (length (xs @ ys)) (drop (m_current p) (m_buffer p)) = xs @ ys" for p
  proof -
    have xs: "take (length xs) (drop (m_current p) (m_buffer p)) = xs"
      using arg_cong [OF p(3), of "take (length xs)"] by (simp add: min_def)
    have "take (length ys) (drop (length xs) (drop (m_current p) (m_buffer p))) = ys"
      using arg_cong [OF p(3), of "drop (length xs)"] by (simp add: drop_take)
    then have ys: "take (length ys) (drop (m_current p + length xs) (m_buffer p)) = ys"
      by (simp add: ac_simps)
    have "f p = (a, p\<lparr>m_current := m_current p + length xs\<rparr>)"
      using assms(1) p(1,2) xs by (simp add: parses_def)
    moreover have "h a (p\<lparr>m_current := m_current p + length xs\<rparr>)
        = (b, p\<lparr>m_current := m_current p + length (xs @ ys)\<rparr>)"
      using assms(2) p(1,2) ys by (simp add: parses_def ac_simps)
    ultimately show ?thesis by (simp add: scomp_apply)
  qed
  then show ?thesis by (simp add: parses_def)
qed

lemma parses_map:
  "parses f a bs \<Longrightarrow> parses (\<lambda>p. let (x, q) = f p in (k x, q)) (k a) bs"
  by (simp add: parses_def)

lemma parses_get_u8: "parses get_u8 x [x]"
  using parses_map [OF parses_readNext, of "[x]" 1 "le_word :: byte list \<Rightarrow> u8"]
  by (simp add: get_u8_def [abs_def])

lemma parses_get_u16: "parses get_u16 x (le_bytes 2 x)"
  using parses_map [OF parses_readNext, of "le_bytes 2 x" 2 "le_word :: byte list \<Rightarrow> u16"]
  by (simp add: get_u16_def [abs_def])

lemma parses_get_u32: "parses get_u32 x (le_bytes 4 x)"
  using parses_map [OF parses_readNext, of "le_bytes 4 x" 4 "le_word :: byte list \<Rightarrow> u32"]
  by (simp add: get_u32_def [abs_def])

lemma parses_get_u64: "parses get_u64 x (le_bytes 8 x)"
  using parses_map [OF parses_readNext, of "le_bytes 8 x" 8 "le_word :: byte list \<Rightarrow> u64"]
  by (simp add: get_u64_def [abs_def])


lemma parses_get_list:
  assumes "\<And>x. x \<in> set xs \<Longrightarrow> parses get x (enc x)" and "length xs = n"
  shows "parses (get_list get n) xs (concat (map enc xs))"
  using assms
proof (induction xs arbitrary: n)
  case Nil
  then show ?case by (simp add: parses_Pair)
next
  case (Cons x xs)
  then obtain m where n: "n = Suc m" and m: "length xs = m" by auto
  have "parses (scomp (get_list get m) (\<lambda>ys. Pair (x # ys))) (x # xs) (concat (map enc xs) @ [])"
    using Cons m by (intro parses_scomp [where a = xs] parses_Pair) auto
  then have "parses (scomp get (\<lambda>y. scomp (get_list get m) (\<lambda>ys. Pair (y # ys)))) (x # xs)
      (enc x @ concat (map enc xs))"
    using Cons.prems(1) by (intro parses_scomp [where a = x]) auto
  with n show ?case by simp
qed

lemma parses_get_chars: "length s = n \<Longrightarrow> parses (get_chars n) s s"
  using parses_get_list [of s get_u8 "\<lambda>c. [c]" n] by (simp add: get_chars_def parses_get_u8)

lemma get_string_loop_scomp:
  "get_string_loop acc = scomp get_u8 (\<lambda>c. if c = 0 then Pair acc else get_string_loop (acc @ [c]))"
  by (rule ext, subst get_string_loop.simps) (simp add: scomp_def Let_def split: prod.split)

lemma parses_get_string_loop:
  "0 \<notin> set s \<Longrightarrow> parses (get_string_loop acc) (acc @ s) (s @ [0])"
proof (induction s arbitrary: acc)
  case Nil
  show ?case
    using parses_scomp [OF parses_get_u8 [of 0], of "\<lambda>c. if c = 0 then Pair acc
        else get_string_loop (acc @ [c])" acc "[]"]
    by (simp add: get_string_loop_scomp [of acc] parses_Pair)
next
  case (Cons c cs)
  then have "c \<noteq> 0" and "parses (get_string_loop (acc @ [c])) (acc @ c # cs) (cs @ [0])"
    using Cons.IH [of "acc @ [c]"] by auto
  then show ?case
    using parses_scomp [OF parses_get_u8 [of c], of "\<lambda>c. if c = 0 then Pair acc
        else get_string_loop (acc @ [c])" "acc @ c # cs" "cs @ [0]"]
    by (simp add: get_string_loop_scomp [of acc])
qed

lemma parses_get_string: "0 \<notin> set s \<Longrightarrow> parses get_string s (s @ [0])"
  using parses_get_string_loop [of s "[]"] by (simp add: get_string_def)

lemma parses_get_chars_c_str:
  "length s = n \<Longrightarrow> 0 \<notin> set s \<Longrightarrow> parses (get_chars n) s (takeWhile (\<lambda>c. c \<noteq> 0) s)"
proof -
  assume "length s = n" and "0 \<notin> set s"
  moreover from this have "takeWhile (\<lambda>c. c \<noteq> 0) s = s" by (auto simp: takeWhile_eq_all_conv)
  ultimately show ?thesis by (simp only: parses_get_chars)
qed

text \<open>The last member of a class, and a class with no member.\<close>

lemma parses_last:
  "parses f a xs \<Longrightarrow> k a = b \<Longrightarrow> parses (scomp f (\<lambda>x. Pair (k x))) b xs"
  using parses_scomp [of f a xs "\<lambda>x. Pair (k x)" "k a" "[]"] parses_Pair by force

lemma parses_Pair_eq: "a = b \<Longrightarrow> parses (Pair a) b []"
  by (simp add: parses_Pair)

lemmas parses_rules =
  parses_last parses_scomp parses_Pair_eq parses_get_u8 parses_get_u16 parses_get_u32 parses_get_u64
  parses_get_string parses_get_chars_c_str

lemmas emits_rules =
  emits_chains emits_put_u8 emits_put_u16 emits_put_u32 emits_put_u64 emits_put_string emits_put_c_str
  emits_nil

section \<open>Constructors, in terms of the body\<close>

lemma CRosePacket_new_eq:
  assumes g: "length g = MAX_PACKET_SIZE"
  shows "CRosePacket_new ty crc g = pkt_of ty crc [] g"
proof -
  let ?h = "le_bytes 2 (6 :: u16) @ le_bytes 2 ty @ le_bytes 2 crc"
  have w1: "writeNext (le_bytes 2 (0 :: u16)) \<lparr>m_buffer = g, m_current = 0, m_size = 0, m_type = ty, m_CRC = crc\<rparr>
      = \<lparr>m_buffer = le_bytes 2 (2 :: u16) @ drop 2 g, m_current = 2, m_size = 2, m_type = ty, m_CRC = crc\<rparr>"
    by (simp add: writeNext_def Let_def blit_def MAX_PACKET_SIZE_def numeral_2_eq_2)
  have w2: "writeNext (le_bytes 2 ty) \<lparr>m_buffer = le_bytes 2 (2 :: u16) @ drop 2 g, m_current = 2, m_size = 2, m_type = ty, m_CRC = crc\<rparr>
      = \<lparr>m_buffer = le_bytes 2 (4 :: u16) @ le_bytes 2 ty @ drop 4 g, m_current = 4, m_size = 4, m_type = ty, m_CRC = crc\<rparr>"
    by (simp add: writeNext_def Let_def blit_def MAX_PACKET_SIZE_def)
  have w3: "writeNext (le_bytes 2 crc) \<lparr>m_buffer = le_bytes 2 (4 :: u16) @ le_bytes 2 ty @ drop 4 g, m_current = 4, m_size = 4, m_type = ty, m_CRC = crc\<rparr>
      = \<lparr>m_buffer = ?h @ drop 6 g, m_current = 6, m_size = 6, m_type = ty, m_CRC = crc\<rparr>"
    by (simp add: writeNext_def Let_def blit_def MAX_PACKET_SIZE_def)
  show ?thesis
    by (simp only: CRosePacket_new_def put_u16_def chain.simps w1 w2 w3)
       (simp add: pkt_of_def header_bytes_def)
qed

lemma getPacked_pkt_of:
  assumes "emits pack bs" and "length g = MAX_PACKET_SIZE"
    and "6 + length body + length bs < MAX_PACKET_SIZE"
  shows "getPacked pack (pkt_of ty crc body g)
    = (header_bytes (length (body @ bs)) ty crc @ body @ bs, pkt_of ty crc (body @ bs) g)"
proof -
  have "unat (of_nat (6 + length body + length bs) :: u16) = 6 + length body + length bs"
    using assms(3) by (intro unat_of_nat_small) (simp add: MAX_PACKET_SIZE_def)
  moreover have "pack (pkt_of ty crc body g) = pkt_of ty crc (body @ bs) g"
    using assms by (simp add: emits_def)
  ultimately show ?thesis
    by (simp add: getPacked_def Let_def) (simp add: pkt_of_def ac_simps)
qed

lemma packet_size_header:
  "6 + n < 2 ^ 16 \<Longrightarrow> unat (packet_size (header_bytes n ty crc @ bs)) = 6 + n"
proof -
  assume "6 + n < 2 ^ 16"
  then have "unat (of_nat (6 + n) :: u16) = 6 + n" by (intro unat_of_nat_small) simp
  then show ?thesis by (simp add: packet_size_def header_bytes_def)
qed

lemma packet_type_header [simp]: "packet_type (header_bytes n ty crc @ bs) = ty"
  by (simp add: packet_type_def header_bytes_def)

lemma CRosePacket_recv_eq:
  assumes n: "6 + length bs \<le> MAX_PACKET_SIZE" and g: "length g = MAX_PACKET_SIZE"
  shows "CRosePacket_recv g (header_bytes (length bs) ty crc @ bs)
    = Inr \<lparr>m_buffer = header_bytes (length bs) ty crc @ bs @ drop (6 + length bs) g,
           m_current = 6, m_size = of_nat (6 + length bs), m_type = ty, m_CRC = crc\<rparr>"
proof -
  let ?W = "header_bytes (length bs) ty crc @ bs"
  let ?B = "?W @ drop (6 + length bs) g"
  have len: "unat (packet_size ?W) = 6 + length bs"
    using n by (intro packet_size_header) (simp add: MAX_PACKET_SIZE_def)
  have B: "length ?B = MAX_PACKET_SIZE" using n g by simp
  have eqB: "?B = le_bytes 2 (of_nat (6 + length bs) :: u16) @ le_bytes 2 ty @ le_bytes 2 crc
      @ bs @ drop (6 + length bs) g"
    by (simp add: header_bytes_def)
  have rd: "get_u16 \<lparr>m_buffer = ?B, m_current = k, m_size = sz, m_type = t, m_CRC = c\<rparr>
      = (x, \<lparr>m_buffer = ?B, m_current = k + 2, m_size = sz, m_type = t, m_CRC = c\<rparr>)"
    if "k + 2 < MAX_PACKET_SIZE" "take 2 (drop k ?B) = le_bytes 2 x" for k x sz t c
    using parses_get_u16 [of x] that B by (simp add: parses_def)
  have "take 2 (drop 0 ?B) = le_bytes 2 (of_nat (6 + length bs) :: u16)"
    "take 2 (drop (0 + 2) ?B) = le_bytes 2 ty" "take 2 (drop (0 + 2 + 2) ?B) = le_bytes 2 crc"
    unfolding eqB by simp_all
  note rds = rd [OF _ this(1)] rd [OF _ this(2)] rd [OF _ this(3)]
  have "blit 0 (take (6 + length bs) ?W) g = ?B" by (simp add: blit_def)
  moreover have "\<not> (6 + length bs > length ?W \<or> 6 + length bs > MAX_PACKET_SIZE)"
    using n by simp
  ultimately show ?thesis
    by (simp only: CRosePacket_recv_def Let_def len if_False, subst rds(1), simp add: MAX_PACKET_SIZE_def,
        simp only: prod.case, subst rds(2), simp add: MAX_PACKET_SIZE_def,
        simp only: prod.case, subst rds(3), simp add: MAX_PACKET_SIZE_def, simp)
qed

section \<open>The interface of a packet class\<close>

text \<open>
  \<open>emitter\<close> is what a sender relies on: \<open>pack\<close> appends exactly the wire image of the class's
  members. \<open>serial\<close> adds the receiving constructor: it reads back what the image holds.
\<close>

locale emitter =
  fixes pack :: "'a \<Rightarrow> CRosePacket \<Rightarrow> CRosePacket"
    and enc :: "'a \<Rightarrow> byte list"
  assumes emits_pack: "emits (pack d) (enc d)"
begin

lemma sent_bytes:
  "length g = MAX_PACKET_SIZE \<Longrightarrow> 6 + length (enc d) < MAX_PACKET_SIZE \<Longrightarrow>
    fst (getPacked (pack d) (CRosePacket_new ty crc g)) = header_bytes (length (enc d)) ty crc @ enc d"
  using getPacked_pkt_of [OF emits_pack, of g "[]" d ty crc] by (simp add: CRosePacket_new_eq)

text \<open>A second \<open>getPacked\<close> of the same packet appends the body once more.\<close>

lemma sent_twice:
  assumes "length g = MAX_PACKET_SIZE" and "6 + length (enc d) + length (enc d) < MAX_PACKET_SIZE"
  shows "fst (getPacked (pack d) (snd (getPacked (pack d) (CRosePacket_new ty crc g))))
    = header_bytes (length (enc d @ enc d)) ty crc @ enc d @ enc d"
proof -
  have "snd (getPacked (pack d) (CRosePacket_new ty crc g)) = pkt_of ty crc (enc d) g"
    using getPacked_pkt_of [OF emits_pack, of g "[]" d ty crc] assms
    by (simp add: CRosePacket_new_eq)
  then show ?thesis
    using getPacked_pkt_of [OF emits_pack, of g "enc d" d ty crc] assms
    by simp
qed

end

locale serial = emitter pack enc
  for pack :: "'a \<Rightarrow> CRosePacket \<Rightarrow> CRosePacket" and enc :: "'a \<Rightarrow> byte list" +
  fixes read :: "CRosePacket \<Rightarrow> 'a \<times> CRosePacket"
    and ok :: "'a \<Rightarrow> bool"
  assumes parses_read: "ok d \<Longrightarrow> parses read d (enc d)"
begin

lemma recv_sent:
  assumes ok: "ok d" and n: "6 + length (enc d) < MAX_PACKET_SIZE"
    and g: "length g = MAX_PACKET_SIZE" and g': "length g' = MAX_PACKET_SIZE"
  shows "recv_packet ty read g' (fst (getPacked (pack d) (CRosePacket_new ty crc g))) = Inr d"
proof -
  let ?p = "\<lparr>m_buffer = header_bytes (length (enc d)) ty crc @ enc d @ drop (6 + length (enc d)) g',
     m_current = 6, m_size = of_nat (6 + length (enc d)), m_type = ty, m_CRC = crc\<rparr>"
  have "read ?p = (d, ?p\<lparr>m_current := 6 + length (enc d)\<rparr>)"
    using parses_read [OF ok] n g' by (simp add: parses_def)
  then show ?thesis
    using n g g' CRosePacket_recv_eq [of "enc d" g' ty crc]
    by (simp add: recv_packet_def sent_bytes)
qed

lemma recv_other_type:
  assumes n: "6 + length (enc d) < MAX_PACKET_SIZE" and g: "length g = MAX_PACKET_SIZE"
    and g': "length g' = MAX_PACKET_SIZE" and "ty' \<noteq> ty"
  shows "recv_packet ty' read g' (fst (getPacked (pack d) (CRosePacket_new ty crc g)))
    = Inl (WrongPacket ty)"
  using assms CRosePacket_recv_eq [of "enc d" g' ty crc]
  by (simp add: recv_packet_def sent_bytes)

text \<open>The checksum field is not read, so a packet is the same with any.\<close>

lemma recv_wire:
  assumes "ok d" and "6 + length (enc d) < MAX_PACKET_SIZE" and "length g = MAX_PACKET_SIZE"
  shows "recv_packet ty read g (header_bytes (length (enc d)) ty crc @ enc d) = Inr d"
  using recv_sent [OF assms(1,2,3,3)] sent_bytes [OF assms(3,2)] by simp

end

end
