(* ===== verification/EPacketType.thy ===== *)
theory EPacketType
  imports Prelude
begin

text \<open>
  The packet identifiers of \<open>rosecommon/include/epackettype.h\<close>. \<open>ePacketType\<close> is an enumeration
  with underlying type \<open>uint16_t\<close>: a value read from the wire may be any 16 bit number, so the
  enumerators are constants of that type. Several enumerators share a value, as in the source (a
  request and its reply travel under the same number).
\<close>

named_theorems packet_types \<open>the values of the packet identifiers\<close>

definition ISCSTART :: u16 where [packet_types]: "ISCSTART = 0x300"
definition ISC_ALIVE :: u16 where [packet_types]: "ISC_ALIVE = 0x301"
definition ISC_SERVER_AUTH :: u16 where [packet_types]: "ISC_SERVER_AUTH = 0x302"
definition ISC_SERVER_REGISTER :: u16 where [packet_types]: "ISC_SERVER_REGISTER = 0x303"
definition ISC_TRANSFER :: u16 where [packet_types]: "ISC_TRANSFER = 0x304"
definition ISC_SHUTDOWN :: u16 where [packet_types]: "ISC_SHUTDOWN = 0x305"
definition ISCEND :: u16 where [packet_types]: "ISCEND = 0x306"
definition PAKSTART :: u16 where [packet_types]: "PAKSTART = 0x700"
definition PAKCS_ALIVE :: u16 where [packet_types]: "PAKCS_ALIVE = 0x700"
definition PAKSS_ERROR :: u16 where [packet_types]: "PAKSS_ERROR = 0x700"
definition PAKSS_ANNOUNCE_TEXT :: u16 where [packet_types]: "PAKSS_ANNOUNCE_TEXT = 0x701"
definition PAKSW_ANNOUNCE_CHAT :: u16 where [packet_types]: "PAKSW_ANNOUNCE_CHAT = 0x702"
definition PAKCS_ACCEPT_REQ :: u16 where [packet_types]: "PAKCS_ACCEPT_REQ = 0x703"
definition PAKCS_CHANNEL_LIST_REQ :: u16 where [packet_types]: "PAKCS_CHANNEL_LIST_REQ = 0x704"
definition PAKLC_CHANNEL_LIST_REPLY :: u16 where [packet_types]: "PAKLC_CHANNEL_LIST_REPLY = 0x704"
definition PAKCS_LOGOUT_REQ :: u16 where [packet_types]: "PAKCS_LOGOUT_REQ = 0x707"
definition PAKWC_LOGOUT_REPLY :: u16 where [packet_types]: "PAKWC_LOGOUT_REPLY = 0x707"
definition PAKCS_LOGIN_REQ :: u16 where [packet_types]: "PAKCS_LOGIN_REQ = 0x708"
definition PAKLC_LOGIN_REPLY :: u16 where [packet_types]: "PAKLC_LOGIN_REPLY = 0x708"
definition PAKGC_LOGIN_REPLY :: u16 where [packet_types]: "PAKGC_LOGIN_REPLY = 0x709"
definition PAKCS_SRV_SELECT_REQ :: u16 where [packet_types]: "PAKCS_SRV_SELECT_REQ = 0x70A"
definition PAKLC_SRV_SELECT_REPLY :: u16 where [packet_types]: "PAKLC_SRV_SELECT_REPLY = 0x70A"
definition PAKCS_JOIN_SERVER_REQ :: u16 where [packet_types]: "PAKCS_JOIN_SERVER_REQ = 0x70B"
definition PAKSC_JOIN_SERVER_REPLY :: u16 where [packet_types]: "PAKSC_JOIN_SERVER_REPLY = 0x70C"
definition PAKWC_GM_COMMAND :: u16 where [packet_types]: "PAKWC_GM_COMMAND = 0x70D"
definition PAKWC_GLOBAL_VARS :: u16 where [packet_types]: "PAKWC_GLOBAL_VARS = 0x70E"
definition PAKWC_GLOBAL_FLAGS :: u16 where [packet_types]: "PAKWC_GLOBAL_FLAGS = 0x70F"
definition PAKCC_SWITCH_SERVER :: u16 where [packet_types]: "PAKCC_SWITCH_SERVER = 0x711"
definition PAKCS_CHAR_LIST_REQ :: u16 where [packet_types]: "PAKCS_CHAR_LIST_REQ = 0x712"
definition PAKCC_CHAR_LIST_REPLY :: u16 where [packet_types]: "PAKCC_CHAR_LIST_REPLY = 0x712"
definition PAKCS_CREATE_CHAR_REQ :: u16 where [packet_types]: "PAKCS_CREATE_CHAR_REQ = 0x713"
definition PAKCC_CREATE_CHAR_REPLY :: u16 where [packet_types]: "PAKCC_CREATE_CHAR_REPLY = 0x713"
definition PAKCS_DELETE_CHAR_REQ :: u16 where [packet_types]: "PAKCS_DELETE_CHAR_REQ = 0x714"
definition PAKCC_DELETE_CHAR_REPLY :: u16 where [packet_types]: "PAKCC_DELETE_CHAR_REPLY = 0x714"
definition PAKCS_SELECT_CHAR_REQ :: u16 where [packet_types]: "PAKCS_SELECT_CHAR_REQ = 0x715"
definition PAKWC_SELECT_CHAR_REPLY :: u16 where [packet_types]: "PAKWC_SELECT_CHAR_REPLY = 0x715"
definition PAKWC_INVENTORY_DATA :: u16 where [packet_types]: "PAKWC_INVENTORY_DATA = 0x716"
definition PAKWC_SETMONEY :: u16 where [packet_types]: "PAKWC_SETMONEY = 0x717"
definition PAKWC_SET_ITEM :: u16 where [packet_types]: "PAKWC_SET_ITEM = 0x718"
definition PAKWC_SERVER_DATA :: u16 where [packet_types]: "PAKWC_SERVER_DATA = 0x719"
definition PAKWC_QUEST_DATA :: u16 where [packet_types]: "PAKWC_QUEST_DATA = 0x71B"
definition PAKCS_CHANGE_CHAR_REQ :: u16 where [packet_types]: "PAKCS_CHANGE_CHAR_REQ = 0x71C"
definition PAKCC_CHAN_CHAR_REPLY :: u16 where [packet_types]: "PAKCC_CHAN_CHAR_REPLY = 0x71C"
definition PAKWC_SET_MONEY :: u16 where [packet_types]: "PAKWC_SET_MONEY = 0x71D"
definition PAKWC_QUEST_REWARD_MONEY :: u16 where [packet_types]: "PAKWC_QUEST_REWARD_MONEY = 0x71E"
definition PAKWC_QUEST_REWARD_ITEM :: u16 where [packet_types]: "PAKWC_QUEST_REWARD_ITEM = 0x71F"
definition PAKWC_QUEST_REWARD_ADD_STAT :: u16 where [packet_types]: "PAKWC_QUEST_REWARD_ADD_STAT = 0x720"
definition PAKWC_QUEST_REWARD_SET_STAT :: u16 where [packet_types]: "PAKWC_QUEST_REWARD_SET_STAT = 0x721"
definition PAKCS_CANCEL_LOGOUT :: u16 where [packet_types]: "PAKCS_CANCEL_LOGOUT = 0x722"
definition PAKWC_QUEST_UPDATE :: u16 where [packet_types]: "PAKWC_QUEST_UPDATE = 0x723"
definition PAKWC_WISH_LIST :: u16 where [packet_types]: "PAKWC_WISH_LIST = 0x724"
definition PAKCS_QUEST_DATA_REQ :: u16 where [packet_types]: "PAKCS_QUEST_DATA_REQ = 0x730"
definition PAKWC_QUEST_DATA_REPLY :: u16 where [packet_types]: "PAKWC_QUEST_DATA_REPLY = 0x730"
definition PAKWC_NPC_EVENT :: u16 where [packet_types]: "PAKWC_NPC_EVENT = 0x731"
definition PAKWC_GM_COMMAND_CODE :: u16 where [packet_types]: "PAKWC_GM_COMMAND_CODE = 0x751"
definition PAKCS_CHANGE_MAP_REQ :: u16 where [packet_types]: "PAKCS_CHANGE_MAP_REQ = 0x753"
definition PAKWC_CHANGE_MAP_REPLY :: u16 where [packet_types]: "PAKWC_CHANGE_MAP_REPLY = 0x753"
definition PAKWC_INIT_DATA :: u16 where [packet_types]: "PAKWC_INIT_DATA = 0x754"
definition PAKCS_REVIVE_REQ :: u16 where [packet_types]: "PAKCS_REVIVE_REQ = 0x755"
definition PAKWC_REVIVE_REPLY :: u16 where [packet_types]: "PAKWC_REVIVE_REPLY = 0x755"
definition PAKWC_SET_REVIVE_POS_REPLY :: u16 where [packet_types]: "PAKWC_SET_REVIVE_POS_REPLY = 0x756"
definition PAKCS_SET_SERVER_VAR_REQ :: u16 where [packet_types]: "PAKCS_SET_SERVER_VAR_REQ = 0x757"
definition PAKWC_SET_SERVER_VAR_REPLY :: u16 where [packet_types]: "PAKWC_SET_SERVER_VAR_REPLY = 0x757"
definition PAKCS_CHAR_INFO_REQ :: u16 where [packet_types]: "PAKCS_CHAR_INFO_REQ = 0x758"
definition PAKWC_CHAR_INFO_REPLY :: u16 where [packet_types]: "PAKWC_CHAR_INFO_REPLY = 0x758"
definition PAKCS_SET_WEIGHT_REQ :: u16 where [packet_types]: "PAKCS_SET_WEIGHT_REQ = 0x759"
definition PAKWC_SET_WEIGHT_REPLY :: u16 where [packet_types]: "PAKWC_SET_WEIGHT_REPLY = 0x759"
definition PAKWC_ADJUST_POSITION :: u16 where [packet_types]: "PAKWC_ADJUST_POSITION = 0x770"
definition PAKCS_STOP_MOVING :: u16 where [packet_types]: "PAKCS_STOP_MOVING = 0x771"
definition PAKWC_STOP_MOVING :: u16 where [packet_types]: "PAKWC_STOP_MOVING = 0x771"
definition PAKCS_UPDATE_NPC :: u16 where [packet_types]: "PAKCS_UPDATE_NPC = 0x774"
definition PAKCS_SUMMON_CMD :: u16 where [packet_types]: "PAKCS_SUMMON_CMD = 0x775"
definition PAKWC_SUMMON_CMD :: u16 where [packet_types]: "PAKWC_SUMMON_CMD = 0x775"
definition PAKCS_SET_ANIMATION :: u16 where [packet_types]: "PAKCS_SET_ANIMATION = 0x781"
definition PACWC_SET_ANIMATION :: u16 where [packet_types]: "PACWC_SET_ANIMATION = 0x781"
definition PAKCS_TOGGLE :: u16 where [packet_types]: "PAKCS_TOGGLE = 0x782"
definition PAKWC_TOGGLE :: u16 where [packet_types]: "PAKWC_TOGGLE = 0x782"
definition PAKCS_NORMAL_CHAT :: u16 where [packet_types]: "PAKCS_NORMAL_CHAT = 0x783"
definition PAKWC_NORMAL_CHAT :: u16 where [packet_types]: "PAKWC_NORMAL_CHAT = 0x783"
definition PAKCS_WHISPER_CHAT :: u16 where [packet_types]: "PAKCS_WHISPER_CHAT = 0x784"
definition PAKWC_WHISPER_CHAT :: u16 where [packet_types]: "PAKWC_WHISPER_CHAT = 0x784"
definition PAKCS_SHOUT_CHAT :: u16 where [packet_types]: "PAKCS_SHOUT_CHAT = 0x785"
definition PAKWC_SHOUT_CHAT :: u16 where [packet_types]: "PAKWC_SHOUT_CHAT = 0x785"
definition PAKCS_PARTY_CHAT :: u16 where [packet_types]: "PAKCS_PARTY_CHAT = 0x786"
definition PAKWC_PARTY_CHAT :: u16 where [packet_types]: "PAKWC_PARTY_CHAT = 0x786"
definition PAKCS_CLAN_CHAT :: u16 where [packet_types]: "PAKCS_CLAN_CHAT = 0x787"
definition PAKWC_CLAN_CHAT :: u16 where [packet_types]: "PAKWC_CLAN_CHAT = 0x787"
definition PAKCS_ALLIED_CHAT :: u16 where [packet_types]: "PAKCS_ALLIED_CHAT = 0x788"
definition PAKWC_ALLIED_CHAT :: u16 where [packet_types]: "PAKWC_ALLIED_CHAT = 0x788"
definition PAKCS_ALLIED_SHOUT_CHAT :: u16 where [packet_types]: "PAKCS_ALLIED_SHOUT_CHAT = 0x789"
definition PAKWC_ALLIED_SHOUT_CHAT :: u16 where [packet_types]: "PAKWC_ALLIED_SHOUT_CHAT = 0x789"
definition PAKWC_EVENT_STATUS :: u16 where [packet_types]: "PAKWC_EVENT_STATUS = 0x790"
definition PAKWC_NPC_CHAR :: u16 where [packet_types]: "PAKWC_NPC_CHAR = 0x791"
definition PAKWC_MOB_CHAR :: u16 where [packet_types]: "PAKWC_MOB_CHAR = 0x792"
definition PAKWC_PLAYER_CHAR :: u16 where [packet_types]: "PAKWC_PLAYER_CHAR = 0x793"
definition PAKWC_REMOVE_OBJECT :: u16 where [packet_types]: "PAKWC_REMOVE_OBJECT = 0x794"
definition PAKCS_SET_POSITION :: u16 where [packet_types]: "PAKCS_SET_POSITION = 0x795"
definition PAKCS_STOP :: u16 where [packet_types]: "PAKCS_STOP = 0x796"
definition PAKWC_STOP :: u16 where [packet_types]: "PAKWC_STOP = 0x796"
definition PAKWC_MOVE :: u16 where [packet_types]: "PAKWC_MOVE = 0x797"
definition PAKCS_MOUSE_CMD :: u16 where [packet_types]: "PAKCS_MOUSE_CMD = 0x79A"
definition PAKWC_MOUSE_CMD :: u16 where [packet_types]: "PAKWC_MOUSE_CMD = 0x79A"
definition PAKCS_USE_ITEM :: u16 where [packet_types]: "PAKCS_USE_ITEM = 0x7A3"
definition PAKWC_USE_ITEM_REPLY :: u16 where [packet_types]: "PAKWC_USE_ITEM_REPLY = 0x7A3"
definition PAKCS_DROP_ITEM :: u16 where [packet_types]: "PAKCS_DROP_ITEM = 0x7A4"
definition PAKCS_EQUIP_ITEM :: u16 where [packet_types]: "PAKCS_EQUIP_ITEM = 0x7A5"
definition PAKWC_EQUIP_ITEM :: u16 where [packet_types]: "PAKWC_EQUIP_ITEM = 0x7A5"
definition PAKWC_DROP_ITEM :: u16 where [packet_types]: "PAKWC_DROP_ITEM = 0x7A6"
definition PAKCS_FIELDITEM_REQ :: u16 where [packet_types]: "PAKCS_FIELDITEM_REQ = 0x7A7"
definition PAKWC_FIELDITEM_REPLY :: u16 where [packet_types]: "PAKWC_FIELDITEM_REPLY = 0x7A7"
definition PAKCS_TELEPORT_REQ :: u16 where [packet_types]: "PAKCS_TELEPORT_REQ = 0x7A8"
definition PAKWC_TELEPORT_REPLY :: u16 where [packet_types]: "PAKWC_TELEPORT_REPLY = 0x7A8"
definition PAKCS_SET_HOTBAR_ICON_REQ :: u16 where [packet_types]: "PAKCS_SET_HOTBAR_ICON_REQ = 0x7AA"
definition PAKWC_SET_HOTBAR_ICON_REPLY :: u16 where [packet_types]: "PAKWC_SET_HOTBAR_ICON_REPLY = 0x7AA"
definition PAKCS_STORAGE_LIST_REQ :: u16 where [packet_types]: "PAKCS_STORAGE_LIST_REQ = 0x7AD"
definition PAKWC_STORAGE_LIST_REPLY :: u16 where [packet_types]: "PAKWC_STORAGE_LIST_REPLY = 0x7AD"
definition PAKCS_MOVE_ITEM_REQ :: u16 where [packet_types]: "PAKCS_MOVE_ITEM_REQ = 0x7AE"
definition PAKWC_MOVE_ITEM_REPLY :: u16 where [packet_types]: "PAKWC_MOVE_ITEM_REPLY = 0x7AE"
definition PAKWC_LEARN_SKILL :: u16 where [packet_types]: "PAKWC_LEARN_SKILL = 0x7B0"
definition PAKCS_LEVEL_SKILL_REQ :: u16 where [packet_types]: "PAKCS_LEVEL_SKILL_REQ = 0x7B1"
definition PAKWC_LEVEL_SKILL_REPLY :: u16 where [packet_types]: "PAKWC_LEVEL_SKILL_REPLY = 0x7B1"
definition PAKCS_PARTY_REQ :: u16 where [packet_types]: "PAKCS_PARTY_REQ = 0x7D0"
definition PAKWC_PARTY_REQ :: u16 where [packet_types]: "PAKWC_PARTY_REQ = 0x7D0"
definition PAKCS_PARTY_REPLY :: u16 where [packet_types]: "PAKCS_PARTY_REPLY = 0x7D1"
definition PAKWC_PARTY_REPLY :: u16 where [packet_types]: "PAKWC_PARTY_REPLY = 0x7D1"
definition PAKWC_PARTY_MEMBER :: u16 where [packet_types]: "PAKWC_PARTY_MEMBER = 0x7D2"
definition PAKWC_PARTY_ITEM :: u16 where [packet_types]: "PAKWC_PARTY_ITEM = 0x7D3"
definition PAKWC_PARTY_LVLXP :: u16 where [packet_types]: "PAKWC_PARTY_LVLXP = 0x7D4"
definition PAKCS_PARTY_RULE :: u16 where [packet_types]: "PAKCS_PARTY_RULE = 0x7D7"
definition PAKWC_PARTY_RULE :: u16 where [packet_types]: "PAKWC_PARTY_RULE = 0x7D7"
definition PAKWC_BILLING_MESSAGE :: u16 where [packet_types]: "PAKWC_BILLING_MESSAGE = 0x7DE"
definition PAKCS_SCREEN_SHOT_TIME_REQ :: u16 where [packet_types]: "PAKCS_SCREEN_SHOT_TIME_REQ = 0x7EB"
definition PAKSC_SCREEN_SHOT_TIME_REPLY :: u16 where [packet_types]: "PAKSC_SCREEN_SHOT_TIME_REPLY = 0x7EB"
definition PAKSS_ACCEPT_REPLY :: u16 where [packet_types]: "PAKSS_ACCEPT_REPLY = 0x7FF"
definition EPACKETMAX :: u16 where [packet_types]: "EPACKETMAX = 0x800"
definition STRESS :: u16 where [packet_types]: "STRESS = 0x6F6D"

text \<open>The identifiers a client, a server and the inter-server channel exchange: the protocol's
  sub-ranges, without the end markers and the stress-test identifier.\<close>

definition protocol_types :: "u16 list" where
  "protocol_types = [ISC_ALIVE, ISC_SERVER_AUTH, ISC_SERVER_REGISTER, ISC_TRANSFER, ISC_SHUTDOWN, PAKCS_ALIVE, 
     PAKSS_ERROR, PAKSS_ANNOUNCE_TEXT, PAKSW_ANNOUNCE_CHAT, PAKCS_ACCEPT_REQ, 
     PAKCS_CHANNEL_LIST_REQ, PAKLC_CHANNEL_LIST_REPLY, PAKCS_LOGOUT_REQ, PAKWC_LOGOUT_REPLY, 
     PAKCS_LOGIN_REQ, PAKLC_LOGIN_REPLY, PAKGC_LOGIN_REPLY, PAKCS_SRV_SELECT_REQ, 
     PAKLC_SRV_SELECT_REPLY, PAKCS_JOIN_SERVER_REQ, PAKSC_JOIN_SERVER_REPLY, PAKWC_GM_COMMAND, 
     PAKWC_GLOBAL_VARS, PAKWC_GLOBAL_FLAGS, PAKCC_SWITCH_SERVER, PAKCS_CHAR_LIST_REQ, 
     PAKCC_CHAR_LIST_REPLY, PAKCS_CREATE_CHAR_REQ, PAKCC_CREATE_CHAR_REPLY, 
     PAKCS_DELETE_CHAR_REQ, PAKCC_DELETE_CHAR_REPLY, PAKCS_SELECT_CHAR_REQ, 
     PAKWC_SELECT_CHAR_REPLY, PAKWC_INVENTORY_DATA, PAKWC_SETMONEY, PAKWC_SET_ITEM, 
     PAKWC_SERVER_DATA, PAKWC_QUEST_DATA, PAKCS_CHANGE_CHAR_REQ, PAKCC_CHAN_CHAR_REPLY, 
     PAKWC_SET_MONEY, PAKWC_QUEST_REWARD_MONEY, PAKWC_QUEST_REWARD_ITEM, 
     PAKWC_QUEST_REWARD_ADD_STAT, PAKWC_QUEST_REWARD_SET_STAT, PAKCS_CANCEL_LOGOUT, 
     PAKWC_QUEST_UPDATE, PAKWC_WISH_LIST, PAKCS_QUEST_DATA_REQ, PAKWC_QUEST_DATA_REPLY, 
     PAKWC_NPC_EVENT, PAKWC_GM_COMMAND_CODE, PAKCS_CHANGE_MAP_REQ, PAKWC_CHANGE_MAP_REPLY, 
     PAKWC_INIT_DATA, PAKCS_REVIVE_REQ, PAKWC_REVIVE_REPLY, PAKWC_SET_REVIVE_POS_REPLY, 
     PAKCS_SET_SERVER_VAR_REQ, PAKWC_SET_SERVER_VAR_REPLY, PAKCS_CHAR_INFO_REQ, 
     PAKWC_CHAR_INFO_REPLY, PAKCS_SET_WEIGHT_REQ, PAKWC_SET_WEIGHT_REPLY, 
     PAKWC_ADJUST_POSITION, PAKCS_STOP_MOVING, PAKWC_STOP_MOVING, PAKCS_UPDATE_NPC, 
     PAKCS_SUMMON_CMD, PAKWC_SUMMON_CMD, PAKCS_SET_ANIMATION, PACWC_SET_ANIMATION, 
     PAKCS_TOGGLE, PAKWC_TOGGLE, PAKCS_NORMAL_CHAT, PAKWC_NORMAL_CHAT, PAKCS_WHISPER_CHAT, 
     PAKWC_WHISPER_CHAT, PAKCS_SHOUT_CHAT, PAKWC_SHOUT_CHAT, PAKCS_PARTY_CHAT, 
     PAKWC_PARTY_CHAT, PAKCS_CLAN_CHAT, PAKWC_CLAN_CHAT, PAKCS_ALLIED_CHAT, PAKWC_ALLIED_CHAT, 
     PAKCS_ALLIED_SHOUT_CHAT, PAKWC_ALLIED_SHOUT_CHAT, PAKWC_EVENT_STATUS, PAKWC_NPC_CHAR, 
     PAKWC_MOB_CHAR, PAKWC_PLAYER_CHAR, PAKWC_REMOVE_OBJECT, PAKCS_SET_POSITION, PAKCS_STOP, 
     PAKWC_STOP, PAKWC_MOVE, PAKCS_MOUSE_CMD, PAKWC_MOUSE_CMD, PAKCS_USE_ITEM, 
     PAKWC_USE_ITEM_REPLY, PAKCS_DROP_ITEM, PAKCS_EQUIP_ITEM, PAKWC_EQUIP_ITEM, 
     PAKWC_DROP_ITEM, PAKCS_FIELDITEM_REQ, PAKWC_FIELDITEM_REPLY, PAKCS_TELEPORT_REQ, 
     PAKWC_TELEPORT_REPLY, PAKCS_SET_HOTBAR_ICON_REQ, PAKWC_SET_HOTBAR_ICON_REPLY, 
     PAKCS_STORAGE_LIST_REQ, PAKWC_STORAGE_LIST_REPLY, PAKCS_MOVE_ITEM_REQ, 
     PAKWC_MOVE_ITEM_REPLY, PAKWC_LEARN_SKILL, PAKCS_LEVEL_SKILL_REQ, PAKWC_LEVEL_SKILL_REPLY, 
     PAKCS_PARTY_REQ, PAKWC_PARTY_REQ, PAKCS_PARTY_REPLY, PAKWC_PARTY_REPLY, 
     PAKWC_PARTY_MEMBER, PAKWC_PARTY_ITEM, PAKWC_PARTY_LVLXP, PAKCS_PARTY_RULE, 
     PAKWC_PARTY_RULE, PAKWC_BILLING_MESSAGE, PAKCS_SCREEN_SHOT_TIME_REQ, 
     PAKSC_SCREEN_SHOT_TIME_REPLY, PAKSS_ACCEPT_REPLY]"

text \<open>Every identifier of the protocol fits the 11 bit \<open>Command\<close> field of the encrypted header,
  and the stress-test identifier does not.\<close>

theorem protocol_types_fit_command:
  "(\<forall>t \<in> set protocol_types. unat t < 2 ^ 11) \<and> \<not> unat STRESS < 2 ^ 11"
  by (simp add: protocol_types_def packet_types)

text \<open>The predicate holds of the request that opens every session.\<close>

theorem protocol_types_fit_command_witness:
  "PAKCS_ACCEPT_REQ \<in> set protocol_types \<and> unat PAKCS_ACCEPT_REQ < 2 ^ 11"
proof -
  have "PAKCS_ACCEPT_REQ \<in> set protocol_types" by (simp add: protocol_types_def)
  then show ?thesis using protocol_types_fit_command by blast
qed

end
