(* ===== verification/Packets_Client.thy ===== *)
theory Packets_Client
  imports CRosePacket EPacketType
begin

text \<open>
  The packets a client sends (\<open>Cli...\<close>) and the packets the servers exchange (\<open>Isc...\<close>), one group
  per class of \<open>rosecommon/include/packets\<close> and \<open>rosecommon/src/packets\<close>. The record holds the data
  members of the class, \<open>X_read\<close> is the body of its receiving constructor and \<open>X_recv\<close> the whole
  constructor, \<open>X_pack\<close> is its \<open>pack\<close>. \<open>X_wire\<close> is the byte image of the members and \<open>X_ok\<close> the
  members that survive a transmission (no NUL inside a string, 32 characters of password hash).
  Each class is an instance of \<open>serial\<close>: \<open>pack\<close> appends the image and the constructor reads it back.
\<close>

section \<open>Packet classes\<close>

subsection \<open>\<open>CliAcceptReq\<close>\<close>

datatype CliAcceptReq = CliAcceptReq

definition CliAcceptReq_read :: "CRosePacket \<Rightarrow> CliAcceptReq \<times> CRosePacket" where
  "CliAcceptReq_read = Pair CliAcceptReq"

definition CliAcceptReq_recv :: "byte list \<Rightarrow> byte list \<Rightarrow> packet_error + CliAcceptReq" where
  "CliAcceptReq_recv = recv_packet PAKCS_ACCEPT_REQ CliAcceptReq_read"

definition CliAcceptReq_pack :: "CliAcceptReq \<Rightarrow> CRosePacket \<Rightarrow> CRosePacket" where
  "CliAcceptReq_pack d = (\<lambda>p. p)"

definition CliAcceptReq_wire :: "CliAcceptReq \<Rightarrow> byte list" where
  "CliAcceptReq_wire d = []"

definition CliAcceptReq_ok :: "CliAcceptReq \<Rightarrow> bool" where
  "CliAcceptReq_ok d \<longleftrightarrow> True"

interpretation CliAcceptReq: serial CliAcceptReq_pack CliAcceptReq_wire CliAcceptReq_read CliAcceptReq_ok
proof
  show "emits (CliAcceptReq_pack d) (CliAcceptReq_wire d)" for d
    unfolding CliAcceptReq_pack_def CliAcceptReq_wire_def by (rule emits_rules)+
  show "parses CliAcceptReq_read d (CliAcceptReq_wire d)" if "CliAcceptReq_ok d" for d
    using that unfolding CliAcceptReq_ok_def CliAcceptReq_read_def CliAcceptReq_wire_def
    by (cases d) (rule parses_rules | simp)+
qed

subsection \<open>\<open>CliAlive\<close>\<close>

datatype CliAlive = CliAlive

definition CliAlive_read :: "CRosePacket \<Rightarrow> CliAlive \<times> CRosePacket" where
  "CliAlive_read = Pair CliAlive"

definition CliAlive_recv :: "byte list \<Rightarrow> byte list \<Rightarrow> packet_error + CliAlive" where
  "CliAlive_recv = recv_packet PAKCS_ALIVE CliAlive_read"

definition CliAlive_pack :: "CliAlive \<Rightarrow> CRosePacket \<Rightarrow> CRosePacket" where
  "CliAlive_pack d = (\<lambda>p. p)"

definition CliAlive_wire :: "CliAlive \<Rightarrow> byte list" where
  "CliAlive_wire d = []"

definition CliAlive_ok :: "CliAlive \<Rightarrow> bool" where
  "CliAlive_ok d \<longleftrightarrow> True"

interpretation CliAlive: serial CliAlive_pack CliAlive_wire CliAlive_read CliAlive_ok
proof
  show "emits (CliAlive_pack d) (CliAlive_wire d)" for d
    unfolding CliAlive_pack_def CliAlive_wire_def by (rule emits_rules)+
  show "parses CliAlive_read d (CliAlive_wire d)" if "CliAlive_ok d" for d
    using that unfolding CliAlive_ok_def CliAlive_read_def CliAlive_wire_def
    by (cases d) (rule parses_rules | simp)+
qed

subsection \<open>\<open>CliChangeMapReq\<close>\<close>

record CliChangeMapReq =
  m_weightRate :: u8
  m_z :: u16

definition CliChangeMapReq_read :: "CRosePacket \<Rightarrow> CliChangeMapReq \<times> CRosePacket" where
  "CliChangeMapReq_read = scomp get_u8 (\<lambda>weightRate. scomp get_u16 (\<lambda>z.
     Pair \<lparr>m_weightRate = weightRate, m_z = z\<rparr>))"

definition CliChangeMapReq_recv :: "byte list \<Rightarrow> byte list \<Rightarrow> packet_error + CliChangeMapReq" where
  "CliChangeMapReq_recv = recv_packet PAKCS_CHANGE_MAP_REQ CliChangeMapReq_read"

definition CliChangeMapReq_pack :: "CliChangeMapReq \<Rightarrow> CRosePacket \<Rightarrow> CRosePacket" where
  "CliChangeMapReq_pack d = chain [put_u8 (m_weightRate d), put_u16 (m_z d)]"

definition CliChangeMapReq_wire :: "CliChangeMapReq \<Rightarrow> byte list" where
  "CliChangeMapReq_wire d = [m_weightRate d] @ le_bytes 2 (m_z d)"

definition CliChangeMapReq_ok :: "CliChangeMapReq \<Rightarrow> bool" where
  "CliChangeMapReq_ok d \<longleftrightarrow> True"

interpretation CliChangeMapReq: serial CliChangeMapReq_pack CliChangeMapReq_wire CliChangeMapReq_read CliChangeMapReq_ok
proof
  show "emits (CliChangeMapReq_pack d) (CliChangeMapReq_wire d)" for d
    unfolding CliChangeMapReq_pack_def CliChangeMapReq_wire_def by (rule emits_rules)+
  show "parses CliChangeMapReq_read d (CliChangeMapReq_wire d)" if "CliChangeMapReq_ok d" for d
    using that unfolding CliChangeMapReq_ok_def CliChangeMapReq_read_def CliChangeMapReq_wire_def
    by - (rule parses_rules | simp)+
qed

subsection \<open>\<open>CliChannelListReq\<close>\<close>

record CliChannelListReq =
  m_serverId :: u32

definition CliChannelListReq_read :: "CRosePacket \<Rightarrow> CliChannelListReq \<times> CRosePacket" where
  "CliChannelListReq_read = scomp get_u32 (\<lambda>serverId.
     Pair \<lparr>m_serverId = serverId\<rparr>)"

definition CliChannelListReq_recv :: "byte list \<Rightarrow> byte list \<Rightarrow> packet_error + CliChannelListReq" where
  "CliChannelListReq_recv = recv_packet PAKCS_CHANNEL_LIST_REQ CliChannelListReq_read"

definition CliChannelListReq_pack :: "CliChannelListReq \<Rightarrow> CRosePacket \<Rightarrow> CRosePacket" where
  "CliChannelListReq_pack d = chain [put_u32 (m_serverId d)]"

definition CliChannelListReq_wire :: "CliChannelListReq \<Rightarrow> byte list" where
  "CliChannelListReq_wire d = le_bytes 4 (m_serverId d)"

definition CliChannelListReq_ok :: "CliChannelListReq \<Rightarrow> bool" where
  "CliChannelListReq_ok d \<longleftrightarrow> True"

interpretation CliChannelListReq: serial CliChannelListReq_pack CliChannelListReq_wire CliChannelListReq_read CliChannelListReq_ok
proof
  show "emits (CliChannelListReq_pack d) (CliChannelListReq_wire d)" for d
    unfolding CliChannelListReq_pack_def CliChannelListReq_wire_def by (rule emits_rules)+
  show "parses CliChannelListReq_read d (CliChannelListReq_wire d)" if "CliChannelListReq_ok d" for d
    using that unfolding CliChannelListReq_ok_def CliChannelListReq_read_def CliChannelListReq_wire_def
    by - (rule parses_rules | simp)+
qed

subsection \<open>\<open>CliCharListReq\<close>\<close>

datatype CliCharListReq = CliCharListReq

definition CliCharListReq_read :: "CRosePacket \<Rightarrow> CliCharListReq \<times> CRosePacket" where
  "CliCharListReq_read = Pair CliCharListReq"

definition CliCharListReq_recv :: "byte list \<Rightarrow> byte list \<Rightarrow> packet_error + CliCharListReq" where
  "CliCharListReq_recv = recv_packet PAKCS_CHAR_LIST_REQ CliCharListReq_read"

definition CliCharListReq_pack :: "CliCharListReq \<Rightarrow> CRosePacket \<Rightarrow> CRosePacket" where
  "CliCharListReq_pack d = (\<lambda>p. p)"

definition CliCharListReq_wire :: "CliCharListReq \<Rightarrow> byte list" where
  "CliCharListReq_wire d = []"

definition CliCharListReq_ok :: "CliCharListReq \<Rightarrow> bool" where
  "CliCharListReq_ok d \<longleftrightarrow> True"

interpretation CliCharListReq: serial CliCharListReq_pack CliCharListReq_wire CliCharListReq_read CliCharListReq_ok
proof
  show "emits (CliCharListReq_pack d) (CliCharListReq_wire d)" for d
    unfolding CliCharListReq_pack_def CliCharListReq_wire_def by (rule emits_rules)+
  show "parses CliCharListReq_read d (CliCharListReq_wire d)" if "CliCharListReq_ok d" for d
    using that unfolding CliCharListReq_ok_def CliCharListReq_read_def CliCharListReq_wire_def
    by (cases d) (rule parses_rules | simp)+
qed

subsection \<open>\<open>CliCreateCharReq\<close>\<close>

record CliCreateCharReq =
  m_race :: u8
  m_stone :: u8
  m_hair :: u8
  m_face :: u8
  m_weapon :: u8
  m_zone :: u16
  m_name :: cstring

definition CliCreateCharReq_read :: "CRosePacket \<Rightarrow> CliCreateCharReq \<times> CRosePacket" where
  "CliCreateCharReq_read = scomp get_u8 (\<lambda>race. scomp get_u8 (\<lambda>stone. scomp get_u8 (\<lambda>hair. scomp get_u8 (\<lambda>face. scomp get_u8 (\<lambda>weapon. scomp get_u16 (\<lambda>zone. scomp get_string (\<lambda>name.
     Pair \<lparr>m_race = race, m_stone = stone, m_hair = hair, m_face = face, m_weapon = weapon, m_zone = zone, m_name = name\<rparr>)))))))"

definition CliCreateCharReq_recv :: "byte list \<Rightarrow> byte list \<Rightarrow> packet_error + CliCreateCharReq" where
  "CliCreateCharReq_recv = recv_packet PAKCS_CREATE_CHAR_REQ CliCreateCharReq_read"

definition CliCreateCharReq_pack :: "CliCreateCharReq \<Rightarrow> CRosePacket \<Rightarrow> CRosePacket" where
  "CliCreateCharReq_pack d = chain [put_u8 (m_race d), put_u8 (m_stone d), put_u8 (m_hair d), put_u8 (m_face d), put_u8 (m_weapon d), put_u16 (m_zone d), put_string (m_name d)]"

definition CliCreateCharReq_wire :: "CliCreateCharReq \<Rightarrow> byte list" where
  "CliCreateCharReq_wire d = [m_race d] @ [m_stone d] @ [m_hair d] @ [m_face d] @ [m_weapon d] @ le_bytes 2 (m_zone d) @ (m_name d @ [0])"

definition CliCreateCharReq_ok :: "CliCreateCharReq \<Rightarrow> bool" where
  "CliCreateCharReq_ok d \<longleftrightarrow> 0 \<notin> set (m_name d)"

interpretation CliCreateCharReq: serial CliCreateCharReq_pack CliCreateCharReq_wire CliCreateCharReq_read CliCreateCharReq_ok
proof
  show "emits (CliCreateCharReq_pack d) (CliCreateCharReq_wire d)" for d
    unfolding CliCreateCharReq_pack_def CliCreateCharReq_wire_def by (rule emits_rules)+
  show "parses CliCreateCharReq_read d (CliCreateCharReq_wire d)" if "CliCreateCharReq_ok d" for d
    using that unfolding CliCreateCharReq_ok_def CliCreateCharReq_read_def CliCreateCharReq_wire_def
    by - (rule parses_rules | simp)+
qed

subsection \<open>\<open>CliDeleteCharReq\<close>\<close>

record CliDeleteCharReq =
  m_charId :: u8
  m_isDelete :: u8
  m_name :: cstring

definition CliDeleteCharReq_read :: "CRosePacket \<Rightarrow> CliDeleteCharReq \<times> CRosePacket" where
  "CliDeleteCharReq_read = scomp get_u8 (\<lambda>charId. scomp get_u8 (\<lambda>isDelete. scomp get_string (\<lambda>name.
     Pair \<lparr>m_charId = charId, m_isDelete = isDelete, m_name = name\<rparr>)))"

definition CliDeleteCharReq_recv :: "byte list \<Rightarrow> byte list \<Rightarrow> packet_error + CliDeleteCharReq" where
  "CliDeleteCharReq_recv = recv_packet PAKCS_DELETE_CHAR_REQ CliDeleteCharReq_read"

definition CliDeleteCharReq_pack :: "CliDeleteCharReq \<Rightarrow> CRosePacket \<Rightarrow> CRosePacket" where
  "CliDeleteCharReq_pack d = chain [put_u8 (m_charId d), put_u8 (m_isDelete d), put_string (m_name d)]"

definition CliDeleteCharReq_wire :: "CliDeleteCharReq \<Rightarrow> byte list" where
  "CliDeleteCharReq_wire d = [m_charId d] @ [m_isDelete d] @ (m_name d @ [0])"

definition CliDeleteCharReq_ok :: "CliDeleteCharReq \<Rightarrow> bool" where
  "CliDeleteCharReq_ok d \<longleftrightarrow> 0 \<notin> set (m_name d)"

interpretation CliDeleteCharReq: serial CliDeleteCharReq_pack CliDeleteCharReq_wire CliDeleteCharReq_read CliDeleteCharReq_ok
proof
  show "emits (CliDeleteCharReq_pack d) (CliDeleteCharReq_wire d)" for d
    unfolding CliDeleteCharReq_pack_def CliDeleteCharReq_wire_def by (rule emits_rules)+
  show "parses CliDeleteCharReq_read d (CliDeleteCharReq_wire d)" if "CliDeleteCharReq_ok d" for d
    using that unfolding CliDeleteCharReq_ok_def CliDeleteCharReq_read_def CliDeleteCharReq_wire_def
    by - (rule parses_rules | simp)+
qed

subsection \<open>\<open>CliDropItem\<close>\<close>

record CliDropItem =
  m_item :: u8
  m_quantity :: u32

definition CliDropItem_read :: "CRosePacket \<Rightarrow> CliDropItem \<times> CRosePacket" where
  "CliDropItem_read = scomp get_u8 (\<lambda>item. scomp get_u32 (\<lambda>quantity.
     Pair \<lparr>m_item = item, m_quantity = quantity\<rparr>))"

definition CliDropItem_recv :: "byte list \<Rightarrow> byte list \<Rightarrow> packet_error + CliDropItem" where
  "CliDropItem_recv = recv_packet PAKCS_DROP_ITEM CliDropItem_read"

definition CliDropItem_pack :: "CliDropItem \<Rightarrow> CRosePacket \<Rightarrow> CRosePacket" where
  "CliDropItem_pack d = chain [put_u8 (m_item d), put_u32 (m_quantity d)]"

definition CliDropItem_wire :: "CliDropItem \<Rightarrow> byte list" where
  "CliDropItem_wire d = [m_item d] @ le_bytes 4 (m_quantity d)"

definition CliDropItem_ok :: "CliDropItem \<Rightarrow> bool" where
  "CliDropItem_ok d \<longleftrightarrow> True"

interpretation CliDropItem: serial CliDropItem_pack CliDropItem_wire CliDropItem_read CliDropItem_ok
proof
  show "emits (CliDropItem_pack d) (CliDropItem_wire d)" for d
    unfolding CliDropItem_pack_def CliDropItem_wire_def by (rule emits_rules)+
  show "parses CliDropItem_read d (CliDropItem_wire d)" if "CliDropItem_ok d" for d
    using that unfolding CliDropItem_ok_def CliDropItem_read_def CliDropItem_wire_def
    by - (rule parses_rules | simp)+
qed

subsection \<open>\<open>CliEquipItem\<close>\<close>

record CliEquipItem =
  m_slotTo :: u16
  m_slotFrom :: u16

definition CliEquipItem_read :: "CRosePacket \<Rightarrow> CliEquipItem \<times> CRosePacket" where
  "CliEquipItem_read = scomp get_u16 (\<lambda>slotTo. scomp get_u16 (\<lambda>slotFrom.
     Pair \<lparr>m_slotTo = slotTo, m_slotFrom = slotFrom\<rparr>))"

definition CliEquipItem_recv :: "byte list \<Rightarrow> byte list \<Rightarrow> packet_error + CliEquipItem" where
  "CliEquipItem_recv = recv_packet PAKCS_EQUIP_ITEM CliEquipItem_read"

definition CliEquipItem_pack :: "CliEquipItem \<Rightarrow> CRosePacket \<Rightarrow> CRosePacket" where
  "CliEquipItem_pack d = chain [put_u16 (m_slotTo d), put_u16 (m_slotFrom d)]"

definition CliEquipItem_wire :: "CliEquipItem \<Rightarrow> byte list" where
  "CliEquipItem_wire d = le_bytes 2 (m_slotTo d) @ le_bytes 2 (m_slotFrom d)"

definition CliEquipItem_ok :: "CliEquipItem \<Rightarrow> bool" where
  "CliEquipItem_ok d \<longleftrightarrow> True"

interpretation CliEquipItem: serial CliEquipItem_pack CliEquipItem_wire CliEquipItem_read CliEquipItem_ok
proof
  show "emits (CliEquipItem_pack d) (CliEquipItem_wire d)" for d
    unfolding CliEquipItem_pack_def CliEquipItem_wire_def by (rule emits_rules)+
  show "parses CliEquipItem_read d (CliEquipItem_wire d)" if "CliEquipItem_ok d" for d
    using that unfolding CliEquipItem_ok_def CliEquipItem_read_def CliEquipItem_wire_def
    by - (rule parses_rules | simp)+
qed

subsection \<open>\<open>CliJoinServerReq\<close>\<close>

record CliJoinServerReq =
  m_sessionId :: u32
  m_password :: cstring

definition CliJoinServerReq_read :: "CRosePacket \<Rightarrow> CliJoinServerReq \<times> CRosePacket" where
  "CliJoinServerReq_read = scomp get_u32 (\<lambda>sessionId. scomp (get_chars 32) (\<lambda>password.
     Pair \<lparr>m_sessionId = sessionId, m_password = password\<rparr>))"

definition CliJoinServerReq_recv :: "byte list \<Rightarrow> byte list \<Rightarrow> packet_error + CliJoinServerReq" where
  "CliJoinServerReq_recv = recv_packet PAKCS_JOIN_SERVER_REQ CliJoinServerReq_read"

definition CliJoinServerReq_pack :: "CliJoinServerReq \<Rightarrow> CRosePacket \<Rightarrow> CRosePacket" where
  "CliJoinServerReq_pack d = chain [put_u32 (m_sessionId d), put_c_str (m_password d)]"

definition CliJoinServerReq_wire :: "CliJoinServerReq \<Rightarrow> byte list" where
  "CliJoinServerReq_wire d = le_bytes 4 (m_sessionId d) @ takeWhile (\<lambda>c. c \<noteq> 0) (m_password d)"

definition CliJoinServerReq_ok :: "CliJoinServerReq \<Rightarrow> bool" where
  "CliJoinServerReq_ok d \<longleftrightarrow> length (m_password d) = 32 \<and> 0 \<notin> set (m_password d)"

interpretation CliJoinServerReq: serial CliJoinServerReq_pack CliJoinServerReq_wire CliJoinServerReq_read CliJoinServerReq_ok
proof
  show "emits (CliJoinServerReq_pack d) (CliJoinServerReq_wire d)" for d
    unfolding CliJoinServerReq_pack_def CliJoinServerReq_wire_def by (rule emits_rules)+
  show "parses CliJoinServerReq_read d (CliJoinServerReq_wire d)" if "CliJoinServerReq_ok d" for d
    using that unfolding CliJoinServerReq_ok_def CliJoinServerReq_read_def CliJoinServerReq_wire_def
    by - (rule parses_rules | simp)+
qed

subsection \<open>\<open>CliLoginReq\<close>\<close>

record CliLoginReq =
  m_password :: cstring
  m_username :: cstring

definition CliLoginReq_read :: "CRosePacket \<Rightarrow> CliLoginReq \<times> CRosePacket" where
  "CliLoginReq_read = scomp (get_chars 32) (\<lambda>password. scomp get_string (\<lambda>username.
     Pair \<lparr>m_password = password, m_username = username\<rparr>))"

definition CliLoginReq_recv :: "byte list \<Rightarrow> byte list \<Rightarrow> packet_error + CliLoginReq" where
  "CliLoginReq_recv = recv_packet PAKCS_LOGIN_REQ CliLoginReq_read"

definition CliLoginReq_pack :: "CliLoginReq \<Rightarrow> CRosePacket \<Rightarrow> CRosePacket" where
  "CliLoginReq_pack d = chain [put_c_str (m_password d), put_string (m_username d)]"

definition CliLoginReq_wire :: "CliLoginReq \<Rightarrow> byte list" where
  "CliLoginReq_wire d = takeWhile (\<lambda>c. c \<noteq> 0) (m_password d) @ (m_username d @ [0])"

definition CliLoginReq_ok :: "CliLoginReq \<Rightarrow> bool" where
  "CliLoginReq_ok d \<longleftrightarrow> length (m_password d) = 32 \<and> 0 \<notin> set (m_password d) \<and> 0 \<notin> set (m_username d)"

interpretation CliLoginReq: serial CliLoginReq_pack CliLoginReq_wire CliLoginReq_read CliLoginReq_ok
proof
  show "emits (CliLoginReq_pack d) (CliLoginReq_wire d)" for d
    unfolding CliLoginReq_pack_def CliLoginReq_wire_def by (rule emits_rules)+
  show "parses CliLoginReq_read d (CliLoginReq_wire d)" if "CliLoginReq_ok d" for d
    using that unfolding CliLoginReq_ok_def CliLoginReq_read_def CliLoginReq_wire_def
    by - (rule parses_rules | simp)+
qed

subsection \<open>\<open>CliLogoutReq\<close>\<close>

datatype CliLogoutReq = CliLogoutReq

definition CliLogoutReq_read :: "CRosePacket \<Rightarrow> CliLogoutReq \<times> CRosePacket" where
  "CliLogoutReq_read = Pair CliLogoutReq"

definition CliLogoutReq_recv :: "byte list \<Rightarrow> byte list \<Rightarrow> packet_error + CliLogoutReq" where
  "CliLogoutReq_recv = recv_packet PAKCS_LOGOUT_REQ CliLogoutReq_read"

definition CliLogoutReq_pack :: "CliLogoutReq \<Rightarrow> CRosePacket \<Rightarrow> CRosePacket" where
  "CliLogoutReq_pack d = (\<lambda>p. p)"

definition CliLogoutReq_wire :: "CliLogoutReq \<Rightarrow> byte list" where
  "CliLogoutReq_wire d = []"

definition CliLogoutReq_ok :: "CliLogoutReq \<Rightarrow> bool" where
  "CliLogoutReq_ok d \<longleftrightarrow> True"

interpretation CliLogoutReq: serial CliLogoutReq_pack CliLogoutReq_wire CliLogoutReq_read CliLogoutReq_ok
proof
  show "emits (CliLogoutReq_pack d) (CliLogoutReq_wire d)" for d
    unfolding CliLogoutReq_pack_def CliLogoutReq_wire_def by (rule emits_rules)+
  show "parses CliLogoutReq_read d (CliLogoutReq_wire d)" if "CliLogoutReq_ok d" for d
    using that unfolding CliLogoutReq_ok_def CliLogoutReq_read_def CliLogoutReq_wire_def
    by (cases d) (rule parses_rules | simp)+
qed

subsection \<open>\<open>CliMouseCmd\<close>\<close>

record CliMouseCmd =
  m_targetId :: u16
  m_x :: f32
  m_y :: f32
  m_z :: u16

definition CliMouseCmd_read :: "CRosePacket \<Rightarrow> CliMouseCmd \<times> CRosePacket" where
  "CliMouseCmd_read = scomp get_u16 (\<lambda>targetId. scomp get_u32 (\<lambda>x. scomp get_u32 (\<lambda>y. scomp get_u16 (\<lambda>z.
     Pair \<lparr>m_targetId = targetId, m_x = x, m_y = y, m_z = z\<rparr>))))"

definition CliMouseCmd_recv :: "byte list \<Rightarrow> byte list \<Rightarrow> packet_error + CliMouseCmd" where
  "CliMouseCmd_recv = recv_packet PAKCS_MOUSE_CMD CliMouseCmd_read"

definition CliMouseCmd_pack :: "CliMouseCmd \<Rightarrow> CRosePacket \<Rightarrow> CRosePacket" where
  "CliMouseCmd_pack d = chain [put_u16 (m_targetId d), put_u32 (m_x d), put_u32 (m_y d), put_u16 (m_z d)]"

definition CliMouseCmd_wire :: "CliMouseCmd \<Rightarrow> byte list" where
  "CliMouseCmd_wire d = le_bytes 2 (m_targetId d) @ le_bytes 4 (m_x d) @ le_bytes 4 (m_y d) @ le_bytes 2 (m_z d)"

definition CliMouseCmd_ok :: "CliMouseCmd \<Rightarrow> bool" where
  "CliMouseCmd_ok d \<longleftrightarrow> True"

interpretation CliMouseCmd: serial CliMouseCmd_pack CliMouseCmd_wire CliMouseCmd_read CliMouseCmd_ok
proof
  show "emits (CliMouseCmd_pack d) (CliMouseCmd_wire d)" for d
    unfolding CliMouseCmd_pack_def CliMouseCmd_wire_def by (rule emits_rules)+
  show "parses CliMouseCmd_read d (CliMouseCmd_wire d)" if "CliMouseCmd_ok d" for d
    using that unfolding CliMouseCmd_ok_def CliMouseCmd_read_def CliMouseCmd_wire_def
    by - (rule parses_rules | simp)+
qed

subsection \<open>\<open>CliNormalChat\<close>\<close>

record CliNormalChat =
  m_message :: cstring

definition CliNormalChat_read :: "CRosePacket \<Rightarrow> CliNormalChat \<times> CRosePacket" where
  "CliNormalChat_read = scomp get_string (\<lambda>message.
     Pair \<lparr>m_message = message\<rparr>)"

definition CliNormalChat_recv :: "byte list \<Rightarrow> byte list \<Rightarrow> packet_error + CliNormalChat" where
  "CliNormalChat_recv = recv_packet PAKCS_NORMAL_CHAT CliNormalChat_read"

definition CliNormalChat_pack :: "CliNormalChat \<Rightarrow> CRosePacket \<Rightarrow> CRosePacket" where
  "CliNormalChat_pack d = chain [put_string (m_message d)]"

definition CliNormalChat_wire :: "CliNormalChat \<Rightarrow> byte list" where
  "CliNormalChat_wire d = (m_message d @ [0])"

definition CliNormalChat_ok :: "CliNormalChat \<Rightarrow> bool" where
  "CliNormalChat_ok d \<longleftrightarrow> 0 \<notin> set (m_message d)"

interpretation CliNormalChat: serial CliNormalChat_pack CliNormalChat_wire CliNormalChat_read CliNormalChat_ok
proof
  show "emits (CliNormalChat_pack d) (CliNormalChat_wire d)" for d
    unfolding CliNormalChat_pack_def CliNormalChat_wire_def by (rule emits_rules)+
  show "parses CliNormalChat_read d (CliNormalChat_wire d)" if "CliNormalChat_ok d" for d
    using that unfolding CliNormalChat_ok_def CliNormalChat_read_def CliNormalChat_wire_def
    by - (rule parses_rules | simp)+
qed

subsection \<open>\<open>CliPartyChat\<close>\<close>

record CliPartyChat =
  m_message :: cstring

definition CliPartyChat_read :: "CRosePacket \<Rightarrow> CliPartyChat \<times> CRosePacket" where
  "CliPartyChat_read = scomp get_string (\<lambda>message.
     Pair \<lparr>m_message = message\<rparr>)"

definition CliPartyChat_recv :: "byte list \<Rightarrow> byte list \<Rightarrow> packet_error + CliPartyChat" where
  "CliPartyChat_recv = recv_packet PAKCS_PARTY_CHAT CliPartyChat_read"

definition CliPartyChat_pack :: "CliPartyChat \<Rightarrow> CRosePacket \<Rightarrow> CRosePacket" where
  "CliPartyChat_pack d = chain [put_string (m_message d)]"

definition CliPartyChat_wire :: "CliPartyChat \<Rightarrow> byte list" where
  "CliPartyChat_wire d = (m_message d @ [0])"

definition CliPartyChat_ok :: "CliPartyChat \<Rightarrow> bool" where
  "CliPartyChat_ok d \<longleftrightarrow> 0 \<notin> set (m_message d)"

interpretation CliPartyChat: serial CliPartyChat_pack CliPartyChat_wire CliPartyChat_read CliPartyChat_ok
proof
  show "emits (CliPartyChat_pack d) (CliPartyChat_wire d)" for d
    unfolding CliPartyChat_pack_def CliPartyChat_wire_def by (rule emits_rules)+
  show "parses CliPartyChat_read d (CliPartyChat_wire d)" if "CliPartyChat_ok d" for d
    using that unfolding CliPartyChat_ok_def CliPartyChat_read_def CliPartyChat_wire_def
    by - (rule parses_rules | simp)+
qed

subsection \<open>\<open>CliPartyReply\<close>\<close>

record CliPartyReply =
  m_reply :: u8
  m_idXorTag :: u32

definition CliPartyReply_read :: "CRosePacket \<Rightarrow> CliPartyReply \<times> CRosePacket" where
  "CliPartyReply_read = scomp get_u8 (\<lambda>reply. scomp get_u32 (\<lambda>idXorTag.
     Pair \<lparr>m_reply = reply, m_idXorTag = idXorTag\<rparr>))"

definition CliPartyReply_recv :: "byte list \<Rightarrow> byte list \<Rightarrow> packet_error + CliPartyReply" where
  "CliPartyReply_recv = recv_packet PAKCS_PARTY_REPLY CliPartyReply_read"

definition CliPartyReply_pack :: "CliPartyReply \<Rightarrow> CRosePacket \<Rightarrow> CRosePacket" where
  "CliPartyReply_pack d = chain [put_u8 (m_reply d), put_u32 (m_idXorTag d)]"

definition CliPartyReply_wire :: "CliPartyReply \<Rightarrow> byte list" where
  "CliPartyReply_wire d = [m_reply d] @ le_bytes 4 (m_idXorTag d)"

definition CliPartyReply_ok :: "CliPartyReply \<Rightarrow> bool" where
  "CliPartyReply_ok d \<longleftrightarrow> True"

interpretation CliPartyReply: serial CliPartyReply_pack CliPartyReply_wire CliPartyReply_read CliPartyReply_ok
proof
  show "emits (CliPartyReply_pack d) (CliPartyReply_wire d)" for d
    unfolding CliPartyReply_pack_def CliPartyReply_wire_def by (rule emits_rules)+
  show "parses CliPartyReply_read d (CliPartyReply_wire d)" if "CliPartyReply_ok d" for d
    using that unfolding CliPartyReply_ok_def CliPartyReply_read_def CliPartyReply_wire_def
    by - (rule parses_rules | simp)+
qed

subsection \<open>\<open>CliPartyReq\<close>\<close>

record CliPartyReq =
  m_request :: u8
  m_idXorTag :: u32

definition CliPartyReq_read :: "CRosePacket \<Rightarrow> CliPartyReq \<times> CRosePacket" where
  "CliPartyReq_read = scomp get_u8 (\<lambda>request. scomp get_u32 (\<lambda>idXorTag.
     Pair \<lparr>m_request = request, m_idXorTag = idXorTag\<rparr>))"

definition CliPartyReq_recv :: "byte list \<Rightarrow> byte list \<Rightarrow> packet_error + CliPartyReq" where
  "CliPartyReq_recv = recv_packet PAKCS_PARTY_REQ CliPartyReq_read"

definition CliPartyReq_pack :: "CliPartyReq \<Rightarrow> CRosePacket \<Rightarrow> CRosePacket" where
  "CliPartyReq_pack d = chain [put_u8 (m_request d), put_u32 (m_idXorTag d)]"

definition CliPartyReq_wire :: "CliPartyReq \<Rightarrow> byte list" where
  "CliPartyReq_wire d = [m_request d] @ le_bytes 4 (m_idXorTag d)"

definition CliPartyReq_ok :: "CliPartyReq \<Rightarrow> bool" where
  "CliPartyReq_ok d \<longleftrightarrow> True"

interpretation CliPartyReq: serial CliPartyReq_pack CliPartyReq_wire CliPartyReq_read CliPartyReq_ok
proof
  show "emits (CliPartyReq_pack d) (CliPartyReq_wire d)" for d
    unfolding CliPartyReq_pack_def CliPartyReq_wire_def by (rule emits_rules)+
  show "parses CliPartyReq_read d (CliPartyReq_wire d)" if "CliPartyReq_ok d" for d
    using that unfolding CliPartyReq_ok_def CliPartyReq_read_def CliPartyReq_wire_def
    by - (rule parses_rules | simp)+
qed

subsection \<open>\<open>CliReviveReq\<close>\<close>

record CliReviveReq =
  m_reviveType :: u8

definition CliReviveReq_read :: "CRosePacket \<Rightarrow> CliReviveReq \<times> CRosePacket" where
  "CliReviveReq_read = scomp get_u8 (\<lambda>reviveType.
     Pair \<lparr>m_reviveType = reviveType\<rparr>)"

definition CliReviveReq_recv :: "byte list \<Rightarrow> byte list \<Rightarrow> packet_error + CliReviveReq" where
  "CliReviveReq_recv = recv_packet PAKCS_REVIVE_REQ CliReviveReq_read"

definition CliReviveReq_pack :: "CliReviveReq \<Rightarrow> CRosePacket \<Rightarrow> CRosePacket" where
  "CliReviveReq_pack d = chain [put_u8 (m_reviveType d)]"

definition CliReviveReq_wire :: "CliReviveReq \<Rightarrow> byte list" where
  "CliReviveReq_wire d = [m_reviveType d]"

definition CliReviveReq_ok :: "CliReviveReq \<Rightarrow> bool" where
  "CliReviveReq_ok d \<longleftrightarrow> True"

interpretation CliReviveReq: serial CliReviveReq_pack CliReviveReq_wire CliReviveReq_read CliReviveReq_ok
proof
  show "emits (CliReviveReq_pack d) (CliReviveReq_wire d)" for d
    unfolding CliReviveReq_pack_def CliReviveReq_wire_def by (rule emits_rules)+
  show "parses CliReviveReq_read d (CliReviveReq_wire d)" if "CliReviveReq_ok d" for d
    using that unfolding CliReviveReq_ok_def CliReviveReq_read_def CliReviveReq_wire_def
    by - (rule parses_rules | simp)+
qed

subsection \<open>\<open>CliScreenShotTimeReq\<close>\<close>

record CliScreenShotTimeReq =
  m_count :: u16

definition CliScreenShotTimeReq_read :: "CRosePacket \<Rightarrow> CliScreenShotTimeReq \<times> CRosePacket" where
  "CliScreenShotTimeReq_read = scomp get_u16 (\<lambda>count.
     Pair \<lparr>m_count = count\<rparr>)"

definition CliScreenShotTimeReq_recv :: "byte list \<Rightarrow> byte list \<Rightarrow> packet_error + CliScreenShotTimeReq" where
  "CliScreenShotTimeReq_recv = recv_packet PAKCS_SCREEN_SHOT_TIME_REQ CliScreenShotTimeReq_read"

definition CliScreenShotTimeReq_pack :: "CliScreenShotTimeReq \<Rightarrow> CRosePacket \<Rightarrow> CRosePacket" where
  "CliScreenShotTimeReq_pack d = chain [put_u16 (m_count d)]"

definition CliScreenShotTimeReq_wire :: "CliScreenShotTimeReq \<Rightarrow> byte list" where
  "CliScreenShotTimeReq_wire d = le_bytes 2 (m_count d)"

definition CliScreenShotTimeReq_ok :: "CliScreenShotTimeReq \<Rightarrow> bool" where
  "CliScreenShotTimeReq_ok d \<longleftrightarrow> True"

interpretation CliScreenShotTimeReq: serial CliScreenShotTimeReq_pack CliScreenShotTimeReq_wire CliScreenShotTimeReq_read CliScreenShotTimeReq_ok
proof
  show "emits (CliScreenShotTimeReq_pack d) (CliScreenShotTimeReq_wire d)" for d
    unfolding CliScreenShotTimeReq_pack_def CliScreenShotTimeReq_wire_def by (rule emits_rules)+
  show "parses CliScreenShotTimeReq_read d (CliScreenShotTimeReq_wire d)" if "CliScreenShotTimeReq_ok d" for d
    using that unfolding CliScreenShotTimeReq_ok_def CliScreenShotTimeReq_read_def CliScreenShotTimeReq_wire_def
    by - (rule parses_rules | simp)+
qed

subsection \<open>\<open>CliSelectCharReq\<close>\<close>

record CliSelectCharReq =
  m_charId :: u8
  m_runMode :: u8
  m_rideMode :: u8
  m_name :: cstring

definition CliSelectCharReq_read :: "CRosePacket \<Rightarrow> CliSelectCharReq \<times> CRosePacket" where
  "CliSelectCharReq_read = scomp get_u8 (\<lambda>charId. scomp get_u8 (\<lambda>runMode. scomp get_u8 (\<lambda>rideMode. scomp get_string (\<lambda>name.
     Pair \<lparr>m_charId = charId, m_runMode = runMode, m_rideMode = rideMode, m_name = name\<rparr>))))"

definition CliSelectCharReq_recv :: "byte list \<Rightarrow> byte list \<Rightarrow> packet_error + CliSelectCharReq" where
  "CliSelectCharReq_recv = recv_packet PAKCS_SELECT_CHAR_REQ CliSelectCharReq_read"

definition CliSelectCharReq_pack :: "CliSelectCharReq \<Rightarrow> CRosePacket \<Rightarrow> CRosePacket" where
  "CliSelectCharReq_pack d = chain [put_u8 (m_charId d), put_u8 (m_runMode d), put_u8 (m_rideMode d), put_string (m_name d)]"

definition CliSelectCharReq_wire :: "CliSelectCharReq \<Rightarrow> byte list" where
  "CliSelectCharReq_wire d = [m_charId d] @ [m_runMode d] @ [m_rideMode d] @ (m_name d @ [0])"

definition CliSelectCharReq_ok :: "CliSelectCharReq \<Rightarrow> bool" where
  "CliSelectCharReq_ok d \<longleftrightarrow> 0 \<notin> set (m_name d)"

interpretation CliSelectCharReq: serial CliSelectCharReq_pack CliSelectCharReq_wire CliSelectCharReq_read CliSelectCharReq_ok
proof
  show "emits (CliSelectCharReq_pack d) (CliSelectCharReq_wire d)" for d
    unfolding CliSelectCharReq_pack_def CliSelectCharReq_wire_def by (rule emits_rules)+
  show "parses CliSelectCharReq_read d (CliSelectCharReq_wire d)" if "CliSelectCharReq_ok d" for d
    using that unfolding CliSelectCharReq_ok_def CliSelectCharReq_read_def CliSelectCharReq_wire_def
    by - (rule parses_rules | simp)+
qed

subsection \<open>\<open>CliSrvSelectReq\<close>\<close>

record CliSrvSelectReq =
  m_serverId :: u32
  m_channelId :: u8

definition CliSrvSelectReq_read :: "CRosePacket \<Rightarrow> CliSrvSelectReq \<times> CRosePacket" where
  "CliSrvSelectReq_read = scomp get_u32 (\<lambda>serverId. scomp get_u8 (\<lambda>channelId.
     Pair \<lparr>m_serverId = serverId, m_channelId = channelId\<rparr>))"

definition CliSrvSelectReq_recv :: "byte list \<Rightarrow> byte list \<Rightarrow> packet_error + CliSrvSelectReq" where
  "CliSrvSelectReq_recv = recv_packet PAKCS_SRV_SELECT_REQ CliSrvSelectReq_read"

definition CliSrvSelectReq_pack :: "CliSrvSelectReq \<Rightarrow> CRosePacket \<Rightarrow> CRosePacket" where
  "CliSrvSelectReq_pack d = chain [put_u32 (m_serverId d), put_u8 (m_channelId d)]"

definition CliSrvSelectReq_wire :: "CliSrvSelectReq \<Rightarrow> byte list" where
  "CliSrvSelectReq_wire d = le_bytes 4 (m_serverId d) @ [m_channelId d]"

definition CliSrvSelectReq_ok :: "CliSrvSelectReq \<Rightarrow> bool" where
  "CliSrvSelectReq_ok d \<longleftrightarrow> True"

interpretation CliSrvSelectReq: serial CliSrvSelectReq_pack CliSrvSelectReq_wire CliSrvSelectReq_read CliSrvSelectReq_ok
proof
  show "emits (CliSrvSelectReq_pack d) (CliSrvSelectReq_wire d)" for d
    unfolding CliSrvSelectReq_pack_def CliSrvSelectReq_wire_def by (rule emits_rules)+
  show "parses CliSrvSelectReq_read d (CliSrvSelectReq_wire d)" if "CliSrvSelectReq_ok d" for d
    using that unfolding CliSrvSelectReq_ok_def CliSrvSelectReq_read_def CliSrvSelectReq_wire_def
    by - (rule parses_rules | simp)+
qed

subsection \<open>\<open>CliStop\<close>\<close>

record CliStop =
  m_x :: f32
  m_y :: f32

definition CliStop_read :: "CRosePacket \<Rightarrow> CliStop \<times> CRosePacket" where
  "CliStop_read = scomp get_u32 (\<lambda>x. scomp get_u32 (\<lambda>y.
     Pair \<lparr>m_x = x, m_y = y\<rparr>))"

definition CliStop_recv :: "byte list \<Rightarrow> byte list \<Rightarrow> packet_error + CliStop" where
  "CliStop_recv = recv_packet PAKCS_STOP CliStop_read"

definition CliStop_pack :: "CliStop \<Rightarrow> CRosePacket \<Rightarrow> CRosePacket" where
  "CliStop_pack d = chain [put_u32 (m_x d), put_u32 (m_y d)]"

definition CliStop_wire :: "CliStop \<Rightarrow> byte list" where
  "CliStop_wire d = le_bytes 4 (m_x d) @ le_bytes 4 (m_y d)"

definition CliStop_ok :: "CliStop \<Rightarrow> bool" where
  "CliStop_ok d \<longleftrightarrow> True"

interpretation CliStop: serial CliStop_pack CliStop_wire CliStop_read CliStop_ok
proof
  show "emits (CliStop_pack d) (CliStop_wire d)" for d
    unfolding CliStop_pack_def CliStop_wire_def by (rule emits_rules)+
  show "parses CliStop_read d (CliStop_wire d)" if "CliStop_ok d" for d
    using that unfolding CliStop_ok_def CliStop_read_def CliStop_wire_def
    by - (rule parses_rules | simp)+
qed

subsection \<open>\<open>CliStopMoving\<close>\<close>

record CliStopMoving =
  m_x :: f32
  m_y :: f32
  m_z :: u16

definition CliStopMoving_read :: "CRosePacket \<Rightarrow> CliStopMoving \<times> CRosePacket" where
  "CliStopMoving_read = scomp get_u32 (\<lambda>x. scomp get_u32 (\<lambda>y. scomp get_u16 (\<lambda>z.
     Pair \<lparr>m_x = x, m_y = y, m_z = z\<rparr>)))"

definition CliStopMoving_recv :: "byte list \<Rightarrow> byte list \<Rightarrow> packet_error + CliStopMoving" where
  "CliStopMoving_recv = recv_packet PAKCS_STOP_MOVING CliStopMoving_read"

definition CliStopMoving_pack :: "CliStopMoving \<Rightarrow> CRosePacket \<Rightarrow> CRosePacket" where
  "CliStopMoving_pack d = chain [put_u32 (m_x d), put_u32 (m_y d), put_u16 (m_z d)]"

definition CliStopMoving_wire :: "CliStopMoving \<Rightarrow> byte list" where
  "CliStopMoving_wire d = le_bytes 4 (m_x d) @ le_bytes 4 (m_y d) @ le_bytes 2 (m_z d)"

definition CliStopMoving_ok :: "CliStopMoving \<Rightarrow> bool" where
  "CliStopMoving_ok d \<longleftrightarrow> True"

interpretation CliStopMoving: serial CliStopMoving_pack CliStopMoving_wire CliStopMoving_read CliStopMoving_ok
proof
  show "emits (CliStopMoving_pack d) (CliStopMoving_wire d)" for d
    unfolding CliStopMoving_pack_def CliStopMoving_wire_def by (rule emits_rules)+
  show "parses CliStopMoving_read d (CliStopMoving_wire d)" if "CliStopMoving_ok d" for d
    using that unfolding CliStopMoving_ok_def CliStopMoving_read_def CliStopMoving_wire_def
    by - (rule parses_rules | simp)+
qed

subsection \<open>\<open>CliWhisperChat\<close>\<close>

record CliWhisperChat =
  m_targetId :: cstring
  m_message :: cstring

definition CliWhisperChat_read :: "CRosePacket \<Rightarrow> CliWhisperChat \<times> CRosePacket" where
  "CliWhisperChat_read = scomp get_string (\<lambda>targetId. scomp get_string (\<lambda>message.
     Pair \<lparr>m_targetId = targetId, m_message = message\<rparr>))"

definition CliWhisperChat_recv :: "byte list \<Rightarrow> byte list \<Rightarrow> packet_error + CliWhisperChat" where
  "CliWhisperChat_recv = recv_packet PAKCS_WHISPER_CHAT CliWhisperChat_read"

definition CliWhisperChat_pack :: "CliWhisperChat \<Rightarrow> CRosePacket \<Rightarrow> CRosePacket" where
  "CliWhisperChat_pack d = chain [put_string (m_targetId d), put_string (m_message d)]"

definition CliWhisperChat_wire :: "CliWhisperChat \<Rightarrow> byte list" where
  "CliWhisperChat_wire d = (m_targetId d @ [0]) @ (m_message d @ [0])"

definition CliWhisperChat_ok :: "CliWhisperChat \<Rightarrow> bool" where
  "CliWhisperChat_ok d \<longleftrightarrow> 0 \<notin> set (m_targetId d) \<and> 0 \<notin> set (m_message d)"

interpretation CliWhisperChat: serial CliWhisperChat_pack CliWhisperChat_wire CliWhisperChat_read CliWhisperChat_ok
proof
  show "emits (CliWhisperChat_pack d) (CliWhisperChat_wire d)" for d
    unfolding CliWhisperChat_pack_def CliWhisperChat_wire_def by (rule emits_rules)+
  show "parses CliWhisperChat_read d (CliWhisperChat_wire d)" if "CliWhisperChat_ok d" for d
    using that unfolding CliWhisperChat_ok_def CliWhisperChat_read_def CliWhisperChat_wire_def
    by - (rule parses_rules | simp)+
qed

subsection \<open>\<open>IscServerRegister\<close>\<close>

record IscServerRegister =
  m_serverType :: u8
  m_name :: cstring
  m_addr :: cstring
  m_port :: u32
  m_right :: u32
  m_id :: u32

definition IscServerRegister_read :: "CRosePacket \<Rightarrow> IscServerRegister \<times> CRosePacket" where
  "IscServerRegister_read = scomp get_u8 (\<lambda>serverType. scomp get_string (\<lambda>name. scomp get_string (\<lambda>addr. scomp get_u32 (\<lambda>port. scomp get_u32 (\<lambda>right. scomp get_u32 (\<lambda>id.
     Pair \<lparr>m_serverType = serverType, m_name = name, m_addr = addr, m_port = port, m_right = right, m_id = id\<rparr>))))))"

definition IscServerRegister_recv :: "byte list \<Rightarrow> byte list \<Rightarrow> packet_error + IscServerRegister" where
  "IscServerRegister_recv = recv_packet ISC_SERVER_REGISTER IscServerRegister_read"

definition IscServerRegister_pack :: "IscServerRegister \<Rightarrow> CRosePacket \<Rightarrow> CRosePacket" where
  "IscServerRegister_pack d = chain [put_u8 (m_serverType d), put_string (m_name d), put_string (m_addr d), put_u32 (m_port d), put_u32 (m_right d), put_u32 (m_id d)]"

definition IscServerRegister_wire :: "IscServerRegister \<Rightarrow> byte list" where
  "IscServerRegister_wire d = [m_serverType d] @ (m_name d @ [0]) @ (m_addr d @ [0]) @ le_bytes 4 (m_port d) @ le_bytes 4 (m_right d) @ le_bytes 4 (m_id d)"

definition IscServerRegister_ok :: "IscServerRegister \<Rightarrow> bool" where
  "IscServerRegister_ok d \<longleftrightarrow> 0 \<notin> set (m_name d) \<and> 0 \<notin> set (m_addr d)"

interpretation IscServerRegister: serial IscServerRegister_pack IscServerRegister_wire IscServerRegister_read IscServerRegister_ok
proof
  show "emits (IscServerRegister_pack d) (IscServerRegister_wire d)" for d
    unfolding IscServerRegister_pack_def IscServerRegister_wire_def by (rule emits_rules)+
  show "parses IscServerRegister_read d (IscServerRegister_wire d)" if "IscServerRegister_ok d" for d
    using that unfolding IscServerRegister_ok_def IscServerRegister_read_def IscServerRegister_wire_def
    by - (rule parses_rules | simp)+
qed

subsection \<open>\<open>IscShutdown\<close>\<close>

record IscShutdown =
  m_serverType :: u8
  m_id :: u32

definition IscShutdown_read :: "CRosePacket \<Rightarrow> IscShutdown \<times> CRosePacket" where
  "IscShutdown_read = scomp get_u8 (\<lambda>serverType. scomp get_u32 (\<lambda>id.
     Pair \<lparr>m_serverType = serverType, m_id = id\<rparr>))"

definition IscShutdown_recv :: "byte list \<Rightarrow> byte list \<Rightarrow> packet_error + IscShutdown" where
  "IscShutdown_recv = recv_packet ISC_SHUTDOWN IscShutdown_read"

definition IscShutdown_pack :: "IscShutdown \<Rightarrow> CRosePacket \<Rightarrow> CRosePacket" where
  "IscShutdown_pack d = chain [put_u8 (m_serverType d), put_u32 (m_id d)]"

definition IscShutdown_wire :: "IscShutdown \<Rightarrow> byte list" where
  "IscShutdown_wire d = [m_serverType d] @ le_bytes 4 (m_id d)"

definition IscShutdown_ok :: "IscShutdown \<Rightarrow> bool" where
  "IscShutdown_ok d \<longleftrightarrow> True"

interpretation IscShutdown: serial IscShutdown_pack IscShutdown_wire IscShutdown_read IscShutdown_ok
proof
  show "emits (IscShutdown_pack d) (IscShutdown_wire d)" for d
    unfolding IscShutdown_pack_def IscShutdown_wire_def by (rule emits_rules)+
  show "parses IscShutdown_read d (IscShutdown_wire d)" if "IscShutdown_ok d" for d
    using that unfolding IscShutdown_ok_def IscShutdown_read_def IscShutdown_wire_def
    by - (rule parses_rules | simp)+
qed

end
