(* ===== verification/PacketFactory.thy ===== *)
theory PacketFactory
  imports Packets_Client
begin

text \<open>
  The packet factory: \<open>Core::Factory\<close> of \<open>core/include/factory.h\<close> and its use in
  \<open>rosecommon/include/packetfactory.h\<close>. The factory is a table from packet identifiers to
  receiving constructors. Each packet class registers its own constructor; \<open>fetchPacket\<close> looks the
  identifier of a raw buffer up and runs what it finds, and yields a null pointer when there is none.
\<close>

section \<open>The generic factory\<close>

type_synonym ('k, 'f) associations = "('k \<times> 'f) list"

text \<open>\<open>getAssociations()[key] = f\<close>, and \<open>create\<close>; \<open>ReturnType{}\<close> is the null pointer.\<close>

definition Factory_register :: "'k \<Rightarrow> 'f \<Rightarrow> ('k, 'f) associations \<Rightarrow> ('k, 'f) associations" where
  "Factory_register key f assoc = (key, f) # filter (\<lambda>(k, _). k \<noteq> key) assoc"

definition Factory_create :: "('k, 'a \<Rightarrow> 'e + 'r) associations \<Rightarrow> 'k \<Rightarrow> 'a \<Rightarrow> 'e + 'r option" where
  "Factory_create assoc key args =
    (case map_of assoc key of
       None \<Rightarrow> Inr None
     | Some f \<Rightarrow> (case f args of Inl e \<Rightarrow> Inl e | Inr r \<Rightarrow> Inr (Some r)))"

text \<open>A table of constructors, seen through the lookup a client performs.\<close>

locale registry =
  fixes register :: "'k \<Rightarrow> 'f \<Rightarrow> 't \<Rightarrow> 't"
    and lookup :: "'t \<Rightarrow> 'k \<Rightarrow> 'f option"
    and initial :: 't
  assumes lookup_initial: "lookup initial k = None"
    and lookup_register: "lookup (register k f t) k' = (if k' = k then Some f else lookup t k')"
begin

text \<open>Registering a class twice, as the header and the source file of a class both do, is harmless.\<close>

lemma register_twice: "lookup (register k f (register k f t)) = lookup (register k f t)"
  by (rule ext) (simp add: lookup_register)

lemma lookup_fold_register:
  "distinct (map fst rs) \<Longrightarrow> (k, f) \<in> set rs \<Longrightarrow>
    lookup (fold (\<lambda>(k, f). register k f) rs t) k = Some f"
proof (induction rs arbitrary: t rule: rev_induct)
  case Nil
  then show ?case by simp
next
  case (snoc r rs)
  then show ?case by (cases r) (auto simp: lookup_register image_iff)
qed

lemma lookup_fold_register_other:
  "k \<notin> fst ` set rs \<Longrightarrow> lookup (fold (\<lambda>(k, f). register k f) rs t) k = lookup t k"
proof (induction rs arbitrary: t)
  case Nil
  then show ?case by simp
next
  case (Cons r rs)
  then show ?case by (cases r) (auto simp: lookup_register)
qed

end

interpretation factory: registry Factory_register map_of "[]"
proof
  show "map_of [] k = None" for k :: 'a by simp
  show "map_of (Factory_register k f t) k' = (if k' = k then Some f else map_of t k')"
    for k k' :: 'a and f :: 'b and t
  proof -
    have "map_of (filter (\<lambda>(k', _). k' \<noteq> k) t) k' = (if k' = k then None else map_of t k')"
      by (induction t) auto
    then show ?thesis by (simp add: Factory_register_def)
  qed
qed

section \<open>The registered packet classes\<close>

datatype rose_packet =
    P_CliAcceptReq CliAcceptReq
  | P_CliAlive CliAlive
  | P_CliChangeMapReq CliChangeMapReq
  | P_CliChannelListReq CliChannelListReq
  | P_CliCharListReq CliCharListReq
  | P_CliCreateCharReq CliCreateCharReq
  | P_CliDeleteCharReq CliDeleteCharReq
  | P_CliDropItem CliDropItem
  | P_CliEquipItem CliEquipItem
  | P_CliJoinServerReq CliJoinServerReq
  | P_CliLoginReq CliLoginReq
  | P_CliLogoutReq CliLogoutReq
  | P_CliMouseCmd CliMouseCmd
  | P_CliNormalChat CliNormalChat
  | P_CliPartyChat CliPartyChat
  | P_CliPartyReply CliPartyReply
  | P_CliPartyReq CliPartyReq
  | P_CliReviveReq CliReviveReq
  | P_CliScreenShotTimeReq CliScreenShotTimeReq
  | P_CliSelectCharReq CliSelectCharReq
  | P_CliSrvSelectReq CliSrvSelectReq
  | P_CliStop CliStop
  | P_CliStopMoving CliStopMoving
  | P_CliWhisperChat CliWhisperChat
  | P_IscServerRegister IscServerRegister
  | P_IscShutdown IscShutdown

fun packet_id :: "rose_packet \<Rightarrow> u16" where
  "packet_id (P_CliAcceptReq d) = PAKCS_ACCEPT_REQ"
| "packet_id (P_CliAlive d) = PAKCS_ALIVE"
| "packet_id (P_CliChangeMapReq d) = PAKCS_CHANGE_MAP_REQ"
| "packet_id (P_CliChannelListReq d) = PAKCS_CHANNEL_LIST_REQ"
| "packet_id (P_CliCharListReq d) = PAKCS_CHAR_LIST_REQ"
| "packet_id (P_CliCreateCharReq d) = PAKCS_CREATE_CHAR_REQ"
| "packet_id (P_CliDeleteCharReq d) = PAKCS_DELETE_CHAR_REQ"
| "packet_id (P_CliDropItem d) = PAKCS_DROP_ITEM"
| "packet_id (P_CliEquipItem d) = PAKCS_EQUIP_ITEM"
| "packet_id (P_CliJoinServerReq d) = PAKCS_JOIN_SERVER_REQ"
| "packet_id (P_CliLoginReq d) = PAKCS_LOGIN_REQ"
| "packet_id (P_CliLogoutReq d) = PAKCS_LOGOUT_REQ"
| "packet_id (P_CliMouseCmd d) = PAKCS_MOUSE_CMD"
| "packet_id (P_CliNormalChat d) = PAKCS_NORMAL_CHAT"
| "packet_id (P_CliPartyChat d) = PAKCS_PARTY_CHAT"
| "packet_id (P_CliPartyReply d) = PAKCS_PARTY_REPLY"
| "packet_id (P_CliPartyReq d) = PAKCS_PARTY_REQ"
| "packet_id (P_CliReviveReq d) = PAKCS_REVIVE_REQ"
| "packet_id (P_CliScreenShotTimeReq d) = PAKCS_SCREEN_SHOT_TIME_REQ"
| "packet_id (P_CliSelectCharReq d) = PAKCS_SELECT_CHAR_REQ"
| "packet_id (P_CliSrvSelectReq d) = PAKCS_SRV_SELECT_REQ"
| "packet_id (P_CliStop d) = PAKCS_STOP"
| "packet_id (P_CliStopMoving d) = PAKCS_STOP_MOVING"
| "packet_id (P_CliWhisperChat d) = PAKCS_WHISPER_CHAT"
| "packet_id (P_IscServerRegister d) = ISC_SERVER_REGISTER"
| "packet_id (P_IscShutdown d) = ISC_SHUTDOWN"

fun packet_pack :: "rose_packet \<Rightarrow> CRosePacket \<Rightarrow> CRosePacket" where
  "packet_pack (P_CliAcceptReq d) = CliAcceptReq_pack d"
| "packet_pack (P_CliAlive d) = CliAlive_pack d"
| "packet_pack (P_CliChangeMapReq d) = CliChangeMapReq_pack d"
| "packet_pack (P_CliChannelListReq d) = CliChannelListReq_pack d"
| "packet_pack (P_CliCharListReq d) = CliCharListReq_pack d"
| "packet_pack (P_CliCreateCharReq d) = CliCreateCharReq_pack d"
| "packet_pack (P_CliDeleteCharReq d) = CliDeleteCharReq_pack d"
| "packet_pack (P_CliDropItem d) = CliDropItem_pack d"
| "packet_pack (P_CliEquipItem d) = CliEquipItem_pack d"
| "packet_pack (P_CliJoinServerReq d) = CliJoinServerReq_pack d"
| "packet_pack (P_CliLoginReq d) = CliLoginReq_pack d"
| "packet_pack (P_CliLogoutReq d) = CliLogoutReq_pack d"
| "packet_pack (P_CliMouseCmd d) = CliMouseCmd_pack d"
| "packet_pack (P_CliNormalChat d) = CliNormalChat_pack d"
| "packet_pack (P_CliPartyChat d) = CliPartyChat_pack d"
| "packet_pack (P_CliPartyReply d) = CliPartyReply_pack d"
| "packet_pack (P_CliPartyReq d) = CliPartyReq_pack d"
| "packet_pack (P_CliReviveReq d) = CliReviveReq_pack d"
| "packet_pack (P_CliScreenShotTimeReq d) = CliScreenShotTimeReq_pack d"
| "packet_pack (P_CliSelectCharReq d) = CliSelectCharReq_pack d"
| "packet_pack (P_CliSrvSelectReq d) = CliSrvSelectReq_pack d"
| "packet_pack (P_CliStop d) = CliStop_pack d"
| "packet_pack (P_CliStopMoving d) = CliStopMoving_pack d"
| "packet_pack (P_CliWhisperChat d) = CliWhisperChat_pack d"
| "packet_pack (P_IscServerRegister d) = IscServerRegister_pack d"
| "packet_pack (P_IscShutdown d) = IscShutdown_pack d"

fun packet_wire :: "rose_packet \<Rightarrow> byte list" where
  "packet_wire (P_CliAcceptReq d) = CliAcceptReq_wire d"
| "packet_wire (P_CliAlive d) = CliAlive_wire d"
| "packet_wire (P_CliChangeMapReq d) = CliChangeMapReq_wire d"
| "packet_wire (P_CliChannelListReq d) = CliChannelListReq_wire d"
| "packet_wire (P_CliCharListReq d) = CliCharListReq_wire d"
| "packet_wire (P_CliCreateCharReq d) = CliCreateCharReq_wire d"
| "packet_wire (P_CliDeleteCharReq d) = CliDeleteCharReq_wire d"
| "packet_wire (P_CliDropItem d) = CliDropItem_wire d"
| "packet_wire (P_CliEquipItem d) = CliEquipItem_wire d"
| "packet_wire (P_CliJoinServerReq d) = CliJoinServerReq_wire d"
| "packet_wire (P_CliLoginReq d) = CliLoginReq_wire d"
| "packet_wire (P_CliLogoutReq d) = CliLogoutReq_wire d"
| "packet_wire (P_CliMouseCmd d) = CliMouseCmd_wire d"
| "packet_wire (P_CliNormalChat d) = CliNormalChat_wire d"
| "packet_wire (P_CliPartyChat d) = CliPartyChat_wire d"
| "packet_wire (P_CliPartyReply d) = CliPartyReply_wire d"
| "packet_wire (P_CliPartyReq d) = CliPartyReq_wire d"
| "packet_wire (P_CliReviveReq d) = CliReviveReq_wire d"
| "packet_wire (P_CliScreenShotTimeReq d) = CliScreenShotTimeReq_wire d"
| "packet_wire (P_CliSelectCharReq d) = CliSelectCharReq_wire d"
| "packet_wire (P_CliSrvSelectReq d) = CliSrvSelectReq_wire d"
| "packet_wire (P_CliStop d) = CliStop_wire d"
| "packet_wire (P_CliStopMoving d) = CliStopMoving_wire d"
| "packet_wire (P_CliWhisperChat d) = CliWhisperChat_wire d"
| "packet_wire (P_IscServerRegister d) = IscServerRegister_wire d"
| "packet_wire (P_IscShutdown d) = IscShutdown_wire d"

fun packet_ok :: "rose_packet \<Rightarrow> bool" where
  "packet_ok (P_CliAcceptReq d) = CliAcceptReq_ok d"
| "packet_ok (P_CliAlive d) = CliAlive_ok d"
| "packet_ok (P_CliChangeMapReq d) = CliChangeMapReq_ok d"
| "packet_ok (P_CliChannelListReq d) = CliChannelListReq_ok d"
| "packet_ok (P_CliCharListReq d) = CliCharListReq_ok d"
| "packet_ok (P_CliCreateCharReq d) = CliCreateCharReq_ok d"
| "packet_ok (P_CliDeleteCharReq d) = CliDeleteCharReq_ok d"
| "packet_ok (P_CliDropItem d) = CliDropItem_ok d"
| "packet_ok (P_CliEquipItem d) = CliEquipItem_ok d"
| "packet_ok (P_CliJoinServerReq d) = CliJoinServerReq_ok d"
| "packet_ok (P_CliLoginReq d) = CliLoginReq_ok d"
| "packet_ok (P_CliLogoutReq d) = CliLogoutReq_ok d"
| "packet_ok (P_CliMouseCmd d) = CliMouseCmd_ok d"
| "packet_ok (P_CliNormalChat d) = CliNormalChat_ok d"
| "packet_ok (P_CliPartyChat d) = CliPartyChat_ok d"
| "packet_ok (P_CliPartyReply d) = CliPartyReply_ok d"
| "packet_ok (P_CliPartyReq d) = CliPartyReq_ok d"
| "packet_ok (P_CliReviveReq d) = CliReviveReq_ok d"
| "packet_ok (P_CliScreenShotTimeReq d) = CliScreenShotTimeReq_ok d"
| "packet_ok (P_CliSelectCharReq d) = CliSelectCharReq_ok d"
| "packet_ok (P_CliSrvSelectReq d) = CliSrvSelectReq_ok d"
| "packet_ok (P_CliStop d) = CliStop_ok d"
| "packet_ok (P_CliStopMoving d) = CliStopMoving_ok d"
| "packet_ok (P_CliWhisperChat d) = CliWhisperChat_ok d"
| "packet_ok (P_IscServerRegister d) = IscServerRegister_ok d"
| "packet_ok (P_IscShutdown d) = IscShutdown_ok d"

text \<open>\<open>createPacket<T>\<close>: construct a \<open>T\<close> from the buffer; the argument pair is the memory of the
  new object and the buffer.\<close>

definition createPacket :: "('a \<Rightarrow> rose_packet) \<Rightarrow> (byte list \<Rightarrow> byte list \<Rightarrow> packet_error + 'a)
    \<Rightarrow> byte list \<times> byte list \<Rightarrow> packet_error + rose_packet" where
  "createPacket C recv = (\<lambda>(g, buffer). case recv g buffer of Inl e \<Rightarrow> Inl e | Inr d \<Rightarrow> Inr (C d))"

text \<open>The registrations of the packet classes, which all servers share. The node server has one more, of
  \<open>SrvSrvSelectReply\<close> (\<open>node/src/nodeclient.cpp\<close>): it is not in this list. Only the map server calls
  \<open>fetchPacket\<close>.\<close>

definition registrations :: "(u16 \<times> (byte list \<times> byte list \<Rightarrow> packet_error + rose_packet)) list" where
  "registrations =
    [(PAKCS_ACCEPT_REQ, createPacket P_CliAcceptReq CliAcceptReq_recv),
     (PAKCS_ALIVE, createPacket P_CliAlive CliAlive_recv),
     (PAKCS_CHANGE_MAP_REQ, createPacket P_CliChangeMapReq CliChangeMapReq_recv),
     (PAKCS_CHANNEL_LIST_REQ, createPacket P_CliChannelListReq CliChannelListReq_recv),
     (PAKCS_CHAR_LIST_REQ, createPacket P_CliCharListReq CliCharListReq_recv),
     (PAKCS_CREATE_CHAR_REQ, createPacket P_CliCreateCharReq CliCreateCharReq_recv),
     (PAKCS_DELETE_CHAR_REQ, createPacket P_CliDeleteCharReq CliDeleteCharReq_recv),
     (PAKCS_DROP_ITEM, createPacket P_CliDropItem CliDropItem_recv),
     (PAKCS_EQUIP_ITEM, createPacket P_CliEquipItem CliEquipItem_recv),
     (PAKCS_JOIN_SERVER_REQ, createPacket P_CliJoinServerReq CliJoinServerReq_recv),
     (PAKCS_LOGIN_REQ, createPacket P_CliLoginReq CliLoginReq_recv),
     (PAKCS_LOGOUT_REQ, createPacket P_CliLogoutReq CliLogoutReq_recv),
     (PAKCS_MOUSE_CMD, createPacket P_CliMouseCmd CliMouseCmd_recv),
     (PAKCS_NORMAL_CHAT, createPacket P_CliNormalChat CliNormalChat_recv),
     (PAKCS_PARTY_CHAT, createPacket P_CliPartyChat CliPartyChat_recv),
     (PAKCS_PARTY_REPLY, createPacket P_CliPartyReply CliPartyReply_recv),
     (PAKCS_PARTY_REQ, createPacket P_CliPartyReq CliPartyReq_recv),
     (PAKCS_REVIVE_REQ, createPacket P_CliReviveReq CliReviveReq_recv),
     (PAKCS_SCREEN_SHOT_TIME_REQ, createPacket P_CliScreenShotTimeReq CliScreenShotTimeReq_recv),
     (PAKCS_SELECT_CHAR_REQ, createPacket P_CliSelectCharReq CliSelectCharReq_recv),
     (PAKCS_SRV_SELECT_REQ, createPacket P_CliSrvSelectReq CliSrvSelectReq_recv),
     (PAKCS_STOP, createPacket P_CliStop CliStop_recv),
     (PAKCS_STOP_MOVING, createPacket P_CliStopMoving CliStopMoving_recv),
     (PAKCS_WHISPER_CHAT, createPacket P_CliWhisperChat CliWhisperChat_recv),
     (ISC_SERVER_REGISTER, createPacket P_IscServerRegister IscServerRegister_recv),
     (ISC_SHUTDOWN, createPacket P_IscShutdown IscShutdown_recv)]"

definition RecvPacketFactory :: "(u16, byte list \<times> byte list \<Rightarrow> packet_error + rose_packet) associations" where
  "RecvPacketFactory = fold (\<lambda>(k, f). Factory_register k f) registrations []"

definition fetchPacket :: "byte list \<Rightarrow> byte list \<Rightarrow> packet_error + rose_packet option" where
  "fetchPacket g buffer = Factory_create RecvPacketFactory (packet_type buffer) (g, buffer)"

section \<open>Lookup in the table\<close>

lemma distinct_registrations: "distinct (map fst registrations)"
  by (simp add: registrations_def packet_types)

lemma RecvPacketFactory_registered:
  "(k, f) \<in> set registrations \<Longrightarrow> map_of RecvPacketFactory k = Some f"
  unfolding RecvPacketFactory_def
  by (rule factory.lookup_fold_register [OF distinct_registrations])

lemma RecvPacketFactory_unregistered:
  "k \<notin> fst ` set registrations \<Longrightarrow> map_of RecvPacketFactory k = None"
  unfolding RecvPacketFactory_def using factory.lookup_fold_register_other [of k registrations "[]"]
  by simp

lemma registered_classes:
  "map_of RecvPacketFactory PAKCS_ACCEPT_REQ = Some (createPacket P_CliAcceptReq CliAcceptReq_recv)"
  "map_of RecvPacketFactory PAKCS_ALIVE = Some (createPacket P_CliAlive CliAlive_recv)"
  "map_of RecvPacketFactory PAKCS_CHANGE_MAP_REQ = Some (createPacket P_CliChangeMapReq CliChangeMapReq_recv)"
  "map_of RecvPacketFactory PAKCS_CHANNEL_LIST_REQ = Some (createPacket P_CliChannelListReq CliChannelListReq_recv)"
  "map_of RecvPacketFactory PAKCS_CHAR_LIST_REQ = Some (createPacket P_CliCharListReq CliCharListReq_recv)"
  "map_of RecvPacketFactory PAKCS_CREATE_CHAR_REQ = Some (createPacket P_CliCreateCharReq CliCreateCharReq_recv)"
  "map_of RecvPacketFactory PAKCS_DELETE_CHAR_REQ = Some (createPacket P_CliDeleteCharReq CliDeleteCharReq_recv)"
  "map_of RecvPacketFactory PAKCS_DROP_ITEM = Some (createPacket P_CliDropItem CliDropItem_recv)"
  "map_of RecvPacketFactory PAKCS_EQUIP_ITEM = Some (createPacket P_CliEquipItem CliEquipItem_recv)"
  "map_of RecvPacketFactory PAKCS_JOIN_SERVER_REQ = Some (createPacket P_CliJoinServerReq CliJoinServerReq_recv)"
  "map_of RecvPacketFactory PAKCS_LOGIN_REQ = Some (createPacket P_CliLoginReq CliLoginReq_recv)"
  "map_of RecvPacketFactory PAKCS_LOGOUT_REQ = Some (createPacket P_CliLogoutReq CliLogoutReq_recv)"
  "map_of RecvPacketFactory PAKCS_MOUSE_CMD = Some (createPacket P_CliMouseCmd CliMouseCmd_recv)"
  "map_of RecvPacketFactory PAKCS_NORMAL_CHAT = Some (createPacket P_CliNormalChat CliNormalChat_recv)"
  "map_of RecvPacketFactory PAKCS_PARTY_CHAT = Some (createPacket P_CliPartyChat CliPartyChat_recv)"
  "map_of RecvPacketFactory PAKCS_PARTY_REPLY = Some (createPacket P_CliPartyReply CliPartyReply_recv)"
  "map_of RecvPacketFactory PAKCS_PARTY_REQ = Some (createPacket P_CliPartyReq CliPartyReq_recv)"
  "map_of RecvPacketFactory PAKCS_REVIVE_REQ = Some (createPacket P_CliReviveReq CliReviveReq_recv)"
  "map_of RecvPacketFactory PAKCS_SCREEN_SHOT_TIME_REQ = Some (createPacket P_CliScreenShotTimeReq CliScreenShotTimeReq_recv)"
  "map_of RecvPacketFactory PAKCS_SELECT_CHAR_REQ = Some (createPacket P_CliSelectCharReq CliSelectCharReq_recv)"
  "map_of RecvPacketFactory PAKCS_SRV_SELECT_REQ = Some (createPacket P_CliSrvSelectReq CliSrvSelectReq_recv)"
  "map_of RecvPacketFactory PAKCS_STOP = Some (createPacket P_CliStop CliStop_recv)"
  "map_of RecvPacketFactory PAKCS_STOP_MOVING = Some (createPacket P_CliStopMoving CliStopMoving_recv)"
  "map_of RecvPacketFactory PAKCS_WHISPER_CHAT = Some (createPacket P_CliWhisperChat CliWhisperChat_recv)"
  "map_of RecvPacketFactory ISC_SERVER_REGISTER = Some (createPacket P_IscServerRegister IscServerRegister_recv)"
  "map_of RecvPacketFactory ISC_SHUTDOWN = Some (createPacket P_IscShutdown IscShutdown_recv)"
  by (rule RecvPacketFactory_registered, simp add: registrations_def)+

lemmas packet_class_emits =
  CliAcceptReq.emits_pack
  CliAlive.emits_pack
  CliChangeMapReq.emits_pack
  CliChannelListReq.emits_pack
  CliCharListReq.emits_pack
  CliCreateCharReq.emits_pack
  CliDeleteCharReq.emits_pack
  CliDropItem.emits_pack
  CliEquipItem.emits_pack
  CliJoinServerReq.emits_pack
  CliLoginReq.emits_pack
  CliLogoutReq.emits_pack
  CliMouseCmd.emits_pack
  CliNormalChat.emits_pack
  CliPartyChat.emits_pack
  CliPartyReply.emits_pack
  CliPartyReq.emits_pack
  CliReviveReq.emits_pack
  CliScreenShotTimeReq.emits_pack
  CliSelectCharReq.emits_pack
  CliSrvSelectReq.emits_pack
  CliStop.emits_pack
  CliStopMoving.emits_pack
  CliWhisperChat.emits_pack
  IscServerRegister.emits_pack
  IscShutdown.emits_pack

lemma emits_packet_pack: "emits (packet_pack p) (packet_wire p)"
  by (cases p) (simp_all add: packet_class_emits)

interpretation packets: emitter packet_pack packet_wire
  by standard (rule emits_packet_pack)

lemmas packet_class_recv =
  CliAcceptReq.recv_sent
  CliAlive.recv_sent
  CliChangeMapReq.recv_sent
  CliChannelListReq.recv_sent
  CliCharListReq.recv_sent
  CliCreateCharReq.recv_sent
  CliDeleteCharReq.recv_sent
  CliDropItem.recv_sent
  CliEquipItem.recv_sent
  CliJoinServerReq.recv_sent
  CliLoginReq.recv_sent
  CliLogoutReq.recv_sent
  CliMouseCmd.recv_sent
  CliNormalChat.recv_sent
  CliPartyChat.recv_sent
  CliPartyReply.recv_sent
  CliPartyReq.recv_sent
  CliReviveReq.recv_sent
  CliScreenShotTimeReq.recv_sent
  CliSelectCharReq.recv_sent
  CliSrvSelectReq.recv_sent
  CliStop.recv_sent
  CliStopMoving.recv_sent
  CliWhisperChat.recv_sent
  IscServerRegister.recv_sent
  IscShutdown.recv_sent

lemmas packet_class_recv_defs =
  CliAcceptReq_recv_def
  CliAlive_recv_def
  CliChangeMapReq_recv_def
  CliChannelListReq_recv_def
  CliCharListReq_recv_def
  CliCreateCharReq_recv_def
  CliDeleteCharReq_recv_def
  CliDropItem_recv_def
  CliEquipItem_recv_def
  CliJoinServerReq_recv_def
  CliLoginReq_recv_def
  CliLogoutReq_recv_def
  CliMouseCmd_recv_def
  CliNormalChat_recv_def
  CliPartyChat_recv_def
  CliPartyReply_recv_def
  CliPartyReq_recv_def
  CliReviveReq_recv_def
  CliScreenShotTimeReq_recv_def
  CliSelectCharReq_recv_def
  CliSrvSelectReq_recv_def
  CliStop_recv_def
  CliStopMoving_recv_def
  CliWhisperChat_recv_def
  IscServerRegister_recv_def
  IscShutdown_recv_def

text \<open>C7. A packet of any registered class that fits the buffer, packed by the sender and handed to
  \<open>fetchPacket\<close> by the receiver, comes back as a packet of the same class with the same members,
  whatever the memory of the two packet objects held before. Strings must not contain a NUL, and the
  password members must be exactly the 32 characters the protocol reserves for them.\<close>

theorem fetchPacket_sent:
  assumes "packet_ok p" and "6 + length (packet_wire p) < MAX_PACKET_SIZE"
    and "length g = MAX_PACKET_SIZE" and "length g' = MAX_PACKET_SIZE"
  shows "fetchPacket g' (fst (getPacked (packet_pack p) (CRosePacket_new (packet_id p) 0 g)))
    = Inr (Some p)"
proof -
  have "packet_type (fst (getPacked (packet_pack p) (CRosePacket_new (packet_id p) 0 g))) = packet_id p"
    using assms by (simp add: packets.sent_bytes)
  then show ?thesis
    using assms
    by (cases p) (simp_all add: fetchPacket_def Factory_create_def registered_classes createPacket_def
        packet_class_recv packet_class_recv_defs)
qed

text \<open>A login request, packed and fetched.\<close>

definition sample_login :: CliLoginReq where
  "sample_login = \<lparr>CliLoginReq.m_password = replicate 32 0x61, CliLoginReq.m_username = [0x72, 0x6F]\<rparr>"

theorem fetchPacket_sent_witness:
  "fetchPacket (replicate MAX_PACKET_SIZE 255)
     (fst (getPacked (packet_pack (P_CliLoginReq sample_login))
        (CRosePacket_new PAKCS_LOGIN_REQ 0 (replicate MAX_PACKET_SIZE 7))))
   = Inr (Some (P_CliLoginReq sample_login))"
proof -
  have "packet_ok (P_CliLoginReq sample_login)"
    by (simp add: CliLoginReq_ok_def sample_login_def)
  moreover have "6 + length (packet_wire (P_CliLoginReq sample_login)) < MAX_PACKET_SIZE"
    by (simp add: CliLoginReq_wire_def sample_login_def MAX_PACKET_SIZE_def)
  ultimately show ?thesis
    using fetchPacket_sent [of "P_CliLoginReq sample_login" "replicate MAX_PACKET_SIZE 7"
        "replicate MAX_PACKET_SIZE 255"]
    by simp
qed

text \<open>A buffer whose identifier no class registered yields the null pointer, whatever the rest of
  the buffer holds: nothing is copied and no exception is raised.\<close>

theorem fetchPacket_unknown:
  assumes "packet_type buffer \<notin> fst ` set registrations"
  shows "fetchPacket g buffer = Inr None"
  using assms by (simp add: fetchPacket_def Factory_create_def RecvPacketFactory_unregistered)

theorem fetchPacket_unknown_witness:
  "fetchPacket [] [6, 0, 0x8D, 0x07, 0, 0] = Inr None"
proof -
  have "packet_type [6, 0, 0x8D, 0x07, 0, 0] = 0x78D"
    by (simp add: packet_type_def)
  then have "packet_type [6, 0, 0x8D, 0x07, 0, 0] \<notin> fst ` set registrations"
    by (simp add: registrations_def packet_types)
  then show ?thesis by (rule fetchPacket_unknown)
qed

end
