(* ===== verification/CRoseCrypt.thy ===== *)
theory CRoseCrypt
  imports CRosePacket "HOL-Library.Signed_Division" "HOL-Library.While_Combinator"
begin

text \<open>
  The packet cipher of \<open>rosecommon/src/crosecrypt.cpp\<close> and \<open>include/crosecrypt.h\<close>: the four
  linear congruential generators, the key tables they fill, the bit-field layouts of the header, and
  the encoders and decoders of both directions. C++ \<open>int\<close> arithmetic is modelled at 32 bits with
  wrap-around, and bit-fields are allocated from the least significant bit, as the supported
  compilers do. A function that indexes the buffer yields \<open>None\<close> where the source would read or
  write past the end of the \<open>length buffer\<close> bytes it was given.
\<close>

section \<open>The checksum table\<close>

definition CrcTable :: "byte list" where
  "CrcTable =
    [0x00, 0x5E, 0xBC, 0xE2, 0x61, 0x3F, 0xDD, 0x83, 0xC2, 0x9C, 0x7E, 0x20, 0xA3, 0xFD, 0x1F, 0x41,
     0x9D, 0xC3, 0x21, 0x7F, 0xFC, 0xA2, 0x40, 0x1E, 0x5F, 0x01, 0xE3, 0xBD, 0x3E, 0x60, 0x82, 0xDC,
     0x23, 0x7D, 0x9F, 0xC1, 0x42, 0x1C, 0xFE, 0xA0, 0xE1, 0xBF, 0x5D, 0x03, 0x80, 0xDE, 0x3C, 0x62,
     0xBE, 0xE0, 0x02, 0x5C, 0xDF, 0x81, 0x63, 0x3D, 0x7C, 0x22, 0xC0, 0x9E, 0x1D, 0x43, 0xA1, 0xFF,
     0x46, 0x18, 0xFA, 0xA4, 0x27, 0x79, 0x9B, 0xC5, 0x84, 0xDA, 0x38, 0x66, 0xE5, 0xBB, 0x59, 0x07,
     0xDB, 0x85, 0x67, 0x39, 0xBA, 0xE4, 0x06, 0x58, 0x19, 0x47, 0xA5, 0xFB, 0x78, 0x26, 0xC4, 0x9A,
     0x65, 0x3B, 0xD9, 0x87, 0x04, 0x5A, 0xB8, 0xE6, 0xA7, 0xF9, 0x1B, 0x45, 0xC6, 0x98, 0x7A, 0x24,
     0xF8, 0xA6, 0x44, 0x1A, 0x99, 0xC7, 0x25, 0x7B, 0x3A, 0x64, 0x86, 0xD8, 0x5B, 0x05, 0xE7, 0xB9,
     0x8C, 0xD2, 0x30, 0x6E, 0xED, 0xB3, 0x51, 0x0F, 0x4E, 0x10, 0xF2, 0xAC, 0x2F, 0x71, 0x93, 0xCD,
     0x11, 0x4F, 0xAD, 0xF3, 0x70, 0x2E, 0xCC, 0x92, 0xD3, 0x8D, 0x6F, 0x31, 0xB2, 0xEC, 0x0E, 0x50,
     0xAF, 0xF1, 0x13, 0x4D, 0xCE, 0x90, 0x72, 0x2C, 0x6D, 0x33, 0xD1, 0x8F, 0x0C, 0x52, 0xB0, 0xEE,
     0x32, 0x6C, 0x8E, 0xD0, 0x53, 0x0D, 0xEF, 0xB1, 0xF0, 0xAE, 0x4C, 0x12, 0x91, 0xCF, 0x2D, 0x73,
     0xCA, 0x94, 0x76, 0x28, 0xAB, 0xF5, 0x17, 0x49, 0x08, 0x56, 0xB4, 0xEA, 0x69, 0x37, 0xD5, 0x8B,
     0x57, 0x09, 0xEB, 0xB5, 0x36, 0x68, 0x8A, 0xD4, 0x95, 0xCB, 0x29, 0x77, 0xF4, 0xAA, 0x48, 0x16,
     0xE9, 0xB7, 0x55, 0x0B, 0x88, 0xD6, 0x34, 0x6A, 0x2B, 0x75, 0x97, 0xC9, 0x4A, 0x14, 0xF6, 0xA8,
     0x74, 0x2A, 0xC8, 0x96, 0x15, 0x4B, 0xA9, 0xF7, 0xB6, 0xE8, 0x0A, 0x54, 0xD7, 0x89, 0x6B, 0x35, 0x00]"

section \<open>Random numbers\<close>

datatype RoseRandomNumber_Type = BC | AC | MY | VC

record RoseRandomNumber =
  r_type :: RoseRandomNumber_Type
  m_VcSeed :: u32
  m_BcSeed :: u32
  m_AcSeed :: u32
  m_MySeed :: u32

definition RoseRandomNumber_new :: "u32 \<Rightarrow> RoseRandomNumber" where
  "RoseRandomNumber_new seed =
    \<lparr>r_type = BC, m_VcSeed = seed, m_BcSeed = seed, m_AcSeed = seed, m_MySeed = seed\<rparr>"

definition setType :: "RoseRandomNumber_Type \<Rightarrow> RoseRandomNumber \<Rightarrow> RoseRandomNumber" where
  "setType t r = r\<lparr>r_type := t\<rparr>"

text \<open>Signed division of an \<open>int\<close> truncates towards zero.\<close>

definition int_div :: "u32 \<Rightarrow> int \<Rightarrow> u32" where
  "int_div a b = word_of_int (sint a sdiv b)"

definition R_BC :: "RoseRandomNumber \<Rightarrow> u32 \<times> RoseRandomNumber" where
  "R_BC r = (let s = 0x8088405 * m_BcSeed r + 1 in (int_div s 0x10000, r\<lparr>m_BcSeed := s\<rparr>))"

definition R_AC :: "RoseRandomNumber \<Rightarrow> u32 \<times> RoseRandomNumber" where
  "R_AC r = (let s = (0x41C64E6D * m_AcSeed r + 12345) AND 0x7FFFFFFF in (s, r\<lparr>m_AcSeed := s\<rparr>))"

definition R_MY :: "RoseRandomNumber \<Rightarrow> u32 \<times> RoseRandomNumber" where
  "R_MY r = (let s = 0x41C64E6D * m_MySeed r + 12345 in (int_div s 0x10000, r\<lparr>m_MySeed := s\<rparr>))"

definition R_VC :: "RoseRandomNumber \<Rightarrow> u32 \<times> RoseRandomNumber" where
  "R_VC r = (let s = (0x343FD * m_VcSeed r + 0x269EC3) AND 0x7FFFFFFF in
    (int_div s 0x10000, r\<lparr>m_VcSeed := s\<rparr>))"

definition rng_get :: "RoseRandomNumber \<Rightarrow> u32 \<times> RoseRandomNumber" where
  "rng_get r = (case r_type r of BC \<Rightarrow> R_BC r | AC \<Rightarrow> R_AC r | MY \<Rightarrow> R_MY r | VC \<Rightarrow> R_VC r)"

section \<open>The key tables\<close>

record PacketCodec =
  m_Cr :: RoseRandomNumber
  m_Rt :: "u32 list list"
  m_Ri :: "u16 list"

text \<open>\<open>find_DupTABLE\<close>: the first loop runs over the tables below \<open>table\<close> (its inner bound is
  \<open>0x7FF\<close>, one short of a row), the second over the first \<open>range\<close> entries of \<open>table\<close>.\<close>

definition find_DupTABLE :: "u32 list list \<Rightarrow> u32 \<Rightarrow> nat \<Rightarrow> nat \<Rightarrow> bool" where
  "find_DupTABLE rt val table range_end \<longleftrightarrow>
    list_ex (\<lambda>i. list_ex (\<lambda>j. rt ! i ! j = val) [0..<0x7FF]) [0..<table] \<or>
    list_ex (\<lambda>i. rt ! table ! i = val) [0..<range_end]"

definition find_DupINDEX :: "u16 list \<Rightarrow> u16 \<Rightarrow> nat \<Rightarrow> bool" where
  "find_DupINDEX ri val range_end \<longleftrightarrow> list_ex (\<lambda>i. ri ! i = val) [0..<range_end]"

text \<open>The two \<open>do ... while\<close> loops store the drawn number and draw again while it is a duplicate.\<close>

partial_function (option) draw_table :: "nat \<Rightarrow> nat \<Rightarrow> PacketCodec \<Rightarrow> PacketCodec option" where
  "draw_table i j c =
    (let (v, r) = rng_get (m_Cr c);
         c' = c\<lparr>m_Cr := r, m_Rt := (m_Rt c)[i := (m_Rt c ! i)[j := v]]\<rparr>
     in if find_DupTABLE (m_Rt c') v 0 j then draw_table i j c' else Some c')"

partial_function (option) draw_index :: "nat \<Rightarrow> PacketCodec \<Rightarrow> PacketCodec option" where
  "draw_index i c =
    (let (v, r) = rng_get (m_Cr c); x = ucast (v AND 0x7FF);
         c' = c\<lparr>m_Cr := r, m_Ri := (m_Ri c)[i := x]\<rparr>
     in if find_DupINDEX (m_Ri c') x i then draw_index i c' else Some c')"

definition type_of_row :: "nat \<Rightarrow> RoseRandomNumber_Type" where
  "type_of_row i = [BC, AC, MY, VC] ! (i mod 4)"

fun loop_option :: "(nat \<Rightarrow> 's \<Rightarrow> 's option) \<Rightarrow> nat list \<Rightarrow> 's \<Rightarrow> 's option" where
  "loop_option f [] s = Some s"
| "loop_option f (i # is) s = (case f i s of None \<Rightarrow> None | Some s' \<Rightarrow> loop_option f is s')"

definition fill_row :: "nat \<Rightarrow> PacketCodec \<Rightarrow> PacketCodec option" where
  "fill_row i c =
    loop_option (draw_table i) [0..<0x800] (c\<lparr>m_Cr := setType (type_of_row i) (m_Cr c)\<rparr>)"

definition changeSeed :: "u32 \<Rightarrow> PacketCodec \<Rightarrow> PacketCodec option" where
  "changeSeed seed c =
    (case loop_option fill_row [0..<0x10] (c\<lparr>m_Cr := RoseRandomNumber_new seed\<rparr>) of
       None \<Rightarrow> None
     | Some c' \<Rightarrow> loop_option draw_index [0..<0x200] (c'\<lparr>m_Cr := setType AC (m_Cr c')\<rparr>))"

text \<open>The constructor allocates the tables; what \<open>new\<close> leaves in them is the argument.\<close>

definition PacketCodec_new :: "u32 \<Rightarrow> u32 list list \<Rightarrow> u16 list \<Rightarrow> PacketCodec option" where
  "PacketCodec_new seed rt0 ri0 =
    changeSeed seed \<lparr>m_Cr = RoseRandomNumber_new 0, m_Rt = rt0, m_Ri = ri0\<rparr>"

definition default_seed :: u32 where
  "default_seed = 0x0042D266"

definition codec_tables :: "u32 list list \<Rightarrow> u16 list \<Rightarrow> bool" where
  "codec_tables rt ri \<longleftrightarrow>
    length rt = 0x10 \<and> list_all (\<lambda>row. length row = 0x800) rt \<and> length ri = 0x200"

section \<open>Header layouts\<close>

type_synonym head = "40 word"

datatype head_field =
    AddBufferLen1 | AddBufferLen2 | AddBufferLen3 | AddBufferLen4
  | Command1 | Command2 | Command3 | Command4
  | AddTableValue1 | AddTableValue2 | AddTableValue3 | AddTableValue4
  | EncryptAddValue1 | EncryptAddValue2 | EncryptValue1

type_synonym layout = "head_field \<Rightarrow> nat \<times> nat"

text \<open>A member of a packed bit-field structure is its first bit and its width.\<close>

fun HeadCryptedServer :: layout where
  "HeadCryptedServer AddBufferLen2 = (0, 3)"
| "HeadCryptedServer AddTableValue1 = (3, 3)"
| "HeadCryptedServer Command3 = (6, 3)"
| "HeadCryptedServer EncryptValue1 = (9, 3)"
| "HeadCryptedServer AddBufferLen3 = (12, 3)"
| "HeadCryptedServer AddTableValue3 = (15, 3)"
| "HeadCryptedServer Command2 = (18, 3)"
| "HeadCryptedServer AddTableValue4 = (21, 2)"
| "HeadCryptedServer Command1 = (23, 3)"
| "HeadCryptedServer EncryptAddValue1 = (26, 2)"
| "HeadCryptedServer AddBufferLen4 = (28, 2)"
| "HeadCryptedServer EncryptAddValue2 = (30, 2)"
| "HeadCryptedServer AddBufferLen1 = (32, 3)"
| "HeadCryptedServer AddTableValue2 = (35, 3)"
| "HeadCryptedServer Command4 = (38, 2)"

fun HeadCryptedClient :: layout where
  "HeadCryptedClient Command2 = (0, 3)"
| "HeadCryptedClient AddTableValue2 = (3, 3)"
| "HeadCryptedClient AddBufferLen1 = (6, 3)"
| "HeadCryptedClient AddTableValue3 = (9, 3)"
| "HeadCryptedClient Command1 = (12, 3)"
| "HeadCryptedClient EncryptValue1 = (15, 3)"
| "HeadCryptedClient AddBufferLen2 = (18, 3)"
| "HeadCryptedClient EncryptAddValue2 = (21, 2)"
| "HeadCryptedClient AddBufferLen3 = (23, 3)"
| "HeadCryptedClient AddTableValue4 = (26, 2)"
| "HeadCryptedClient Command4 = (28, 2)"
| "HeadCryptedClient EncryptAddValue1 = (30, 2)"
| "HeadCryptedClient Command3 = (32, 3)"
| "HeadCryptedClient AddTableValue1 = (35, 3)"
| "HeadCryptedClient AddBufferLen4 = (38, 2)"

fun HeadDecrypted :: layout where
  "HeadDecrypted AddBufferLen1 = (0, 3)"
| "HeadDecrypted AddBufferLen2 = (3, 3)"
| "HeadDecrypted AddBufferLen3 = (6, 3)"
| "HeadDecrypted AddBufferLen4 = (9, 2)"
| "HeadDecrypted Command1 = (11, 3)"
| "HeadDecrypted Command2 = (14, 3)"
| "HeadDecrypted Command3 = (17, 3)"
| "HeadDecrypted Command4 = (20, 2)"
| "HeadDecrypted AddTableValue1 = (22, 3)"
| "HeadDecrypted AddTableValue2 = (25, 3)"
| "HeadDecrypted AddTableValue3 = (28, 3)"
| "HeadDecrypted AddTableValue4 = (31, 2)"
| "HeadDecrypted EncryptAddValue1 = (33, 2)"
| "HeadDecrypted EncryptAddValue2 = (35, 2)"
| "HeadDecrypted EncryptValue1 = (37, 3)"

definition bf_get :: "nat \<times> nat \<Rightarrow> head \<Rightarrow> head" where
  "bf_get = (\<lambda>(off, w) h. take_bit w (drop_bit off h))"

definition bf_set :: "nat \<times> nat \<Rightarrow> head \<Rightarrow> head \<Rightarrow> head" where
  "bf_set = (\<lambda>(off, w) v h. (h AND NOT (push_bit off (mask w))) OR push_bit off (take_bit w v))"

text \<open>The members of \<open>struct Head\<close>, the same 40 bits seen as five numbers.\<close>

definition Head_AddBufferLen :: "nat \<times> nat" where "Head_AddBufferLen = (0, 11)"
definition Head_Command :: "nat \<times> nat" where "Head_Command = (11, 11)"
definition Head_AddTableValue :: "nat \<times> nat" where "Head_AddTableValue = (22, 11)"
definition Head_EncryptAddValue :: "nat \<times> nat" where "Head_EncryptAddValue = (33, 4)"
definition Head_EncryptValue :: "nat \<times> nat" where "Head_EncryptValue = (37, 3)"

definition main_fields :: "head_field list" where
  "main_fields = [AddBufferLen1, AddBufferLen2, AddBufferLen3, AddBufferLen4, Command1, Command2,
     Command3, Command4, EncryptValue1, EncryptAddValue1, EncryptAddValue2]"

definition final_fields :: "head_field list" where
  "final_fields = [AddTableValue1, AddTableValue2, AddTableValue3, AddTableValue4]"

definition copy_fields :: "head_field list \<Rightarrow> layout \<Rightarrow> head \<Rightarrow> layout \<Rightarrow> head \<Rightarrow> head" where
  "copy_fields fs la a lb b = fold (\<lambda>f a. bf_set (la f) (bf_get (lb f) b) a) fs a"

text \<open>\<open>FlipHeadMain(a, b)\<close> and \<open>FlipHeadFinal(a, b)\<close> return the new value of \<open>*a\<close>.\<close>

definition FlipHeadMain :: "layout \<Rightarrow> head \<Rightarrow> layout \<Rightarrow> head \<Rightarrow> head" where
  "FlipHeadMain = copy_fields main_fields"

definition FlipHeadFinal :: "layout \<Rightarrow> head \<Rightarrow> layout \<Rightarrow> head \<Rightarrow> head" where
  "FlipHeadFinal = copy_fields final_fields"

section \<open>Encoding and decoding\<close>

definition crc_step :: "byte \<Rightarrow> byte \<Rightarrow> byte" where
  "crc_step b Checksum = CrcTable ! unat (b XOR Checksum)"

definition head_checksum :: "head \<Rightarrow> byte" where
  "head_checksum head = fold crc_step (le_bytes 5 head) 0"

text \<open>The bytes a buffer or a \<open>Head\<close> shares with a header structure: five, little-endian.\<close>

definition load_head :: "byte list \<Rightarrow> head" where
  "load_head buffer = le_word (take 5 buffer)"

definition store_head :: "head \<Rightarrow> byte list \<Rightarrow> byte list" where
  "store_head h buffer = blit 0 (le_bytes 5 h) buffer"

definition head_key :: "u32 list list \<Rightarrow> nat \<Rightarrow> head" where
  "head_key rt atv = le_word (map (\<lambda>i. ucast (rt ! i ! atv)) [0..<5])"

definition body_key :: "u32 list list \<Rightarrow> head \<Rightarrow> nat \<Rightarrow> byte" where
  "body_key rt head i =
    ucast (rt ! ((unat (bf_get Head_EncryptAddValue head) + i) mod 0x10)
              ! ((unat (bf_get Head_AddTableValue head) + i) mod 0x800))"

text \<open>The body loops: the encoder checksums the plain byte and then masks it, the decoder unmasks
  and then checksums.\<close>

definition encode_body :: "u32 list list \<Rightarrow> head \<Rightarrow> nat \<Rightarrow> byte \<times> byte list \<Rightarrow> byte \<times> byte list" where
  "encode_body rt head n =
    fold (\<lambda>i (cs, buf). (crc_step (buf ! i) cs, buf[i := buf ! i XOR body_key rt head i])) [6..<n]"

definition decode_body :: "u32 list list \<Rightarrow> head \<Rightarrow> nat \<Rightarrow> byte \<times> byte list \<Rightarrow> byte \<times> byte list" where
  "decode_body rt head n =
    fold (\<lambda>i (cs, buf). (crc_step (buf ! i XOR body_key rt head i) cs,
                         buf[i := buf ! i XOR body_key rt head i])) [6..<n]"

definition make_head :: "nat \<Rightarrow> byte list \<Rightarrow> head" where
  "make_head encryptValue buffer =
    bf_set Head_Command (ucast (packet_type buffer))
      (bf_set Head_AddBufferLen (ucast (packet_size buffer))
        (bf_set Head_EncryptValue (of_nat encryptValue)
          (bf_set Head_EncryptAddValue 0x04
            (bf_set Head_AddTableValue 0x100 0))))"

definition encode_packet :: "layout \<Rightarrow> nat \<Rightarrow> u32 list list \<Rightarrow> byte list \<Rightarrow> byte list option" where
  "encode_packet lay encryptValue rt buffer =
    (let head = make_head encryptValue buffer;
         n = unat (bf_get Head_AddBufferLen head);
         atv = unat (bf_get Head_AddTableValue head)
     in if length buffer < 6 \<or> length buffer < n then None
        else
          let b1 = store_head (FlipHeadMain lay (load_head buffer) HeadDecrypted head) buffer;
              b2 = store_head (load_head b1 XOR head_key rt atv) b1;
              (cs, b3) = encode_body rt head n (head_checksum head, b2);
              b4 = b3[5 := cs]
          in Some (store_head (FlipHeadFinal lay (load_head b4) HeadDecrypted head) b4))"

text \<open>\<open>head.EncryptValue = head.AddTableValue + head.EncryptAddValue\<close> for a server packet and \<open>0\<close>
  for a client packet.\<close>

definition encodeServerPacket :: "u32 list list \<Rightarrow> byte list \<Rightarrow> byte list option" where
  "encodeServerPacket = encode_packet HeadCryptedServer (0x100 + 0x04)"

definition encodeClientPacket :: "u32 list list \<Rightarrow> byte list \<Rightarrow> byte list option" where
  "encodeClientPacket = encode_packet HeadCryptedClient 0"

definition decode_header :: "layout \<Rightarrow> u32 list list \<Rightarrow> byte list \<Rightarrow> u16 \<times> byte list" where
  "decode_header lay rt buffer =
    (let h1 = FlipHeadFinal HeadDecrypted 0 lay (load_head buffer);
         b1 = store_head (load_head buffer XOR head_key rt (unat (bf_get Head_AddTableValue h1))) buffer;
         head = FlipHeadMain HeadDecrypted h1 lay (load_head b1)
     in (ucast (bf_get Head_AddBufferLen head), store_head head b1))"

definition decodeServerHeader :: "u32 list list \<Rightarrow> byte list \<Rightarrow> u16 \<times> byte list" where
  "decodeServerHeader = decode_header HeadCryptedServer"

definition decodeClientHeader :: "u32 list list \<Rightarrow> byte list \<Rightarrow> u16 \<times> byte list" where
  "decodeClientHeader = decode_header HeadCryptedClient"

definition decode_packet_body :: "u16 \<Rightarrow> u32 list list \<Rightarrow> byte list \<Rightarrow> (bool \<times> byte list) option" where
  "decode_packet_body buflen rt buffer =
    (let head = load_head buffer; n = unat buflen in
     if length buffer < 6 \<or> length buffer < n then None
     else
       let (cs, b1) = decode_body rt head n (head_checksum head, buffer) in
       if cs \<noteq> b1 ! 5 then Some (False, b1)
       else Some (True, blit 2 (le_bytes 2 (ucast (bf_get Head_Command head) :: u16))
                         (blit 0 (le_bytes 2 buflen) b1)))"

definition server_buflen :: "head \<Rightarrow> u16" where
  "server_buflen head = ucast (bf_get Head_AddBufferLen head)"

text \<open>\<open>(unsigned short)(head.AddBufferLen - head.EncryptValue)\<close>\<close>

definition client_buflen :: "head \<Rightarrow> u16" where
  "client_buflen head = ucast (bf_get Head_AddBufferLen head) - ucast (bf_get Head_EncryptValue head)"

definition decodeServerBody :: "u32 list list \<Rightarrow> byte list \<Rightarrow> (bool \<times> byte list) option" where
  "decodeServerBody rt buffer = decode_packet_body (server_buflen (load_head buffer)) rt buffer"

definition decodeClientBody :: "u32 list list \<Rightarrow> byte list \<Rightarrow> (bool \<times> byte list) option" where
  "decodeClientBody rt buffer = decode_packet_body (client_buflen (load_head buffer)) rt buffer"

end
