(* ===== verification/Crypt_Roundtrip.thy ===== *)
theory Crypt_Roundtrip
  imports CRoseCrypt
begin

text \<open>
  Decoding inverts encoding, in both directions of the protocol. The header argument is made once,
  for any bit-field layout that meets the contract \<open>header_layout\<close>; the two wire layouts and the
  decrypted one are instances. The body argument uses that masking is an involution and that the
  checksum table is a permutation of the bytes.
\<close>

section \<open>Bit-fields\<close>

lemma bit_bf_get: "bit (bf_get (off, w) h) i \<longleftrightarrow> i < w \<and> bit h (off + i)"
  by (auto simp: bf_get_def bit_simps)

lemma bit_bf_set:
  "off + w \<le> 40 \<Longrightarrow>
    bit (bf_set (off, w) v h) i \<longleftrightarrow> (if off \<le> i \<and> i < off + w then bit v (i - off) else bit h i)"
  by (auto simp: bf_set_def bit_simps dest: bit_imp_le_length)

lemma bf_get_xor: "bf_get p (a XOR b) = bf_get p a XOR bf_get p b"
  by (cases p) (auto intro!: bit_word_eqI simp: bit_bf_get bit_xor_iff)

lemma take_bit_bf_get [simp]: "take_bit (snd p) (bf_get p h) = bf_get p h"
  by (cases p) (simp add: bf_get_def)

lemma bf_get_set_same:
  "off + w \<le> 40 \<Longrightarrow> bf_get (off, w) (bf_set (off, w) v h) = take_bit w v"
  by (rule bit_word_eqI) (auto simp: bit_bf_get bit_bf_set bit_take_bit_iff)

lemma bf_get_set_other:
  "off + w \<le> 40 \<Longrightarrow> off' + w' \<le> 40 \<Longrightarrow> off + w \<le> off' \<or> off' + w' \<le> off \<Longrightarrow>
    bf_get (off, w) (bf_set (off', w') v h) = bf_get (off, w) h"
  by (rule bit_word_eqI) (auto simp: bit_bf_get bit_bf_set)

lemma unat_bf_get_less: "w < 40 \<Longrightarrow> unat (bf_get (off, w) h) < 2 ^ w"
proof -
  assume "w < 40"
  have "uint (bf_get (off, w) h) = take_bit w (uint (drop_bit off h))"
    by (simp add: bf_get_def unsigned_take_bit_eq)
  also have "\<dots> < 2 ^ w" by simp
  finally show ?thesis
    by (metis nat_less_numeral_power_cancel_iff unat_eq_nat_uint)
qed

section \<open>The contract of a header layout\<close>

locale header_layout =
  fixes lay :: layout
  assumes width: "snd (lay f) = snd (HeadDecrypted f)"
    and inside: "fst (lay f) + snd (lay f) \<le> 40"
    and disjoint: "f \<noteq> g \<Longrightarrow>
      fst (lay f) + snd (lay f) \<le> fst (lay g) \<or> fst (lay g) + snd (lay g) \<le> fst (lay f)"
begin

lemma field_same: "bf_get (lay f) (bf_set (lay f) v h) = take_bit (snd (lay f)) v"
  using inside [of f] by (cases "lay f") (simp add: bf_get_set_same)

lemma field_other: "f \<noteq> g \<Longrightarrow> bf_get (lay f) (bf_set (lay g) v h) = bf_get (lay f) h"
  using inside [of f] inside [of g] disjoint [of f g]
  by (cases "lay f"; cases "lay g") (simp add: bf_get_set_other)

lemma field_copy:
  "bf_get (lay f) (copy_fields fs lay a lb b)
    = (if f \<in> set fs then take_bit (snd (lay f)) (bf_get (lb f) b) else bf_get (lay f) a)"
proof -
  have "bf_get (lay f) (fold (\<lambda>f a. bf_set (lay f) (bf_get (lb f) b) a) fs a)
    = (if f \<in> set fs then take_bit (snd (lay f)) (bf_get (lb f) b) else bf_get (lay f) a)" for a
  proof (induction fs arbitrary: a)
    case Nil
    then show ?case by simp
  next
    case (Cons g gs)
    then show ?case by (cases "f = g") (simp_all add: field_same field_other)
  qed
  then show ?thesis by (simp add: copy_fields_def)
qed

end

interpretation crypted_server: header_layout HeadCryptedServer
proof
  show "snd (HeadCryptedServer f) = snd (HeadDecrypted f)" for f by (cases f) simp_all
  show "fst (HeadCryptedServer f) + snd (HeadCryptedServer f) \<le> 40" for f by (cases f) simp_all
  show "fst (HeadCryptedServer f) + snd (HeadCryptedServer f) \<le> fst (HeadCryptedServer g) \<or>
      fst (HeadCryptedServer g) + snd (HeadCryptedServer g) \<le> fst (HeadCryptedServer f)"
    if "f \<noteq> g" for f g using that by (cases f; cases g) simp_all
qed

interpretation crypted_client: header_layout HeadCryptedClient
proof
  show "snd (HeadCryptedClient f) = snd (HeadDecrypted f)" for f by (cases f) simp_all
  show "fst (HeadCryptedClient f) + snd (HeadCryptedClient f) \<le> 40" for f by (cases f) simp_all
  show "fst (HeadCryptedClient f) + snd (HeadCryptedClient f) \<le> fst (HeadCryptedClient g) \<or>
      fst (HeadCryptedClient g) + snd (HeadCryptedClient g) \<le> fst (HeadCryptedClient f)"
    if "f \<noteq> g" for f g using that by (cases f; cases g) simp_all
qed

interpretation decrypted: header_layout HeadDecrypted
proof
  show "snd (HeadDecrypted f) = snd (HeadDecrypted f)" for f by simp
  show "fst (HeadDecrypted f) + snd (HeadDecrypted f) \<le> 40" for f by (cases f) simp_all
  show "fst (HeadDecrypted f) + snd (HeadDecrypted f) \<le> fst (HeadDecrypted g) \<or>
      fst (HeadDecrypted g) + snd (HeadDecrypted g) \<le> fst (HeadDecrypted f)"
    if "f \<noteq> g" for f g using that by (cases f; cases g) simp_all
qed

lemma HeadDecrypted_covers:
  assumes "i < 40"
  obtains f where "fst (HeadDecrypted f) \<le> i" and "i < fst (HeadDecrypted f) + snd (HeadDecrypted f)"
proof -
  define f where "f = (if i < 3 then AddBufferLen1 else if i < 6 then AddBufferLen2
    else if i < 9 then AddBufferLen3 else if i < 11 then AddBufferLen4
    else if i < 14 then Command1 else if i < 17 then Command2 else if i < 20 then Command3
    else if i < 22 then Command4 else if i < 25 then AddTableValue1 else if i < 28 then AddTableValue2
    else if i < 31 then AddTableValue3 else if i < 33 then AddTableValue4
    else if i < 35 then EncryptAddValue1 else if i < 37 then EncryptAddValue2 else EncryptValue1)"
  have "fst (HeadDecrypted f) \<le> i" and "i < fst (HeadDecrypted f) + snd (HeadDecrypted f)"
    using assms by (simp_all add: f_def)
  then show thesis by (rule that)
qed

lemma field_bits:
  assumes "bf_get p a = bf_get p b" and "fst p \<le> i" and "i < fst p + snd p"
  shows "bit a i = bit b i"
proof -
  have "bit (bf_get p a) (i - fst p) = bit (bf_get p b) (i - fst p)" using assms(1) by simp
  then show ?thesis using assms(2,3) by (cases p) (auto simp: bit_bf_get)
qed

lemma head_eqI:
  assumes "\<And>f. bf_get (HeadDecrypted f) a = bf_get (HeadDecrypted f) b"
  shows "a = b"
proof (rule bit_word_eqI)
  fix i assume "i < LENGTH(40)"
  then have "i < 40" by simp
  then obtain f where f: "fst (HeadDecrypted f) \<le> i" "i < fst (HeadDecrypted f) + snd (HeadDecrypted f)"
    by (rule HeadDecrypted_covers)
  then show "bit a i = bit b i" using field_bits assms by blast
qed

lemma fields_partition: "(f \<in> set main_fields) \<noteq> (f \<in> set final_fields)"
  by (cases f) (simp_all add: main_fields_def final_fields_def)

context header_layout
begin

lemma trunc [simp]:
  "take_bit (snd (lay f)) (bf_get (HeadDecrypted f) h) = bf_get (HeadDecrypted f) h"
  "take_bit (snd (HeadDecrypted f)) (bf_get (lay f) h) = bf_get (lay f) h"
  by (simp_all add: width) (simp add: width [symmetric])

text \<open>Whatever the five bytes held before (\<open>w\<close>) and whatever the key (\<open>k\<close>), the header the decoder
  reconstructs is the one the encoder started from.\<close>

lemma header_roundtrip:
  assumes wire: "wire = FlipHeadFinal lay (FlipHeadMain lay w HeadDecrypted head XOR k) HeadDecrypted head"
  shows "FlipHeadMain HeadDecrypted (FlipHeadFinal HeadDecrypted 0 lay wire) lay (wire XOR k) = head"
proof (rule head_eqI)
  fix f
  show "bf_get (HeadDecrypted f)
      (FlipHeadMain HeadDecrypted (FlipHeadFinal HeadDecrypted 0 lay wire) lay (wire XOR k))
    = bf_get (HeadDecrypted f) head"
  proof (cases "f \<in> set main_fields")
    case True
    then have "f \<notin> set final_fields" using fields_partition by blast
    then have "bf_get (lay f) wire = bf_get (HeadDecrypted f) head XOR bf_get (lay f) k"
      using True by (simp add: wire FlipHeadFinal_def FlipHeadMain_def field_copy bf_get_xor)
    then have "bf_get (lay f) (wire XOR k) = bf_get (HeadDecrypted f) head"
      by (simp add: bf_get_xor xor.assoc)
    then show ?thesis using True by (simp add: FlipHeadMain_def decrypted.field_copy)
  next
    case False
    then have "f \<in> set final_fields" using fields_partition by blast
    then show ?thesis
      using False by (simp add: wire FlipHeadMain_def FlipHeadFinal_def decrypted.field_copy field_copy)
  qed
qed

text \<open>The key index travels in clear, so the decoder uses the encoder's key.\<close>

lemma header_key_index:
  assumes wire: "wire = FlipHeadFinal lay h HeadDecrypted head"
  shows "bf_get Head_AddTableValue (FlipHeadFinal HeadDecrypted 0 lay wire)
    = bf_get Head_AddTableValue head"
proof -
  have eq: "bf_get (HeadDecrypted f) (FlipHeadFinal HeadDecrypted 0 lay wire)
      = bf_get (HeadDecrypted f) head" if "f \<in> set final_fields" for f
    using that by (simp add: wire FlipHeadFinal_def decrypted.field_copy field_copy)
  let ?h = "FlipHeadFinal HeadDecrypted 0 lay wire"
  have bits: "bit ?h i = bit head i" if "22 \<le> i" "i < 33" for i
  proof -
    have "i < 40" using that by simp
    then obtain f where f: "fst (HeadDecrypted f) \<le> i"
        "i < fst (HeadDecrypted f) + snd (HeadDecrypted f)"
      by (rule HeadDecrypted_covers)
    then have "f \<in> set final_fields"
      using that by (cases f) (simp_all add: final_fields_def)
    then show ?thesis using eq f field_bits by blast
  qed
  show ?thesis
    by (rule bit_word_eqI) (auto simp: Head_AddTableValue_def bit_bf_get bits)
qed

end

section \<open>The body loops\<close>

definition mask_body :: "u32 list list \<Rightarrow> head \<Rightarrow> nat \<Rightarrow> byte list \<Rightarrow> byte list" where
  "mask_body rt head n buf =
    map (\<lambda>i. if 6 \<le> i \<and> i < n then buf ! i XOR body_key rt head i else buf ! i) [0..<length buf]"

lemma length_mask_body [simp]: "length (mask_body rt head n buf) = length buf"
  by (simp add: mask_body_def)

lemma mask_body_nth:
  "i < length buf \<Longrightarrow> mask_body rt head n buf ! i
    = (if 6 \<le> i \<and> i < n then buf ! i XOR body_key rt head i else buf ! i)"
  by (simp add: mask_body_def)

lemma mask_body_invol: "mask_body rt head n (mask_body rt head n buf) = buf"
  by (rule nth_equalityI) (auto simp: mask_body_nth xor.assoc)

lemma mask_body_Suc:
  "n < length buf \<Longrightarrow> 6 \<le> n \<Longrightarrow>
    (mask_body rt head n buf)[n := mask_body rt head n buf ! n XOR body_key rt head n]
    = mask_body rt head (Suc n) buf"
  by (rule nth_equalityI) (auto simp: mask_body_nth nth_list_update less_Suc_eq)

lemma mask_body_le_6: "n \<le> 6 \<Longrightarrow> mask_body rt head n buf = buf"
  by (rule nth_equalityI) (auto simp: mask_body_nth)

lemma encode_body_eq:
  "n \<le> length buf \<Longrightarrow> encode_body rt head n (cs, buf)
    = (fold crc_step (map ((!) buf) [6..<n]) cs, mask_body rt head n buf)"
proof (induction n)
  case 0
  then show ?case by (simp add: encode_body_def mask_body_le_6)
next
  case (Suc n)
  show ?case
  proof (cases "6 \<le> n")
    case True
    then have "encode_body rt head (Suc n) (cs, buf)
      = (case encode_body rt head n (cs, buf) of
          (cs, buf) \<Rightarrow> (crc_step (buf ! n) cs, buf[n := buf ! n XOR body_key rt head n]))"
      by (simp add: encode_body_def)
    then show ?thesis
      using Suc True by (simp add: mask_body_Suc) (simp add: mask_body_nth)
  next
    case False
    then show ?thesis by (simp add: encode_body_def mask_body_le_6)
  qed
qed

lemma decode_body_eq:
  "n \<le> length buf \<Longrightarrow> decode_body rt head n (cs, buf)
    = (fold crc_step (map ((!) (mask_body rt head n buf)) [6..<n]) cs, mask_body rt head n buf)"
proof (induction n)
  case 0
  then show ?case by (simp add: decode_body_def mask_body_le_6)
next
  case (Suc n)
  show ?case
  proof (cases "6 \<le> n")
    case True
    then have "decode_body rt head (Suc n) (cs, buf)
      = (case decode_body rt head n (cs, buf) of
          (cs, buf) \<Rightarrow> (crc_step (buf ! n XOR body_key rt head n) cs,
                          buf[n := buf ! n XOR body_key rt head n]))"
      by (simp add: decode_body_def)
    moreover have "map ((!) (mask_body rt head n buf)) [6..<n]
        = map ((!) (mask_body rt head (Suc n) buf)) [6..<n]"
      using Suc.prems by (auto simp: mask_body_nth)
    moreover have "mask_body rt head n buf ! n XOR body_key rt head n = mask_body rt head (Suc n) buf ! n"
      using Suc.prems True by (simp add: mask_body_nth)
    ultimately show ?thesis
      using Suc True mask_body_Suc [of n buf rt head] by simp
  next
    case False
    then show ?thesis by (simp add: decode_body_def mask_body_le_6)
  qed
qed

section \<open>Header bytes of a buffer\<close>

lemma load_store_head [simp]: "5 \<le> length b \<Longrightarrow> load_head (store_head h b) = h"
  by (simp add: load_head_def store_head_def blit_def)

lemma store_head_eq: "store_head h b = le_bytes 5 h @ drop 5 b"
  by (simp add: store_head_def blit_def)

lemma length_store_head [simp]: "5 \<le> length b \<Longrightarrow> length (store_head h b) = length b"
  by (simp add: store_head_eq)

lemma store_head_nth: "5 \<le> i \<Longrightarrow> 5 \<le> length b \<Longrightarrow> store_head h b ! i = b ! i"
  by (simp add: store_head_eq nth_append)

lemma store_store_head [simp]: "5 \<le> length b \<Longrightarrow> store_head h (store_head h' b) = store_head h b"
  by (simp add: store_head_eq)

lemma store_head_update [simp]:
  "5 \<le> i \<Longrightarrow> 5 \<le> length b \<Longrightarrow> (store_head h b)[i := x] = store_head h (b[i := x])"
  by (rule nth_equalityI)
     (auto simp: nth_list_update store_head_eq nth_append drop_update_swap list_update_append)

lemma mask_store_head:
  "6 \<le> length b \<Longrightarrow> mask_body rt head n (store_head h b) = store_head h (mask_body rt head n b)"
proof (rule nth_equalityI)
  assume len: "6 \<le> length b"
  then show "length (mask_body rt head n (store_head h b)) = length (store_head h (mask_body rt head n b))"
    by simp
  fix i assume "i < length (mask_body rt head n (store_head h b))"
  then have i: "i < length b" using len by simp
  show "mask_body rt head n (store_head h b) ! i = store_head h (mask_body rt head n b) ! i"
  proof (cases "i < 5")
    case True
    then show ?thesis using i len by (simp add: mask_body_nth store_head_eq nth_append)
  next
    case False
    then show ?thesis using i len by (simp add: mask_body_nth store_head_nth)
  qed
qed

lemma load_head_cong: "take 5 b = take 5 b' \<Longrightarrow> load_head b = load_head b'"
  by (simp add: load_head_def)

section \<open>The checksum table is a permutation\<close>

lemma CrcTable_distinct: "distinct (map unat (take 256 CrcTable))"
  unfolding CrcTable_def by simp

lemma CrcTable_inj: "CrcTable ! unat (x :: byte) = CrcTable ! unat y \<Longrightarrow> x = y"
proof -
  assume eq: "CrcTable ! unat x = CrcTable ! unat y"
  have lt: "unat x < 256" "unat y < 256" using unsigned_less [of x] unsigned_less [of y] by simp_all
  have "length (take 256 CrcTable) = 256" by (simp add: CrcTable_def)
  then have "unat x = unat y"
    using eq lt CrcTable_distinct nth_eq_iff_index_eq [of "take 256 CrcTable" "unat x" "unat y"]
    by (simp add: distinct_map)
  then show ?thesis by (simp only: word_unat_eq_iff)
qed

lemma xor_left_cancel_byte: "(a :: byte) XOR c = b XOR c \<longleftrightarrow> a = b"
  by (metis xor.assoc xor_self_eq xor.right_neutral)

lemma crc_step_inj_byte: "crc_step a c = crc_step b c \<longleftrightarrow> a = b"
  by (auto simp: crc_step_def dest: CrcTable_inj simp: xor_left_cancel_byte)

lemma crc_step_inj_checksum: "crc_step a c = crc_step a d \<longleftrightarrow> c = d"
  by (metis CrcTable_inj crc_step_def xor.commute xor_left_cancel_byte)

lemma fold_crc_inj: "fold crc_step bs c = fold crc_step bs d \<longleftrightarrow> c = d"
  by (induction bs arbitrary: c d) (simp_all add: crc_step_inj_checksum)

section \<open>Decoding inverts encoding\<close>

lemma make_head_fields:
  "bf_get Head_AddTableValue (make_head ev b) = 0x100"
  "bf_get Head_EncryptAddValue (make_head ev b) = 0x04"
  "bf_get Head_EncryptValue (make_head ev b) = take_bit 3 (of_nat ev)"
  "bf_get Head_AddBufferLen (make_head ev b) = take_bit 11 (ucast (packet_size b))"
  "bf_get Head_Command (make_head ev b) = take_bit 11 (ucast (packet_type b))"
  by (simp_all add: make_head_def Head_AddTableValue_def Head_EncryptAddValue_def
      Head_EncryptValue_def Head_AddBufferLen_def Head_Command_def bf_get_set_same bf_get_set_other
      take_bit_eq_mask mask_eq_exp_minus_1)

lemma ucast_take_bit_11:
  "unat (x :: u16) < 2 ^ 11 \<Longrightarrow> ucast (take_bit 11 (ucast x :: head)) = x"
proof -
  assume "unat x < 2 ^ 11"
  then have "int (unat x) < int (2 ^ 11)" by (simp only: of_nat_less_iff)
  then have "uint x < 2 ^ 11" by simp
  then have "uint (take_bit 11 x) = uint x"
    by (simp only: unsigned_take_bit_eq) (simp add: take_bit_int_eq_self)
  then have "take_bit 11 x = x" by (simp only: word_uint_eq_iff)
  then have "bit x i \<Longrightarrow> i < 11" for i by (metis bit_take_bit_iff)
  then show ?thesis by (intro bit_word_eqI) (auto simp: bit_simps)
qed

text \<open>What the encoder leaves in the buffer: the crypted header, the checksum, the masked body.\<close>

definition wire_head :: "layout \<Rightarrow> u32 list list \<Rightarrow> head \<Rightarrow> head \<Rightarrow> head" where
  "wire_head lay rt w head =
    FlipHeadFinal lay (FlipHeadMain lay w HeadDecrypted head XOR
      head_key rt (unat (bf_get Head_AddTableValue head))) HeadDecrypted head"

definition body_checksum :: "head \<Rightarrow> nat \<Rightarrow> byte list \<Rightarrow> byte" where
  "body_checksum head n b = fold crc_step (map ((!) b) [6..<n]) (head_checksum head)"

lemma encode_packet_eq:
  assumes n: "n = unat (bf_get Head_AddBufferLen (make_head ev b))"
    and len: "6 \<le> length b" "n \<le> length b"
  shows "encode_packet lay ev rt b
    = Some (store_head (wire_head lay rt (load_head b) (make_head ev b))
        ((mask_body rt (make_head ev b) n b)[5 := body_checksum (make_head ev b) n b]))"
proof -
  let ?h = "make_head ev b"
  let ?w = "FlipHeadMain lay (load_head b) HeadDecrypted ?h XOR
    head_key rt (unat (bf_get Head_AddTableValue ?h))"
  have map_eq: "map ((!) (store_head ?w b)) [6..<n] = map ((!) b) [6..<n]"
    using len by (auto simp: store_head_nth)
  have "encode_body rt ?h n (head_checksum ?h, store_head ?w b)
      = (body_checksum ?h n b, store_head ?w (mask_body rt ?h n b))"
    using len by (simp add: encode_body_eq mask_store_head body_checksum_def map_eq)
  then show ?thesis
    using len n by (simp add: encode_packet_def Let_def wire_head_def)
qed

lemma mask_body_update_5:
  "5 < length b \<Longrightarrow> mask_body rt head n (b[5 := x]) = (mask_body rt head n b)[5 := x]"
  by (rule nth_equalityI) (auto simp: mask_body_nth nth_list_update)

context header_layout
begin

lemma decode_header_wire:
  assumes "5 \<le> length b"
  shows "decode_header lay rt (store_head (wire_head lay rt w head) b)
    = (ucast (bf_get Head_AddBufferLen head), store_head head b)"
proof -
  let ?wire = "wire_head lay rt w head"
  let ?h1 = "FlipHeadFinal HeadDecrypted 0 lay ?wire"
  let ?k = "head_key rt (unat (bf_get Head_AddTableValue head))"
  have idx: "bf_get Head_AddTableValue ?h1 = bf_get Head_AddTableValue head"
    unfolding wire_head_def by (rule header_key_index) simp
  have "FlipHeadMain HeadDecrypted ?h1 lay (?wire XOR ?k) = head"
    by (rule header_roundtrip [where w = w]) (simp add: wire_head_def)
  then show ?thesis
    using assms idx by (simp add: decode_header_def Let_def)
qed

lemma decode_encode:
  fixes ev :: nat and b :: "byte list"
  defines "n \<equiv> unat (packet_size b)" and "head \<equiv> make_head ev b"
  assumes size: "6 \<le> n" "n \<le> length b" "n < 2 ^ 11" and cmd: "unat (packet_type b) < 2 ^ 11"
    and buflen: "buflen = packet_size b"
  shows "\<exists>e d. encode_packet lay ev rt b = Some e \<and> length e = length b
    \<and> decode_header lay rt e = (packet_size b, store_head head d) \<and> length d = length b
    \<and> decode_packet_body buflen rt (store_head head d)
      = Some (True, take 4 b @ [le_bytes 5 head ! 4, body_checksum head n b] @ drop 6 b)"
proof -
  let ?cs = "body_checksum head n b"
  let ?d = "(mask_body rt head n b)[5 := ?cs]"
  let ?e = "store_head (wire_head lay rt (load_head b) head) ?d"
  have len: "6 \<le> length b" using size by simp
  have szn: "bf_get Head_AddBufferLen head = take_bit 11 (ucast (packet_size b))"
    and cmdn: "bf_get Head_Command head = take_bit 11 (ucast (packet_type b))"
    unfolding head_def by (simp_all add: make_head_fields)
  have sz: "ucast (bf_get Head_AddBufferLen head) = packet_size b"
    unfolding szn using size(3) by (simp add: n_def ucast_take_bit_11)
  have cm: "(ucast (bf_get Head_Command head) :: u16) = packet_type b"
    unfolding cmdn using cmd by (rule ucast_take_bit_11)
  have "unat (bf_get Head_AddBufferLen head) = n"
  proof -
    have "unat (bf_get Head_AddBufferLen head) < 2 ^ 11"
      using unat_bf_get_less [of 11 0 head] by (simp add: Head_AddBufferLen_def)
    then have "unat (ucast (bf_get Head_AddBufferLen head) :: u16) = unat (bf_get Head_AddBufferLen head)"
      by (simp add: unsigned_ucast_eq take_bit_nat_eq_self)
    then show ?thesis using sz by (simp add: n_def)
  qed
  then have enc: "encode_packet lay ev rt b = Some ?e"
    using encode_packet_eq [of n ev b lay rt] len size unfolding head_def by simp
  have lend: "length ?d = length b" by simp
  have mask: "mask_body rt head n (store_head head ?d) = store_head head (b[5 := ?cs])"
    using len by (simp add: mask_store_head mask_body_update_5 mask_body_invol)
  have plain: "map ((!) (store_head head (b[5 := x]))) [6..<n] = map ((!) b) [6..<n]" for x
    using len by (auto simp: store_head_nth)
  have "n \<le> length (store_head head ?d)" using len size by simp
  then have body: "decode_body rt head n (head_checksum head, store_head head ?d)
      = (?cs, store_head head (b[5 := ?cs]))"
    by (simp only: decode_body_eq mask plain) (simp only: body_checksum_def)
  have "decode_packet_body buflen rt (store_head head ?d)
      = Some (True, blit 2 (le_bytes 2 (packet_type b)) (blit 0 (le_bytes 2 (packet_size b))
          (store_head head (b[5 := ?cs]))))"
    using len size body buflen
    by (simp add: decode_packet_body_def Let_def cm store_head_nth n_def [symmetric])
  also have "blit 2 (le_bytes 2 (packet_type b)) (blit 0 (le_bytes 2 (packet_size b))
      (store_head head (b[5 := ?cs]))) = take 4 b @ [le_bytes 5 head ! 4, ?cs] @ drop 6 b"
  proof -
    obtain a0 a1 a2 a3 a4 a5 r where b: "b = a0 # a1 # a2 # a3 # a4 # a5 # r"
      using len by (auto simp: numeral_eq_Suc Suc_le_length_iff)
    have w: "le_bytes 2 (le_word [x, y] :: u16) = [x, y]" for x y
      by (rule le_bytes_le_word) simp_all
    have "le_bytes 2 (packet_size b) = [a0, a1]" "le_bytes 2 (packet_type b) = [a2, a3]"
      using b w by (simp_all add: packet_size_def packet_type_def)
    moreover obtain h0 h1 h2 h3 h4 where "le_bytes 5 head = [h0, h1, h2, h3, h4]"
      by (simp add: numeral_eq_Suc)
    ultimately show ?thesis
      by (simp add: b store_head_eq blit_def numeral_eq_Suc)
  qed
  finally show ?thesis
    using enc lend len sz decode_header_wire [of ?d rt "load_head b" head]
    by (intro exI [of _ ?e] exI [of _ ?d]) simp
qed

end

section \<open>Decoding inside a larger buffer\<close>

text \<open>The decoders leave what follows the packet in the receive buffer alone.\<close>

lemma load_head_append: "5 \<le> length x \<Longrightarrow> load_head (x @ y) = load_head x"
  by (rule load_head_cong) simp

lemma store_head_append: "5 \<le> length x \<Longrightarrow> store_head h (x @ y) = store_head h x @ y"
  by (simp add: store_head_eq)

lemma decode_header_append:
  assumes "5 \<le> length x" and "decode_header lay rt x = (n, d)"
  shows "decode_header lay rt (x @ y) = (n, d @ y)"
  using assms by (auto simp: decode_header_def Let_def load_head_append store_head_append)

lemma decode_header_drop:
  assumes "5 \<le> length x" and "decode_header lay rt x = (n, d)"
  shows "drop 5 d = drop 5 x \<and> length d = length x"
  using assms by (auto simp: decode_header_def Let_def store_head_eq)

lemma mask_body_append:
  "n \<le> length x \<Longrightarrow> mask_body rt h n (x @ y) = mask_body rt h n x @ y"
  by (rule nth_equalityI) (auto simp: mask_body_nth nth_append)

lemma decode_packet_body_append:
  assumes "6 \<le> length x" and "unat n \<le> length x" and "decode_packet_body n rt x = Some (ok, d)"
  shows "decode_packet_body n rt (x @ y) = Some (ok, d @ y) \<and> length d = length x"
proof -
  have m: "map ((!) (mask_body rt h (unat n) x @ y)) [6..<unat n] = map ((!) (mask_body rt h (unat n) x)) [6..<unat n]" for h
    using assms(2) by (simp add: nth_append)
  show ?thesis
    using assms
    by (auto simp: decode_packet_body_def Let_def load_head_append decode_body_eq mask_body_append m
        nth_append blit_def split: if_splits)
qed

section \<open>The properties of the cipher\<close>

lemma serverbuflen_make_head:
  "unat (packet_size b) < 2 ^ 11 \<Longrightarrow> server_buflen (make_head ev b) = packet_size b"
  by (simp add: server_buflen_def make_head_fields ucast_take_bit_11)

lemma clientbuflen_make_head:
  "unat (packet_size b) < 2 ^ 11 \<Longrightarrow> client_buflen (make_head 0 b) = packet_size b"
  by (simp add: client_buflen_def make_head_fields ucast_take_bit_11)

text \<open>A server packet whose length and command fit the 11 bit header fields survives the cipher:
  the receiver's header decoder returns the length of the packet, its body decoder accepts the
  checksum, and the decoded packet has the length, the command and the body that were sent. Only the
  two bytes at offsets 4 and 5, which carry the key index and the checksum, differ.\<close>

theorem server_packet_roundtrip:
  assumes "6 \<le> unat (packet_size b)" and "unat (packet_size b) \<le> length b"
    and "unat (packet_size b) < 2 ^ 11" and "unat (packet_type b) < 2 ^ 11"
  shows "\<exists>e d d'. encodeServerPacket rt b = Some e
    \<and> decodeServerHeader rt e = (packet_size b, d)
    \<and> decodeServerBody rt d = Some (True, d')
    \<and> take 4 d' = take 4 b \<and> drop 6 d' = drop 6 b \<and> length d' = length b"
proof -
  let ?h = "make_head 260 b"
  obtain e d where ed: "encode_packet HeadCryptedServer 260 rt b = Some e"
    "decode_header HeadCryptedServer rt e = (packet_size b, store_head ?h d)" "length d = length b"
    "decode_packet_body (packet_size b) rt (store_head ?h d)
      = Some (True, take 4 b @ [le_bytes 5 ?h ! 4, body_checksum ?h (unat (packet_size b)) b] @ drop 6 b)"
    using crypted_server.decode_encode [of b "packet_size b" 260 rt] assms by auto
  then have "decodeServerBody rt (store_head ?h d)
      = Some (True, take 4 b @ [le_bytes 5 ?h ! 4, body_checksum ?h (unat (packet_size b)) b] @ drop 6 b)"
    using assms by (simp add: decodeServerBody_def serverbuflen_make_head)
  with ed show ?thesis
    using assms by (simp add: encodeServerPacket_def decodeServerHeader_def)
qed

definition sample_keys :: "u32 list list" where
  "sample_keys = replicate 16 (replicate 2048 0xDEADBEEF)"

definition sample_buffer :: "byte list" where
  "sample_buffer = [10, 0, 8, 7, 0, 0, 0x61, 0x62, 0x63, 0]"

theorem server_packet_roundtrip_witness:
  "\<exists>e d d'. encodeServerPacket sample_keys sample_buffer = Some e
    \<and> decodeServerHeader sample_keys e = (10, d)
    \<and> decodeServerBody sample_keys d = Some (True, d')
    \<and> take 4 d' = [10, 0, 8, 7] \<and> drop 6 d' = [0x61, 0x62, 0x63, 0]"
proof -
  have sz: "packet_size sample_buffer = 10" and ty: "packet_type sample_buffer = 0x708"
    by (simp_all add: packet_size_def packet_type_def sample_buffer_def)
  have "6 \<le> unat (packet_size sample_buffer)" "unat (packet_size sample_buffer) \<le> length sample_buffer"
    "unat (packet_size sample_buffer) < 2 ^ 11" "unat (packet_type sample_buffer) < 2 ^ 11"
    unfolding sz ty by (simp_all add: sample_buffer_def)
  from server_packet_roundtrip [OF this, of sample_keys] show ?thesis
    unfolding sz by (simp add: sample_buffer_def) blast
qed

text \<open>C1. The same for the client's direction, with the client's header layout. The client sends
  \<open>EncryptValue = 0\<close>, so the server's body decoder, which subtracts it from the length, decodes
  exactly the bytes that were encoded.\<close>

theorem client_packet_roundtrip:
  assumes "6 \<le> unat (packet_size b)" and "unat (packet_size b) \<le> length b"
    and "unat (packet_size b) < 2 ^ 11" and "unat (packet_type b) < 2 ^ 11"
  shows "\<exists>e d d'. encodeClientPacket rt b = Some e
    \<and> decodeClientHeader rt e = (packet_size b, d)
    \<and> decodeClientBody rt d = Some (True, d')
    \<and> take 4 d' = take 4 b \<and> drop 6 d' = drop 6 b \<and> length d' = length b"
proof -
  let ?h = "make_head 0 b"
  obtain e d where ed: "encode_packet HeadCryptedClient 0 rt b = Some e"
    "decode_header HeadCryptedClient rt e = (packet_size b, store_head ?h d)" "length d = length b"
    "decode_packet_body (packet_size b) rt (store_head ?h d)
      = Some (True, take 4 b @ [le_bytes 5 ?h ! 4, body_checksum ?h (unat (packet_size b)) b] @ drop 6 b)"
    using crypted_client.decode_encode [of b "packet_size b" 0 rt] assms by auto
  then have "decodeClientBody rt (store_head ?h d)
      = Some (True, take 4 b @ [le_bytes 5 ?h ! 4, body_checksum ?h (unat (packet_size b)) b] @ drop 6 b)"
    using assms by (simp add: decodeClientBody_def clientbuflen_make_head)
  with ed show ?thesis
    using assms by (simp add: encodeClientPacket_def decodeClientHeader_def)
qed

theorem client_packet_roundtrip_witness:
  "\<exists>e d d'. encodeClientPacket sample_keys sample_buffer = Some e
    \<and> decodeClientHeader sample_keys e = (10, d)
    \<and> decodeClientBody sample_keys d = Some (True, d')
    \<and> take 4 d' = [10, 0, 8, 7] \<and> drop 6 d' = [0x61, 0x62, 0x63, 0]"
proof -
  have sz: "packet_size sample_buffer = 10" and ty: "packet_type sample_buffer = 0x708"
    by (simp_all add: packet_size_def packet_type_def sample_buffer_def)
  have "6 \<le> unat (packet_size sample_buffer)" "unat (packet_size sample_buffer) \<le> length sample_buffer"
    "unat (packet_size sample_buffer) < 2 ^ 11" "unat (packet_type sample_buffer) < 2 ^ 11"
    unfolding sz ty by (simp_all add: sample_buffer_def)
  from client_packet_roundtrip [OF this, of sample_keys] show ?thesis
    unfolding sz by (simp add: sample_buffer_def) blast
qed

lemma decode_packet_body_ok_iff:
  assumes "6 \<le> length b" and "unat buflen \<le> length b"
  shows "(\<exists>b'. decode_packet_body buflen rt b = Some (True, b')) \<longleftrightarrow>
    body_checksum (load_head b) (unat buflen) (mask_body rt (load_head b) (unat buflen) b) = b ! 5"
  using assms
  by (auto simp: decode_packet_body_def decode_body_eq body_checksum_def Let_def mask_body_nth)

lemma decode_packet_body_defined:
  assumes "6 \<le> length b" and "unat buflen \<le> length b"
  shows "decode_packet_body buflen rt b \<noteq> None"
  using assms by (auto simp: decode_packet_body_def Let_def split: prod.split)

lemma body_checksum_update:
  assumes "6 \<le> i" and "i < n" and "n \<le> length b" and "x \<noteq> b ! i"
  shows "body_checksum h n (b[i := x]) \<noteq> body_checksum h n b"
proof -
  have split: "[6..<n] = [6..<i] @ i # [Suc i..<n]"
    using assms by (metis le_Suc_ex less_imp_Suc_add upt_add_eq_append upt_conv_Cons add_Suc_right
        le_add1 less_add_Suc1 order_less_imp_le)
  have pre: "map ((!) (b[i := x])) [6..<i] = map ((!) b) [6..<i]"
    and post: "map ((!) (b[i := x])) [Suc i..<n] = map ((!) b) [Suc i..<n]"
    by simp_all
  show ?thesis
    unfolding body_checksum_def split using assms
    by (simp add: pre post fold_crc_inj crc_step_inj_byte del: map_map)
qed

text \<open>C36. The checksum detects every single corrupted byte of a body: if the decoder accepts a
  buffer, it rejects the buffer in which any one byte of the encrypted body was changed.\<close>

theorem corrupted_body_rejected:
  assumes "6 \<le> length b" and "unat (server_buflen (load_head b)) \<le> length b"
    and "decodeServerBody rt b = Some (True, b')"
    and "6 \<le> i" and "i < unat (server_buflen (load_head b))" and "x \<noteq> b ! i"
  shows "\<exists>b''. decodeServerBody rt (b[i := x]) = Some (False, b'')"
proof -
  let ?h = "load_head b" and ?n = "unat (server_buflen (load_head b))"
  let ?m = "mask_body rt ?h ?n"
  have h: "load_head (b[i := x]) = ?h"
    using assms(4) by (intro load_head_cong) simp
  have mask: "?m (b[i := x]) = (?m b)[i := x XOR body_key rt ?h i]"
    using assms by (intro nth_equalityI) (auto simp: mask_body_nth nth_list_update)
  have "body_checksum ?h ?n (?m b) = b ! 5"
    using assms decode_packet_body_ok_iff [of b "server_buflen ?h" rt] by (auto simp: decodeServerBody_def)
  moreover have "body_checksum ?h ?n (?m (b[i := x])) \<noteq> body_checksum ?h ?n (?m b)"
    unfolding mask using assms
    by (intro body_checksum_update) (auto simp: mask_body_nth xor_left_cancel_byte)
  ultimately have "\<not> (\<exists>c. decodeServerBody rt (b[i := x]) = Some (True, c))"
    using assms decode_packet_body_ok_iff [of "b[i := x]" "server_buflen ?h" rt]
    by (simp add: decodeServerBody_def h)
  moreover have "decodeServerBody rt (b[i := x]) \<noteq> None"
    using assms(1,2) by (simp add: decodeServerBody_def h decode_packet_body_defined)
  ultimately show ?thesis by (metis (full_types) not_Some_eq surj_pair)
qed

definition sample_received :: "byte list" where
  "sample_received = [7, 0, 0, 0, 0, 133, 0xEF]"

lemma sample_received_accepted:
  "decodeServerBody sample_keys sample_received = Some (True, sample_received[6 := 0])"
proof -
  have h: "load_head sample_received = 7"
    by (simp add: load_head_def sample_received_def)
  have k: "body_key sample_keys 7 6 = 0xEF"
    by (simp add: body_key_def sample_keys_def bf_get_def Head_EncryptAddValue_def Head_AddTableValue_def)
  have c: "bf_get Head_Command 7 = 0" "bf_get Head_AddBufferLen 7 = 7"
    by (simp_all add: bf_get_def Head_Command_def Head_AddBufferLen_def)
  have w: "le_bytes 5 (7 :: head) = [7, 0, 0, 0, 0]"
    using le_bytes_le_word [of "[7, 0, 0, 0, 0]" 5, where 'a = 40] by simp
  have s: "crc_step 0 (head_checksum 7) = 133"
    by (simp add: head_checksum_def w) (simp add: crc_step_def CrcTable_def)
  have "[6..<7::nat] = [6]" by (simp add: upt_rec)
  then have "decode_body sample_keys 7 7 (head_checksum 7, sample_received)
      = (133, sample_received[6 := 0])"
    by (simp add: decode_body_def k) (simp add: sample_received_def s)
  moreover have "le_bytes 2 (7 :: u16) = [7, 0]" "le_bytes 2 (0 :: u16) = [0, 0]"
    using le_bytes_le_word [of "[7, 0]" 2, where 'a = 16] le_bytes_le_word [of "[0, 0]" 2, where 'a = 16]
    by simp_all
  ultimately show ?thesis
    by (simp add: decodeServerBody_def server_buflen_def decode_packet_body_def h c Let_def)
       (simp add: sample_received_def blit_def)
qed

theorem corrupted_body_rejected_witness:
  "decodeServerBody sample_keys sample_received = Some (True, sample_received[6 := 0])
   \<and> (\<exists>b''. decodeServerBody sample_keys (sample_received[6 := 1]) = Some (False, b''))"
proof -
  have h: "server_buflen (load_head sample_received) = 7"
    by (simp add: load_head_def sample_received_def server_buflen_def bf_get_def Head_AddBufferLen_def)
  show ?thesis
    using sample_received_accepted
      corrupted_body_rejected [OF _ _ sample_received_accepted, of 6 1]
    unfolding h by (simp add: sample_received_def)
qed

text \<open>C37. The server-side body decoder stays inside a receive buffer of \<open>MAX_PACKET_SIZE\<close> bytes for
  every header a peer can send, since its length is an 11 bit field; and so does the client-side
  decoder whenever the subtracted \<open>EncryptValue\<close> does not exceed the length.\<close>

theorem decoders_in_bounds:
  assumes "length b = MAX_PACKET_SIZE"
  shows "decodeServerBody rt b \<noteq> None \<and>
    (unat (bf_get Head_EncryptValue (load_head b)) \<le> unat (bf_get Head_AddBufferLen (load_head b))
      \<longrightarrow> decodeClientBody rt b \<noteq> None)"
proof -
  let ?h = "load_head b"
  let ?l = "unat (bf_get Head_AddBufferLen ?h)" and ?v = "unat (bf_get Head_EncryptValue ?h)"
  have l: "?l < 2 ^ 11" and v: "?v < 2 ^ 3"
    using unat_bf_get_less [of 11 0 ?h] unat_bf_get_less [of 3 37 ?h]
    by (simp_all add: Head_AddBufferLen_def Head_EncryptValue_def)
  have sl: "unat (ucast (bf_get Head_AddBufferLen ?h) :: u16) = ?l"
    and sv: "unat (ucast (bf_get Head_EncryptValue ?h) :: u16) = ?v"
    using l v by (simp_all add: unsigned_ucast_eq take_bit_nat_eq_self)
  have "unat (server_buflen ?h) \<le> length b"
    using l sl assms by (simp add: server_buflen_def MAX_PACKET_SIZE_def)
  moreover have "unat (client_buflen ?h) \<le> length b" if "?v \<le> ?l"
  proof -
    have "unat (client_buflen ?h) = ?l - ?v"
      using that by (simp add: client_buflen_def unat_sub_if' sl sv)
    then show ?thesis using l assms by (simp add: MAX_PACKET_SIZE_def)
  qed
  ultimately show ?thesis
    using assms by (auto simp: decodeServerBody_def decodeClientBody_def decode_packet_body_def
        Let_def MAX_PACKET_SIZE_def split: prod.splits if_splits)
qed

theorem decoders_in_bounds_witness:
  "decodeServerBody sample_keys (replicate 2047 0) \<noteq> None
   \<and> decodeClientBody sample_keys (replicate 2047 0) \<noteq> None"
proof -
  have "load_head (replicate 2047 0) = 0"
    by (simp add: load_head_def numeral_eq_Suc)
  then show ?thesis
    using decoders_in_bounds [of "replicate 2047 0" sample_keys]
    by (simp add: MAX_PACKET_SIZE_def bf_get_def Head_EncryptValue_def)
qed

text \<open>Without that condition the client-side decoder is not safe. The header below announces a
  length of 6 and an \<open>EncryptValue\<close> of 7; the length passes the size check of the socket, the
  16 bit subtraction wraps to 65535, and for every content of the rest of the receive buffer the
  body loop runs past its end.\<close>

theorem decodeClientBody_wraps:
  "let b = [6, 0, 0, 0, 0xE0] @ replicate 2042 x in
   length b = MAX_PACKET_SIZE \<and> unat (bf_get Head_AddBufferLen (load_head b)) = 6 \<and>
   unat (client_buflen (load_head b)) = 65535 \<and> decodeClientBody rt b = None"
proof -
  let ?b = "[6, 0, 0, 0, 0xE0] @ replicate 2042 x"
  have h: "load_head ?b = 0xE000000006"
    by (simp add: load_head_def)
  have "client_buflen (0xE000000006) = 65535"
    by (simp add: client_buflen_def bf_get_def Head_AddBufferLen_def Head_EncryptValue_def)
  then show ?thesis
    unfolding Let_def h decodeClientBody_def
    by (simp add: MAX_PACKET_SIZE_def bf_get_def Head_AddBufferLen_def decode_packet_body_def Let_def h)
qed

end
