(* ===== verification/CNetwork_Asio.thy ===== *)
theory CNetwork_Asio
  imports CRosePacket
begin

text \<open>
  A connection of \<open>core/src/cnetwork_asio.cpp\<close> and \<open>core/include/inetwork.h\<close>: the life cycle, the
  send queue with its single outstanding write, and the receive loop. The asio library is outside the
  model: an asynchronous operation only records what was asked of it (\<open>m_reading\<close> is the number of
  bytes of the outstanding read, \<open>m_written\<close> the buffers given to \<open>async_write\<close>), and the completion
  handlers are functions of what asio reports. The callbacks of \<open>INetwork\<close> are a record of functions
  on the state, and the state record is extended by the classes that own a connection. A function
  yields \<open>None\<close> where the source would access memory outside a buffer or a queue.
\<close>

section \<open>State\<close>

record CNetwork_Asio =
  m_network_id :: u32
  m_network_type :: u32
  m_network_port :: u16
  m_network_name :: cstring
  m_network_address :: cstring
  m_update_time :: int
  m_listener_open :: bool
  m_socket_open :: bool
  m_send_queue :: "byte list list"
  m_discard_queue :: "byte list list"
  m_net_buffer :: "byte list"
  m_packet_offset :: u16
  m_packet_size :: u16
  m_active :: bool
  m_remote_connection :: bool
  m_reading :: "nat option"
  m_written :: "byte list list"

record 's callbacks =
  OnAccept :: "'s \<Rightarrow> bool \<times> 's"
  OnConnect :: "'s \<Rightarrow> bool \<times> 's"
  OnConnected :: "'s \<Rightarrow> 's"
  OnListen :: "'s \<Rightarrow> bool \<times> 's"
  OnListening :: "'s \<Rightarrow> 's"
  OnDisconnect :: "'s \<Rightarrow> bool \<times> 's"
  OnDisconnected :: "'s \<Rightarrow> 's"
  OnReceive :: "'s \<Rightarrow> bool \<times> 's"
  OnReceived :: "'s \<Rightarrow> (bool \<times> 's) option"
  OnSend :: "byte list \<Rightarrow> (bool \<times> byte list) option"
  OnSent :: "'s \<Rightarrow> 's"
  OnShutdown :: "'s \<Rightarrow> bool \<times> 's"

text \<open>\<open>initCallbacks\<close>\<close>

definition initCallbacks :: "'s callbacks" where
  "initCallbacks = \<lparr>OnAccept = Pair True, OnConnect = Pair True, OnConnected = id, OnListen = Pair True,
     OnListening = id, OnDisconnect = Pair True, OnDisconnected = id, OnReceive = Pair True,
     OnReceived = (\<lambda>s. Some (True, s)), OnSend = (\<lambda>b. Some (True, b)), OnSent = id,
     OnShutdown = Pair True\<rparr>"

text \<open>The error codes of asio that the completion handlers tell apart.\<close>

datatype asio_error = try_again | connection_reset | network_reset | eof | other_error

text \<open>The constructors; \<open>g\<close> is what the memory of the receive buffer held.\<close>

definition CNetwork_Asio_new :: "byte list \<Rightarrow> int \<Rightarrow> CNetwork_Asio" where
  "CNetwork_Asio_new g now =
    \<lparr>m_network_id = 0, m_network_type = 0, m_network_port = 0, m_network_name = [],
     m_network_address = [], m_update_time = now, m_listener_open = False, m_socket_open = False,
     m_send_queue = [], m_discard_queue = [], m_net_buffer = g, m_packet_offset = 0, m_packet_size = 6,
     m_active = False, m_remote_connection = False, m_reading = None, m_written = []\<rparr>"

definition set_active :: "bool \<Rightarrow> 'a CNetwork_Asio_scheme \<Rightarrow> 'a CNetwork_Asio_scheme" where
  "set_active val s = s\<lparr>m_active := val\<rparr>"

definition set_id :: "u32 \<Rightarrow> 'a CNetwork_Asio_scheme \<Rightarrow> 'a CNetwork_Asio_scheme" where
  "set_id val s = s\<lparr>m_network_id := val\<rparr>"

definition set_type :: "u32 \<Rightarrow> 'a CNetwork_Asio_scheme \<Rightarrow> 'a CNetwork_Asio_scheme" where
  "set_type val s = s\<lparr>m_network_type := val\<rparr>"

definition set_address :: "cstring \<Rightarrow> 'a CNetwork_Asio_scheme \<Rightarrow> 'a CNetwork_Asio_scheme" where
  "set_address val s = s\<lparr>m_network_address := val\<rparr>"

definition set_update_time :: "int \<Rightarrow> 'a CNetwork_Asio_scheme \<Rightarrow> 'a CNetwork_Asio_scheme" where
  "set_update_time t s = s\<lparr>m_update_time := t\<rparr>"

definition reset_internal_buffer :: "'a CNetwork_Asio_scheme \<Rightarrow> 'a CNetwork_Asio_scheme" where
  "reset_internal_buffer s = s\<lparr>m_packet_offset := 0, m_packet_size := 6\<rparr>"

section \<open>Life cycle\<close>

definition init :: "cstring \<Rightarrow> u16 \<Rightarrow> 'a CNetwork_Asio_scheme \<Rightarrow> bool \<times> 'a CNetwork_Asio_scheme" where
  "init ip port s =
    (if length ip < 2 then (False, s)
     else (True, s\<lparr>m_network_address := ip, m_network_port := port, m_active := True\<rparr>))"

definition disconnect :: "'a CNetwork_Asio_scheme callbacks \<Rightarrow> 'a CNetwork_Asio_scheme
    \<Rightarrow> bool \<times> 'a CNetwork_Asio_scheme" where
  "disconnect cb s =
    (let (ok, s1) = OnDisconnect cb s in
     if \<not> ok then (False, s1) else (True, OnDisconnected cb s1))"

definition shutdown :: "'a CNetwork_Asio_scheme callbacks \<Rightarrow> bool \<Rightarrow> 'a CNetwork_Asio_scheme
    \<Rightarrow> bool \<times> 'a CNetwork_Asio_scheme" where
  "shutdown cb is_final s =
    (if \<not> m_active s then (True, s)
     else
       let (go, s1) =
         (if is_final then (True, s)
          else let (ok, s') = OnShutdown cb s in if ok then disconnect cb s' else (False, s'))
       in if go then (True, s1\<lparr>m_listener_open := False, m_socket_open := False, m_active := False\<rparr>)
          else (False, s1))"

text \<open>\<open>connect\<close>; \<open>failed\<close> is whether \<open>asio::connect\<close> reported an error.\<close>

definition connect :: "'a CNetwork_Asio_scheme callbacks \<Rightarrow> bool \<Rightarrow> 'a CNetwork_Asio_scheme
    \<Rightarrow> bool \<times> 'a CNetwork_Asio_scheme" where
  "connect cb failed s =
    (let (ok, s1) = OnConnect cb s;
         s2 = (if ok then
                 let s' = s1\<lparr>m_socket_open := True, m_remote_connection := True\<rparr> in
                 if \<not> failed then (OnConnected cb s')\<lparr>m_active := True\<rparr> else s'\<lparr>m_active := False\<rparr>
               else s1)
     in (m_active s2, s2))"

definition reconnect :: "'a CNetwork_Asio_scheme callbacks \<Rightarrow> bool \<Rightarrow> 'a CNetwork_Asio_scheme
    \<Rightarrow> bool \<times> 'a CNetwork_Asio_scheme" where
  "reconnect cb failed s =
    (if \<not> m_remote_connection s then (False, s) else connect cb failed (snd (disconnect cb s)))"

definition listen :: "'a CNetwork_Asio_scheme callbacks \<Rightarrow> 'a CNetwork_Asio_scheme
    \<Rightarrow> bool \<times> 'a CNetwork_Asio_scheme" where
  "listen cb s =
    (True, OnListening cb ((snd (OnListen cb s))\<lparr>m_listener_open := True, m_active := True\<rparr>))"

text \<open>The completion of \<open>async_accept\<close>: the new connection handed to \<open>OnAccepted\<close>, if any, and
  whether the listener accepts again.\<close>

definition AcceptConnection :: "'a CNetwork_Asio_scheme callbacks \<Rightarrow> asio_error option \<Rightarrow> cstring \<Rightarrow> byte list
    \<Rightarrow> int \<Rightarrow> 'a CNetwork_Asio_scheme \<Rightarrow> CNetwork_Asio option \<times> bool \<times> 'a CNetwork_Asio_scheme" where
  "AcceptConnection cb ec remote g now s =
    (if ec \<noteq> None then (None, m_active s, s)
     else let (ok, s1) = OnAccept cb s in
       if ok then
         (Some (set_active True ((set_address remote (CNetwork_Asio_new g now))\<lparr>m_socket_open := True\<rparr>)),
          m_active s1, s1)
       else (None, m_active s1, s1))"

section \<open>Sending\<close>

text \<open>\<open>ProcessSend\<close>: at most one write is outstanding, and its buffer is the one in the discard queue.
  \<open>OnSend\<close> changes that buffer in place; the size is read before.\<close>

definition ProcessSend :: "'a CNetwork_Asio_scheme callbacks \<Rightarrow> 'a CNetwork_Asio_scheme
    \<Rightarrow> 'a CNetwork_Asio_scheme option" where
  "ProcessSend cb s =
    (if \<not> m_active s then Some s
     else case m_send_queue s of
       [] \<Rightarrow> Some s
     | buf # rest \<Rightarrow>
         if m_discard_queue s \<noteq> [] then Some s
         else if length buf < 4 then None
         else let n = unat (packet_size buf) in
           (case OnSend cb buf of
              None \<Rightarrow> None
            | Some (ok, raw) \<Rightarrow>
                let s1 = s\<lparr>m_send_queue := rest, m_discard_queue := m_discard_queue s @ [raw]\<rparr> in
                if \<not> ok then Some s1
                else if length raw < n then None
                else Some (s1\<lparr>m_written := m_written s1 @ [take n raw]\<rparr>)))"

definition send_data :: "'a CNetwork_Asio_scheme callbacks \<Rightarrow> byte list \<Rightarrow> 'a CNetwork_Asio_scheme
    \<Rightarrow> 'a CNetwork_Asio_scheme option" where
  "send_data cb buf s = ProcessSend cb (s\<lparr>m_send_queue := m_send_queue s @ [buf]\<rparr>)"

text \<open>The completion handler of \<open>async_write\<close>.\<close>

definition write_done :: "'a CNetwork_Asio_scheme callbacks \<Rightarrow> int \<Rightarrow> asio_error option \<Rightarrow> 'a CNetwork_Asio_scheme
    \<Rightarrow> 'a CNetwork_Asio_scheme option" where
  "write_done cb now err s =
    (let s1 = (case err of
                 None \<Rightarrow> (OnSent cb s)\<lparr>m_update_time := now\<rparr>
               | Some e \<Rightarrow> if e = connection_reset \<or> e = network_reset then snd (shutdown cb False s) else s)
     in case m_discard_queue s1 of
          [] \<Rightarrow> None
        | _ # rest \<Rightarrow> ProcessSend cb (s1\<lparr>m_discard_queue := rest\<rparr>))"

section \<open>Receiving\<close>

text \<open>\<open>recv_data\<close>: \<open>BytesToRead\<close> is an \<open>int16_t\<close>; a negative value or one that reaches past the
  receive buffer would let asio write outside it.\<close>

definition BytesToRead :: "'a CNetwork_Asio_scheme \<Rightarrow> int" where
  "BytesToRead s = sint (m_packet_size s - m_packet_offset s)"

definition recv_data :: "'a CNetwork_Asio_scheme callbacks \<Rightarrow> 'a CNetwork_Asio_scheme
    \<Rightarrow> 'a CNetwork_Asio_scheme option" where
  "recv_data cb s =
    (let (ok, s1) = OnReceive cb s in
     if \<not> ok then Some s1
     else if BytesToRead s1 < 0 \<or> int (length (m_net_buffer s1)) < uint (m_packet_offset s1) + BytesToRead s1
     then None
     else Some (s1\<lparr>m_reading := Some (nat (BytesToRead s1))\<rparr>))"

text \<open>The completion handler of \<open>async_read\<close>: asio stored \<open>bs\<close> at the offset the read was started with.\<close>

definition read_done :: "'a CNetwork_Asio_scheme callbacks \<Rightarrow> int \<Rightarrow> byte list \<Rightarrow> asio_error option
    \<Rightarrow> 'a CNetwork_Asio_scheme \<Rightarrow> 'a CNetwork_Asio_scheme option" where
  "read_done cb now bs err s =
    (let s1 = s\<lparr>m_reading := None,
                m_net_buffer := blit (unat (m_packet_offset s)) bs (m_net_buffer s),
                m_packet_offset := m_packet_offset s + of_nat (length bs),
                m_update_time := now\<rparr>
     in case err of
          None \<Rightarrow>
            (case OnReceived cb s1 of
               None \<Rightarrow> None
             | Some (ok, s2) \<Rightarrow>
                 if \<not> ok then Some (snd (shutdown cb False s2))
                 else if m_active s2 then recv_data cb s2 else Some s2)
        | Some try_again \<Rightarrow> if m_active s1 then recv_data cb s1 else Some s1
        | Some other_error \<Rightarrow> Some (OnDisconnected cb (snd (shutdown cb True s1)))
        | Some _ \<Rightarrow> (let (ok, s2) = shutdown cb False s1 in Some (if ok then OnDisconnected cb s2 else s2)))"

section \<open>What the operations leave alone\<close>

text \<open>Sending changes only the queues, so the members of a class that extends the connection survive it.\<close>

lemma ProcessSend_frame:
  "ProcessSend cb s = Some s' \<Longrightarrow> \<exists>q d w. s' = s\<lparr>m_send_queue := q, m_discard_queue := d, m_written := w\<rparr>"
  by (rule exI [of _ "m_send_queue s'"], rule exI [of _ "m_discard_queue s'"], rule exI [of _ "m_written s'"])
     (auto simp: ProcessSend_def Let_def split: if_splits list.splits option.splits)

lemma send_data_frame:
  "send_data cb buf s = Some s' \<Longrightarrow> \<exists>q d w. s' = s\<lparr>m_send_queue := q, m_discard_queue := d, m_written := w\<rparr>"
  using ProcessSend_frame [of cb "s\<lparr>m_send_queue := m_send_queue s @ [buf]\<rparr>" s'] by (auto simp: send_data_def)

section \<open>The promise of the send queue\<close>

text \<open>What the environment does to the sending side of a connection: a caller submits a buffer, or asio
  reports the end of the outstanding write.\<close>

datatype send_event = Submit "byte list" | Written int "asio_error option"

fun send_step :: "'a CNetwork_Asio_scheme callbacks \<Rightarrow> send_event \<Rightarrow> 'a CNetwork_Asio_scheme
    \<Rightarrow> 'a CNetwork_Asio_scheme option" where
  "send_step cb (Submit buf) s = send_data cb buf s"
| "send_step cb (Written now err) s = write_done cb now err s"

fun send_run :: "'a CNetwork_Asio_scheme callbacks \<Rightarrow> send_event list \<Rightarrow> 'a CNetwork_Asio_scheme
    \<Rightarrow> 'a CNetwork_Asio_scheme option" where
  "send_run cb [] s = Some s"
| "send_run cb (e # es) s = (case send_step cb e s of None \<Rightarrow> None | Some s' \<Rightarrow> send_run cb es s')"

fun submitted :: "send_event list \<Rightarrow> byte list list" where
  "submitted [] = []"
| "submitted (Submit buf # es) = buf # submitted es"
| "submitted (Written now err # es) = submitted es"

text \<open>What a sender needs of its callbacks: \<open>OnSend\<close> transforms every buffer of the protocol and
  never refuses one, and no callback of the sending path touches the queues.\<close>

definition same_queues :: "'a CNetwork_Asio_scheme \<Rightarrow> 'a CNetwork_Asio_scheme \<Rightarrow> bool" where
  "same_queues s t \<longleftrightarrow> m_send_queue s = m_send_queue t \<and> m_discard_queue s = m_discard_queue t
     \<and> m_written s = m_written t"

definition wire_buffer :: "byte list \<Rightarrow> bool" where
  "wire_buffer buf \<longleftrightarrow> 6 \<le> length buf \<and> unat (packet_size buf) = length buf"

locale sender =
  fixes cb :: "'a CNetwork_Asio_scheme callbacks"
    and image :: "byte list \<Rightarrow> byte list"
  assumes OnSend_image: "wire_buffer buf \<Longrightarrow> OnSend cb buf = Some (True, image buf)"
    and length_image: "wire_buffer buf \<Longrightarrow> length (image buf) = length buf"
    and OnSent_frame: "same_queues (OnSent cb s) s"
    and OnShutdown_frame: "same_queues (snd (OnShutdown cb s)) s"
    and OnDisconnect_frame: "same_queues (snd (OnDisconnect cb s)) s"
    and OnDisconnected_frame: "same_queues (OnDisconnected cb s) s"
begin

lemma disconnect_frame: "same_queues (snd (disconnect cb s)) s"
  using OnDisconnect_frame [of s] OnDisconnected_frame [of "snd (OnDisconnect cb s)"]
  by (auto simp: disconnect_def same_queues_def Let_def split: prod.splits)

lemma shutdown_frame: "same_queues (snd (shutdown cb f s)) s"
  using OnShutdown_frame [of s] disconnect_frame [of "snd (OnShutdown cb s)"]
  by (auto simp: shutdown_def same_queues_def Let_def split: prod.splits if_splits)

text \<open>The invariant of the queue: what was written and what still waits is, in order, what was
  submitted, and at most one buffer is being written.\<close>

definition queued :: "byte list list \<Rightarrow> 'a CNetwork_Asio_scheme \<Rightarrow> bool" where
  "queued bufs s \<longleftrightarrow> m_written s @ map image (m_send_queue s) = map image bufs
     \<and> length (m_discard_queue s) \<le> 1 \<and> (\<forall>buf \<in> set (m_send_queue s). wire_buffer buf)"

lemma queued_cong: "same_queues s t \<Longrightarrow> queued bufs s = queued bufs t"
  by (simp add: queued_def same_queues_def)

lemma ProcessSend_queued:
  assumes "queued bufs s"
  shows "\<exists>s'. ProcessSend cb s = Some s' \<and> queued bufs s' \<and> m_active s' = m_active s
    \<and> (m_active s \<longrightarrow> m_send_queue s \<noteq> [] \<longrightarrow> m_discard_queue s' \<noteq> [])"
proof (cases "m_active s \<and> m_discard_queue s = [] \<and> m_send_queue s \<noteq> []")
  case True
  then obtain buf rest where q: "m_send_queue s = buf # rest" by (cases "m_send_queue s") auto
  with assms have w: "wire_buffer buf" by (auto simp: queued_def)
  then show ?thesis
    using assms True q OnSend_image [OF w] length_image [OF w]
    by (auto simp: ProcessSend_def queued_def wire_buffer_def Let_def)
next
  case False
  then show ?thesis
    using assms by (auto simp: ProcessSend_def split: list.splits)
qed

lemma send_step_queued:
  assumes "queued bufs s" and "\<And>buf. e = Submit buf \<Longrightarrow> wire_buffer buf"
    and "\<And>now err. e = Written now err \<Longrightarrow> m_discard_queue s \<noteq> []"
  shows "\<exists>s'. send_step cb e s = Some s' \<and> queued (bufs @ submitted [e]) s'"
proof (cases e)
  case (Submit buf)
  have "queued (bufs @ [buf]) (s\<lparr>m_send_queue := m_send_queue s @ [buf]\<rparr>)"
    using assms(1,2) Submit by (auto simp: queued_def)
  from ProcessSend_queued [OF this] show ?thesis
    by (auto simp: Submit send_data_def)
next
  case (Written now err)
  define s1 where "s1 = (case err of
      None \<Rightarrow> (OnSent cb s)\<lparr>m_update_time := now\<rparr>
    | Some e \<Rightarrow> if e = connection_reset \<or> e = network_reset then snd (shutdown cb False s) else s)"
  have same: "same_queues s1 s"
    using OnSent_frame [of s] shutdown_frame [of False s]
    by (auto simp: s1_def same_queues_def split: option.splits)
  then obtain d rest where d: "m_discard_queue s1 = d # rest"
    using assms(3) [OF Written] by (cases "m_discard_queue s1") (auto simp: same_queues_def)
  have "queued bufs s1" using assms(1) queued_cong [OF same] by simp
  then have "queued bufs (s1\<lparr>m_discard_queue := rest\<rparr>)" using d by (auto simp: queued_def)
  from ProcessSend_queued [OF this] show ?thesis
    using d by (auto simp: Written write_done_def s1_def [symmetric] Let_def)
qed

text \<open>No interleaving of submissions and completions loses, repeats or reorders a buffer.\<close>

lemma send_run_queued:
  assumes "send_run cb es s = Some s'" and "queued bufs s"
    and "\<forall>buf \<in> set (submitted es). wire_buffer buf"
  shows "queued (bufs @ submitted es) s'"
  using assms
proof (induction es arbitrary: s bufs)
  case Nil
  then show ?case by simp
next
  case (Cons e es)
  then obtain s1 where s1: "send_step cb e s = Some s1" "send_run cb es s1 = Some s'"
    by (auto split: option.splits)
  have w: "wire_buffer buf" if "e = Submit buf" for buf using Cons.prems(3) that by simp
  have d: "m_discard_queue s \<noteq> []" if "e = Written now err" for now err
    using s1(1) that OnSent_frame [of s] shutdown_frame [of False s]
    by (auto simp: write_done_def same_queues_def Let_def split: option.splits list.splits if_splits)
  have "queued (bufs @ submitted [e]) s1"
    using send_step_queued [of bufs s e] Cons.prems(2) w d s1(1) by auto
  moreover have "submitted (e # es) = submitted [e] @ submitted es" by (cases e) auto
  moreover have "\<forall>buf \<in> set (submitted es). wire_buffer buf"
    using Cons.prems(3) by (cases e) auto
  ultimately show ?case using Cons.IH [OF s1(2), of "bufs @ submitted [e]"] by simp
qed

text \<open>Every completed write of an active connection starts the next one, so \<open>n\<close> completions write
  the next \<open>n\<close> buffers.\<close>

lemma written_progress:
  assumes "queued bufs s" and "m_active s" and "m_discard_queue s \<noteq> []"
    and "\<And>t. m_active (OnSent cb t) = m_active t" and "m_send_queue s = buf # rest"
  shows "\<exists>s'. write_done cb now None s = Some s' \<and> queued bufs s' \<and> m_active s'
    \<and> m_written s' = m_written s @ [image buf] \<and> m_send_queue s' = rest \<and> m_discard_queue s' \<noteq> []"
proof -
  let ?s = "OnSent cb s"
  have sq: "m_send_queue ?s = buf # rest" "m_discard_queue ?s = m_discard_queue s" "m_written ?s = m_written s"
    using OnSent_frame [of s] assms(5) by (auto simp: same_queues_def)
  obtain d where d: "m_discard_queue s = [d]"
    using assms(1,3) by (cases "m_discard_queue s") (auto simp: queued_def)
  have w: "wire_buffer buf" using assms(1,5) by (auto simp: queued_def)
  show ?thesis
    using assms w sq d OnSend_image [OF w] length_image [OF w]
    by (auto simp: write_done_def ProcessSend_def queued_def wire_buffer_def Let_def)
qed

end

end
