(* ===== verification/Packets_Server.thy ===== *)
theory Packets_Server
  imports CRosePacket EPacketType
begin

text \<open>
  The packets the servers send to a client (\<open>Srv...\<close>) whose members are plain values, in the
  conventions of the client packets: the record, \<open>pack\<close>, its byte image, and the receiving
  constructor of the classes that have one. The packets built from an entity are in the theories of
  the components they show.
\<close>

section \<open>Replies made of plain members\<close>

subsection \<open>\<open>SrvAcceptReply\<close>\<close>

record SrvAcceptReply =
  m_result :: u8
  m_randValue :: u32

definition SrvAcceptReply_read :: "CRosePacket \<Rightarrow> SrvAcceptReply \<times> CRosePacket" where
  "SrvAcceptReply_read = scomp get_u8 (\<lambda>result. scomp get_u32 (\<lambda>randValue.
     Pair \<lparr>m_result = result, m_randValue = randValue\<rparr>))"

definition SrvAcceptReply_recv :: "byte list \<Rightarrow> byte list \<Rightarrow> packet_error + SrvAcceptReply" where
  "SrvAcceptReply_recv = recv_packet PAKSS_ACCEPT_REPLY SrvAcceptReply_read"

definition SrvAcceptReply_pack :: "SrvAcceptReply \<Rightarrow> CRosePacket \<Rightarrow> CRosePacket" where
  "SrvAcceptReply_pack d = chain [put_u8 (m_result d), put_u32 (m_randValue d)]"

definition SrvAcceptReply_wire :: "SrvAcceptReply \<Rightarrow> byte list" where
  "SrvAcceptReply_wire d = [m_result d] @ le_bytes 4 (m_randValue d)"

definition SrvAcceptReply_ok :: "SrvAcceptReply \<Rightarrow> bool" where
  "SrvAcceptReply_ok d \<longleftrightarrow> True"

interpretation SrvAcceptReply: serial SrvAcceptReply_pack SrvAcceptReply_wire SrvAcceptReply_read SrvAcceptReply_ok
proof
  show "emits (SrvAcceptReply_pack d) (SrvAcceptReply_wire d)" for d
    unfolding SrvAcceptReply_pack_def SrvAcceptReply_wire_def by (rule emits_rules)+
  show "parses SrvAcceptReply_read d (SrvAcceptReply_wire d)" if "SrvAcceptReply_ok d" for d
    using that unfolding SrvAcceptReply_ok_def SrvAcceptReply_read_def SrvAcceptReply_wire_def
    by - (rule parses_rules | simp)+
qed

subsection \<open>\<open>SrvCreateCharReply\<close>\<close>

record SrvCreateCharReply =
  m_result :: u8
  m_platinium :: u8

definition SrvCreateCharReply_pack :: "SrvCreateCharReply \<Rightarrow> CRosePacket \<Rightarrow> CRosePacket" where
  "SrvCreateCharReply_pack d = chain [put_u8 (m_result d), put_u8 (m_platinium d)]"

definition SrvCreateCharReply_wire :: "SrvCreateCharReply \<Rightarrow> byte list" where
  "SrvCreateCharReply_wire d = [m_result d] @ [m_platinium d]"

interpretation SrvCreateCharReply: emitter SrvCreateCharReply_pack SrvCreateCharReply_wire
  by standard (unfold SrvCreateCharReply_pack_def SrvCreateCharReply_wire_def, (rule emits_rules)+)

subsection \<open>\<open>SrvDeleteCharReply\<close>\<close>

record SrvDeleteCharReply =
  m_remainingTime :: u32
  m_name :: cstring

definition SrvDeleteCharReply_pack :: "SrvDeleteCharReply \<Rightarrow> CRosePacket \<Rightarrow> CRosePacket" where
  "SrvDeleteCharReply_pack d = chain [put_u32 (m_remainingTime d), put_string (m_name d)]"

definition SrvDeleteCharReply_wire :: "SrvDeleteCharReply \<Rightarrow> byte list" where
  "SrvDeleteCharReply_wire d = le_bytes 4 (m_remainingTime d) @ (m_name d @ [0])"

interpretation SrvDeleteCharReply: emitter SrvDeleteCharReply_pack SrvDeleteCharReply_wire
  by standard (unfold SrvDeleteCharReply_pack_def SrvDeleteCharReply_wire_def, (rule emits_rules)+)

subsection \<open>\<open>SrvInitData\<close>\<close>

record SrvInitData =
  m_randSeed :: u32
  m_randIndex :: u16

definition SrvInitData_pack :: "SrvInitData \<Rightarrow> CRosePacket \<Rightarrow> CRosePacket" where
  "SrvInitData_pack d = chain [put_u32 (m_randSeed d), put_u16 (m_randIndex d)]"

definition SrvInitData_wire :: "SrvInitData \<Rightarrow> byte list" where
  "SrvInitData_wire d = le_bytes 4 (m_randSeed d) @ le_bytes 2 (m_randIndex d)"

interpretation SrvInitData: emitter SrvInitData_pack SrvInitData_wire
  by standard (unfold SrvInitData_pack_def SrvInitData_wire_def, (rule emits_rules)+)

subsection \<open>\<open>SrvJoinServerReply\<close>\<close>

record SrvJoinServerReply =
  m_result :: u8
  m_id :: u32
  m_payFlag :: u32

definition SrvJoinServerReply_read :: "CRosePacket \<Rightarrow> SrvJoinServerReply \<times> CRosePacket" where
  "SrvJoinServerReply_read = scomp get_u8 (\<lambda>result. scomp get_u32 (\<lambda>id. scomp get_u32 (\<lambda>payFlag.
     Pair \<lparr>m_result = result, m_id = id, m_payFlag = payFlag\<rparr>)))"

definition SrvJoinServerReply_recv :: "byte list \<Rightarrow> byte list \<Rightarrow> packet_error + SrvJoinServerReply" where
  "SrvJoinServerReply_recv = recv_packet PAKSC_JOIN_SERVER_REPLY SrvJoinServerReply_read"

definition SrvJoinServerReply_pack :: "SrvJoinServerReply \<Rightarrow> CRosePacket \<Rightarrow> CRosePacket" where
  "SrvJoinServerReply_pack d = chain [put_u8 (m_result d), put_u32 (m_id d), put_u32 (m_payFlag d)]"

definition SrvJoinServerReply_wire :: "SrvJoinServerReply \<Rightarrow> byte list" where
  "SrvJoinServerReply_wire d = [m_result d] @ le_bytes 4 (m_id d) @ le_bytes 4 (m_payFlag d)"

definition SrvJoinServerReply_ok :: "SrvJoinServerReply \<Rightarrow> bool" where
  "SrvJoinServerReply_ok d \<longleftrightarrow> True"

interpretation SrvJoinServerReply: serial SrvJoinServerReply_pack SrvJoinServerReply_wire SrvJoinServerReply_read SrvJoinServerReply_ok
proof
  show "emits (SrvJoinServerReply_pack d) (SrvJoinServerReply_wire d)" for d
    unfolding SrvJoinServerReply_pack_def SrvJoinServerReply_wire_def by (rule emits_rules)+
  show "parses SrvJoinServerReply_read d (SrvJoinServerReply_wire d)" if "SrvJoinServerReply_ok d" for d
    using that unfolding SrvJoinServerReply_ok_def SrvJoinServerReply_read_def SrvJoinServerReply_wire_def
    by - (rule parses_rules | simp)+
qed

subsection \<open>\<open>SrvLogoutReply\<close>\<close>

record SrvLogoutReply =
  m_waitTime :: u16

definition SrvLogoutReply_pack :: "SrvLogoutReply \<Rightarrow> CRosePacket \<Rightarrow> CRosePacket" where
  "SrvLogoutReply_pack d = chain [put_u16 (m_waitTime d)]"

definition SrvLogoutReply_wire :: "SrvLogoutReply \<Rightarrow> byte list" where
  "SrvLogoutReply_wire d = le_bytes 2 (m_waitTime d)"

interpretation SrvLogoutReply: emitter SrvLogoutReply_pack SrvLogoutReply_wire
  by standard (unfold SrvLogoutReply_pack_def SrvLogoutReply_wire_def, (rule emits_rules)+)

subsection \<open>\<open>SrvNormalChat\<close>\<close>

record SrvNormalChat =
  m_charId :: u16
  m_message :: cstring

definition SrvNormalChat_pack :: "SrvNormalChat \<Rightarrow> CRosePacket \<Rightarrow> CRosePacket" where
  "SrvNormalChat_pack d = chain [put_u16 (m_charId d), put_string (m_message d)]"

definition SrvNormalChat_wire :: "SrvNormalChat \<Rightarrow> byte list" where
  "SrvNormalChat_wire d = le_bytes 2 (m_charId d) @ (m_message d @ [0])"

interpretation SrvNormalChat: emitter SrvNormalChat_pack SrvNormalChat_wire
  by standard (unfold SrvNormalChat_pack_def SrvNormalChat_wire_def, (rule emits_rules)+)

subsection \<open>\<open>SrvPartyChat\<close>\<close>

record SrvPartyChat =
  m_charId :: u16
  m_message :: cstring

definition SrvPartyChat_pack :: "SrvPartyChat \<Rightarrow> CRosePacket \<Rightarrow> CRosePacket" where
  "SrvPartyChat_pack d = chain [put_u16 (m_charId d), put_string (m_message d)]"

definition SrvPartyChat_wire :: "SrvPartyChat \<Rightarrow> byte list" where
  "SrvPartyChat_wire d = le_bytes 2 (m_charId d) @ (m_message d @ [0])"

interpretation SrvPartyChat: emitter SrvPartyChat_pack SrvPartyChat_wire
  by standard (unfold SrvPartyChat_pack_def SrvPartyChat_wire_def, (rule emits_rules)+)

subsection \<open>\<open>SrvPartyReply\<close>\<close>

record SrvPartyReply =
  m_reply :: u8
  m_id :: u32

definition SrvPartyReply_pack :: "SrvPartyReply \<Rightarrow> CRosePacket \<Rightarrow> CRosePacket" where
  "SrvPartyReply_pack d = chain [put_u8 (m_reply d), put_u32 (m_id d)]"

definition SrvPartyReply_wire :: "SrvPartyReply \<Rightarrow> byte list" where
  "SrvPartyReply_wire d = [m_reply d] @ le_bytes 4 (m_id d)"

interpretation SrvPartyReply: emitter SrvPartyReply_pack SrvPartyReply_wire
  by standard (unfold SrvPartyReply_pack_def SrvPartyReply_wire_def, (rule emits_rules)+)

subsection \<open>\<open>SrvReviveReply\<close>\<close>

record SrvReviveReply =
  m_mapId :: u16

definition SrvReviveReply_pack :: "SrvReviveReply \<Rightarrow> CRosePacket \<Rightarrow> CRosePacket" where
  "SrvReviveReply_pack d = chain [put_u16 (m_mapId d)]"

definition SrvReviveReply_wire :: "SrvReviveReply \<Rightarrow> byte list" where
  "SrvReviveReply_wire d = le_bytes 2 (m_mapId d)"

interpretation SrvReviveReply: emitter SrvReviveReply_pack SrvReviveReply_wire
  by standard (unfold SrvReviveReply_pack_def SrvReviveReply_wire_def, (rule emits_rules)+)

subsection \<open>\<open>SrvScreenShotTimeReply\<close>\<close>

record SrvScreenShotTimeReply =
  m_year :: u16
  m_month :: u8
  m_day :: u8
  m_hour :: u8
  m_min :: u8

definition SrvScreenShotTimeReply_pack :: "SrvScreenShotTimeReply \<Rightarrow> CRosePacket \<Rightarrow> CRosePacket" where
  "SrvScreenShotTimeReply_pack d = chain [put_u16 (m_year d), put_u8 (m_month d), put_u8 (m_day d), put_u8 (m_hour d), put_u8 (m_min d)]"

definition SrvScreenShotTimeReply_wire :: "SrvScreenShotTimeReply \<Rightarrow> byte list" where
  "SrvScreenShotTimeReply_wire d = le_bytes 2 (m_year d) @ [m_month d] @ [m_day d] @ [m_hour d] @ [m_min d]"

interpretation SrvScreenShotTimeReply: emitter SrvScreenShotTimeReply_pack SrvScreenShotTimeReply_wire
  by standard (unfold SrvScreenShotTimeReply_pack_def SrvScreenShotTimeReply_wire_def, (rule emits_rules)+)

subsection \<open>\<open>SrvSrvSelectReply\<close>\<close>

record SrvSrvSelectReply =
  m_result :: u8
  m_sessionId :: u32
  m_cryptVal :: u32
  m_ip :: cstring
  m_port :: u16

definition SrvSrvSelectReply_read :: "CRosePacket \<Rightarrow> SrvSrvSelectReply \<times> CRosePacket" where
  "SrvSrvSelectReply_read = scomp get_u8 (\<lambda>result. scomp get_u32 (\<lambda>sessionId. scomp get_u32 (\<lambda>cryptVal. scomp get_string (\<lambda>ip. scomp get_u16 (\<lambda>port.
     Pair \<lparr>m_result = result, m_sessionId = sessionId, m_cryptVal = cryptVal, m_ip = ip, m_port = port\<rparr>)))))"

definition SrvSrvSelectReply_recv :: "byte list \<Rightarrow> byte list \<Rightarrow> packet_error + SrvSrvSelectReply" where
  "SrvSrvSelectReply_recv = recv_packet PAKLC_SRV_SELECT_REPLY SrvSrvSelectReply_read"

definition SrvSrvSelectReply_pack :: "SrvSrvSelectReply \<Rightarrow> CRosePacket \<Rightarrow> CRosePacket" where
  "SrvSrvSelectReply_pack d = chain [put_u8 (m_result d), put_u32 (m_sessionId d), put_u32 (m_cryptVal d), put_string (m_ip d), put_u16 (m_port d)]"

definition SrvSrvSelectReply_wire :: "SrvSrvSelectReply \<Rightarrow> byte list" where
  "SrvSrvSelectReply_wire d = [m_result d] @ le_bytes 4 (m_sessionId d) @ le_bytes 4 (m_cryptVal d) @ (m_ip d @ [0]) @ le_bytes 2 (m_port d)"

definition SrvSrvSelectReply_ok :: "SrvSrvSelectReply \<Rightarrow> bool" where
  "SrvSrvSelectReply_ok d \<longleftrightarrow> 0 \<notin> set (m_ip d)"

interpretation SrvSrvSelectReply: serial SrvSrvSelectReply_pack SrvSrvSelectReply_wire SrvSrvSelectReply_read SrvSrvSelectReply_ok
proof
  show "emits (SrvSrvSelectReply_pack d) (SrvSrvSelectReply_wire d)" for d
    unfolding SrvSrvSelectReply_pack_def SrvSrvSelectReply_wire_def by (rule emits_rules)+
  show "parses SrvSrvSelectReply_read d (SrvSrvSelectReply_wire d)" if "SrvSrvSelectReply_ok d" for d
    using that unfolding SrvSrvSelectReply_ok_def SrvSrvSelectReply_read_def SrvSrvSelectReply_wire_def
    by - (rule parses_rules | simp)+
qed

subsection \<open>\<open>SrvSwitchServer\<close>\<close>

record SrvSwitchServer =
  m_port :: u16
  m_sessionId :: u32
  m_sessionSeed :: u32
  m_ip :: cstring

definition SrvSwitchServer_read :: "CRosePacket \<Rightarrow> SrvSwitchServer \<times> CRosePacket" where
  "SrvSwitchServer_read = scomp get_u16 (\<lambda>port. scomp get_u32 (\<lambda>sessionId. scomp get_u32 (\<lambda>sessionSeed. scomp get_string (\<lambda>ip.
     Pair \<lparr>m_port = port, m_sessionId = sessionId, m_sessionSeed = sessionSeed, m_ip = ip\<rparr>))))"

definition SrvSwitchServer_recv :: "byte list \<Rightarrow> byte list \<Rightarrow> packet_error + SrvSwitchServer" where
  "SrvSwitchServer_recv = recv_packet PAKCC_SWITCH_SERVER SrvSwitchServer_read"

definition SrvSwitchServer_pack :: "SrvSwitchServer \<Rightarrow> CRosePacket \<Rightarrow> CRosePacket" where
  "SrvSwitchServer_pack d = chain [put_u16 (m_port d), put_u32 (m_sessionId d), put_u32 (m_sessionSeed d), put_string (m_ip d)]"

definition SrvSwitchServer_wire :: "SrvSwitchServer \<Rightarrow> byte list" where
  "SrvSwitchServer_wire d = le_bytes 2 (m_port d) @ le_bytes 4 (m_sessionId d) @ le_bytes 4 (m_sessionSeed d) @ (m_ip d @ [0])"

definition SrvSwitchServer_ok :: "SrvSwitchServer \<Rightarrow> bool" where
  "SrvSwitchServer_ok d \<longleftrightarrow> 0 \<notin> set (m_ip d)"

interpretation SrvSwitchServer: serial SrvSwitchServer_pack SrvSwitchServer_wire SrvSwitchServer_read SrvSwitchServer_ok
proof
  show "emits (SrvSwitchServer_pack d) (SrvSwitchServer_wire d)" for d
    unfolding SrvSwitchServer_pack_def SrvSwitchServer_wire_def by (rule emits_rules)+
  show "parses SrvSwitchServer_read d (SrvSwitchServer_wire d)" if "SrvSwitchServer_ok d" for d
    using that unfolding SrvSwitchServer_ok_def SrvSwitchServer_read_def SrvSwitchServer_wire_def
    by - (rule parses_rules | simp)+
qed

subsection \<open>\<open>SrvWhisperChat\<close>\<close>

record SrvWhisperChat =
  m_senderId :: cstring
  m_message :: cstring

definition SrvWhisperChat_pack :: "SrvWhisperChat \<Rightarrow> CRosePacket \<Rightarrow> CRosePacket" where
  "SrvWhisperChat_pack d = chain [put_string (m_senderId d), put_string (m_message d)]"

definition SrvWhisperChat_wire :: "SrvWhisperChat \<Rightarrow> byte list" where
  "SrvWhisperChat_wire d = (m_senderId d @ [0]) @ (m_message d @ [0])"

interpretation SrvWhisperChat: emitter SrvWhisperChat_pack SrvWhisperChat_wire
  by standard (unfold SrvWhisperChat_pack_def SrvWhisperChat_wire_def, (rule emits_rules)+)

section \<open>Replies with lists\<close>

subsection \<open>\<open>SrvChannelListReply\<close>\<close>

record ChannelInfo =
  m_channel_name :: cstring
  m_channel_id :: u8
  m_lowAge :: u8
  m_highAge :: u8
  m_capacity :: u16

record SrvChannelListReply =
  m_list_id :: u32
  m_channels :: "ChannelInfo list"

definition SrvChannelListReply_new :: "u32 \<Rightarrow> SrvChannelListReply" where
  "SrvChannelListReply_new i = \<lparr>m_list_id = i, m_channels = []\<rparr>"

definition addChannel :: "cstring \<Rightarrow> u8 \<Rightarrow> u16 \<Rightarrow> u8 \<Rightarrow> u8 \<Rightarrow> SrvChannelListReply \<Rightarrow> SrvChannelListReply" where
  "addChannel name i capacity lowAge highAge d =
    d\<lparr>m_channels := m_channels d @ [\<lparr>m_channel_name = name, m_channel_id = i, m_lowAge = lowAge,
       m_highAge = highAge, m_capacity = capacity\<rparr>]\<rparr>"

definition ChannelInfo_get :: "CRosePacket \<Rightarrow> ChannelInfo \<times> CRosePacket" where
  "ChannelInfo_get = scomp get_u8 (\<lambda>id. scomp get_u8 (\<lambda>lowAge. scomp get_u8 (\<lambda>highAge.
     scomp get_u16 (\<lambda>capacity. scomp get_string (\<lambda>name.
     Pair \<lparr>m_channel_name = name, m_channel_id = id, m_lowAge = lowAge, m_highAge = highAge,
       m_capacity = capacity\<rparr>)))))"

definition SrvChannelListReply_read :: "CRosePacket \<Rightarrow> SrvChannelListReply \<times> CRosePacket" where
  "SrvChannelListReply_read = scomp get_u32 (\<lambda>id. scomp get_u8 (\<lambda>nb.
     scomp (get_list ChannelInfo_get (unat nb)) (\<lambda>channels. Pair \<lparr>m_list_id = id, m_channels = channels\<rparr>)))"

definition SrvChannelListReply_recv :: "byte list \<Rightarrow> byte list \<Rightarrow> packet_error + SrvChannelListReply" where
  "SrvChannelListReply_recv = recv_packet PAKLC_CHANNEL_LIST_REPLY SrvChannelListReply_read"

definition ChannelInfo_put :: "ChannelInfo \<Rightarrow> CRosePacket \<Rightarrow> CRosePacket" where
  "ChannelInfo_put c = chain [put_u8 (m_channel_id c), put_u8 (m_lowAge c), put_u8 (m_highAge c),
     put_u16 (m_capacity c), put_string (m_channel_name c)]"

definition SrvChannelListReply_pack :: "SrvChannelListReply \<Rightarrow> CRosePacket \<Rightarrow> CRosePacket" where
  "SrvChannelListReply_pack d = chain [put_u32 (m_list_id d), put_u8 (of_nat (length (m_channels d))),
     put_list ChannelInfo_put (m_channels d)]"

definition ChannelInfo_wire :: "ChannelInfo \<Rightarrow> byte list" where
  "ChannelInfo_wire c = [m_channel_id c] @ [m_lowAge c] @ [m_highAge c] @ le_bytes 2 (m_capacity c)
     @ (m_channel_name c @ [0])"

definition SrvChannelListReply_wire :: "SrvChannelListReply \<Rightarrow> byte list" where
  "SrvChannelListReply_wire d = le_bytes 4 (m_list_id d) @ [of_nat (length (m_channels d))]
     @ concat (map ChannelInfo_wire (m_channels d))"

definition SrvChannelListReply_ok :: "SrvChannelListReply \<Rightarrow> bool" where
  "SrvChannelListReply_ok d \<longleftrightarrow> length (m_channels d) < 256
     \<and> list_all (\<lambda>c. 0 \<notin> set (m_channel_name c)) (m_channels d)"

lemma parses_ChannelInfo: "0 \<notin> set (m_channel_name c) \<Longrightarrow> parses ChannelInfo_get c (ChannelInfo_wire c)"
  unfolding ChannelInfo_get_def ChannelInfo_wire_def by - (rule parses_rules | simp)+

interpretation SrvChannelListReply: serial SrvChannelListReply_pack SrvChannelListReply_wire
  SrvChannelListReply_read SrvChannelListReply_ok
proof
  have "emits (ChannelInfo_put c) (ChannelInfo_wire c)" for c
    unfolding ChannelInfo_put_def ChannelInfo_wire_def by (rule emits_rules)+
  then show "emits (SrvChannelListReply_pack d) (SrvChannelListReply_wire d)" for d
    unfolding SrvChannelListReply_pack_def SrvChannelListReply_wire_def
    by (intro emits_rules emits_put_list)
  show "parses SrvChannelListReply_read d (SrvChannelListReply_wire d)" if "SrvChannelListReply_ok d" for d
  proof -
    have n: "unat (of_nat (length (m_channels d)) :: u8) = length (m_channels d)"
      using that by (simp add: SrvChannelListReply_ok_def unat_of_nat_small)
    have "parses (get_list ChannelInfo_get (length (m_channels d))) (m_channels d)
        (concat (map ChannelInfo_wire (m_channels d)))"
      using that by (intro parses_get_list)
        (auto simp: SrvChannelListReply_ok_def list_all_iff intro: parses_ChannelInfo)
    then show ?thesis
      unfolding SrvChannelListReply_read_def SrvChannelListReply_wire_def
      by - (rule parses_rules | simp add: n)+
  qed
qed

subsection \<open>\<open>SrvLoginReply\<close>\<close>

record ServerInfo =
  m_server_name :: cstring
  m_server_id :: u32
  m_test :: bool

record SrvLoginReply =
  m_login_result :: u8
  m_right :: u16
  m_login_type :: u16
  m_servers :: "ServerInfo list"

datatype SrvLoginReply_eResult =
    OK | FAILED | UNKNOWN_ACCOUNT | INVALID_PASSWORD | ALREADY_LOGGEDIN | REFUSED_ACCOUNT
  | NEED_CHARGE | NO_RIGHT_TO_CONNECT | TOO_MANY_USERS | NO_NAME | INVALID_VERSION | OUTSIDE_REGION

fun login_result :: "SrvLoginReply_eResult \<Rightarrow> u8" where
  "login_result OK = 0"
| "login_result FAILED = 1"
| "login_result UNKNOWN_ACCOUNT = 2"
| "login_result INVALID_PASSWORD = 3"
| "login_result ALREADY_LOGGEDIN = 4"
| "login_result REFUSED_ACCOUNT = 5"
| "login_result NEED_CHARGE = 6"
| "login_result NO_RIGHT_TO_CONNECT = 7"
| "login_result TOO_MANY_USERS = 8"
| "login_result NO_NAME = 9"
| "login_result INVALID_VERSION = 10"
| "login_result OUTSIDE_REGION = 11"

definition SrvLoginReply_new :: "SrvLoginReply_eResult \<Rightarrow> u16 \<Rightarrow> u16 \<Rightarrow> SrvLoginReply" where
  "SrvLoginReply_new result right type =
    \<lparr>m_login_result = login_result result, m_right = right, m_login_type = type, m_servers = []\<rparr>"

definition addServer :: "cstring \<Rightarrow> u32 \<Rightarrow> bool \<Rightarrow> SrvLoginReply \<Rightarrow> SrvLoginReply" where
  "addServer name i isTest d =
    d\<lparr>m_servers := m_servers d @ [\<lparr>m_server_name = name, m_server_id = i, m_test = isTest\<rparr>]\<rparr>"

text \<open>The reads never move the cursor back, so the loop over the servers ends.\<close>

lemma readNext_mono: "m_current p \<le> m_current (snd (readNext n p))"
  by (simp add: readNext_def)

lemma get_string_loop_mono: "m_current p \<le> m_current (snd (get_string_loop acc p))"
proof (induction acc p rule: get_string_loop.induct)
  case (1 acc p)
  have "m_current p \<le> m_current (snd (get_u8 p))"
    using readNext_mono [of p 1] by (auto simp: get_u8_def split: prod.splits)
  then show ?case
    using 1 by (subst get_string_loop.simps) (fastforce split: prod.splits)
qed

lemma get_u8_nonzero: "get_u8 p = (x, q) \<Longrightarrow> x \<noteq> 0 \<Longrightarrow>
    m_current q = Suc (m_current p) \<and> m_current p < MAX_PACKET_SIZE"
  by (auto simp: get_u8_def split: prod.splits dest!: readNext_1_cases)

lemma get_u32_mono: "m_current p \<le> m_current (snd (get_u32 p))"
  using readNext_mono [of p 4] by (auto simp: get_u32_def split: prod.splits)

function login_servers :: "u8 \<Rightarrow> CRosePacket \<Rightarrow> ServerInfo list \<times> CRosePacket" where
  "login_servers pad p =
    (if pad = 0 then ([], p)
     else
       let (name, p1) = get_string p; (id, p2) = get_u32 p1; (pad', p3) = get_u8 p2;
           (rest, p4) = login_servers pad' p3
       in (\<lparr>m_server_name = name, m_server_id = id, m_test = (pad = 0x40)\<rparr> # rest, p4))"
  by pat_completeness auto
termination
proof (relation "measure (\<lambda>(pad, p). if pad = 0 then 0 else Suc (MAX_PACKET_SIZE - m_current p))")
  fix pad :: u8 and p name p1 id p2 pad' p3
  fix x y z
  assume "pad \<noteq> 0" and x: "x = get_string p" "(name, p1) = x" and y: "y = get_u32 p1" "(id, p2) = y"
    and z: "z = get_u8 p2" "(pad', p3) = z"
  have "m_current p \<le> m_current p1" "m_current p1 \<le> m_current p2"
    using get_string_loop_mono [of p "[]"] get_u32_mono [of p1] x y
    by (auto simp: get_string_def) (metis snd_conv)+
  moreover have "m_current p3 = Suc (m_current p2) \<and> m_current p2 < MAX_PACKET_SIZE" if "pad' \<noteq> 0"
    using get_u8_nonzero [of p2 pad' p3] z that by simp
  ultimately show "((pad', p3), (pad, p)) \<in> measure (\<lambda>(pad, p). if pad = 0 then 0
      else Suc (MAX_PACKET_SIZE - m_current p))"
    using \<open>pad \<noteq> 0\<close> by auto
qed simp

declare login_servers.simps [simp del]

definition SrvLoginReply_read :: "CRosePacket \<Rightarrow> SrvLoginReply \<times> CRosePacket" where
  "SrvLoginReply_read = scomp get_u8 (\<lambda>result. scomp get_u16 (\<lambda>right. scomp get_u16 (\<lambda>type.
     if result \<noteq> 0 then Pair \<lparr>m_login_result = result, m_right = right, m_login_type = type, m_servers = []\<rparr>
     else scomp get_u8 (\<lambda>pad. scomp (login_servers pad) (\<lambda>servers.
       Pair \<lparr>m_login_result = result, m_right = right, m_login_type = type, m_servers = servers\<rparr>)))))"

definition SrvLoginReply_recv :: "byte list \<Rightarrow> byte list \<Rightarrow> packet_error + SrvLoginReply" where
  "SrvLoginReply_recv = recv_packet PAKLC_LOGIN_REPLY SrvLoginReply_read"

definition ServerInfo_put :: "ServerInfo \<Rightarrow> CRosePacket \<Rightarrow> CRosePacket" where
  "ServerInfo_put i = chain [put_u8 (if m_test i then 0x40 else 0x20), put_string (m_server_name i),
     put_u32 (m_server_id i)]"

definition SrvLoginReply_pack :: "SrvLoginReply \<Rightarrow> CRosePacket \<Rightarrow> CRosePacket" where
  "SrvLoginReply_pack d = chain [put_u8 (m_login_result d), put_u16 (m_right d), put_u16 (m_login_type d),
     put_list ServerInfo_put (m_servers d)]"

definition ServerInfo_wire :: "ServerInfo \<Rightarrow> byte list" where
  "ServerInfo_wire i = [if m_test i then 0x40 else 0x20] @ (m_server_name i @ [0]) @ le_bytes 4 (m_server_id i)"

definition SrvLoginReply_wire :: "SrvLoginReply \<Rightarrow> byte list" where
  "SrvLoginReply_wire d = [m_login_result d] @ le_bytes 2 (m_right d) @ le_bytes 2 (m_login_type d)
     @ concat (map ServerInfo_wire (m_servers d))"

interpretation SrvLoginReply: emitter SrvLoginReply_pack SrvLoginReply_wire
proof
  have "emits (ServerInfo_put i) (ServerInfo_wire i)" for i
    unfolding ServerInfo_put_def ServerInfo_wire_def by (rule emits_rules)+
  then show "emits (SrvLoginReply_pack d) (SrvLoginReply_wire d)" for d
    unfolding SrvLoginReply_pack_def SrvLoginReply_wire_def by (intro emits_rules emits_put_list)
qed

text \<open>The reader of the server list needs a terminating NUL that \<open>pack\<close> does not write. So it reads on in whatever the
  memory of the buffer held, but the servers that were written come first.\<close>

definition at_bytes :: "CRosePacket \<Rightarrow> byte list \<Rightarrow> bool" where
  "at_bytes p bs \<longleftrightarrow> length (m_buffer p) = MAX_PACKET_SIZE \<and> m_current p + length bs < MAX_PACKET_SIZE
     \<and> take (length bs) (drop (m_current p) (m_buffer p)) = bs"

lemma at_bytes_append:
  assumes "at_bytes p (xs @ ys)"
  shows "at_bytes p xs" "at_bytes (p\<lparr>m_current := m_current p + length xs\<rparr>) ys"
proof -
  have t: "take (length (xs @ ys)) (drop (m_current p) (m_buffer p)) = xs @ ys" using assms by (simp add: at_bytes_def)
  have "take (length ys) (drop (length xs) (drop (m_current p) (m_buffer p))) = ys"
    using arg_cong [OF t, of "drop (length xs)"] by (simp add: drop_take)
  then show "at_bytes (p\<lparr>m_current := m_current p + length xs\<rparr>) ys" using assms by (simp add: at_bytes_def ac_simps)
  have "take (length xs) (drop (m_current p) (m_buffer p)) = xs"
    using arg_cong [OF t, of "take (length xs)"] by (simp add: min_def)
  then show "at_bytes p xs" using assms by (simp add: at_bytes_def)
qed

lemma parsesD: "parses f a bs \<Longrightarrow> at_bytes p bs \<Longrightarrow> f p = (a, p\<lparr>m_current := m_current p + length bs\<rparr>)"
  by (simp add: parses_def at_bytes_def)

lemma login_servers_prefix:
  "list_all (\<lambda>i. 0 \<notin> set (m_server_name i)) is \<Longrightarrow> at_bytes p (concat (map ServerInfo_wire is))
    \<Longrightarrow> \<exists>extra. fst (scomp get_u8 login_servers p) = is @ extra"
proof (induction "is" arbitrary: p)
  case (Cons i "is")
  let ?pad = "if m_test i then 0x40 else 0x20 :: u8"
  let ?F = "scomp get_u8 (\<lambda>pad. scomp get_string (\<lambda>name. scomp get_u32 (\<lambda>id. Pair (pad, name, id))))"
  have F: "parses ?F (?pad, m_server_name i, m_server_id i) ([?pad] @ (m_server_name i @ [0]) @ le_bytes 4 (m_server_id i) @ [])"
    using Cons.prems(1) by (intro parses_scomp [OF parses_get_u8] parses_scomp [OF parses_get_string] parses_scomp [OF parses_get_u32] parses_Pair) simp
  have "at_bytes p (([?pad] @ (m_server_name i @ [0]) @ le_bytes 4 (m_server_id i) @ []) @ concat (map ServerInfo_wire is))"
    using Cons.prems(2) unfolding list.map concat.simps ServerInfo_wire_def [of i] append_assoc append.simps by simp
  note at = at_bytes_append [OF this]
  obtain q where q: "?F p = ((?pad, m_server_name i, m_server_id i), q)" "at_bytes q (concat (map ServerInfo_wire is))"
    using parsesD [OF F at(1)] at(2) by blast
  have "?pad \<noteq> 0" by simp
  then have pad: "login_servers ?pad = scomp get_string (\<lambda>name. scomp get_u32 (\<lambda>id. scomp (scomp get_u8 login_servers) (\<lambda>rest.
      Pair (\<lparr>m_server_name = name, m_server_id = id, m_test = (?pad = 0x40)\<rparr> # rest))))"
    by (subst login_servers.simps [abs_def]) (auto simp: fun_eq_iff scomp_apply Let_def split: prod.splits)
  have "scomp get_u8 login_servers p = (let (rest, r) = scomp get_u8 login_servers q in
      (\<lparr>m_server_name = m_server_name i, m_server_id = m_server_id i, m_test = (?pad = 0x40)\<rparr> # rest, r))"
    using q(1) pad by (auto simp: scomp_apply Let_def split: prod.splits)
  moreover obtain extra where "fst (scomp get_u8 login_servers q) = is @ extra" using Cons.IH [OF _ q(2)] Cons.prems(1) by auto
  ultimately have "fst (scomp get_u8 login_servers p) = \<lparr>m_server_name = m_server_name i, m_server_id = m_server_id i, m_test = (?pad = 0x40)\<rparr> # is @ extra"
    by (simp split: prod.splits)
  then show ?case by (cases "m_test i") (auto intro: exI [of _ extra])
qed simp

lemma SrvLoginReply_prefix:
  assumes "m_login_result d = 0" and "list_all (\<lambda>i. 0 \<notin> set (m_server_name i)) (m_servers d)" and "at_bytes p (SrvLoginReply_wire d)"
  shows "\<exists>extra. fst (SrvLoginReply_read p) = d\<lparr>m_servers := m_servers d @ extra\<rparr>"
proof -
  let ?F = "scomp get_u8 (\<lambda>result. scomp get_u16 (\<lambda>right. scomp get_u16 (\<lambda>type. Pair (result, right, type))))"
  have F: "parses ?F (m_login_result d, m_right d, m_login_type d) ([m_login_result d] @ le_bytes 2 (m_right d) @ le_bytes 2 (m_login_type d) @ [])"
    by (intro parses_scomp [OF parses_get_u8] parses_scomp [OF parses_get_u16] parses_Pair)
  have "at_bytes p (([m_login_result d] @ le_bytes 2 (m_right d) @ le_bytes 2 (m_login_type d) @ []) @ concat (map ServerInfo_wire (m_servers d)))"
    using assms(3) by (simp add: SrvLoginReply_wire_def)
  note at = at_bytes_append [OF this]
  obtain q where q: "?F p = ((m_login_result d, m_right d, m_login_type d), q)" "at_bytes q (concat (map ServerInfo_wire (m_servers d)))"
    using parsesD [OF F at(1)] at(2) by blast
  then obtain extra where "fst (scomp get_u8 login_servers q) = m_servers d @ extra" using login_servers_prefix [OF assms(2)] by blast
  moreover have "fst (SrvLoginReply_read p) = \<lparr>m_login_result = m_login_result d, m_right = m_right d, m_login_type = m_login_type d,
      m_servers = fst (scomp get_u8 login_servers q)\<rparr>"
    using q(1) assms(1) by (auto simp: SrvLoginReply_read_def scomp_apply split: prod.splits)
  ultimately show ?thesis by (intro exI [of _ extra]) simp
qed

end
