(* ===== verification/CRoseSocket.thy ===== *)
theory CRoseSocket
  imports CNetwork_Asio Crypt_Roundtrip Packets_Server "HOL-Library.Sublist"
begin

text \<open>
  The socket of \<open>rosecommon/src/crosesocket.cpp\<close> and its inter-server variant
  \<open>rosecommon/src/croseisc.cpp\<close>: a connection with the queue of received packets. A packet arrives in
  two reads, six bytes of header and the rest; \<open>OnReceived\<close> decodes the header to learn the length,
  then the body, copies the packet into \<open>m_recv_queue\<close> and dispatches a task that takes one packet from
  the queue and handles it. \<open>m_tasks\<close> counts the tasks asio has not run yet. The key tables \<open>rt\<close> of the
  codec do not change after the constructor and are a parameter. Of the array of sockets of a class
  only slot 0, the one the callbacks use, is modelled.
\<close>

section \<open>State and callbacks\<close>

record CRoseSocket = CNetwork_Asio +
  m_recv_queue :: "byte list list"
  m_tasks :: nat

text \<open>The part of \<open>OnReceived\<close> after the header: decode the body, queue the packet, dispatch the task.\<close>

definition receive_body :: "(byte list \<Rightarrow> (bool \<times> byte list) option) \<Rightarrow> 'a CRoseSocket_scheme
    \<Rightarrow> (bool \<times> 'a CRoseSocket_scheme) option" where
  "receive_body dec_body s =
    (case dec_body (m_net_buffer s) of
       None \<Rightarrow> None
     | Some (ok, b) \<Rightarrow>
         let s1 = s\<lparr>m_net_buffer := b\<rparr>; n = unat (packet_size b) in
         if \<not> ok then Some (False, reset_internal_buffer s1)
         else if length b < n then None
         else Some (True, reset_internal_buffer
           (s1\<lparr>m_recv_queue := m_recv_queue s1 @ [take n b], m_tasks := Suc (m_tasks s1)\<rparr>)))"

definition receive_packet :: "(byte list \<Rightarrow> u16 \<times> byte list) \<Rightarrow> (byte list \<Rightarrow> (bool \<times> byte list) option)
    \<Rightarrow> 'a CRoseSocket_scheme \<Rightarrow> (bool \<times> 'a CRoseSocket_scheme) option" where
  "receive_packet dec_head dec_body s =
    (if m_packet_size s = 6 then
       let (n, b) = dec_head (m_net_buffer s);
           s1 = s\<lparr>m_net_buffer := b, m_packet_size := n\<rparr>
       in if unat n < 6 \<or> unat n > MAX_PACKET_SIZE then Some (False, reset_internal_buffer s1)
          else if unat n > 6 then Some (True, s1)
          else receive_body dec_body s1
     else receive_body dec_body s)"

definition CRoseSocket_OnReceived :: "u32 list list \<Rightarrow> 'a CRoseSocket_scheme
    \<Rightarrow> (bool \<times> 'a CRoseSocket_scheme) option" where
  "CRoseSocket_OnReceived rt = receive_packet (decodeClientHeader rt) (decodeClientBody rt)"

definition CRoseSocket_OnServerReceived :: "u32 list list \<Rightarrow> 'a CRoseSocket_scheme
    \<Rightarrow> (bool \<times> 'a CRoseSocket_scheme) option" where
  "CRoseSocket_OnServerReceived rt = receive_packet (decodeServerHeader rt) (decodeServerBody rt)"

definition CRoseSocket_OnSend :: "u32 list list \<Rightarrow> byte list \<Rightarrow> (bool \<times> byte list) option" where
  "CRoseSocket_OnSend rt buf = map_option (Pair True) (encodeServerPacket rt buf)"

definition CRoseSocket_OnServerSend :: "u32 list list \<Rightarrow> byte list \<Rightarrow> (bool \<times> byte list) option" where
  "CRoseSocket_OnServerSend rt buf = map_option (Pair True) (encodeServerPacket rt buf)"

text \<open>Between servers the packets are not encrypted; the header is read from its first byte alone.\<close>

definition CRoseISC_OnReceived :: "'a CRoseSocket_scheme \<Rightarrow> (bool \<times> 'a CRoseSocket_scheme) option" where
  "CRoseISC_OnReceived = receive_packet (\<lambda>b. (ucast (b ! 0), b)) (\<lambda>b. Some (True, b))"

definition CRoseISC_OnSend :: "byte list \<Rightarrow> (bool \<times> byte list) option" where
  "CRoseISC_OnSend buf = Some (True, buf)"

text \<open>The callbacks each constructor registers; \<open>OnDisconnected\<close> is virtual and empty here.\<close>

definition client_callbacks :: "u32 list list \<Rightarrow> 'a CRoseSocket_scheme callbacks" where
  "client_callbacks rt = initCallbacks\<lparr>OnReceived := CRoseSocket_OnReceived rt, OnSend := CRoseSocket_OnSend rt\<rparr>"

definition server_callbacks :: "u32 list list \<Rightarrow> 'a CRoseSocket_scheme callbacks" where
  "server_callbacks rt = initCallbacks\<lparr>OnReceived := CRoseSocket_OnServerReceived rt,
     OnSend := CRoseSocket_OnServerSend rt\<rparr>"

definition isc_callbacks :: "'a CRoseSocket_scheme callbacks" where
  "isc_callbacks = initCallbacks\<lparr>OnReceived := CRoseISC_OnReceived, OnSend := CRoseISC_OnSend\<rparr>"

definition CRoseSocket_new :: "CNetwork_Asio \<Rightarrow> CRoseSocket" where
  "CRoseSocket_new sock =
    reset_internal_buffer (CNetwork_Asio.CNetwork_Asio.extend sock (CRoseSocket.CRoseSocket.fields [] 0))"

definition CRoseClient_new :: "CNetwork_Asio \<Rightarrow> CRoseSocket" where
  "CRoseClient_new sock = set_active True (CRoseSocket_new sock)"

section \<open>Sending and handling\<close>

text \<open>\<open>send(packet)\<close>; \<open>g\<close> is what the memory of the packet's buffer held.\<close>

definition send_packet :: "'a CRoseSocket_scheme callbacks \<Rightarrow> u16 \<Rightarrow> (CRosePacket \<Rightarrow> CRosePacket) \<Rightarrow> byte list
    \<Rightarrow> 'a CRoseSocket_scheme \<Rightarrow> 'a CRoseSocket_scheme option" where
  "send_packet cb ty pack g s = send_data cb (fst (getPacked pack (CRosePacket_new ty 0 g))) s"

text \<open>The dispatched task. \<open>handle\<close> is the virtual \<open>HandlePacket\<close>.\<close>

definition run_task :: "'a CRoseSocket_scheme callbacks
    \<Rightarrow> (byte list \<Rightarrow> 'a CRoseSocket_scheme \<Rightarrow> (bool \<times> 'a CRoseSocket_scheme) option)
    \<Rightarrow> 'a CRoseSocket_scheme \<Rightarrow> 'a CRoseSocket_scheme option" where
  "run_task cb handle s =
    (let s1 = s\<lparr>m_tasks := m_tasks s - 1\<rparr> in
     if \<not> m_active s1 then Some s1
     else case m_recv_queue s1 of
       [] \<Rightarrow> Some s1
     | b # rest \<Rightarrow>
         (case handle b (s1\<lparr>m_recv_queue := rest\<rparr>) of
            None \<Rightarrow> None
          | Some (ok, s2) \<Rightarrow> Some (if ok then s2 else snd (shutdown cb False s2))))"

text \<open>\<open>HandlePacket\<close> of the base class: \<open>now\<close> is \<open>std::time\<close>, and \<open>garbage\<close> are the members of the
  default-constructed \<open>SrvScreenShotTimeReply\<close>, which no constructor sets.\<close>

definition CRoseSocket_HandlePacket :: "'a CRoseSocket_scheme callbacks \<Rightarrow> u32 \<Rightarrow> SrvScreenShotTimeReply \<Rightarrow> byte list
    \<Rightarrow> byte list \<Rightarrow> 'a CRoseSocket_scheme \<Rightarrow> (bool \<times> 'a CRoseSocket_scheme) option" where
  "CRoseSocket_HandlePacket cb now garbage g buf s =
    (let ty = packet_type buf in
     if ty = PAKCS_ALIVE then Some (True, s)
     else if ty = PAKCS_ACCEPT_REQ then
       map_option (Pair True) (send_packet cb PAKSS_ACCEPT_REPLY
         (SrvAcceptReply_pack \<lparr>SrvAcceptReply.m_result = 2, m_randValue = now\<rparr>) g s)
     else if ty = PAKCS_SCREEN_SHOT_TIME_REQ then
       map_option (Pair True) (send_packet cb PAKSC_SCREEN_SHOT_TIME_REPLY
         (SrvScreenShotTimeReply_pack garbage) g s)
     else Some (False, s))"

definition CRoseSocket_HandleServerPacket :: "byte list \<Rightarrow> 'a CRoseSocket_scheme
    \<Rightarrow> (bool \<times> 'a CRoseSocket_scheme) option" where
  "CRoseSocket_HandleServerPacket buf s = Some (True, s)"

definition CRoseISC_HandlePacket :: "byte list \<Rightarrow> 'a CRoseSocket_scheme
    \<Rightarrow> (bool \<times> 'a CRoseSocket_scheme) option" where
  "CRoseISC_HandlePacket buf s = Some (packet_type buf = ISC_ALIVE, s)"

section \<open>What the socket leaves to its owner\<close>

text \<open>A class that extends the socket keeps its own members in the rest of the record. \<open>keeps\<close> is a
  relation between an owner before and after: it may not look at the socket, and the callbacks of the
  owner respect it. Then so does everything the network does.\<close>

locale owner =
  fixes cb :: "'a CRoseSocket_scheme callbacks"
    and keeps :: "'a CRoseSocket_scheme \<Rightarrow> 'a CRoseSocket_scheme \<Rightarrow> bool"
  assumes keeps_more: "CRoseSocket.CRoseSocket.more s = CRoseSocket.CRoseSocket.more t \<Longrightarrow> keeps s t"
    and keeps_trans: "keeps s t \<Longrightarrow> keeps t u \<Longrightarrow> keeps s u"
    and keeps_OnDisconnected: "keeps s (OnDisconnected cb s)"
    and keeps_OnDisconnect: "keeps s (snd (OnDisconnect cb s))"
    and keeps_OnShutdown: "keeps s (snd (OnShutdown cb s))"
    and keeps_OnSent: "keeps s (OnSent cb s)"
    and keeps_OnReceive: "keeps s (snd (OnReceive cb s))"
    and keeps_OnReceived: "OnReceived cb s = Some (ok, s') \<Longrightarrow> keeps s s'"
begin

lemma keeps_refl: "keeps s s"
  by (rule keeps_more) simp

lemma keeps_disconnect: "keeps s (snd (disconnect cb s))"
  using keeps_OnDisconnect [of s] keeps_trans keeps_OnDisconnected
  by (auto simp: disconnect_def Let_def split: prod.splits)

lemma keeps_shutdown: "keeps s (snd (shutdown cb f s))"
proof -
  let ?t = "snd (OnShutdown cb s)"
  have closed: "keeps s t \<Longrightarrow> keeps s (t\<lparr>m_listener_open := a, m_socket_open := b, m_active := c\<rparr>)" for t a b c
    by (rule keeps_trans [of s t], assumption, rule keeps_more) simp
  have "keeps s (snd (disconnect cb ?t))"
    using keeps_trans [OF keeps_OnShutdown keeps_disconnect] .
  then show ?thesis
    using keeps_OnShutdown [of s] keeps_refl [of s]
    by (auto simp: shutdown_def Let_def closed split: prod.splits)
qed

lemma keeps_send_data: "send_data cb buf s = Some s' \<Longrightarrow> keeps s s'"
  by (rule keeps_more) (use send_data_frame in fastforce)

lemma keeps_send_packet: "send_packet cb ty pack g s = Some s' \<Longrightarrow> keeps s s'"
  unfolding send_packet_def by (rule keeps_send_data)

lemma keeps_ProcessSend: "ProcessSend cb s = Some s' \<Longrightarrow> keeps s s'"
  by (rule keeps_more) (use ProcessSend_frame in fastforce)

lemma keeps_recv_data: "recv_data cb s = Some s' \<Longrightarrow> keeps s s'"
proof -
  assume "recv_data cb s = Some s'"
  then have "s' = snd (OnReceive cb s) \<or> (\<exists>n. s' = (snd (OnReceive cb s))\<lparr>m_reading := n\<rparr>)"
    by (auto simp: recv_data_def Let_def split: prod.splits if_splits)
  then have "keeps (snd (OnReceive cb s)) s'" by (intro keeps_more) auto
  then show ?thesis by (rule keeps_trans [OF keeps_OnReceive])
qed

lemma keeps_write_done: "write_done cb now err s = Some s' \<Longrightarrow> keeps s s'"
proof -
  assume w: "write_done cb now err s = Some s'"
  define s1 where "s1 = (case err of None \<Rightarrow> (OnSent cb s)\<lparr>m_update_time := now\<rparr>
    | Some e \<Rightarrow> if e = connection_reset \<or> e = network_reset then snd (shutdown cb False s) else s)"
  have "keeps s ((OnSent cb s)\<lparr>m_update_time := now\<rparr>)"
    by (rule keeps_trans [OF keeps_OnSent], rule keeps_more) simp
  then have 1: "keeps s s1" using keeps_shutdown [of s False] keeps_refl by (auto simp: s1_def split: option.splits)
  obtain d rest where "m_discard_queue s1 = d # rest" "ProcessSend cb (s1\<lparr>m_discard_queue := rest\<rparr>) = Some s'"
    using w by (auto simp: write_done_def s1_def [symmetric] Let_def split: list.splits)
  then have "keeps (s1\<lparr>m_discard_queue := rest\<rparr>) s'" by (auto intro: keeps_ProcessSend)
  moreover have "keeps s1 (s1\<lparr>m_discard_queue := rest\<rparr>)" by (rule keeps_more) simp
  ultimately show ?thesis using 1 keeps_trans by blast
qed

lemma keeps_read_done: "read_done cb now bs err s = Some s' \<Longrightarrow> keeps s s'"
proof -
  assume r: "read_done cb now bs err s = Some s'"
  define s1 where "s1 = s\<lparr>m_reading := None, m_net_buffer := blit (unat (m_packet_offset s)) bs (m_net_buffer s),
    m_packet_offset := m_packet_offset s + of_nat (length bs), m_update_time := now\<rparr>"
  have 1: "keeps s s1" by (rule keeps_more) (simp add: s1_def)
  have "keeps s1 s'"
  proof (cases err)
    case None
    then obtain ok s2 where s2: "OnReceived cb s1 = Some (ok, s2)"
      and s': "s' = snd (shutdown cb False s2) \<or> recv_data cb s2 = Some s' \<or> s' = s2"
      using r by (auto simp: read_done_def s1_def [symmetric] Let_def split: option.splits if_splits)
    then have "keeps s2 s'" using keeps_shutdown keeps_recv_data keeps_refl by auto
    then show ?thesis using keeps_trans [OF keeps_OnReceived [OF s2]] by blast
  next
    case (Some e)
    have "keeps s1 (OnDisconnected cb (snd (shutdown cb f s1)))" for f
      by (rule keeps_trans [OF keeps_shutdown keeps_OnDisconnected])
    then show ?thesis
      using r Some keeps_shutdown [of s1 False] keeps_recv_data keeps_refl
      by (cases e) (auto simp: read_done_def s1_def [symmetric] Let_def split: if_splits prod.splits; metis snd_conv)+
  qed
  with 1 show ?thesis using keeps_trans by blast
qed

lemma keeps_run_task:
  assumes "\<And>b s ok s'. handle b s = Some (ok, s') \<Longrightarrow> keeps s s'"
    and "run_task cb handle s = Some s'"
  shows "keeps s s'"
proof -
  have 1: "keeps s (s\<lparr>m_tasks := n\<rparr>)" "keeps s (s\<lparr>m_tasks := n, m_recv_queue := q\<rparr>)" for n q
    by (rule keeps_more, simp)+
  show ?thesis
    using assms(2) 1 keeps_trans [OF 1(2) assms(1)] keeps_trans [OF keeps_trans [OF 1(2) assms(1)] keeps_shutdown]
    by (auto simp: run_task_def Let_def split: if_splits list.splits option.splits prod.splits)
qed

end

lemma receive_packet_more:
  "receive_packet dec_head dec_body s = Some (ok, s') \<Longrightarrow>
    CRoseSocket.CRoseSocket.more s = CRoseSocket.CRoseSocket.more s'"
  by (auto simp: receive_packet_def receive_body_def reset_internal_buffer_def Let_def
      split: if_splits prod.splits option.splits)

text \<open>Receiving leaves the sending side and the members of the extending class as they are.\<close>

definition only_received :: "'a CRoseSocket_scheme \<Rightarrow> 'a CRoseSocket_scheme \<Rightarrow> bool" where
  "only_received s t \<longleftrightarrow> t = s\<lparr>m_update_time := m_update_time t, m_net_buffer := m_net_buffer t,
     m_packet_offset := m_packet_offset t, m_packet_size := m_packet_size t, m_reading := m_reading t,
     m_recv_queue := m_recv_queue t, m_tasks := m_tasks t\<rparr>"

lemma only_received_refl: "only_received s s"
  by (simp add: only_received_def)

lemma only_received_trans:
  assumes "only_received s t" and "only_received t u"
  shows "only_received s u"
  unfolding only_received_def
  by (subst assms(2) [unfolded only_received_def], subst assms(1) [unfolded only_received_def]) simp

lemma receive_packet_only:
  "receive_packet dec_head dec_body s = Some (ok, s') \<Longrightarrow> only_received s s'"
  by (auto simp: receive_packet_def receive_body_def reset_internal_buffer_def only_received_def Let_def
      split: if_splits prod.splits option.splits)

section \<open>Framing\<close>

text \<open>What asio delivers: the outstanding read completes with all its bytes, or stops early with
  \<open>try_again\<close>. \<open>receives cb s bs s'\<close>: the connection went from \<open>s\<close> to \<open>s'\<close> while the peer's bytes \<open>bs\<close>
  arrived in some division into chunks.\<close>

inductive receives :: "'a CRoseSocket_scheme callbacks \<Rightarrow> 'a CRoseSocket_scheme \<Rightarrow> byte list
    \<Rightarrow> 'a CRoseSocket_scheme \<Rightarrow> bool" for cb s0 where
  start: "receives cb s0 [] s0"
| complete: "receives cb s0 bs s \<Longrightarrow> m_reading s = Some (length chunk) \<Longrightarrow>
    read_done cb now chunk None s = Some s' \<Longrightarrow> receives cb s0 (bs @ chunk) s'"
| again: "receives cb s0 bs s \<Longrightarrow> m_reading s = Some n \<Longrightarrow> length chunk < n \<Longrightarrow>
    read_done cb now chunk (Some try_again) s = Some s' \<Longrightarrow> receives cb s0 (bs @ chunk) s'"

text \<open>The received packet is the sent one up to the two bytes the cipher uses.\<close>

definition same_packet :: "byte list \<Rightarrow> byte list \<Rightarrow> bool" where
  "same_packet p q \<longleftrightarrow> length q = length p \<and> take 4 q = take 4 p \<and> drop 6 q = drop 6 p"

text \<open>A connection that waits for a header, after \<open>start_recv\<close> on a new socket.\<close>

definition waiting :: "'a CRoseSocket_scheme \<Rightarrow> bool" where
  "waiting s \<longleftrightarrow> m_active s \<and> length (m_net_buffer s) = MAX_PACKET_SIZE \<and> m_packet_offset s = 0
     \<and> m_packet_size s = 6 \<and> m_reading s = Some 6"

text \<open>What the framing code needs of a codec: the six bytes of the header give the length, whatever
  follows them in the buffer, and then the whole packet decodes in place.\<close>

definition decodes :: "(byte list \<Rightarrow> u16 \<times> byte list) \<Rightarrow> (byte list \<Rightarrow> (bool \<times> byte list) option)
    \<Rightarrow> byte list \<Rightarrow> byte list \<Rightarrow> byte list \<Rightarrow> byte list \<Rightarrow> bool" where
  "decodes dec_head dec_body p e d q \<longleftrightarrow>
     6 \<le> length p \<and> length p \<le> MAX_PACKET_SIZE \<and> length p = length e \<and> length d = 6 \<and> unat (packet_size q) = length q \<and> same_packet p q
     \<and> (\<forall>rest. dec_head (take 6 e @ rest) = (of_nat (length p), d @ rest))
     \<and> (\<forall>rest. dec_body (d @ drop 6 e @ rest) = Some (True, q @ rest))"

lemma decodes_unat: "decodes dec_head dec_body p e d q \<Longrightarrow> unat (of_nat (length p) :: u16) = length p"
  by (rule unat_of_nat_small) (simp add: decodes_def MAX_PACKET_SIZE_def)

locale framing =
  fixes cb :: "'a CRoseSocket_scheme callbacks"
    and dec_head :: "byte list \<Rightarrow> u16 \<times> byte list"
    and dec_body :: "byte list \<Rightarrow> (bool \<times> byte list) option"
    and encode :: "byte list \<Rightarrow> byte list"
    and ok :: "byte list \<Rightarrow> bool"
  assumes OnReceived_packet: "OnReceived cb = receive_packet dec_head dec_body"
    and OnReceive_always: "OnReceive cb s = (True, s)"
    and decodes_ok: "ok p \<Longrightarrow> \<exists>d q. decodes dec_head dec_body p (encode p) d q"
begin

lemma recv_data_start:
  assumes "length (m_net_buffer s) = MAX_PACKET_SIZE" and off: "unat (m_packet_offset s) = a"
    and size: "unat (m_packet_size s) = n" and "a \<le> n" and "n \<le> MAX_PACKET_SIZE"
  shows "recv_data cb s = Some (s\<lparr>m_reading := Some (n - a)\<rparr>)"
proof -
  have u: "unat (m_packet_size s - m_packet_offset s) = n - a"
    using assms by (simp add: unat_sub word_le_nat_alt)
  then have "BytesToRead s = int (n - a)"
    using assms(5) unfolding BytesToRead_def u [symmetric]
    by (intro sint_eq_unat_small) (simp add: u MAX_PACKET_SIZE_def)
  moreover have "uint (m_packet_offset s) = int a" using off by auto
  ultimately show ?thesis
    using assms by (simp add: recv_data_def OnReceive_always)
qed

lemma receive_body_push:
  assumes "decodes dec_head dec_body p e d q" and "m_net_buffer s = d @ drop 6 e @ rest"
  shows "receive_body dec_body s = Some (True, reset_internal_buffer (s\<lparr>m_net_buffer := q @ rest,
    m_recv_queue := m_recv_queue s @ [q], m_tasks := Suc (m_tasks s)\<rparr>))"
proof -
  have "2 \<le> length q" using assms(1) by (auto simp: decodes_def same_packet_def)
  then have "packet_size (q @ rest) = packet_size q" by (simp add: packet_size_def)
  then show ?thesis
    using assms by (simp add: receive_body_def decodes_def Let_def)
qed

lemma receive_header:
  assumes "decodes dec_head dec_body p e d q" and "m_packet_size s = 6"
    and "m_net_buffer s = take 6 e @ rest"
  shows "receive_packet dec_head dec_body s =
    (if 6 < length p then Some (True, s\<lparr>m_net_buffer := d @ rest, m_packet_size := of_nat (length p)\<rparr>)
     else receive_body dec_body (s\<lparr>m_net_buffer := d @ rest, m_packet_size := of_nat (length p)\<rparr>))"
proof -
  show ?thesis
    using assms decodes_unat [OF assms(1)] by (auto simp: receive_packet_def decodes_def Let_def)
qed

text \<open>The invariant: the bytes so far are \<open>k\<close> whole packets, which are queued, and a part of the next,
  of which either less than the header has arrived, or the header was decoded in place.\<close>

definition in_header :: "byte list \<Rightarrow> 'a CRoseSocket_scheme \<Rightarrow> bool" where
  "in_header part s \<longleftrightarrow> m_packet_size s = 6 \<and> length part < 6 \<and> take (length part) (m_net_buffer s) = part"

definition in_body :: "byte list \<Rightarrow> byte list \<Rightarrow> 'a CRoseSocket_scheme \<Rightarrow> bool" where
  "in_body p part s \<longleftrightarrow> m_packet_size s = of_nat (length p) \<and> 6 \<le> length part \<and> length part < length p
     \<and> (\<exists>d q. decodes dec_head dec_body p (encode p) d q
          \<and> take (length part) (m_net_buffer s) = d @ drop 6 part)"

definition frame_inv :: "byte list list \<Rightarrow> byte list list \<Rightarrow> byte list list \<Rightarrow> byte list \<Rightarrow> 'a CRoseSocket_scheme \<Rightarrow> bool" where
  "frame_inv q0 got todo part s \<longleftrightarrow>
     m_active s \<and> length (m_net_buffer s) = MAX_PACKET_SIZE
     \<and> (\<exists>qs. m_recv_queue s = q0 @ qs \<and> list_all2 same_packet got qs)
     \<and> unat (m_packet_offset s) = length part \<and> m_reading s = Some (unat (m_packet_size s) - length part)
     \<and> (in_header part s \<or> (\<exists>p rest. todo = p # rest \<and> in_body p part s))"

lemma frame_inv_push:
  assumes dec: "decodes dec_head dec_body p (encode p) d q" and "m_net_buffer s = d @ drop 6 (encode p) @ rest"
    and "m_active s" and "length (m_net_buffer s) = MAX_PACKET_SIZE"
    and "m_recv_queue s = q0 @ qs" and "list_all2 same_packet got qs"
  shows "\<exists>s1 s2. receive_body dec_body s = Some (True, s1) \<and> m_active s1 \<and> recv_data cb s1 = Some s2
    \<and> frame_inv q0 (got @ [p]) todo [] s2"
proof -
  let ?s1 = "reset_internal_buffer (s\<lparr>m_net_buffer := q @ rest, m_recv_queue := m_recv_queue s @ [q],
    m_tasks := Suc (m_tasks s)\<rparr>)"
  have "length (q @ rest) = MAX_PACKET_SIZE"
    using dec assms(2,4) by (auto simp: decodes_def same_packet_def)
  then have "recv_data cb ?s1 = Some (?s1\<lparr>m_reading := Some (6 - 0)\<rparr>)"
    by (intro recv_data_start) (simp_all add: reset_internal_buffer_def MAX_PACKET_SIZE_def)
  moreover have "list_all2 same_packet (got @ [p]) (qs @ [q])"
    using assms(6) dec by (auto simp: decodes_def intro: list_all2_appendI)
  ultimately show ?thesis
    using receive_body_push [OF dec assms(2)] assms(3,5) \<open>length (q @ rest) = MAX_PACKET_SIZE\<close>
    by (auto simp: frame_inv_def reset_internal_buffer_def in_header_def)
qed

lemma frame_inv_less: "frame_inv q0 got todo part s \<Longrightarrow> length part < unat (m_packet_size s)"
  by (auto simp: frame_inv_def in_header_def in_body_def decodes_unat)

text \<open>What a chunk does to the buffer before the callback runs.\<close>

definition stored :: "int \<Rightarrow> byte list \<Rightarrow> 'a CRoseSocket_scheme \<Rightarrow> 'a CRoseSocket_scheme" where
  "stored now chunk s = s\<lparr>m_reading := None,
     m_net_buffer := blit (unat (m_packet_offset s)) chunk (m_net_buffer s),
     m_packet_offset := m_packet_offset s + of_nat (length chunk), m_update_time := now\<rparr>"

lemma stored_facts:
  assumes "length (m_net_buffer s) = MAX_PACKET_SIZE" and "unat (m_packet_offset s) = a"
    and "a + length chunk \<le> MAX_PACKET_SIZE"
  shows "length (m_net_buffer (stored now chunk s)) = MAX_PACKET_SIZE"
    and "unat (m_packet_offset (stored now chunk s)) = a + length chunk"
    and "take (a + length chunk) (m_net_buffer (stored now chunk s)) = take a (m_net_buffer s) @ chunk"
    and "m_packet_size (stored now chunk s) = m_packet_size s"
    and "m_active (stored now chunk s) = m_active s"
    and "m_recv_queue (stored now chunk s) = m_recv_queue s"
proof -
  have "unat (of_nat (length chunk) :: u16) = length chunk"
    using assms(3) by (intro unat_of_nat_small) (simp add: MAX_PACKET_SIZE_def)
  then show "unat (m_packet_offset (stored now chunk s)) = a + length chunk"
    using assms by (simp add: stored_def unat_word_ariths(1) MAX_PACKET_SIZE_def)
qed (use assms in \<open>simp_all add: stored_def take_blit\<close>)

lemma read_done_complete:
  assumes "OnReceived cb (stored now chunk s) = Some (True, s1)" and "m_active s1" and "recv_data cb s1 = Some s2"
  shows "read_done cb now chunk None s = Some s2"
  using assms by (simp add: read_done_def stored_def [symmetric] Let_def)

text \<open>The end of the header, and the end of the body, of packet \<open>p\<close>.\<close>

lemma header_complete:
  assumes inv: "frame_inv q0 got (p # todo) part s" and hdr: "in_header part s" and "ok p"
    and part: "part @ chunk = take 6 (encode p)" and n: "m_reading s = Some (length chunk)"
  shows "\<exists>s'. read_done cb now chunk None s = Some s' \<and>
    (if 6 < length p then frame_inv q0 got (p # todo) (part @ chunk) s' \<and> in_body p (part @ chunk) s'
     else frame_inv q0 (got @ [p]) todo [] s')"
proof -
  obtain d q where dec: "decodes dec_head dec_body p (encode p) d q" using decodes_ok [OF \<open>ok p\<close>] by blast
  obtain qs where qs: "m_recv_queue s = q0 @ qs" "list_all2 same_packet got qs"
    using inv by (auto simp: frame_inv_def)
  have "length chunk = 6 - length part" using inv hdr n by (auto simp: frame_inv_def in_header_def)
  then have len: "length part + length chunk = 6" using hdr by (simp add: in_header_def)
  have off: "unat (m_packet_offset s) = length part" and b: "length (m_net_buffer s) = MAX_PACKET_SIZE"
    and act: "m_active s" using inv by (auto simp: frame_inv_def)
  have fit: "length part + length chunk \<le> MAX_PACKET_SIZE" using len by (simp add: MAX_PACKET_SIZE_def)
  note st = stored_facts [OF b off fit, of now]
  let ?s = "stored now chunk s" and ?rest = "drop 6 (m_net_buffer (stored now chunk s))"
  have buf: "m_net_buffer ?s = take 6 (encode p) @ ?rest"
    using st(3) part len hdr by (metis append_take_drop_id in_header_def)
  have size: "m_packet_size ?s = 6" using st(4) hdr by (simp add: in_header_def)
  note rh = receive_header [OF dec size buf]
  let ?s1 = "?s\<lparr>m_net_buffer := d @ ?rest, m_packet_size := of_nat (length p)\<rparr>"
  have len1: "length (d @ ?rest) = MAX_PACKET_SIZE"
    using dec st(1) by (simp add: decodes_def MAX_PACKET_SIZE_def)
  have up: "unat (of_nat (length p) :: u16) = length p"
    by (rule decodes_unat [OF dec])
  show ?thesis
  proof (cases "6 < length p")
    case True
    have rec: "recv_data cb ?s1 = Some (?s1\<lparr>m_reading := Some (length p - 6)\<rparr>)"
      using len1 up st(2) len dec True by (intro recv_data_start) (auto simp: decodes_def)
    have "OnReceived cb ?s = Some (True, ?s1)" using rh True OnReceived_packet by simp
    from read_done_complete [OF this _ rec]
    have rd: "read_done cb now chunk None s = Some (?s1\<lparr>m_reading := Some (length p - 6)\<rparr>)"
      using st(5) act by simp
    have "in_body p (part @ chunk) (?s1\<lparr>m_reading := Some (length p - 6)\<rparr>)"
      using dec len True by (auto simp: in_body_def decodes_def)
    then show ?thesis
      using rd True qs st len len1 up act by (auto simp: frame_inv_def)
  next
    case False
    then have "drop 6 (encode p) = []" using dec by (simp add: decodes_def)
    then have "m_net_buffer ?s1 = d @ drop 6 (encode p) @ ?rest" by simp
    from frame_inv_push [OF dec this, of q0 qs got todo]
    obtain s1 s2 where s: "receive_body dec_body ?s1 = Some (True, s1)" "m_active s1"
        "recv_data cb s1 = Some s2" "frame_inv q0 (got @ [p]) todo [] s2"
      using st(5,6) act len1 qs by auto
    have "OnReceived cb ?s = Some (True, s1)" using rh False s(1) OnReceived_packet by simp
    from read_done_complete [OF this s(2,3)] show ?thesis using s(4) False by auto
  qed
qed

lemma body_complete:
  assumes inv: "frame_inv q0 got (p # todo) part s" and body: "in_body p part s"
    and part: "part @ chunk = encode p" and n: "m_reading s = Some (length chunk)"
  shows "\<exists>s'. read_done cb now chunk None s = Some s' \<and> frame_inv q0 (got @ [p]) todo [] s'"
proof -
  obtain d q where dec: "decodes dec_head dec_body p (encode p) d q"
    and buf: "take (length part) (m_net_buffer s) = d @ drop 6 part"
    using body by (auto simp: in_body_def)
  obtain qs where qs: "m_recv_queue s = q0 @ qs" "list_all2 same_packet got qs"
    using inv by (auto simp: frame_inv_def)
  have off: "unat (m_packet_offset s) = length part" and b: "length (m_net_buffer s) = MAX_PACKET_SIZE"
    and act: "m_active s" using inv by (auto simp: frame_inv_def)
  have len: "length part + length chunk = length p"
    using arg_cong [OF part, of length] dec by (simp add: decodes_def)
  then have fit: "length part + length chunk \<le> MAX_PACKET_SIZE" using dec by (simp add: decodes_def)
  note st = stored_facts [OF b off fit, of now]
  let ?s = "stored now chunk s" and ?rest = "drop (length p) (m_net_buffer (stored now chunk s))"
  have "take (length p) (m_net_buffer ?s) = d @ drop 6 (encode p)"
    using st(3) buf len body unfolding part [symmetric] by (auto simp: in_body_def)
  then have full: "m_net_buffer ?s = d @ drop 6 (encode p) @ ?rest"
    by (metis append_assoc append_take_drop_id)
  from frame_inv_push [OF dec full, of q0 qs got todo]
  obtain s1 s2 where s: "receive_body dec_body ?s = Some (True, s1)" "m_active s1"
      "recv_data cb s1 = Some s2" "frame_inv q0 (got @ [p]) todo [] s2"
    using st(1,5,6) act qs by auto
  have "unat (of_nat (length p) :: u16) = length p"
    by (rule decodes_unat [OF dec])
  then have "m_packet_size ?s \<noteq> 6" using st(4) body by (auto simp: in_body_def)
  then have "OnReceived cb ?s = Some (True, s1)"
    using s(1) OnReceived_packet by (simp add: receive_packet_def)
  from read_done_complete [OF this s(2,3)] show ?thesis using s(4) by auto
qed

lemma read_again:
  assumes inv: "frame_inv q0 got todo part s" and n: "m_reading s = Some n" and "length chunk < n"
  shows "\<exists>s'. read_done cb now chunk (Some try_again) s = Some s' \<and> frame_inv q0 got todo (part @ chunk) s'"
proof -
  have off: "unat (m_packet_offset s) = length part" and b: "length (m_net_buffer s) = MAX_PACKET_SIZE"
    and act: "m_active s" and less: "length part + length chunk < unat (m_packet_size s)"
    using inv n assms(3) by (auto simp: frame_inv_def)
  have size: "unat (m_packet_size s) \<le> MAX_PACKET_SIZE"
  proof (cases "in_header part s")
    case True
    then show ?thesis by (simp add: in_header_def MAX_PACKET_SIZE_def)
  next
    case False
    then obtain p d q where p: "m_packet_size s = of_nat (length p)" "decodes dec_head dec_body p (encode p) d q"
      using inv by (auto simp: frame_inv_def in_body_def)
    then show ?thesis using decodes_unat [OF p(2)] by (simp add: decodes_def)
  qed
  then have fit: "length part + length chunk \<le> MAX_PACKET_SIZE" using less by simp
  note st = stored_facts [OF b off fit, of now]
  let ?s = "stored now chunk s"
  let ?s' = "?s\<lparr>m_reading := Some (unat (m_packet_size s) - (length part + length chunk))\<rparr>"
  have "recv_data cb ?s = Some ?s'"
    using st(1,2,4) less size by (intro recv_data_start) auto
  then have rd: "read_done cb now chunk (Some try_again) s = Some ?s'"
    using act st(5) by (simp add: read_done_def stored_def [symmetric] Let_def)
  have "in_header part s \<Longrightarrow> in_header (part @ chunk) ?s'"
    using st(3,4) less by (auto simp: in_header_def)
  moreover have "in_body p part s \<Longrightarrow> in_body p (part @ chunk) ?s'" for p
  proof -
    assume body: "in_body p part s"
    then obtain d q where dec: "decodes dec_head dec_body p (encode p) d q"
      and buf: "take (length part) (m_net_buffer s) = d @ drop 6 part" by (auto simp: in_body_def)
    have "unat (of_nat (length p) :: u16) = length p"
      by (rule decodes_unat [OF dec])
    then show ?thesis using body dec buf st(3,4) less by (auto simp: in_body_def)
  qed
  ultimately have "frame_inv q0 got todo (part @ chunk) ?s'"
    using inv st act by (auto simp: frame_inv_def)
  with rd show ?thesis by blast
qed

text \<open>One step of the peer's stream.\<close>

lemma read_complete:
  assumes inv: "frame_inv q0 got todo part s" and oks: "list_all ok todo"
    and pre: "prefix (part @ chunk) (concat (map encode todo))" and n: "m_reading s = Some (length chunk)"
  shows "\<exists>s' got' todo' part'. read_done cb now chunk None s = Some s' \<and> frame_inv q0 got' todo' part' s'
    \<and> got @ todo = got' @ todo' \<and> concat (map encode got) @ part @ chunk = concat (map encode got') @ part'
    \<and> list_all ok todo' \<and> prefix part' (concat (map encode todo'))"
proof -
  have "length chunk > 0"
    using inv n frame_inv_less [OF inv] by (auto simp: frame_inv_def)
  then obtain p rest where todo: "todo = p # rest" using pre by (cases todo) auto
  then have okp: "ok p" and okr: "list_all ok rest" using oks by auto
  then obtain d q where dec: "decodes dec_head dec_body p (encode p) d q" using decodes_ok by blast
  have len: "6 \<le> length (encode p)" "length (encode p) = length p" using dec by (auto simp: decodes_def)
  have whole: "part @ chunk = take (length (part @ chunk)) (encode p)" if "length (part @ chunk) \<le> length (encode p)"
    using pre todo that by (auto simp: prefix_def append_eq_append_conv2) 
  show ?thesis
  proof (cases "in_header part s")
    case True
    then have l: "length (part @ chunk) = 6"
      using inv n by (auto simp: frame_inv_def in_header_def)
    have "part @ chunk = take 6 (encode p)" using whole l len by simp
    from header_complete [OF _ True okp this n, of q0 got rest now] show ?thesis
      using inv todo oks okr pre l len whole
      by (cases "6 < length p") (force simp: todo)+
  next
    case False
    then have body: "in_body p part s" using inv todo by (auto simp: frame_inv_def)
    have "unat (of_nat (length p) :: u16) = length p"
      by (rule decodes_unat [OF dec])
    then have "length (part @ chunk) = length p"
      using inv n body by (auto simp: frame_inv_def in_body_def)
    then have "part @ chunk = encode p" using whole len by simp
    from body_complete [OF _ body this n, of q0 got rest now] show ?thesis
      using inv todo okr pre \<open>part @ chunk = encode p\<close> by (force simp: todo)
  qed
qed

lemma frame_inv_waiting: "waiting s0 \<Longrightarrow> frame_inv (m_recv_queue s0) [] ps [] s0"
  by (simp add: waiting_def frame_inv_def in_header_def)

lemma receives_frame:
  assumes "receives cb s0 bs s" and "waiting s0" and "list_all ok ps" and "prefix bs (concat (map encode ps))"
  shows "\<exists>got todo part. frame_inv (m_recv_queue s0) got todo part s \<and> got @ todo = ps
    \<and> bs = concat (map encode got) @ part \<and> list_all ok todo \<and> prefix part (concat (map encode todo))"
  using assms
proof (induction rule: receives.induct)
  case start
  then show ?case using frame_inv_waiting [of s0 ps] by (intro exI [of _ "[]"] exI [of _ ps]) simp
next
  case (complete bs s chunk now s')
  then obtain got todo part where ih: "frame_inv (m_recv_queue s0) got todo part s" "got @ todo = ps"
      "bs = concat (map encode got) @ part" "list_all ok todo"
    using append_prefixD by blast
  then have "prefix (part @ chunk) (concat (map encode todo))"
    using complete.prems(3) by (auto simp: ih(2) [symmetric])
  from read_complete [OF ih(1,4) this complete.hyps(2), of now] show ?case
    using complete.hyps(3) ih(2,3) by (auto simp: ih(3)) blast
next
  case (again bs s n chunk now s')
  then obtain got todo part where ih: "frame_inv (m_recv_queue s0) got todo part s" "got @ todo = ps"
      "bs = concat (map encode got) @ part" "list_all ok todo"
    using append_prefixD by blast
  then have "prefix (part @ chunk) (concat (map encode todo))"
    using again.prems(3) by (auto simp: ih(2) [symmetric])
  then show ?case
    using read_again [OF ih(1) again.hyps(2,3), of now] again.hyps(4) ih by force
qed

text \<open>A whole stream is delivered packet by packet, in order, and the connection waits for the next.\<close>

lemma delivered:
  assumes "receives cb s0 (concat (map encode ps)) s" and "waiting s0" and "list_all ok ps"
  shows "(\<exists>qs. m_recv_queue s = m_recv_queue s0 @ qs \<and> list_all2 same_packet ps qs) \<and> waiting s"
proof -
  obtain got todo part where inv: "frame_inv (m_recv_queue s0) got todo part s" "got @ todo = ps"
      "concat (map encode ps) = concat (map encode got) @ part" "list_all ok todo"
    using receives_frame [OF assms] by auto
  have part: "part = concat (map encode todo)" using inv(2,3) by auto
  have "todo = []"
  proof (cases todo)
    case (Cons p rest)
    then obtain d q where dec: "decodes dec_head dec_body p (encode p) d q"
      using inv(4) decodes_ok [of p] by auto
    then show ?thesis
      using frame_inv_less [OF inv(1)] inv(1) part Cons decodes_unat [OF dec]
      by (auto simp: frame_inv_def in_header_def in_body_def decodes_def)
  qed simp
  then show ?thesis
    using inv(1,2) part by (auto simp: frame_inv_def waiting_def in_header_def unsigned_eq_0_iff)
qed

text \<open>No prefix of such a stream makes the connection fail, however it is cut.\<close>

lemma not_stuck:
  assumes "receives cb s0 bs s" and "waiting s0" and "list_all ok ps"
    and "prefix (bs @ chunk) (concat (map encode ps))" and "m_reading s = Some n"
  shows "m_active s \<and> (length chunk = n \<longrightarrow> read_done cb now chunk None s \<noteq> None)
    \<and> (length chunk < n \<longrightarrow> read_done cb now chunk (Some try_again) s \<noteq> None)"
proof -
  obtain got todo part where inv: "frame_inv (m_recv_queue s0) got todo part s" "got @ todo = ps"
      "bs = concat (map encode got) @ part" "list_all ok todo"
    using receives_frame [OF assms(1-3)] assms(4) append_prefixD by blast
  have "prefix (part @ chunk) (concat (map encode todo))"
    using assms(4) inv(3) by (auto simp: inv(2) [symmetric])
  then show ?thesis
    using read_complete [OF inv(1,4), of chunk now] read_again [OF inv(1) assms(5), of chunk now]
      assms(5) inv(1) by (auto simp: frame_inv_def)
qed

lemma read_done_only:
  assumes "\<And>t. \<not> m_active (snd (shutdown cb False t))" and "err = None \<or> err = Some try_again"
    and "read_done cb now chunk err s = Some s'" and "m_active s'"
  shows "only_received s s'"
proof -
  let ?s = "stored now chunk s"
  have st: "only_received s ?s" by (simp add: stored_def only_received_def)
  have rec: "recv_data cb t = Some s' \<Longrightarrow> only_received t s'" for t
    by (auto simp: recv_data_def OnReceive_always only_received_def split: if_splits)
  show ?thesis
  proof (cases err)
    case None
    then obtain ok s2 where s2: "receive_packet dec_head dec_body ?s = Some (ok, s2)"
      using assms(3) OnReceived_packet
      by (auto simp: read_done_def stored_def [symmetric] Let_def split: option.splits)
    then have "recv_data cb s2 = Some s' \<or> s2 = s'"
      using assms(1) [of s2] assms(3,4) None OnReceived_packet
      by (auto simp: read_done_def stored_def [symmetric] Let_def split: if_splits)
    then show ?thesis
      using rec receive_packet_only [OF s2] st only_received_trans by blast
  next
    case (Some e)
    then have "recv_data cb ?s = Some s' \<or> ?s = s'"
      using assms(2-4) by (auto simp: read_done_def stored_def [symmetric] Let_def split: if_splits)
    then show ?thesis using rec st only_received_trans by blast
  qed
qed

lemma receives_only:
  assumes "receives cb s0 bs s" and "waiting s0" and "list_all ok ps" and "prefix bs (concat (map encode ps))"
    and shut: "\<And>t. \<not> m_active (snd (shutdown cb False t))"
  shows "only_received s0 s"
  using assms(1-4)
proof (induction rule: receives.induct)
  case start
  show ?case by (rule only_received_refl)
next
  case (complete bs s chunk now s')
  have "m_active s'"
    using receives_frame [OF receives.complete [OF complete.hyps] complete.prems] by (auto simp: frame_inv_def)
  then show ?case
    using read_done_only [OF shut _ complete.hyps(3)] complete only_received_trans append_prefixD by blast
next
  case (again bs s n chunk now s')
  have "m_active s'"
    using receives_frame [OF receives.again [OF again.hyps] again.prems] by (auto simp: frame_inv_def)
  then show ?case
    using read_done_only [OF shut _ again.hyps(4)] again only_received_trans append_prefixD by blast
qed

lemma receives_trans:
  assumes "receives cb s1 bs s2" and "receives cb s0 as s1"
  shows "receives cb s0 (as @ bs) s2"
  using assms
proof (induction rule: receives.induct)
  case start
  then show ?case by simp
next
  case (complete bs s chunk now s')
  then show ?case using receives.complete [of cb s0 "as @ bs"] by simp
next
  case (again bs s n chunk now s')
  then show ?case using receives.again [of cb s0 "as @ bs"] by simp
qed

text \<open>Such streams exist: the peer can always deliver the next packet.\<close>

lemma receives_one:
  assumes "waiting s0" and "ok p"
  shows "\<exists>s. receives cb s0 (encode p) s"
proof -
  obtain d q where dec: "decodes dec_head dec_body p (encode p) d q" using decodes_ok [OF assms(2)] by blast
  then have len: "6 \<le> length (encode p)" "length (encode p) = length p" by (auto simp: decodes_def)
  have inv: "frame_inv (m_recv_queue s0) [] [p] [] s0" by (rule frame_inv_waiting [OF assms(1)])
  have hdr: "in_header [] s0" and "m_reading s0 = Some 6" using assms(1) by (auto simp: waiting_def in_header_def)
  then obtain s1 where s1: "read_done cb 0 (take 6 (encode p)) None s0 = Some s1"
    and cases: "if 6 < length p then frame_inv (m_recv_queue s0) [] [p] (take 6 (encode p)) s1
        \<and> in_body p (take 6 (encode p)) s1 else frame_inv (m_recv_queue s0) [p] [] [] s1"
    using header_complete [OF inv hdr assms(2), of "take 6 (encode p)" 0, unfolded append_Nil] len by auto
  have r1: "receives cb s0 (take 6 (encode p)) s1"
    using receives.complete [OF receives.start, of s0 "take 6 (encode p)" cb 0 s1] s1
      \<open>m_reading s0 = Some 6\<close> len by simp
  show ?thesis
  proof (cases "6 < length p")
    case True
    then have "m_reading s1 = Some (length (drop 6 (encode p)))"
      using cases len decodes_unat [OF dec] by (auto simp: frame_inv_def in_body_def)
    with body_complete [of "m_recv_queue s0" "[]" p "[]" "take 6 (encode p)" s1 "drop 6 (encode p)" 0]
    obtain s2 where "read_done cb 0 (drop 6 (encode p)) None s1 = Some s2"
      using cases True by auto
    then show ?thesis
      using receives.complete [OF r1 \<open>m_reading s1 = Some (length (drop 6 (encode p)))\<close>] by auto
  next
    case False
    then show ?thesis using r1 len by auto
  qed
qed

lemma receives_exists:
  "waiting s0 \<Longrightarrow> list_all ok ps \<Longrightarrow> \<exists>s. receives cb s0 (concat (map encode ps)) s"
proof (induction ps arbitrary: s0)
  case Nil
  then show ?case by (auto intro: receives.start)
next
  case (Cons p ps)
  then obtain s1 where s1: "receives cb s0 (encode p) s1" using receives_one [of s0 p] by auto
  then have "waiting s1" using delivered [of s0 "[p]" s1] Cons.prems by auto
  then obtain s where "receives cb s1 (concat (map encode ps)) s" using Cons by auto
  then show ?case using receives_trans [OF _ s1] by auto
qed

end

section \<open>The codecs as instances\<close>

definition crypt_packet :: "byte list \<Rightarrow> bool" where
  "crypt_packet p \<longleftrightarrow> wire_buffer p \<and> length p < 2 ^ 11 \<and> unat (packet_type p) < 2 ^ 11"

context header_layout
begin

lemma decodes_encoded:
  assumes "crypt_packet p" and blen: "blen (make_head ev p) = packet_size p"
  shows "\<exists>d q. decodes (decode_header lay rt) (\<lambda>b. decode_packet_body (blen (load_head b)) rt b)
    p (the (encode_packet lay ev rt p)) d q"
proof -
  let ?h = "make_head ev p"
  have p: "6 \<le> length p" "unat (packet_size p) = length p" "length p < 2 ^ 11" "unat (packet_type p) < 2 ^ 11"
    using assms(1) by (auto simp: crypt_packet_def wire_buffer_def)
  obtain e D q where e: "encode_packet lay ev rt p = Some e" "length e = length p"
      "decode_header lay rt e = (packet_size p, store_head ?h D)" "length D = length p"
      "decode_packet_body (packet_size p) rt (store_head ?h D) = Some (True, q)"
    and q: "q = take 4 p @ [le_bytes 5 ?h ! 4, body_checksum ?h (length p) p] @ drop 6 p"
    using decode_encode [of p "packet_size p" ev rt] p by auto
  obtain n d where nd: "decode_header lay rt (take 6 e) = (n, d)" by fastforce
  have "(n, d @ drop 6 e) = (packet_size p, store_head ?h D)"
    using decode_header_append [OF _ nd, of "drop 6 e"] e p by simp
  then have d: "n = packet_size p" "d @ drop 6 e = store_head ?h D" by auto
  have len: "length d = 6" using decode_header_drop [OF _ nd] e p by simp
  have "unat (of_nat (length p) :: u16) = length p" using p(3) by (intro unat_of_nat_small) simp
  then have n: "n = of_nat (length p)" using p(2) by (simp only: d(1) word_unat_eq_iff)
  then have head: "decode_header lay rt (take 6 e @ rest) = (of_nat (length p), d @ rest)" for rest
    using decode_header_append [OF _ nd, of rest] e(2) p(1) by simp
  have body: "decode_packet_body (blen (load_head (d @ drop 6 e @ rest))) rt (d @ drop 6 e @ rest)
      = Some (True, q @ rest)" for rest
  proof -
    have "load_head (store_head ?h D @ rest) = ?h" using e p by (simp add: load_head_append)
    then show ?thesis
      using decode_packet_body_append [OF _ _ e(5), of rest] e p blen
      by (simp add: append_assoc [symmetric] d(2) del: append_assoc)
  qed
  have "same_packet p q" using p by (simp add: q same_packet_def)
  moreover have "unat (packet_size q) = length q"
    using p by (simp add: q packet_size_def)
  ultimately show ?thesis
    using e p len head body by (auto simp: decodes_def MAX_PACKET_SIZE_def)
qed

end

interpretation client_frames: framing "client_callbacks rt" "decodeClientHeader rt" "decodeClientBody rt"
  "\<lambda>p. the (encodeClientPacket rt p)" crypt_packet
proof
  show "OnReceived (client_callbacks rt) = receive_packet (decodeClientHeader rt) (decodeClientBody rt)"
    by (simp add: client_callbacks_def CRoseSocket_OnReceived_def)
  show "OnReceive (client_callbacks rt) s = (True, s)" for s :: "'a CRoseSocket_scheme"
    by (simp add: client_callbacks_def initCallbacks_def)
  show "\<exists>d q. decodes (decodeClientHeader rt) (decodeClientBody rt) p (the (encodeClientPacket rt p)) d q"
    if "crypt_packet p" for p
    using crypted_client.decodes_encoded [OF that, of client_buflen 0 rt] that
    by (simp add: decodeClientHeader_def decodeClientBody_def [abs_def] encodeClientPacket_def
        clientbuflen_make_head crypt_packet_def wire_buffer_def)
qed

interpretation server_frames: framing "server_callbacks rt" "decodeServerHeader rt" "decodeServerBody rt"
  "\<lambda>p. the (encodeServerPacket rt p)" crypt_packet
proof
  show "OnReceived (server_callbacks rt) = receive_packet (decodeServerHeader rt) (decodeServerBody rt)"
    by (simp add: server_callbacks_def CRoseSocket_OnServerReceived_def)
  show "OnReceive (server_callbacks rt) s = (True, s)" for s :: "'a CRoseSocket_scheme"
    by (simp add: server_callbacks_def initCallbacks_def)
  show "\<exists>d q. decodes (decodeServerHeader rt) (decodeServerBody rt) p (the (encodeServerPacket rt p)) d q"
    if "crypt_packet p" for p
    using crypted_server.decodes_encoded [OF that, of server_buflen 260 rt] that
    by (simp add: decodeServerHeader_def decodeServerBody_def [abs_def] encodeServerPacket_def
        serverbuflen_make_head crypt_packet_def wire_buffer_def)
qed

text \<open>The inter-server framing reads one byte of the length, so it only frames packets of up to 255 bytes.\<close>

definition isc_packet :: "byte list \<Rightarrow> bool" where
  "isc_packet p \<longleftrightarrow> wire_buffer p \<and> length p < 2 ^ 8"

lemma isc_first_byte:
  assumes "isc_packet p"
  shows "ucast (p ! 0) = (of_nat (length p) :: u16)"
proof -
  obtain a b r where p: "p = a # b # r" using assms
    by (auto simp: isc_packet_def wire_buffer_def Suc_le_length_iff numeral_eq_Suc)
  have "ucast (packet_size p) = a"
    by (simp add: packet_size_def p bit_word_eqI bit_simps)
       (auto intro!: bit_word_eqI simp: bit_simps)
  have "unat (packet_size p) = length p" "length p < 2 ^ 8"
    using assms by (auto simp: isc_packet_def wire_buffer_def)
  then have "unat (ucast (packet_size p) :: byte) = length p"
    by (simp add: unsigned_ucast_eq take_bit_nat_eq_self)
  then have "unat a = length p" using \<open>ucast (packet_size p) = a\<close> by simp
  moreover have "unat (of_nat (length p) :: u16) = length p"
    using \<open>length p < 2 ^ 8\<close> by (intro unat_of_nat_small) simp
  moreover have "unat (ucast a :: u16) = unat a"
    using \<open>unat a = length p\<close> \<open>length p < 2 ^ 8\<close> by (simp add: unsigned_ucast_eq take_bit_nat_eq_self)
  ultimately have "ucast a = (of_nat (length p) :: u16)" by (simp only: word_unat_eq_iff)
  then show ?thesis by (simp add: p)
qed

interpretation isc_frames: framing isc_callbacks "\<lambda>b. (ucast (b ! 0), b)" "\<lambda>b. Some (True, b)" "\<lambda>p. p" isc_packet
proof
  show "OnReceived isc_callbacks = receive_packet (\<lambda>b. (ucast (b ! 0), b)) (\<lambda>b. Some (True, b))"
    by (simp add: isc_callbacks_def CRoseISC_OnReceived_def)
  show "OnReceive isc_callbacks s = (True, s)" for s :: "'a CRoseSocket_scheme"
    by (simp add: isc_callbacks_def initCallbacks_def)
  show "\<exists>d q. decodes (\<lambda>b. (ucast (b ! 0), b)) (\<lambda>b. Some (True, b)) p p d q" if "isc_packet p" for p
    using that isc_first_byte [OF that]
    by (intro exI [of _ "take 6 p"] exI [of _ p])
       (auto simp: decodes_def isc_packet_def wire_buffer_def same_packet_def MAX_PACKET_SIZE_def nth_append
          append_assoc [symmetric] simp del: append_assoc)
qed

text \<open>The encoders accept every buffer \<open>getPacked\<close> can produce, so the callbacks satisfy the contract of
  the send queue.\<close>

lemma encode_packet_total:
  assumes "wire_buffer b"
  shows "\<exists>e. encode_packet lay ev rt b = Some e \<and> length e = length b"
proof -
  have "unat (packet_size b) < 2 ^ LENGTH(16)" by (rule unsigned_less)
  then have "unat (ucast (packet_size b) :: head) = unat (packet_size b)"
    by (simp add: unsigned_ucast_eq take_bit_nat_eq_self)
  then have "unat (bf_get Head_AddBufferLen (make_head ev b)) \<le> length b"
    using assms take_bit_nat_less_eq_self [of 11 "unat (packet_size b)"]
    by (simp add: make_head_fields unsigned_take_bit_eq wire_buffer_def)
  then show ?thesis
    using encode_packet_eq [OF refl, of b ev lay rt] assms by (simp add: wire_buffer_def)
qed

interpretation client_sends: sender "client_callbacks rt :: 'a CRoseSocket_scheme callbacks"
  "\<lambda>b. the (encodeServerPacket rt b)"
proof
  fix buf :: "byte list" assume w: "wire_buffer buf"
  from encode_packet_total [OF w, of HeadCryptedServer 260 rt]
  show "OnSend (client_callbacks rt :: 'a CRoseSocket_scheme callbacks) buf = Some (True, the (encodeServerPacket rt buf))"
    and "length (the (encodeServerPacket rt buf)) = length buf"
    by (auto simp: client_callbacks_def CRoseSocket_OnSend_def encodeServerPacket_def)
qed (simp_all add: client_callbacks_def initCallbacks_def same_queues_def)

interpretation isc_sends: sender "isc_callbacks :: 'a CRoseSocket_scheme callbacks" "\<lambda>b. b"
  by unfold_locales (simp_all add: isc_callbacks_def initCallbacks_def same_queues_def CRoseISC_OnSend_def)

text \<open>Up to the checksum, a received packet is the header and the body that were sent.\<close>

lemma same_packet_header:
  assumes "same_packet (header_bytes n ty crc @ bs) q"
  shows "\<exists>crc'. q = header_bytes n ty crc' @ bs"
proof -
  have q: "length q = 6 + length bs" "take 4 q = take 4 (header_bytes n ty crc)" "drop 6 q = bs"
    using assms by (simp_all add: same_packet_def header_bytes_def)
  let ?c = "take 2 (drop 4 q)"
  have c: "length ?c = 2" using q(1) by simp
  have "le_bytes 2 (le_word ?c :: u16) = ?c"
    using le_bytes_le_word [OF c, where 'a = 16] by simp
  moreover have "q = take 4 q @ ?c @ drop 6 q"
    by (metis (no_types, lifting) append_take_drop_id drop_drop numeral_plus_numeral semiring_norm(2,5) add_num_simps)
  ultimately show ?thesis
    using q(2,3) by (intro exI [of _ "le_word ?c"]) (simp add: header_bytes_def)
qed

text \<open>An idle connection writes a packet at once.\<close>

definition idle :: "'a CRoseSocket_scheme \<Rightarrow> bool" where
  "idle s \<longleftrightarrow> m_active s \<and> m_send_queue s = [] \<and> m_discard_queue s = []"

definition wire_image :: "u32 list list \<Rightarrow> u16 \<Rightarrow> byte list \<Rightarrow> byte list" where
  "wire_image rt ty bs = the (encodeServerPacket rt (header_bytes (length bs) ty 0 @ bs))"

definition writing :: "byte list \<Rightarrow> 'a CRoseSocket_scheme \<Rightarrow> 'a CRoseSocket_scheme" where
  "writing img s = s\<lparr>m_send_queue := [], m_discard_queue := [img], m_written := m_written s @ [img]\<rparr>"

lemma wire_buffer_header:
  assumes "6 + length bs < MAX_PACKET_SIZE"
  shows "wire_buffer (header_bytes (length bs) ty crc @ bs)"
  using assms packet_size_header [of "length bs" ty crc bs] by (simp add: wire_buffer_def MAX_PACKET_SIZE_def)

lemma send_data_idle:
  fixes c :: "'a CRoseSocket_scheme"
  assumes "wire_buffer buf" and "idle c" and "OnSend cb = CRoseSocket_OnSend rt"
  shows "send_data cb buf c = Some (writing (the (encodeServerPacket rt buf)) c)"
proof -
  have "OnSend cb buf = Some (True, the (encodeServerPacket rt buf))"
    using client_sends.OnSend_image [where 'a = 'a, OF assms(1), of rt] assms(3) by (simp add: client_callbacks_def)
  then show ?thesis
    using assms client_sends.length_image [OF assms(1), of rt]
    by (auto simp: send_data_def ProcessSend_def wire_buffer_def Let_def idle_def writing_def)
qed

lemma send_packet_idle:
  assumes "emits pack bs" and "length g = MAX_PACKET_SIZE" and "6 + length bs < MAX_PACKET_SIZE"
    and "idle c" and "OnSend cb = CRoseSocket_OnSend rt"
  shows "send_packet cb ty pack g c = Some (writing (wire_image rt ty bs) c)"
  using send_data_idle [OF wire_buffer_header [OF assms(3)] assms(4,5)]
    getPacked_pkt_of [OF assms(1,2), of "[]" ty 0] assms(2,3)
  by (simp add: send_packet_def wire_image_def CRosePacket_new_eq)

section \<open>Properties\<close>

text \<open>C2. Framing. If the peer sends the encrypted images of any packets of the protocol one after the
  other, and the network delivers that stream in pieces of any sizes, then the queue of received packets
  is extended by exactly those packets, in order, each equal to the one sent up to the key index and the
  checksum, and the connection is active and waits for the next header.\<close>

theorem client_stream_delivered:
  assumes "waiting s0" and "list_all crypt_packet ps"
    and "receives (client_callbacks rt) s0 (concat (map (\<lambda>p. the (encodeClientPacket rt p)) ps)) s"
  shows "(\<exists>qs. m_recv_queue s = m_recv_queue s0 @ qs \<and> list_all2 same_packet ps qs) \<and> waiting s"
  using client_frames.delivered [OF assms(3,1,2)] .

definition sample_socket :: CRoseSocket where
  "sample_socket = (CRoseClient_new (CNetwork_Asio_new (replicate 2047 0) 0))\<lparr>m_reading := Some 6\<rparr>"

lemma sample_socket_waiting: "waiting sample_socket" "m_recv_queue sample_socket = []"
  by (simp_all add: sample_socket_def waiting_def CRoseClient_new_def CRoseSocket_new_def set_active_def
      reset_internal_buffer_def CNetwork_Asio_new_def CNetwork_Asio.CNetwork_Asio.defs
      CRoseSocket.CRoseSocket.defs MAX_PACKET_SIZE_def)

lemma sample_buffer_crypt_packet: "crypt_packet sample_buffer"
  by (simp add: crypt_packet_def wire_buffer_def sample_buffer_def packet_size_def packet_type_def)

theorem client_stream_delivered_witness:
  "\<exists>s. receives (client_callbacks sample_keys) sample_socket
      (concat (map (\<lambda>p. the (encodeClientPacket sample_keys p)) [sample_buffer, sample_buffer])) s
    \<and> (\<exists>qs. m_recv_queue s = [] @ qs \<and> list_all2 same_packet [sample_buffer, sample_buffer] qs) \<and> waiting s"
proof -
  have oks: "list_all crypt_packet [sample_buffer, sample_buffer]" using sample_buffer_crypt_packet by simp
  from client_frames.receives_exists [OF sample_socket_waiting(1) oks]
  obtain s where "receives (client_callbacks sample_keys) sample_socket
      (concat (map (\<lambda>p. the (encodeClientPacket sample_keys p)) [sample_buffer, sample_buffer])) s" by blast
  with client_stream_delivered [OF sample_socket_waiting(1) oks this] show ?thesis
    unfolding sample_socket_waiting(2) by blast
qed

text \<open>Such a stream never breaks the connection: after any part of it, however it was cut, the
  connection is active, and the completion of the outstanding read, whole or partial, neither reads nor
  writes outside the receive buffer.\<close>

theorem client_stream_not_stuck:
  assumes "waiting s0" and "list_all crypt_packet ps" and "receives (client_callbacks rt) s0 bs s"
    and "prefix (bs @ chunk) (concat (map (\<lambda>p. the (encodeClientPacket rt p)) ps))"
    and "m_reading s = Some n"
  shows "m_active s
    \<and> (length chunk = n \<longrightarrow> read_done (client_callbacks rt) now chunk None s \<noteq> None)
    \<and> (length chunk < n \<longrightarrow> read_done (client_callbacks rt) now chunk (Some try_again) s \<noteq> None)"
  using client_frames.not_stuck [OF assms(3,1,2,4,5)] .

theorem client_stream_not_stuck_witness:
  "read_done (client_callbacks sample_keys) 0 (take 6 (the (encodeClientPacket sample_keys sample_buffer)))
     None sample_socket \<noteq> None"
proof -
  obtain e where e: "encodeClientPacket sample_keys sample_buffer = Some e" "length e = length sample_buffer"
    using encode_packet_total [of sample_buffer HeadCryptedClient 0 sample_keys] sample_buffer_crypt_packet
    by (auto simp: crypt_packet_def encodeClientPacket_def)
  have pre: "prefix ([] @ take 6 e)
      (concat (map (\<lambda>p. the (encodeClientPacket sample_keys p)) [sample_buffer]))"
    using e by (simp add: take_is_prefix)
  have "m_reading sample_socket = Some 6" by (simp add: sample_socket_def)
  from client_stream_not_stuck [OF sample_socket_waiting(1) _ receives.start pre this]
  show ?thesis using e sample_buffer_crypt_packet by (simp add: sample_buffer_def)
qed

text \<open>C18. Sending. Whatever the interleaving of \<open>send\<close> calls and write completions, the buffers given to
  \<open>async_write\<close> followed by the encryption of those still queued are, in order, the encryption of exactly
  the packets that were sent; and at most one write is outstanding.\<close>

theorem socket_send_fifo:
  assumes "m_send_queue s = []" and "m_discard_queue s = []" and "m_written s = []"
    and "\<forall>buf \<in> set (submitted es). wire_buffer buf" and "send_run (client_callbacks rt) es s = Some s'"
  shows "m_written s' @ map (\<lambda>b. the (encodeServerPacket rt b)) (m_send_queue s')
      = map (\<lambda>b. the (encodeServerPacket rt b)) (submitted es)
    \<and> length (m_discard_queue s') \<le> 1"
proof -
  have "client_sends.queued rt [] s" using assms(1-3) by (simp add: client_sends.queued_def)
  from client_sends.send_run_queued [OF assms(5) this assms(4)] show ?thesis
    by (simp add: client_sends.queued_def)
qed

theorem socket_send_fifo_witness:
  "\<exists>s'. send_run (client_callbacks sample_keys) [Submit sample_buffer, Submit sample_buffer] sample_socket = Some s'
    \<and> m_written s' @ map (\<lambda>b. the (encodeServerPacket sample_keys b)) (m_send_queue s')
      = map (\<lambda>b. the (encodeServerPacket sample_keys b)) [sample_buffer, sample_buffer]"
proof -
  have w: "wire_buffer sample_buffer" using sample_buffer_crypt_packet by (simp add: crypt_packet_def)
  have q: "m_send_queue sample_socket = []" "m_discard_queue sample_socket = []" "m_written sample_socket = []"
    by (simp_all add: sample_socket_def CRoseClient_new_def CRoseSocket_new_def set_active_def
      reset_internal_buffer_def CNetwork_Asio_new_def CNetwork_Asio.CNetwork_Asio.defs CRoseSocket.CRoseSocket.defs)
  have q0: "client_sends.queued sample_keys [] sample_socket" using q by (simp add: client_sends.queued_def)
  obtain s1 where s1: "send_step (client_callbacks sample_keys) (Submit sample_buffer) sample_socket = Some s1"
      "client_sends.queued sample_keys [sample_buffer] s1"
    using client_sends.send_step_queued [OF q0, of "Submit sample_buffer"] w by auto
  obtain s' where s': "send_step (client_callbacks sample_keys) (Submit sample_buffer) s1 = Some s'"
    using client_sends.send_step_queued [OF s1(2), of "Submit sample_buffer"] w by auto
  have run: "send_run (client_callbacks sample_keys) [Submit sample_buffer, Submit sample_buffer] sample_socket = Some s'"
    using s1(1) s' by simp
  with socket_send_fifo [OF q _ run] w show ?thesis by auto
qed

text \<open>The inter-server framing loses packets of 256 bytes and more: the length of a header is taken
  from its low byte. The header below announces 0x106 bytes; after its six bytes alone have arrived,
  \<open>OnReceived\<close> queues a packet of 0x106 bytes, 256 of which were never received.\<close>

theorem isc_long_packet_misframed:
  assumes "m_packet_size s = 6" and "length (m_net_buffer s) = MAX_PACKET_SIZE"
    and "take 6 (m_net_buffer s) = [6, 1, 3, 3, 0, 0]"
  shows "\<exists>s'. CRoseISC_OnReceived s = Some (True, s')
    \<and> m_recv_queue s' = m_recv_queue s @ [[6, 1, 3, 3, 0, 0] @ take 256 (drop 6 (m_net_buffer s))]"
proof -
  obtain r where b: "m_net_buffer s = [6, 1, 3, 3, 0, 0] @ r"
    using assms(3) by (metis append_take_drop_id)
  have "unat (packet_size (m_net_buffer s)) = 262" by (simp add: b packet_size_def)
  then show ?thesis
    using assms(1,2)
    by (simp add: CRoseISC_OnReceived_def receive_packet_def receive_body_def Let_def b
        reset_internal_buffer_def MAX_PACKET_SIZE_def)
qed

theorem isc_long_packet_misframed_witness:
  "\<exists>s'. CRoseISC_OnReceived (sample_socket\<lparr>m_net_buffer := [6, 1, 3, 3, 0, 0] @ replicate 2041 0\<rparr>) = Some (True, s')
    \<and> m_recv_queue s' = [[6, 1, 3, 3, 0, 0] @ replicate 256 0]"
  using isc_long_packet_misframed [of "sample_socket\<lparr>m_net_buffer := [6, 1, 3, 3, 0, 0] @ replicate 2041 0\<rparr>"]
    sample_socket_waiting by (simp add: waiting_def MAX_PACKET_SIZE_def)

text \<open>A packet whose identifier the handler does not know ends the connection: the dispatched task
  takes it from the queue, and the socket is closed without sending anything.\<close>

theorem unknown_packet_disconnects:
  assumes "m_active s" and "m_recv_queue s = buf # rest"
    and "packet_type buf \<notin> {PAKCS_ALIVE, PAKCS_ACCEPT_REQ, PAKCS_SCREEN_SHOT_TIME_REQ}"
  shows "\<exists>s'. run_task (client_callbacks rt) (CRoseSocket_HandlePacket (client_callbacks rt) now garbage g) s = Some s'
    \<and> \<not> m_active s' \<and> \<not> m_socket_open s' \<and> m_recv_queue s' = rest \<and> m_written s' = m_written s
    \<and> m_send_queue s' = m_send_queue s"
  using assms
  by (simp add: run_task_def CRoseSocket_HandlePacket_def Let_def shutdown_def disconnect_def
      client_callbacks_def initCallbacks_def)

theorem unknown_packet_disconnects_witness:
  "\<exists>s'. run_task (client_callbacks sample_keys) (CRoseSocket_HandlePacket (client_callbacks sample_keys) 0
       \<lparr>m_year = 0, m_month = 0, m_day = 0, m_hour = 0, m_min = 0\<rparr> [])
     (sample_socket\<lparr>m_recv_queue := [sample_buffer]\<rparr>) = Some s' \<and> \<not> m_active s'"
  using unknown_packet_disconnects [of "sample_socket\<lparr>m_recv_queue := [sample_buffer]\<rparr>" sample_buffer "[]"
      sample_keys 0 "\<lparr>m_year = 0, m_month = 0, m_day = 0, m_hour = 0, m_min = 0\<rparr>" "[]"] sample_socket_waiting
  by (auto simp: waiting_def packet_type_def sample_buffer_def PAKCS_ALIVE_def PAKCS_ACCEPT_REQ_def
      PAKCS_SCREEN_SHOT_TIME_REQ_def)

end
