(* ===== verification/CRoseServer.thy ===== *)
theory CRoseServer
  imports CRoseSocket
begin

text \<open>
  The server of \<open>rosecommon/src/croseserver.cpp\<close> and the accepting side of the login, char and map
  servers: the lists of clients and of peer servers, the housekeeping pass of the process thread,
  \<open>OnAccepted\<close> and \<open>SendPacket\<close>. A list element is the object together with its address, which is what
  \<open>SendPacket\<close> compares with the sender.
\<close>

section \<open>State\<close>

record 'c CRoseServer =
  m_isc_server :: bool
  m_client_list :: "(nat \<times> 'c) list"
  m_isc_list :: "(nat \<times> 'c) list"

text \<open>The three servers count the connections they accepted.\<close>

record 'c counting_server = "'c CRoseServer" +
  m_client_count :: u32
  m_server_count :: u32

datatype eSendType = EVERYONE | EVERYONE_BUT_ME | EVERYONE_BUT_ME_ON_MAP | NEARBY | NEARBY_BUT_ME

section \<open>The process thread\<close>

text \<open>One iteration of the loop of the process thread: drop the inactive connections, then shut down
  those silent for more than two minutes. They are dropped by the next iteration.\<close>

definition reap :: "'a CRoseSocket_scheme callbacks \<Rightarrow> int \<Rightarrow> (nat \<times> 'a CRoseSocket_scheme) list
    \<Rightarrow> (nat \<times> 'a CRoseSocket_scheme) list" where
  "reap cb now clients =
    map (\<lambda>(ptr, c). (ptr, if now - m_update_time c > 1000 * 60 * 2 then snd (shutdown cb False c) else c))
      (filter (\<lambda>(ptr, c). m_active c) clients)"

definition process_thread :: "'a CRoseSocket_scheme callbacks \<Rightarrow> int
    \<Rightarrow> ('a CRoseSocket_scheme, 'b) CRoseServer_scheme \<Rightarrow> ('a CRoseSocket_scheme, 'b) CRoseServer_scheme" where
  "process_thread cb now srv =
    (if \<not> m_isc_server srv then srv\<lparr>m_client_list := reap cb now (m_client_list srv)\<rparr>
     else srv\<lparr>m_isc_list := reap cb now (m_isc_list srv)\<rparr>)"

text \<open>The destructor shuts everything down for good.\<close>

definition CRoseServer_destroy :: "'a CRoseSocket_scheme callbacks
    \<Rightarrow> ('a CRoseSocket_scheme, 'b) CRoseServer_scheme
    \<Rightarrow> 'a CRoseSocket_scheme list \<times> ('a CRoseSocket_scheme, 'b) CRoseServer_scheme" where
  "CRoseServer_destroy cb srv =
    (if \<not> m_isc_server srv
     then (map (\<lambda>(ptr, c). snd (shutdown cb True c)) (m_client_list srv), srv\<lparr>m_client_list := []\<rparr>)
     else (map (\<lambda>(ptr, c). snd (shutdown cb True c)) (m_isc_list srv), srv\<lparr>m_isc_list := []\<rparr>))"

section \<open>Accepting connections\<close>

text \<open>The base class numbers a connection by the length of the list; \<open>mk\<close> is the constructor of the
  client or of the peer server.\<close>

definition CRoseServer_OnAccepted :: "'a CRoseSocket_scheme callbacks \<Rightarrow> (CNetwork_Asio \<Rightarrow> 'a CRoseSocket_scheme)
    \<Rightarrow> nat \<Rightarrow> CNetwork_Asio \<Rightarrow> ('a CRoseSocket_scheme, 'b) CRoseServer_scheme
    \<Rightarrow> ('a CRoseSocket_scheme, 'b) CRoseServer_scheme option" where
  "CRoseServer_OnAccepted cb mk ptr sock srv =
    (if \<not> m_isc_server srv then
       (case recv_data cb (set_id (of_nat (length (m_client_list srv))) (mk sock)) of
          None \<Rightarrow> None
        | Some c \<Rightarrow> Some (srv\<lparr>m_client_list := (ptr, c) # m_client_list srv\<rparr>))
     else
       (case recv_data cb (set_id (of_nat (length (m_isc_list srv))) (mk sock)) of
          None \<Rightarrow> None
        | Some c \<Rightarrow> Some (srv\<lparr>m_isc_list := (ptr, c) # m_isc_list srv\<rparr>)))"

definition start_client :: "'a CRoseSocket_scheme callbacks \<Rightarrow> u32 \<Rightarrow> int \<Rightarrow> 'a CRoseSocket_scheme
    \<Rightarrow> 'a CRoseSocket_scheme option" where
  "start_client cb num now c = recv_data cb (set_active True (set_update_time now (set_id num c)))"

text \<open>\<open>OnAccepted\<close> of the login and char servers (post-increment), and of the map server, which
  numbers its clients with a pre-increment.\<close>

definition CLoginServer_OnAccepted :: "'a CRoseSocket_scheme callbacks \<Rightarrow> (CNetwork_Asio \<Rightarrow> 'a CRoseSocket_scheme)
    \<Rightarrow> nat \<Rightarrow> int \<Rightarrow> CNetwork_Asio \<Rightarrow> ('a CRoseSocket_scheme, 'b) counting_server_scheme
    \<Rightarrow> ('a CRoseSocket_scheme, 'b) counting_server_scheme option" where
  "CLoginServer_OnAccepted cb mk ptr now sock srv =
    (if \<not> m_isc_server srv then
       (case start_client cb (m_client_count srv) now (mk sock) of
          None \<Rightarrow> None
        | Some c \<Rightarrow> Some (srv\<lparr>m_client_count := m_client_count srv + 1,
                             m_client_list := (ptr, c) # m_client_list srv\<rparr>))
     else
       (case start_client cb (m_server_count srv) now (mk sock) of
          None \<Rightarrow> None
        | Some c \<Rightarrow> Some (srv\<lparr>m_server_count := m_server_count srv + 1,
                             m_isc_list := (ptr, c) # m_isc_list srv\<rparr>)))"

definition CCharServer_OnAccepted :: "'a CRoseSocket_scheme callbacks \<Rightarrow> (CNetwork_Asio \<Rightarrow> 'a CRoseSocket_scheme)
    \<Rightarrow> nat \<Rightarrow> int \<Rightarrow> CNetwork_Asio \<Rightarrow> ('a CRoseSocket_scheme, 'b) counting_server_scheme
    \<Rightarrow> ('a CRoseSocket_scheme, 'b) counting_server_scheme option" where
  "CCharServer_OnAccepted = CLoginServer_OnAccepted"

definition CMapServer_OnAccepted :: "'a CRoseSocket_scheme callbacks \<Rightarrow> (CNetwork_Asio \<Rightarrow> 'a CRoseSocket_scheme)
    \<Rightarrow> nat \<Rightarrow> int \<Rightarrow> CNetwork_Asio \<Rightarrow> ('a CRoseSocket_scheme, 'b) counting_server_scheme
    \<Rightarrow> ('a CRoseSocket_scheme, 'b) counting_server_scheme option" where
  "CMapServer_OnAccepted cb mk ptr now sock srv =
    (if \<not> m_isc_server srv then
       (case start_client cb (m_client_count srv + 1) now (mk sock) of
          None \<Rightarrow> None
        | Some c \<Rightarrow> Some (srv\<lparr>m_client_count := m_client_count srv + 1,
                             m_client_list := (ptr, c) # m_client_list srv\<rparr>))
     else
       (case start_client cb (m_server_count srv) now (mk sock) of
          None \<Rightarrow> None
        | Some c \<Rightarrow> Some (srv\<lparr>m_server_count := m_server_count srv + 1,
                             m_isc_list := (ptr, c) # m_isc_list srv\<rparr>)))"

section \<open>Broadcasting\<close>

text \<open>Who receives a packet; \<open>on_map\<close> is \<open>isOnMap(client->getEntity())\<close> and \<open>nearby\<close> is
  \<open>client->is_nearby(sender)\<close>.\<close>

fun receives_type :: "eSendType \<Rightarrow> nat \<Rightarrow> ('c \<Rightarrow> bool) \<Rightarrow> ('c \<Rightarrow> bool) \<Rightarrow> nat \<times> 'c \<Rightarrow> bool" where
  "receives_type EVERYONE me on_map nearby (ptr, c) = True"
| "receives_type EVERYONE_BUT_ME me on_map nearby (ptr, c) = (ptr \<noteq> me)"
| "receives_type EVERYONE_BUT_ME_ON_MAP me on_map nearby (ptr, c) = (ptr \<noteq> me \<and> on_map c)"
| "receives_type NEARBY me on_map nearby (ptr, c) = (on_map c \<and> nearby c)"
| "receives_type NEARBY_BUT_ME me on_map nearby (ptr, c) = (on_map c \<and> ptr \<noteq> me \<and> nearby c)"

text \<open>The loop sends the same packet object to each receiver, so \<open>getPacked\<close> runs on it each time.\<close>

fun send_each :: "'a CRoseSocket_scheme callbacks \<Rightarrow> (nat \<times> 'a CRoseSocket_scheme \<Rightarrow> bool)
    \<Rightarrow> (CRosePacket \<Rightarrow> CRosePacket) \<Rightarrow> CRosePacket \<Rightarrow> (nat \<times> 'a CRoseSocket_scheme) list
    \<Rightarrow> (CRosePacket \<times> (nat \<times> 'a CRoseSocket_scheme) list) option" where
  "send_each cb wants pack p [] = Some (p, [])"
| "send_each cb wants pack p ((ptr, c) # rest) =
    (if wants (ptr, c) then
       (let (buf, p') = getPacked pack p in
        case send_data cb buf c of
          None \<Rightarrow> None
        | Some c' \<Rightarrow>
            (case send_each cb wants pack p' rest of
               None \<Rightarrow> None
             | Some (q, rest') \<Rightarrow> Some (q, (ptr, c') # rest')))
     else
       (case send_each cb wants pack p rest of
          None \<Rightarrow> None
        | Some (q, rest') \<Rightarrow> Some (q, (ptr, c) # rest')))"

definition SendPacket :: "'a CRoseSocket_scheme callbacks \<Rightarrow> nat \<Rightarrow> eSendType \<Rightarrow> ('a CRoseSocket_scheme \<Rightarrow> bool)
    \<Rightarrow> ('a CRoseSocket_scheme \<Rightarrow> bool) \<Rightarrow> (CRosePacket \<Rightarrow> CRosePacket) \<Rightarrow> CRosePacket
    \<Rightarrow> ('a CRoseSocket_scheme, 'b) CRoseServer_scheme
    \<Rightarrow> (CRosePacket \<times> ('a CRoseSocket_scheme, 'b) CRoseServer_scheme) option" where
  "SendPacket cb me type on_map nearby pack p srv =
    (case send_each cb (receives_type type me on_map nearby) pack p (m_client_list srv) of
       None \<Rightarrow> None
     | Some (q, clients) \<Rightarrow> Some (q, srv\<lparr>m_client_list := clients\<rparr>))"

section \<open>Housekeeping\<close>

text \<open>A callback record whose shutdown path always agrees, as every class of the servers has it.\<close>

definition agreeing :: "'a CRoseSocket_scheme callbacks \<Rightarrow> bool" where
  "agreeing cb \<longleftrightarrow> (\<forall>s. fst (OnShutdown cb s)) \<and> (\<forall>s. fst (OnDisconnect cb s))
     \<and> (\<forall>s. m_network_id (snd (OnShutdown cb s)) = m_network_id s)
     \<and> (\<forall>s. m_network_id (snd (OnDisconnect cb s)) = m_network_id s)
     \<and> (\<forall>s. m_network_id (OnDisconnected cb s) = m_network_id s)"

lemma shutdown_agreeing:
  assumes "agreeing cb"
  shows "\<not> m_active (snd (shutdown cb f s)) \<and> m_network_id (snd (shutdown cb f s)) = m_network_id s"
  using assms by (auto simp: shutdown_def disconnect_def agreeing_def Let_def split: prod.splits)
    (metis fst_conv snd_conv)+

lemma client_callbacks_agreeing: "agreeing (client_callbacks rt)"
  by (simp add: agreeing_def client_callbacks_def initCallbacks_def)

definition ids :: "(nat \<times> 'a CRoseSocket_scheme) list \<Rightarrow> u32 list" where
  "ids clients = map (\<lambda>(ptr, c). m_network_id c) clients"

lemma ids_reap:
  "agreeing cb \<Longrightarrow> ids (reap cb now clients) = ids (filter (\<lambda>(ptr, c). m_active c) clients)"
  by (induction clients) (auto simp: ids_def reap_def shutdown_agreeing)

lemma reap_iff:
  "(ptr, c1) \<in> set (reap cb now clients) \<longleftrightarrow>
    (\<exists>c. (ptr, c) \<in> set clients \<and> m_active c
      \<and> c1 = (if now - m_update_time c > 120000 then snd (shutdown cb False c) else c))"
  by (auto simp: reap_def image_iff)

lemma reap_twice:
  assumes "agreeing cb" and d: "distinct (map fst clients)" "(ptr, c) \<in> set clients"
    and t: "now - m_update_time c > 120000"
  shows "ptr \<notin> fst ` set (reap cb later (reap cb now clients))"
proof
  assume "ptr \<in> fst ` set (reap cb later (reap cb now clients))"
  then obtain c1 where c1: "(ptr, c1) \<in> set (reap cb now clients)" "m_active c1"
    using reap_iff [of ptr _ cb later] by fastforce
  then obtain c0 where c0: "(ptr, c0) \<in> set clients"
    "c1 = (if now - m_update_time c0 > 120000 then snd (shutdown cb False c0) else c0)"
    using reap_iff [of ptr c1 cb now] by blast
  then have "c0 = c" using d by (metis eq_key_imp_eq_value)
  then show False using c0(2) t c1(2) shutdown_agreeing [OF assms(1)] by simp
qed

text \<open>C38. The housekeeping pass keeps every connection that is active and was heard of in the last two
  minutes as it is, and a connection that was silent for longer is gone after two passes.\<close>

theorem reap_keeps_live_drops_silent:
  assumes "distinct (map fst clients)" and "(ptr, c) \<in> set clients" and "m_active c"
  shows "if now - m_update_time c \<le> 120000 then (ptr, c) \<in> set (reap (client_callbacks rt) now clients)
    else ptr \<notin> fst ` set (reap (client_callbacks rt) later (reap (client_callbacks rt) now clients))"
  using assms reap_twice [OF client_callbacks_agreeing assms(1,2)]
  by (force simp: reap_iff)

theorem reap_keeps_live_drops_silent_witness:
  "(0, sample_socket) \<in> set (reap (client_callbacks sample_keys) 120000 [(0, sample_socket)])
   \<and> 0 \<notin> fst ` set (reap (client_callbacks sample_keys) 120050 (reap (client_callbacks sample_keys) 120001 [(0, sample_socket)]))"
proof -
  have "m_active sample_socket" using sample_socket_waiting by (simp add: waiting_def)
  moreover have "m_update_time sample_socket = 0"
    by (simp add: sample_socket_def CRoseClient_new_def CRoseSocket_new_def set_active_def
      reset_internal_buffer_def CNetwork_Asio_new_def CNetwork_Asio.CNetwork_Asio.defs CRoseSocket.CRoseSocket.defs)
  ultimately show ?thesis
    using reap_keeps_live_drops_silent [of "[(0, sample_socket)]" 0 sample_socket 120000 sample_keys 0]
      reap_keeps_live_drops_silent [of "[(0, sample_socket)]" 0 sample_socket 120001 sample_keys 120050]
    by simp
qed

section \<open>Connection numbers\<close>

datatype server_event = Accepted nat int CNetwork_Asio | Pass int

text \<open>The servers' lists over time: connections are accepted and housekeeping passes run, in any order.\<close>

fun server_run :: "'a CRoseSocket_scheme callbacks \<Rightarrow> (CNetwork_Asio \<Rightarrow> 'a CRoseSocket_scheme) \<Rightarrow> server_event list
    \<Rightarrow> ('a CRoseSocket_scheme, 'b) counting_server_scheme
    \<Rightarrow> ('a CRoseSocket_scheme, 'b) counting_server_scheme option" where
  "server_run cb mk [] srv = Some srv"
| "server_run cb mk (Accepted ptr now sock # es) srv =
    (case CLoginServer_OnAccepted cb mk ptr now sock srv of
       None \<Rightarrow> None | Some srv' \<Rightarrow> server_run cb mk es srv')"
| "server_run cb mk (Pass now # es) srv = server_run cb mk es (process_thread cb now srv)"

definition numbered :: "('a CRoseSocket_scheme, 'b) counting_server_scheme \<Rightarrow> bool" where
  "numbered srv \<longleftrightarrow> \<not> m_isc_server srv \<and> distinct (ids (m_client_list srv))
     \<and> (\<forall>i \<in> set (ids (m_client_list srv)). i < m_client_count srv)"

lemma start_client_id:
  "OnReceive cb = Pair True \<Longrightarrow> start_client cb num now c = Some c' \<Longrightarrow> m_network_id c' = num"
  by (auto simp: start_client_def recv_data_def set_active_def set_update_time_def set_id_def split: if_splits)

lemma accepted_numbered:
  assumes "numbered srv" and "OnReceive cb = Pair True" and "m_client_count srv + 1 \<noteq> 0"
    and "CLoginServer_OnAccepted cb mk ptr now sock srv = Some srv'"
  shows "numbered srv' \<and> m_client_count srv' = m_client_count srv + 1"
proof -
  obtain c where c: "start_client cb (m_client_count srv) now (mk sock) = Some c"
    and srv': "srv' = srv\<lparr>m_client_count := m_client_count srv + 1, m_client_list := (ptr, c) # m_client_list srv\<rparr>"
    using assms(1,4) by (auto simp: CLoginServer_OnAccepted_def numbered_def split: option.splits)
  have less: "x < m_client_count srv + 1 \<longleftrightarrow> x \<le> m_client_count srv" for x
    using assms(3) unatSuc [of "m_client_count srv"]
    by (simp add: word_less_nat_alt word_le_nat_alt add.commute less_Suc_eq_le)
  show ?thesis
    using assms(1) start_client_id [OF assms(2) c] by (auto simp: srv' numbered_def ids_def less)
qed

lemma process_thread_numbered:
  assumes "numbered srv" and "agreeing cb"
  shows "numbered (process_thread cb now srv)"
proof -
  let ?f = "filter (\<lambda>(ptr, c). m_active c) (m_client_list srv)"
  have "set (ids ?f) \<subseteq> set (ids (m_client_list srv))" by (auto simp: ids_def)
  moreover have "distinct (ids ?f)"
    using assms(1) by (simp add: numbered_def ids_def distinct_map_filter)
  ultimately show ?thesis
    using assms by (auto simp: numbered_def process_thread_def ids_reap)
qed

fun accepts :: "server_event list \<Rightarrow> nat" where
  "accepts [] = 0"
| "accepts (Accepted ptr now sock # es) = Suc (accepts es)"
| "accepts (Pass now # es) = accepts es"

lemma server_run_numbered:
  assumes "server_run cb mk es srv = Some srv'" and "numbered srv" and "agreeing cb" and "OnReceive cb = Pair True"
    and "unat (m_client_count srv) + accepts es < 2 ^ 32"
  shows "numbered srv'"
  using assms
proof (induction es arbitrary: srv rule: accepts.induct)
  case 1
  then show ?case by simp
next
  case (2 ptr now sock es)
  then obtain srv1 where s1: "CLoginServer_OnAccepted cb mk ptr now sock srv = Some srv1"
      "server_run cb mk es srv1 = Some srv'"
    by (auto split: option.splits)
  have nz: "m_client_count srv + 1 \<noteq> 0"
  proof
    assume "m_client_count srv + 1 = 0"
    then have "m_client_count srv = - 1" by (simp add: add_eq_0_iff2)
    then have "unat (m_client_count srv) = 2 ^ 32 - 1"
      by (simp add: unsigned_minus_1_eq_mask mask_eq_exp_minus_1)
    then show False using 2 by simp
  qed
  have n1: "numbered srv1" "m_client_count srv1 = m_client_count srv + 1"
    using accepted_numbered [OF "2.prems"(2,4) nz s1(1)] by auto
  have "unat (m_client_count srv1) = Suc (unat (m_client_count srv))"
    using nz n1(2) unatSuc [of "m_client_count srv"] by (simp add: add.commute)
  then show ?case using 2 s1(2) n1(1) by simp
next
  case (3 now es)
  have "m_client_count (process_thread cb now srv) = m_client_count srv"
    by (simp add: process_thread_def)
  then show ?case
    using "3.IH" [of "process_thread cb now srv"] "3.prems" process_thread_numbered [OF "3.prems"(2,3)] by simp
qed

text \<open>The login and char servers number their clients uniquely: over any sequence of connections and
  housekeeping passes with fewer than 2^32 connections, no two clients of the list have the same number.\<close>

theorem accepted_ids_distinct:
  assumes "\<not> m_isc_server srv" and "m_client_list srv = []" and "m_client_count srv = 0" and "accepts es < 2 ^ 32"
    and "server_run (client_callbacks rt) mk es srv = Some srv'"
  shows "distinct (ids (m_client_list srv'))"
proof -
  have "numbered srv" using assms by (simp add: numbered_def ids_def)
  from server_run_numbered [OF assms(5) this client_callbacks_agreeing] assms(3,4) show ?thesis
    by (simp add: numbered_def client_callbacks_def initCallbacks_def)
qed

definition sample_server :: "CRoseSocket counting_server" where
  "sample_server = \<lparr>m_isc_server = False, m_client_list = [], m_isc_list = [], m_client_count = 0, m_server_count = 0\<rparr>"

lemma recv_data_new:
  "length g = MAX_PACKET_SIZE \<Longrightarrow>
    recv_data (client_callbacks rt) ((CRoseClient_new (CNetwork_Asio_new g t))\<lparr>m_network_id := i, m_update_time := u, m_active := a\<rparr>)
      = Some ((CRoseClient_new (CNetwork_Asio_new g t))\<lparr>m_network_id := i, m_update_time := u, m_active := a, m_reading := Some 6\<rparr>)"
  by (subst client_frames.recv_data_start [where a = 0 and n = 6])
     (simp_all add: CRoseClient_new_def CRoseSocket_new_def set_active_def reset_internal_buffer_def
       CNetwork_Asio_new_def CNetwork_Asio.CNetwork_Asio.defs CRoseSocket.CRoseSocket.defs MAX_PACKET_SIZE_def)

theorem accepted_ids_distinct_witness:
  "\<exists>srv'. server_run (client_callbacks sample_keys) CRoseClient_new
      [Accepted 1 0 (CNetwork_Asio_new (replicate 2047 0) 0), Pass 10,
       Accepted 2 20 (CNetwork_Asio_new (replicate 2047 0) 0)] sample_server = Some srv'
    \<and> length (m_client_list srv') = 2 \<and> distinct (ids (m_client_list srv'))"
proof -
  let ?es = "[Accepted 1 0 (CNetwork_Asio_new (replicate 2047 0) 0), Pass 10,
       Accepted 2 20 (CNetwork_Asio_new (replicate 2047 0) 0)]"
  let ?run = "server_run (client_callbacks sample_keys) CRoseClient_new ?es sample_server"
  have "\<exists>srv'. ?run = Some srv' \<and> length (m_client_list srv') = 2"
    using recv_data_new [of "replicate 2047 0" sample_keys, where t = 0]
    by (simp add: sample_server_def CLoginServer_OnAccepted_def start_client_def set_active_def
        set_update_time_def set_id_def process_thread_def reap_def MAX_PACKET_SIZE_def)
  then obtain srv' where run: "?run = Some srv'" and len: "length (m_client_list srv') = 2" by blast
  have "distinct (ids (m_client_list srv'))"
    by (rule accepted_ids_distinct [OF _ _ _ _ run]) (simp_all add: sample_server_def)
  with run len show ?thesis by blast
qed

text \<open>The base class does not: it numbers a connection by the length of the list, so after a client
  left, the next one gets the number of a client that is still connected.\<close>

theorem base_ids_collide:
  "\<exists>srv'. CRoseServer_OnAccepted (client_callbacks rt) CRoseClient_new 3 (CNetwork_Asio_new (replicate 2047 0) 0)
      (process_thread (client_callbacks rt) 0 (sample_server\<lparr>m_client_list :=
        [(2, set_id 1 sample_socket), (1, set_active False (set_id 0 sample_socket))]\<rparr>)) = Some srv'
    \<and> ids (m_client_list srv') = [1, 1]"
proof -
  let ?new = "CRoseClient_new (CNetwork_Asio_new (replicate 2047 0) 0)"
  have new: "?new\<lparr>m_network_id := 1\<rparr> = ?new\<lparr>m_network_id := 1, m_update_time := 0, m_active := True\<rparr>"
    by (simp add: CRoseClient_new_def CRoseSocket_new_def set_active_def reset_internal_buffer_def
       CNetwork_Asio_new_def CNetwork_Asio.CNetwork_Asio.defs CRoseSocket.CRoseSocket.defs)
  have rd: "recv_data (client_callbacks rt) (?new\<lparr>m_network_id := 1\<rparr>)
      = Some (?new\<lparr>m_network_id := 1, m_update_time := 0, m_active := True, m_reading := Some 6\<rparr>)"
    by (subst new, rule recv_data_new) (simp add: MAX_PACKET_SIZE_def)
  have "m_active sample_socket" "m_update_time sample_socket = 0"
    by (simp_all add: sample_socket_def CRoseClient_new_def CRoseSocket_new_def set_active_def
      reset_internal_buffer_def CNetwork_Asio_new_def CNetwork_Asio.CNetwork_Asio.defs CRoseSocket.CRoseSocket.defs)
  then show ?thesis
    using rd by (simp add: CRoseServer_OnAccepted_def process_thread_def reap_def sample_server_def set_id_def
        set_active_def ids_def)
qed

section \<open>Broadcast\<close>

text \<open>\<open>SendPacket\<close> sends one packet object to every receiver, and each send packs it again: the first
  receiver gets the packet, the second one gets a packet with the body twice.\<close>

theorem SendPacket_repeats_body:
  assumes "emits pack bs" and "length g = MAX_PACKET_SIZE" and "6 + 2 * length bs < MAX_PACKET_SIZE"
    and "m_client_list srv = [(a, c1), (b, c2)]"
    and "idle c1" and "idle c2"
  shows "\<exists>q srv' c1' c2'. SendPacket (client_callbacks rt) me EVERYONE on_map nearby pack (CRosePacket_new ty 0 g) srv
      = Some (q, srv') \<and> m_client_list srv' = [(a, c1'), (b, c2')]
    \<and> m_written c1' = m_written c1 @ [the (encodeServerPacket rt (header_bytes (length bs) ty 0 @ bs))]
    \<and> m_written c2' = m_written c2 @ [the (encodeServerPacket rt (header_bytes (2 * length bs) ty 0 @ bs @ bs))]"
proof -
  let ?b1 = "header_bytes (length bs) ty 0 @ bs" and ?b2 = "header_bytes (length (bs @ bs)) ty 0 @ bs @ bs"
  have p1: "getPacked pack (CRosePacket_new ty 0 g) = (?b1, pkt_of ty 0 bs g)"
    using getPacked_pkt_of [OF assms(1,2), of "[]" ty 0] assms(2,3) by (simp add: CRosePacket_new_eq)
  have p2: "getPacked pack (pkt_of ty 0 bs g) = (?b2, pkt_of ty 0 (bs @ bs) g)"
    using getPacked_pkt_of [OF assms(1,2), of bs ty 0] assms(3) by simp
  have "wire_buffer ?b1" "wire_buffer ?b2"
    using assms(3) by (intro wire_buffer_header, simp)+
  then show ?thesis
    using assms(4) p1 p2 send_data_idle [OF _ assms(5), of ?b1 "client_callbacks rt" rt]
      send_data_idle [OF _ assms(6), of ?b2 "client_callbacks rt" rt]
    by (auto simp: SendPacket_def mult_2 writing_def client_callbacks_def)
qed

theorem SendPacket_repeats_body_witness:
  "\<exists>q srv' c1' c2'. SendPacket (client_callbacks sample_keys) 0 EVERYONE (\<lambda>_. True) (\<lambda>_. True)
       (SrvLogoutReply_pack \<lparr>m_waitTime = 7\<rparr>) (CRosePacket_new PAKWC_LOGOUT_REPLY 0 (replicate 2047 0))
       (sample_server\<lparr>m_client_list := [(1, sample_socket), (2, sample_socket)]\<rparr>) = Some (q, srv')
    \<and> m_client_list srv' = [(1, c1'), (2, c2')]
    \<and> m_written c2' = m_written sample_socket @ [the (encodeServerPacket sample_keys
        (header_bytes 4 PAKWC_LOGOUT_REPLY 0 @ [7, 0, 7, 0]))]"
proof -
  have s: "idle sample_socket"
    by (simp add: idle_def sample_socket_def CRoseClient_new_def CRoseSocket_new_def set_active_def
      reset_internal_buffer_def CNetwork_Asio_new_def CNetwork_Asio.CNetwork_Asio.defs CRoseSocket.CRoseSocket.defs)
  have w: "le_bytes 2 (7 :: u16) = [7, 0]"
    using le_bytes_le_word [of "[7, 0]" 2, where 'a = 16] by simp
  have e: "emits (SrvLogoutReply_pack \<lparr>m_waitTime = 7\<rparr>) [7, 0]"
    using SrvLogoutReply.emits_pack [of "\<lparr>m_waitTime = 7\<rparr>"] by (simp add: SrvLogoutReply_wire_def w)
  show ?thesis
    using SendPacket_repeats_body [OF e, of "replicate 2047 0" "sample_server\<lparr>m_client_list := [(1, sample_socket), (2, sample_socket)]\<rparr>"
        1 sample_socket 2 sample_socket sample_keys 0 "\<lambda>_. True" "\<lambda>_. True" PAKWC_LOGOUT_REPLY] s
    by (auto simp: MAX_PACKET_SIZE_def numeral_eq_Suc)
qed

end
