(* ===== verification/Connection.thy ===== *)
theory Connection
  imports Prelude
begin

text \<open>
  The escaping of user input of \<open>core/src/connection.cpp\<close>, through which user names, password hashes
  and character names pass before they are put between quotes in SQL text. \<open>in_literal\<close> is the rule of
  the SQL string literal: a backslash takes the next character with it, a quote of the delimiter's kind
  ends the literal.
\<close>

section \<open>Definitions\<close>

text \<open>\<open>replaceAll\<close>: the search resumes behind the inserted text, and the result says whether anything
  was replaced. An empty \<open>pat\<close> would match forever; the code never passes one.\<close>

function replaceAll :: "cstring \<Rightarrow> cstring \<Rightarrow> cstring \<Rightarrow> bool \<times> cstring" where
  "replaceAll pat to s =
    (if pat = [] \<or> s = [] then (False, s)
     else if take (length pat) s = pat then (True, to @ snd (replaceAll pat to (drop (length pat) s)))
     else let (f, r) = replaceAll pat to (tl s) in (f, hd s # r))"
  by pat_completeness auto
termination
  by (relation "measure (\<lambda>(pat, to, s). length s)") auto

declare replaceAll.simps [simp del]

abbreviation quote :: byte where "quote \<equiv> 0x27"
abbreviation dquote :: byte where "dquote \<equiv> 0x22"
abbreviation backslash :: byte where "backslash \<equiv> 0x5C"
abbreviation percent :: byte where "percent \<equiv> 0x25"
abbreviation underscore :: byte where "underscore \<equiv> 0x5F"
abbreviation semicolon :: byte where "semicolon \<equiv> 0x3B"

definition escapeData :: "cstring \<Rightarrow> cstring" where
  "escapeData data =
    (let r1 = snd (replaceAll [quote] [backslash, quote] data);
         r2 = snd (replaceAll [dquote] [backslash, dquote] r1);
         r3 = snd (replaceAll [percent] [backslash, percent] r2);
         r4 = snd (replaceAll [underscore] [backslash, underscore] r3)
     in snd (replaceAll [semicolon] [] r4))"

text \<open>Does text put between two delimiters stay inside the literal?\<close>

fun in_literal :: "byte \<Rightarrow> cstring \<Rightarrow> bool" where
  "in_literal delim [] = True"
| "in_literal delim [c] = (c \<noteq> delim \<and> c \<noteq> backslash)"
| "in_literal delim (c # d # s) =
    (if c = backslash then in_literal delim s else c \<noteq> delim \<and> in_literal delim (d # s))"

section \<open>Escaping character by character\<close>

lemma replaceAll_one:
  "snd (replaceAll [c] to s) = concat (map (\<lambda>x. if x = c then to else [x]) s)"
proof (induction s)
  case Nil
  then show ?case by (simp add: replaceAll.simps)
next
  case (Cons x s)
  then show ?case by (subst replaceAll.simps) (auto simp: Let_def split: prod.splits)
qed

definition escape_char :: "byte \<Rightarrow> cstring" where
  "escape_char c =
    (if c = semicolon then []
     else if c \<in> {quote, dquote, percent, underscore} then [backslash, c] else [c])"

lemma concat_map_concat_map: "concat (map f (concat (map g s))) = concat (map (\<lambda>x. concat (map f (g x))) s)"
  by (induction s) auto

lemma escapeData_chars: "escapeData data = concat (map escape_char data)"
  unfolding escapeData_def Let_def replaceAll_one concat_map_concat_map
  by (intro arg_cong [of _ _ concat] map_cong refl) (auto simp: escape_char_def)

lemma in_literal_escape_char:
  "c \<noteq> backslash \<Longrightarrow> delim \<in> {quote, dquote} \<Longrightarrow> in_literal delim (escape_char c @ s) = in_literal delim s"
  by (cases s) (auto simp: escape_char_def)

text \<open>C39. Escaped text that holds no backslash cannot leave the quotes it is put in, with either kind of
  quote; and a backslash in front of a quote can, since backslashes themselves are not escaped.\<close>

theorem escapeData_quotes:
  "(backslash \<notin> set data \<longrightarrow> in_literal quote (escapeData data) \<and> in_literal dquote (escapeData data))
   \<and> \<not> in_literal quote (escapeData [backslash, quote])"
proof -
  have "in_literal delim (escapeData data)" if "backslash \<notin> set data" "delim \<in> {quote, dquote}" for delim
    using that
  proof (induction data)
    case Nil
    then show ?case by (simp add: escapeData_chars)
  next
    case (Cons c s)
    then have "in_literal delim (escape_char c @ escapeData s)" by (simp add: in_literal_escape_char)
    then show ?case by (simp add: escapeData_chars)
  qed
  moreover have "\<not> in_literal quote (escapeData [backslash, quote])"
    by (simp add: escapeData_chars escape_char_def)
  ultimately show ?thesis by blast
qed

theorem escapeData_quotes_witness:
  "in_literal quote (escapeData [0x61, quote, 0x62]) \<and> escapeData [0x61, quote, 0x62] = [0x61, backslash, quote, 0x62]"
  using escapeData_quotes [of "[0x61, quote, 0x62]"] by (simp add: escapeData_chars escape_char_def)

end
