(* ===== verification/ClientLife.thy ===== *)
theory ClientLife
  imports PacketFactory CRoseServer Connection
begin

text \<open>
  What the login, char and map servers have in common: the kinds of servers (\<open>isccommon.h\<close>), the states of
  a client, and the life of a connected client. The locale \<open>client_class\<close> is the contract of a class of
  clients: what the network does to it keeps its members, and its \<open>HandlePacket\<close> preserves an invariant.
  Then the invariant holds over every life of a client, in whatever order packets are handled, reads and
  writes complete and the connection is shut down.
\<close>

section \<open>Servers and states\<close>

datatype ServerType = LOGIN | CHAR_SERVER | NODE | MAP_MASTER | MAP_WORKER

fun server_type :: "ServerType \<Rightarrow> u8" where
  "server_type LOGIN = 0"
| "server_type CHAR_SERVER = 1"
| "server_type NODE = 2"
| "server_type MAP_MASTER = 3"
| "server_type MAP_WORKER = 4"

text \<open>\<open>get_type() == type\<close>: the stored 32 bit type is narrowed to the enumeration.\<close>

definition get_type :: "'a CNetwork_Asio_scheme \<Rightarrow> u8" where
  "get_type s = ucast (m_network_type s)"

datatype eSTATE = DEFAULT | LOGGEDIN | TRANSFERING

section \<open>The life of a client\<close>

text \<open>\<open>e\<close> is the environment of a step: the answers of the database, the time, the other servers. \<open>call\<close> is what
  other parts of the server may do to the client.\<close>

inductive client_life :: "('e \<Rightarrow> 'a CRoseSocket_scheme callbacks)
    \<Rightarrow> ('e \<Rightarrow> byte list \<Rightarrow> 'a CRoseSocket_scheme \<Rightarrow> (bool \<times> 'a CRoseSocket_scheme) option)
    \<Rightarrow> ('e \<Rightarrow> 'a CRoseSocket_scheme \<Rightarrow> 'a CRoseSocket_scheme)
    \<Rightarrow> (CNetwork_Asio \<Rightarrow> 'a CRoseSocket_scheme) \<Rightarrow> 'a CRoseSocket_scheme \<Rightarrow> bool" for cb handle call new where
  connected: "start_client (cb e) num now (new sock) = Some s \<Longrightarrow> client_life cb handle call new s"
| handled: "client_life cb handle call new s \<Longrightarrow> run_task (cb e) (handle e) s = Some s' \<Longrightarrow> client_life cb handle call new s'"
| read: "client_life cb handle call new s \<Longrightarrow> read_done (cb e) now bs err s = Some s' \<Longrightarrow> client_life cb handle call new s'"
| written: "client_life cb handle call new s \<Longrightarrow> write_done (cb e) now err s = Some s' \<Longrightarrow> client_life cb handle call new s'"
| closed: "client_life cb handle call new s \<Longrightarrow> client_life cb handle call new (snd (shutdown (cb e) f s))"
| called: "client_life cb handle call new s \<Longrightarrow> client_life cb handle call new (call e s)"

lemma receives_life:
  "receives (cb e) s bs s1 \<Longrightarrow> client_life cb handle call new s \<Longrightarrow> client_life cb handle call new s1"
  by (induction rule: receives.induct) (auto intro: client_life.read)

locale client_class =
  fixes cb :: "'e \<Rightarrow> 'a CRoseSocket_scheme callbacks"
    and handle :: "'e \<Rightarrow> byte list \<Rightarrow> 'a CRoseSocket_scheme \<Rightarrow> (bool \<times> 'a CRoseSocket_scheme) option"
    and call :: "'e \<Rightarrow> 'a CRoseSocket_scheme \<Rightarrow> 'a CRoseSocket_scheme"
    and new :: "CNetwork_Asio \<Rightarrow> 'a CRoseSocket_scheme"
    and keeps :: "'a CRoseSocket_scheme \<Rightarrow> 'a CRoseSocket_scheme \<Rightarrow> bool"
    and inv :: "'a CRoseSocket_scheme \<Rightarrow> bool"
  assumes owner: "owner (cb e) keeps"
    and inv_keeps: "keeps s t \<Longrightarrow> inv s \<Longrightarrow> inv t"
    and inv_new: "inv (new sock)"
    and inv_handle: "handle e b s = Some (ok, s') \<Longrightarrow> inv s \<Longrightarrow> inv s'"
    and inv_call: "inv s \<Longrightarrow> inv (call e s)"
begin

lemma inv_more:
  "CRoseSocket.CRoseSocket.more s = CRoseSocket.CRoseSocket.more t \<Longrightarrow> inv s \<Longrightarrow> inv t"
  by (rule inv_keeps [OF owner.keeps_more [OF owner]])

lemma inv_run_task:
  assumes "run_task (cb e) (handle e) s = Some s'" and "inv s"
  shows "inv s'"
proof -
  have step: "inv (s\<lparr>m_tasks := n\<rparr>)" "inv (s\<lparr>m_tasks := n, m_recv_queue := q\<rparr>)" for n q
    by (rule inv_more [OF _ assms(2)], simp)+
  show ?thesis
    using assms(1) step inv_handle [OF _ step(2)] inv_keeps [OF owner.keeps_shutdown [OF owner]]
    by (auto simp: run_task_def Let_def split: if_splits list.splits option.splits prod.splits)
qed

theorem life_inv: "client_life cb handle call new s \<Longrightarrow> inv s"
proof (induction rule: client_life.induct)
  case (connected e num now sock s)
  have "inv (set_active True (set_update_time now (set_id num (new sock))))"
    by (rule inv_more [OF _ inv_new [of sock]]) (simp add: set_active_def set_update_time_def set_id_def)
  then show ?case
    using connected inv_keeps owner.keeps_recv_data [OF owner] unfolding start_client_def by blast
next
  case (handled s e s')
  then show ?case using inv_run_task by blast
next
  case (read s e now bs err s')
  then show ?case using inv_keeps owner.keeps_read_done [OF owner] by blast
next
  case (written s e now err s')
  then show ?case using inv_keeps owner.keeps_write_done [OF owner] by blast
next
  case (closed s e f)
  then show ?case using inv_keeps owner.keeps_shutdown [OF owner] by blast
next
  case (called s e)
  then show ?case using inv_call by blast
qed

end

section \<open>A packet that arrives\<close>

lemma request_crypt:
  assumes "6 + length bs < MAX_PACKET_SIZE" and "unat ty < 2 ^ 11"
  shows "crypt_packet (header_bytes (length bs) ty 0 @ bs)"
  using assms wire_buffer_header [OF assms(1), of ty 0] packet_type_header [of "length bs" ty 0 bs]
  by (simp add: crypt_packet_def MAX_PACKET_SIZE_def header_bytes_def)

text \<open>What a busy client sends waits in the queue.\<close>

lemma send_packet_busy:
  assumes "m_discard_queue s \<noteq> []"
  shows "\<exists>q. send_packet cb ty pack g s = Some (s\<lparr>m_send_queue := m_send_queue s @ [q]\<rparr>)"
proof -
  let ?q = "fst (getPacked pack (CRosePacket_new ty 0 g))"
  have "send_packet cb ty pack g s = Some (s\<lparr>m_send_queue := m_send_queue s @ [?q]\<rparr>)"
    using assms by (cases "m_send_queue s @ [?q]") (simp_all add: send_packet_def send_data_def ProcessSend_def)
  then show ?thesis by blast
qed

text \<open>A connection whose packets are encrypted, whatever the codec: the bytes of an encrypted packet end up in the queue
  of received packets, and the task takes it from there to the handler.\<close>

locale packet_codec = framing cb dec_head dec_body encode crypt_packet
  for cb :: "'a CRoseSocket_scheme callbacks" and dec_head dec_body encode +
  assumes closing: "\<not> m_active (snd (shutdown cb False t))"
begin

lemma packet_arrives:
  assumes "waiting s" and "m_recv_queue s = []" and "crypt_packet (header_bytes (length bs) ty 0 @ bs)"
    and "receives cb s (encode (header_bytes (length bs) ty 0 @ bs)) s1"
  shows "only_received s s1 \<and> waiting s1 \<and> (\<exists>crc. m_recv_queue s1 = [header_bytes (length bs) ty crc @ bs])"
proof -
  let ?p = "header_bytes (length bs) ty 0 @ bs"
  have r: "receives cb s (concat (map encode [?p])) s1" using assms(4) by simp
  have ok: "list_all crypt_packet [?p]" using assms(3) by simp
  obtain qs where "m_recv_queue s1 = qs" "list_all2 same_packet [?p] qs" "waiting s1"
    using delivered [OF r assms(1) ok] assms(2) by auto
  moreover from this obtain q where "m_recv_queue s1 = [q]" "same_packet ?p q"
    by (auto simp: list_all2_Cons1)
  ultimately show ?thesis
    using same_packet_header receives_only [OF r assms(1) ok _ closing] by fastforce
qed

end

text \<open>Callbacks with the receiving side of \<open>CRoseClient\<close>.\<close>

locale client_codec =
  fixes cb :: "'a CRoseSocket_scheme callbacks" and rt :: "u32 list list"
  assumes codec_OnReceived: "OnReceived cb = receive_packet (decodeClientHeader rt) (decodeClientBody rt)"
    and codec_OnReceive: "OnReceive cb s = (True, s)"
    and codec_shutdown: "\<not> m_active (snd (shutdown cb False t))"

sublocale client_codec \<subseteq> packet_codec cb "decodeClientHeader rt" "decodeClientBody rt"
  "\<lambda>p. the (encodeClientPacket rt p)"
  by unfold_locales (simp_all add: codec_OnReceived codec_OnReceive client_frames.decodes_ok codec_shutdown)

context client_codec
begin

text \<open>One exchange in the life of a client: a request arrives and is handled.\<close>

lemma exchange:
  assumes "client_life CB handle call new s" and "CB e = cb" and "waiting s" and "m_recv_queue s = []"
    and "6 + length bs < MAX_PACKET_SIZE" and "unat ty < 2 ^ 11"
    and handled: "\<And>t crc. only_received s t \<Longrightarrow> waiting t \<Longrightarrow> m_recv_queue t = [] \<Longrightarrow>
      \<exists>t'. handle e (header_bytes (length bs) ty crc @ bs) t = Some (True, t') \<and> Q t'"
  shows "\<exists>s'. client_life CB handle call new s' \<and> Q s'"
proof -
  have p: "crypt_packet (header_bytes (length bs) ty 0 @ bs)" by (rule request_crypt [OF assms(5,6)])
  obtain s1 where r: "receives cb s (the (encodeClientPacket rt (header_bytes (length bs) ty 0 @ bs))) s1"
    using receives_one [OF assms(3) p] by blast
  then obtain crc where s1: "only_received s s1" "waiting s1" "m_recv_queue s1 = [header_bytes (length bs) ty crc @ bs]"
    using packet_arrives [OF assms(3,4) p] by blast
  let ?t = "s1\<lparr>m_tasks := m_tasks s1 - 1, m_recv_queue := []\<rparr>"
  have "only_received s1 ?t" by (simp add: only_received_def)
  then have "only_received s ?t" by (rule only_received_trans [OF s1(1)])
  then obtain t' where t': "handle e (header_bytes (length bs) ty crc @ bs) ?t = Some (True, t')" "Q t'"
    using handled [of ?t crc] s1(2) by (auto simp: waiting_def)
  have "run_task (CB e) (handle e) s1 = Some t'"
    using s1(2,3) t'(1) by (simp add: run_task_def waiting_def)
  moreover have "client_life CB handle call new s1"
    using receives_life [of CB e s _ s1 handle call new] r assms(1,2) by simp
  ultimately show ?thesis using client_life.handled [of CB handle call new s1 e t'] t'(2) by auto
qed

end

end
