(* ===== verification/CLoginClient.thy ===== *)
theory CLoginClient
  imports ClientLife
begin

text \<open>
  The login server: \<open>login/src/cloginclient.cpp\<close>, the client side, and \<open>login/src/cloginisc.cpp\<close>, the
  char and map servers that registered with it. The database is a service: a query is a function of the
  environment \<open>login_env\<close> whose value may also be an exception (\<open>None\<close>), and a statement that changes
  the database is appended to \<open>m_sql\<close>. A handler yields \<open>None\<close> where the source would raise an exception
  it does not catch or access memory outside a buffer, and otherwise its result and the new client.
\<close>

section \<open>Peer servers\<close>

record tChannelInfo =
  ChannelID :: u16
  Port :: u16
  MinRight :: u32
  channelName :: cstring
  IPAddress :: cstring

definition tChannelInfo_new :: tChannelInfo where
  "tChannelInfo_new = \<lparr>ChannelID = 0, Port = 0, MinRight = 0, channelName = [], IPAddress = []\<rparr>"

record CLoginISC = CRoseSocket +
  m_server_name :: cstring
  m_channel_count :: u32
  m_min_right :: u32
  m_test_server :: bool
  m_channel_list :: "tChannelInfo list"

definition CLoginISC_new :: "CNetwork_Asio \<Rightarrow> CLoginISC" where
  "CLoginISC_new sock = CRoseSocket.CRoseSocket.extend (CRoseClient_new sock) (CLoginISC.fields [] 0 0 False [])"

definition CLoginISC_ServerRegister :: "IscServerRegister \<Rightarrow> CLoginISC \<Rightarrow> bool \<times> CLoginISC" where
  "CLoginISC_ServerRegister P s =
    (let s1 =
       (if IscServerRegister.m_serverType P = server_type CHAR_SERVER then
          s\<lparr>CLoginISC.m_server_name := IscServerRegister.m_name P,
            m_network_address := IscServerRegister.m_addr P,
            m_network_port := ucast (IscServerRegister.m_port P),
            m_min_right := IscServerRegister.m_right P,
            m_network_type := ucast (IscServerRegister.m_serverType P)\<rparr>
        else if IscServerRegister.m_serverType P = server_type MAP_MASTER then
          s\<lparr>m_channel_list := tChannelInfo_new\<lparr>channelName := IscServerRegister.m_name P,
                ChannelID := ucast (IscServerRegister.m_id P), MinRight := IscServerRegister.m_right P\<rparr>
              # m_channel_list s,
            m_channel_count := m_channel_count s + 1\<rparr>
        else s)
     in (True, s1\<lparr>m_network_name := CLoginISC.m_server_name s1\<rparr>))"

definition CLoginISC_ServerShutdown :: "IscShutdown \<Rightarrow> CLoginISC \<Rightarrow> bool \<times> CLoginISC" where
  "CLoginISC_ServerShutdown P s =
    (True, s\<lparr>m_channel_list := filter (\<lambda>c. ucast (ChannelID c) \<noteq> IscShutdown.m_id P) (m_channel_list s)\<rparr>)"

definition CLoginISC_HandlePacket :: "byte list \<Rightarrow> byte list \<Rightarrow> CLoginISC \<Rightarrow> (bool \<times> CLoginISC) option" where
  "CLoginISC_HandlePacket g buf s =
    (let ty = packet_type buf in
     if ty = ISC_ALIVE \<or> ty = ISC_SERVER_AUTH \<or> ty = ISC_TRANSFER then Some (True, s)
     else if ty = ISC_SERVER_REGISTER then
       (case IscServerRegister_recv g buf of Inl e \<Rightarrow> None | Inr P \<Rightarrow> Some (CLoginISC_ServerRegister P s))
     else if ty = ISC_SHUTDOWN then
       (case IscShutdown_recv g buf of Inl e \<Rightarrow> None | Inr P \<Rightarrow> Some (CLoginISC_ServerShutdown P s))
     else CRoseISC_HandlePacket buf s)"

section \<open>Clients\<close>

datatype login_sql =
    SetOnline u32 int cstring
  | SetOffline u32
  | InsertSession u32 u32 u8
  | CreateAccount cstring cstring

record CLoginClient = CRoseSocket +
  m_access_rights :: u16
  m_login_name :: cstring
  m_login_state :: eSTATE
  m_userid :: u32
  m_session_id :: u32
  m_sql :: "login_sql list"

record account_row =
  row_id :: int
  row_access :: "int option"
  row_online :: bool
  row_loginCount :: int

record login_env =
  env_now :: u32
  env_memory :: "byte list"
  env_garbage :: SrvScreenShotTimeReply
  env_iscs :: "CLoginISC list"
  createAccountOnFail :: bool
  q_account :: "cstring \<Rightarrow> cstring \<Rightarrow> account_row option option"
  q_user_session :: "int \<Rightarrow> bool option"
  q_username :: "cstring \<Rightarrow> bool option"
  q_session :: "u32 \<Rightarrow> bool"
  q_statement :: bool

definition CLoginClient_new :: "CNetwork_Asio \<Rightarrow> CLoginClient" where
  "CLoginClient_new sock = CRoseSocket.CRoseSocket.extend (CRoseClient_new sock)
     (CLoginClient.CLoginClient.fields 0 [] DEFAULT 0 0 [])"

text \<open>If the database throws here, the exception leaves the callback; only the way without exceptions is modelled.\<close>

definition CLoginClient_OnDisconnected :: "(u32 \<Rightarrow> bool) \<Rightarrow> CLoginClient \<Rightarrow> CLoginClient" where
  "CLoginClient_OnDisconnected has_session s =
    (if \<not> has_session (m_session_id s) then s\<lparr>m_sql := m_sql s @ [SetOffline (m_userid s)]\<rparr> else s)"

definition login_callbacks :: "u32 list list \<Rightarrow> (u32 \<Rightarrow> bool) \<Rightarrow> CLoginClient callbacks" where
  "login_callbacks rt has_session =
    (client_callbacks rt)\<lparr>OnDisconnected := CLoginClient_OnDisconnected has_session\<rparr>"

definition is_char_server :: "CLoginISC \<Rightarrow> bool" where
  "is_char_server svr \<longleftrightarrow> get_type svr = server_type CHAR_SERVER"

definition SendLoginReply :: "CLoginClient callbacks \<Rightarrow> login_env \<Rightarrow> SrvLoginReply_eResult \<Rightarrow> CLoginClient
    \<Rightarrow> CLoginClient option" where
  "SendLoginReply cb env result s =
    (let packet = SrvLoginReply_new result 0 0 in
     if result = OK then
       let s1 = s\<lparr>m_login_state := LOGGEDIN\<rparr>;
           p1 = packet\<lparr>SrvLoginReply.m_right := m_access_rights s1\<rparr>;
           p2 = fold (\<lambda>svr p. if is_char_server svr
                  then addServer (CLoginISC.m_server_name svr) (m_network_id svr + 1) (m_test_server svr) p else p)
                (env_iscs env) p1
       in send_packet cb PAKLC_LOGIN_REPLY (SrvLoginReply_pack p2) (env_memory env) s1
     else send_packet cb PAKLC_LOGIN_REPLY (SrvLoginReply_pack packet) (env_memory env) s)"

definition login_replied :: "CLoginClient callbacks \<Rightarrow> login_env \<Rightarrow> SrvLoginReply_eResult \<Rightarrow> bool \<Rightarrow> CLoginClient
    \<Rightarrow> (bool \<times> CLoginClient) option" where
  "login_replied cb env result rtn s = map_option (Pair rtn) (SendLoginReply cb env result s)"

text \<open>The branch of \<open>UserLogin\<close> for a user name and password that match an account.\<close>

definition login_account :: "CLoginClient callbacks \<Rightarrow> login_env \<Rightarrow> account_row \<Rightarrow> CLoginClient
    \<Rightarrow> (bool \<times> CLoginClient) option" where
  "login_account cb env row s =
    (case q_user_session env (row_id row) of
       None \<Rightarrow> login_replied cb env FAILED True s
     | Some has_session \<Rightarrow>
         let s1 = (case row_access row of None \<Rightarrow> s | Some a \<Rightarrow> s\<lparr>m_access_rights := word_of_int a\<rparr>) in
         if m_access_rights s1 < 1 then login_replied cb env NO_RIGHT_TO_CONNECT False s1
         else if \<not> row_online row \<and> \<not> has_session then
           let s2 = s1\<lparr>m_userid := word_of_int (row_id row), m_session_id := env_now env\<rparr> in
           if \<not> q_statement env then login_replied cb env FAILED True s2
           else login_replied cb env OK True
             (s2\<lparr>m_sql := m_sql s2 @ [SetOnline (m_userid s2) (row_loginCount row + 1) (m_network_address s2)],
                 m_network_name := m_login_name s2\<rparr>)
         else login_replied cb env ALREADY_LOGGEDIN True s1)"

definition UserLogin :: "CLoginClient callbacks \<Rightarrow> login_env \<Rightarrow> CliLoginReq \<Rightarrow> CLoginClient
    \<Rightarrow> (bool \<times> CLoginClient) option" where
  "UserLogin cb env P s =
    (if m_login_state s \<noteq> DEFAULT then Some (True, s)
     else if length (filter is_char_server (env_iscs env)) < 1 then login_replied cb env FAILED True s
     else
       let s1 = s\<lparr>m_login_name := escapeData (CliLoginReq.m_username P)\<rparr>;
           clientpass = escapeData (CliLoginReq.m_password P)
       in case q_account env (m_login_name s1) clientpass of
            None \<Rightarrow> login_replied cb env FAILED True s1
          | Some (Some row) \<Rightarrow> login_account cb env row s1
          | Some None \<Rightarrow>
              (case q_username env (m_login_name s1) of
                 None \<Rightarrow> login_replied cb env FAILED True s1
               | Some True \<Rightarrow> login_replied cb env INVALID_PASSWORD True s1
               | Some False \<Rightarrow>
                   if createAccountOnFail env then
                     if \<not> q_statement env then login_replied cb env FAILED True s1
                     else login_replied cb env UNKNOWN_ACCOUNT True
                       (s1\<lparr>m_sql := m_sql s1 @ [CreateAccount (m_login_name s1) clientpass]\<rparr>)
                   else login_replied cb env UNKNOWN_ACCOUNT True s1))"

definition ChannelList :: "CLoginClient callbacks \<Rightarrow> login_env \<Rightarrow> CliChannelListReq \<Rightarrow> CLoginClient
    \<Rightarrow> (bool \<times> CLoginClient) option" where
  "ChannelList cb env P s =
    (if m_login_state s \<noteq> LOGGEDIN then Some (True, s)
     else
       let ServerID = CliChannelListReq.m_serverId P - 1;
           packet = fold (\<lambda>server p.
               if is_char_server server \<and> m_network_id server = ServerID
               then fold (\<lambda>info. addChannel (channelName info) (ucast (ChannelID info + 1)) 0 0 0) (m_channel_list server) p
               else p)
             (env_iscs env) (SrvChannelListReply_new (ServerID + 1))
       in map_option (Pair True)
            (send_packet cb PAKLC_CHANNEL_LIST_REPLY (SrvChannelListReply_pack packet) (env_memory env) s))"

definition ServerSelect :: "CLoginClient callbacks \<Rightarrow> login_env \<Rightarrow> CliSrvSelectReq \<Rightarrow> CLoginClient
    \<Rightarrow> (bool \<times> CLoginClient) option" where
  "ServerSelect cb env P s =
    (if m_login_state s \<noteq> LOGGEDIN then Some (True, s)
     else
       let serverID = CliSrvSelectReq.m_serverId P - 1; channelID = CliSrvSelectReq.m_channelId P - 1;
           s1 = s\<lparr>m_login_state := TRANSFERING\<rparr>
       in case find (\<lambda>server. is_char_server server \<and> m_network_id server = serverID) (env_iscs env) of
            None \<Rightarrow> Some (True, s1)
          | Some server \<Rightarrow>
              if \<not> q_statement env then None
              else map_option (Pair True)
                (send_packet cb PAKLC_SRV_SELECT_REPLY
                  (SrvSrvSelectReply_pack \<lparr>SrvSrvSelectReply.m_result = 0, m_sessionId = m_session_id s1, m_cryptVal = 0,
                     m_ip = m_network_address server, m_port = m_network_port server\<rparr>)
                  (env_memory env)
                  (s1\<lparr>m_sql := m_sql s1 @ [InsertSession (m_session_id s1) (m_userid s1) channelID]\<rparr>)))"

definition CLoginClient_HandlePacket :: "CLoginClient callbacks \<Rightarrow> login_env \<Rightarrow> byte list \<Rightarrow> CLoginClient
    \<Rightarrow> (bool \<times> CLoginClient) option" where
  "CLoginClient_HandlePacket cb env buf s =
    (let ty = packet_type buf in
     if ty = PAKCS_CHANNEL_LIST_REQ then
       (case CliChannelListReq_recv (env_memory env) buf of Inl e \<Rightarrow> None | Inr P \<Rightarrow> ChannelList cb env P s)
     else if ty = PAKCS_SRV_SELECT_REQ then
       (case CliSrvSelectReq_recv (env_memory env) buf of Inl e \<Rightarrow> None | Inr P \<Rightarrow> ServerSelect cb env P s)
     else if ty = PAKCS_LOGIN_REQ then
       (case CliLoginReq_recv (env_memory env) buf of Inl e \<Rightarrow> None | Inr P \<Rightarrow> UserLogin cb env P s)
     else CRoseSocket_HandlePacket cb (env_now env) (env_garbage env) (env_memory env) buf s)"

section \<open>What the network does to a client\<close>

definition login_keeps :: "CLoginClient \<Rightarrow> CLoginClient \<Rightarrow> bool" where
  "login_keeps s t \<longleftrightarrow> m_access_rights t = m_access_rights s \<and> m_login_name t = m_login_name s
     \<and> m_login_state t = m_login_state s \<and> m_userid t = m_userid s \<and> m_session_id t = m_session_id s
     \<and> (\<exists>k. m_sql t = m_sql s @ replicate k (SetOffline (m_userid s)))"

interpretation login: owner "login_callbacks rt has_session" login_keeps
proof
  show "login_keeps s t" if "CRoseSocket.CRoseSocket.more s = CRoseSocket.CRoseSocket.more t" for s t
    using that by (cases s, cases t) (auto simp: login_keeps_def intro: exI [of _ 0])
  show "login_keeps s u" if "login_keeps s t" "login_keeps t u" for s t u
    using that by (auto simp: login_keeps_def replicate_add [symmetric])
  show "login_keeps s (OnDisconnected (login_callbacks rt has_session) s)" for s
    by (auto simp: login_keeps_def login_callbacks_def CLoginClient_OnDisconnected_def
        intro: exI [of _ 0] exI [of _ "Suc 0"])
  show "login_keeps s s'" if "OnReceived (login_callbacks rt has_session) s = Some (ok, s')" for s ok s'
  proof -
    have "CRoseSocket.CRoseSocket.more s = CRoseSocket.CRoseSocket.more s'"
      using that receive_packet_more
      by (auto simp: login_callbacks_def client_callbacks_def CRoseSocket_OnReceived_def)
    then show ?thesis by (cases s, cases s') (auto simp: login_keeps_def intro: exI [of _ 0])
  qed
qed (auto simp: login_keeps_def login_callbacks_def client_callbacks_def initCallbacks_def intro: exI [of _ 0])

text \<open>Everything that can happen to a client after it connected, with a different database each time.\<close>

abbreviation login_reachable :: "u32 list list \<Rightarrow> CLoginClient \<Rightarrow> bool" where
  "login_reachable rt \<equiv> client_life (\<lambda>(hs, env). login_callbacks rt hs)
     (\<lambda>(hs, env). CLoginClient_HandlePacket (login_callbacks rt hs) env) (\<lambda>e s. s) CLoginClient_new"

section \<open>The login state machine\<close>

fun is_session :: "login_sql \<Rightarrow> bool" where
  "is_session (InsertSession sid uid ch) = True"
| "is_session _ = False"

fun is_online :: "u32 \<Rightarrow> login_sql \<Rightarrow> bool" where
  "is_online uid (SetOnline u n a) = (u = uid)"
| "is_online uid _ = False"

fun_cases is_online_cases: "is_online uid x"

text \<open>The sessions a client opened: none before it selected a server, then at most one, for the account
  that was set online.\<close>

definition login_inv :: "CLoginClient \<Rightarrow> bool" where
  "login_inv s \<longleftrightarrow>
    (m_login_state s \<noteq> DEFAULT \<longrightarrow> list_ex (is_online (m_userid s)) (m_sql s))
    \<and> (if m_login_state s = TRANSFERING
        then filter is_session (m_sql s) = [] \<or>
          (\<exists>ch. filter is_session (m_sql s) = [InsertSession (m_session_id s) (m_userid s) ch])
        else filter is_session (m_sql s) = [])"

lemma login_inv_keeps: "login_keeps s t \<Longrightarrow> login_inv s \<Longrightarrow> login_inv t"
  by (auto simp: login_keeps_def login_inv_def filter_replicate)

lemma SendLoginReply_cases:
  assumes "SendLoginReply (login_callbacks rt hs) env result s = Some s'"
  shows "login_keeps (if result = OK then s\<lparr>m_login_state := LOGGEDIN\<rparr> else s) s'"
  using assms login.keeps_send_packet by (auto simp: SendLoginReply_def Let_def split: if_splits)

lemma login_replied_cases:
  assumes "login_replied (login_callbacks rt hs) env result rtn s = Some (ok, s')"
  shows "ok = rtn \<and> login_keeps (if result = OK then s\<lparr>m_login_state := LOGGEDIN\<rparr> else s) s'"
proof -
  have "SendLoginReply (login_callbacks rt hs) env result s = Some s' \<and> ok = rtn"
    using assms by (auto simp: login_replied_def)
  then show ?thesis using SendLoginReply_cases by blast
qed

lemma login_replied_inv:
  assumes "login_replied (login_callbacks rt hs) env result rtn s = Some (ok, s')" and "login_inv s"
    and "result = OK \<Longrightarrow> m_login_state s = DEFAULT \<and> list_ex (is_online (m_userid s)) (m_sql s)"
  shows "login_inv s'"
proof -
  have "login_inv (if result = OK then s\<lparr>m_login_state := LOGGEDIN\<rparr> else s)"
    using assms(2,3) by (auto simp: login_inv_def)
  then show ?thesis using login_inv_keeps login_replied_cases [OF assms(1)] by blast
qed

lemma login_account_inv:
  assumes "login_account (login_callbacks rt hs) env row s = Some (ok, s')" and "login_inv s"
    and "m_login_state s = DEFAULT"
  shows "login_inv s'"
proof -
  have inv: "login_inv (s\<lparr>m_access_rights := a\<rparr>)" "login_inv (s\<lparr>m_access_rights := a, m_userid := u, m_session_id := v\<rparr>)"
    "login_inv (s\<lparr>m_userid := u, m_session_id := v\<rparr>)" for a u v
    using assms(2,3) by (auto simp: login_inv_def)
  show ?thesis
    using assms(1)
    by (auto simp: login_account_def Let_def split: option.splits if_splits
        elim!: login_replied_inv intro: assms(2) inv)
       (use assms(2,3) in \<open>auto simp: login_inv_def\<close>)
qed

lemma UserLogin_inv:
  assumes "UserLogin (login_callbacks rt hs) env P s = Some (ok, s')" and "login_inv s"
  shows "login_inv s'"
proof -
  have inv: "login_inv (s\<lparr>m_login_name := n\<rparr>)"
    "login_inv (s\<lparr>m_login_name := n, m_sql := m_sql s @ [CreateAccount u v]\<rparr>)" for n u v
    using assms(2) by (auto simp: login_inv_def)
  show ?thesis
  proof (cases "m_login_state s = DEFAULT")
    case True
    then show ?thesis
      using assms(1)
      by (auto simp: UserLogin_def Let_def split: option.splits if_splits bool.splits
          elim!: login_replied_inv login_account_inv intro: assms(2) inv)
  next
    case False
    then show ?thesis using assms by (simp add: UserLogin_def)
  qed
qed

lemma ChannelList_inv:
  assumes "ChannelList (login_callbacks rt hs) env P s = Some (ok, s')"
  shows "login_keeps s s'"
  using assms login.keeps_send_packet login.keeps_refl
  by (auto simp: ChannelList_def Let_def split: if_splits)

lemma ServerSelect_inv:
  assumes "ServerSelect (login_callbacks rt hs) env P s = Some (ok, s')" and "login_inv s"
  shows "login_inv s'"
proof -
  have inv: "login_inv (s\<lparr>m_login_state := TRANSFERING\<rparr>)"
    "login_inv (s\<lparr>m_login_state := TRANSFERING, m_sql := m_sql s @ [InsertSession (m_session_id s) (m_userid s) ch]\<rparr>)"
    if "m_login_state s = LOGGEDIN" for ch
    using assms(2) that by (auto simp: login_inv_def)
  show ?thesis
    using assms inv login.keeps_send_packet login_inv_keeps
    by (auto simp: ServerSelect_def Let_def split: if_splits option.splits) blast+
qed

lemma CRoseSocket_HandlePacket_keeps:
  assumes "CRoseSocket_HandlePacket (login_callbacks rt hs) now garbage g buf s = Some (ok, s')"
  shows "login_keeps s s'"
  using assms login.keeps_send_packet login.keeps_refl
  by (auto simp: CRoseSocket_HandlePacket_def Let_def split: if_splits)

lemma HandlePacket_inv:
  assumes "CLoginClient_HandlePacket (login_callbacks rt hs) env buf s = Some (ok, s')" and "login_inv s"
  shows "login_inv s'"
  using assms
  by (auto simp: CLoginClient_HandlePacket_def Let_def split: if_splits sum.splits
      intro: UserLogin_inv ServerSelect_inv login_inv_keeps [OF ChannelList_inv]
        login_inv_keeps [OF CRoseSocket_HandlePacket_keeps])

interpretation login_life: client_class "\<lambda>(hs, env). login_callbacks rt hs"
  "\<lambda>(hs, env). CLoginClient_HandlePacket (login_callbacks rt hs) env" "\<lambda>e s. s" CLoginClient_new login_keeps login_inv
proof (rule client_class.intro)
  show "login_inv (CLoginClient_new sock)" for sock
    by (simp add: login_inv_def CLoginClient_new_def CRoseSocket.CRoseSocket.defs CLoginClient.CLoginClient.defs)
  show "owner (case e of (hs, env) \<Rightarrow> login_callbacks rt hs) login_keeps" for e
    by (cases e) (simp add: login.owner_axioms)
qed (auto intro: login_inv_keeps HandlePacket_inv)

section \<open>What a client is told\<close>

definition listed :: "CLoginISC \<Rightarrow> ServerInfo" where
  "listed svr = \<lparr>ServerInfo.m_server_name = CLoginISC.m_server_name svr, m_server_id = m_network_id svr + 1,
     m_test = m_test_server svr\<rparr>"

lemma addServer_all:
  "fold (\<lambda>svr p. if is_char_server svr
      then addServer (CLoginISC.m_server_name svr) (m_network_id svr + 1) (m_test_server svr) p else p) iscs d
    = d\<lparr>m_servers := m_servers d @ map listed (filter is_char_server iscs)\<rparr>"
  by (induction iscs arbitrary: d) (simp_all add: addServer_def listed_def)

definition accepted_reply :: "login_env \<Rightarrow> u16 \<Rightarrow> SrvLoginReply" where
  "accepted_reply env right = \<lparr>m_login_result = 0, m_right = right, m_login_type = 0,
     m_servers = map listed (filter is_char_server (env_iscs env))\<rparr>"

lemma login_OnSend: "OnSend (login_callbacks rt hs) = CRoseSocket_OnSend rt"
  by (simp add: login_callbacks_def client_callbacks_def)

lemma SendLoginReply_OK:
  assumes "idle s" and "length (env_memory env) = MAX_PACKET_SIZE"
    and "6 + length (SrvLoginReply_wire (accepted_reply env (m_access_rights s))) < MAX_PACKET_SIZE"
  shows "SendLoginReply (login_callbacks rt hs) env OK s = Some (writing
    (wire_image rt PAKLC_LOGIN_REPLY (SrvLoginReply_wire (accepted_reply env (m_access_rights s))))
    (s\<lparr>m_login_state := LOGGEDIN\<rparr>))"
proof -
  let ?d = "accepted_reply env (m_access_rights s)"
  have "idle (s\<lparr>m_login_state := LOGGEDIN\<rparr>)" using assms(1) by (simp add: idle_def)
  from send_packet_idle [OF SrvLoginReply.emits_pack [of ?d] assms(2,3) this login_OnSend]
  show ?thesis
    by (simp add: SendLoginReply_def SrvLoginReply_new_def addServer_all accepted_reply_def)
qed

definition logged_in :: "login_env \<Rightarrow> CliLoginReq \<Rightarrow> account_row \<Rightarrow> u16 \<Rightarrow> CLoginClient \<Rightarrow> CLoginClient" where
  "logged_in env P row right s =
    s\<lparr>m_login_name := escapeData (CliLoginReq.m_username P), m_access_rights := right, m_userid := word_of_int (row_id row),
      m_session_id := env_now env, m_network_name := escapeData (CliLoginReq.m_username P),
      m_sql := m_sql s @ [SetOnline (word_of_int (row_id row)) (row_loginCount row + 1) (m_network_address s)],
      m_login_state := LOGGEDIN\<rparr>"

lemma UserLogin_accepted:
  assumes "idle s" and "m_login_state s = DEFAULT" and "list_ex is_char_server (env_iscs env)"
    and "q_account env (escapeData (CliLoginReq.m_username P)) (escapeData (CliLoginReq.m_password P)) = Some (Some row)"
    and "q_user_session env (row_id row) = Some False" and "\<not> row_online row" and "q_statement env"
    and "row_access row = Some a" and "word_of_int a \<noteq> (0 :: u16)"
    and "length (env_memory env) = MAX_PACKET_SIZE"
    and "6 + length (SrvLoginReply_wire (accepted_reply env (word_of_int a))) < MAX_PACKET_SIZE"
  shows "UserLogin (login_callbacks rt hs) env P s = Some (True, writing
    (wire_image rt PAKLC_LOGIN_REPLY (SrvLoginReply_wire (accepted_reply env (word_of_int a))))
    (logged_in env P row (word_of_int a) s))"
proof -
  let ?t = "(logged_in env P row (word_of_int a) s)\<lparr>m_login_state := DEFAULT\<rparr>"
  have "length (filter is_char_server (env_iscs env)) \<noteq> 0"
    using assms(3) by (auto simp: list_ex_iff filter_empty_conv)
  moreover have "\<not> (word_of_int a :: u16) < 1" using assms(9) by (simp add: word_less_1)
  ultimately have "UserLogin (login_callbacks rt hs) env P s = login_replied (login_callbacks rt hs) env OK True ?t"
    using assms(2,4-8) by (cases s) (simp add: UserLogin_def login_account_def Let_def logged_in_def)
  moreover have "idle ?t" "m_access_rights ?t = word_of_int a" using assms(1) by (simp_all add: idle_def logged_in_def)
  ultimately show ?thesis
    using SendLoginReply_OK [of ?t env rt hs] assms(10,11) by (simp add: login_replied_def logged_in_def)
qed

section \<open>A packet that arrives\<close>

interpretation login_frames: client_codec "login_callbacks rt hs" rt
proof
  show "OnReceived (login_callbacks rt hs) = receive_packet (decodeClientHeader rt) (decodeClientBody rt)"
    by (simp add: login_callbacks_def client_callbacks_def CRoseSocket_OnReceived_def)
  show "OnReceive (login_callbacks rt hs) s = (True, s)" for s
    by (simp add: login_callbacks_def client_callbacks_def initCallbacks_def)
  show "\<not> m_active (snd (shutdown (login_callbacks rt hs) False t))" for t
    by (auto simp: shutdown_def disconnect_def login_callbacks_def client_callbacks_def initCallbacks_def Let_def)
qed

definition may_login :: "login_env \<Rightarrow> CliLoginReq \<Rightarrow> account_row \<Rightarrow> int \<Rightarrow> bool" where
  "may_login env P row a \<longleftrightarrow> list_ex is_char_server (env_iscs env)
     \<and> q_account env (escapeData (CliLoginReq.m_username P)) (escapeData (CliLoginReq.m_password P)) = Some (Some row)
     \<and> q_user_session env (row_id row) = Some False \<and> \<not> row_online row \<and> q_statement env
     \<and> row_access row = Some a \<and> word_of_int a \<noteq> (0 :: u16) \<and> length (env_memory env) = MAX_PACKET_SIZE
     \<and> 6 + length (SrvLoginReply_wire (accepted_reply env (word_of_int a))) < MAX_PACKET_SIZE"

lemma login_request_handled:
  assumes "idle s" and "m_login_state s = DEFAULT" and "may_login env P row a" and "CliLoginReq_ok P"
    and "6 + length (CliLoginReq_wire P) < MAX_PACKET_SIZE"
  shows "CLoginClient_HandlePacket (login_callbacks rt hs) env
      (header_bytes (length (CliLoginReq_wire P)) PAKCS_LOGIN_REQ crc @ CliLoginReq_wire P) s
    = Some (True, writing (wire_image rt PAKLC_LOGIN_REPLY (SrvLoginReply_wire (accepted_reply env (word_of_int a))))
        (logged_in env P row (word_of_int a) s))"
proof -
  let ?buf = "header_bytes (length (CliLoginReq_wire P)) PAKCS_LOGIN_REQ crc @ CliLoginReq_wire P"
  have "packet_type ?buf = PAKCS_LOGIN_REQ" by simp
  then have "CLoginClient_HandlePacket (login_callbacks rt hs) env ?buf s = UserLogin (login_callbacks rt hs) env P s"
    using CliLoginReq.recv_wire [OF assms(4,5), of "env_memory env" PAKCS_LOGIN_REQ crc] assms(3)
    by (simp add: CLoginClient_HandlePacket_def CliLoginReq_recv_def may_login_def PAKCS_LOGIN_REQ_def PAKCS_CHANNEL_LIST_REQ_def PAKCS_SRV_SELECT_REQ_def)
  also have "\<dots> = Some (True, writing (wire_image rt PAKLC_LOGIN_REPLY
      (SrvLoginReply_wire (accepted_reply env (word_of_int a)))) (logged_in env P row (word_of_int a) s))"
    using assms(3) by (intro UserLogin_accepted assms(1,2)) (simp_all add: may_login_def)
  finally show ?thesis .
qed

lemma login_handled:
  assumes "only_received s s1" and "m_recv_queue s1 = [header_bytes (length (CliLoginReq_wire P)) PAKCS_LOGIN_REQ crc @ CliLoginReq_wire P]"
    and "idle s" and "m_login_state s = DEFAULT" and "may_login env P row a" and "CliLoginReq_ok P"
    and "6 + length (CliLoginReq_wire P) < MAX_PACKET_SIZE"
  shows "run_task (login_callbacks rt hs) (CLoginClient_HandlePacket (login_callbacks rt hs) env) s1
    = Some (writing (wire_image rt PAKLC_LOGIN_REPLY (SrvLoginReply_wire (accepted_reply env (word_of_int a))))
        (logged_in env P row (word_of_int a) (s1\<lparr>m_tasks := m_tasks s1 - 1, m_recv_queue := []\<rparr>)))"
proof -
  let ?s = "s1\<lparr>m_tasks := m_tasks s1 - 1, m_recv_queue := []\<rparr>"
  have "idle ?s" "m_login_state ?s = DEFAULT" "m_active s1"
    using assms(3,4) by (subst assms(1) [unfolded only_received_def], simp add: idle_def)+
  then show ?thesis
    using login_request_handled [OF _ _ assms(5,6,7), of ?s rt hs crc] assms(2) by (simp add: run_task_def)
qed

lemma login_connects:
  "start_client (login_callbacks rt hs) num now (CLoginClient_new sock) = Some s \<Longrightarrow> login_reachable rt s"
  by (rule client_life.connected [where e = "(hs, env)" for env]) simp

text \<open>A request that arrives at a busy client is answered by queueing the reply.\<close>

lemma ServerSelect_busy:
  assumes "m_login_state s = LOGGEDIN" and "m_discard_queue s \<noteq> []" and "q_statement env"
    and "find (\<lambda>server. is_char_server server \<and> m_network_id server = CliSrvSelectReq.m_serverId P - 1) (env_iscs env) = Some svr"
  shows "\<exists>s'. ServerSelect (login_callbacks rt hs) env P s = Some (True, s')
    \<and> m_sql s' = m_sql s @ [InsertSession (m_session_id s) (m_userid s) (CliSrvSelectReq.m_channelId P - 1)]"
  using assms by (auto simp: ServerSelect_def Let_def send_packet_def send_data_def ProcessSend_def split: list.splits)

text \<open>A char server registers, a client connects, logs in and selects the server.\<close>

definition sample_register :: IscServerRegister where
  "sample_register = \<lparr>IscServerRegister.m_serverType = 1, m_name = [0x41], m_addr = [0x31], m_port = 29100,
     m_right = 1, m_id = 0\<rparr>"

definition sample_isc :: CLoginISC where
  "sample_isc = snd (CLoginISC_ServerRegister sample_register (CLoginISC_new (CNetwork_Asio_new (replicate 2047 0) 0)))"

definition sample_account :: account_row where
  "sample_account = \<lparr>row_id = 5, row_access = Some 100, row_online = False, row_loginCount = 2\<rparr>"

definition sample_env :: login_env where
  "sample_env = \<lparr>env_now = 1000, env_memory = replicate 2047 0,
     env_garbage = \<lparr>m_year = 0, m_month = 0, m_day = 0, m_hour = 0, m_min = 0\<rparr>, env_iscs = [sample_isc],
     createAccountOnFail = False,
     q_account = (\<lambda>u p. Some (if u = [0x72, 0x6F] \<and> p = replicate 32 0x61 then Some sample_account else None)),
     q_user_session = (\<lambda>u. Some False), q_username = (\<lambda>u. Some (u = [0x72, 0x6F])), q_session = (\<lambda>i. False),
     q_statement = True\<rparr>"

lemmas new_socket_defs = CRoseClient_new_def CRoseSocket_new_def set_active_def reset_internal_buffer_def
  CNetwork_Asio_new_def CNetwork_Asio.CNetwork_Asio.defs CRoseSocket.CRoseSocket.defs

lemma sample_isc_char: "is_char_server sample_isc" "CLoginISC.m_server_name sample_isc = [0x41]"
  "m_network_id sample_isc = 0" "m_network_address sample_isc = [0x31]" "m_network_port sample_isc = 29100"
  by (simp_all add: sample_isc_def CLoginISC_ServerRegister_def sample_register_def is_char_server_def get_type_def
      CLoginISC_new_def new_socket_defs CLoginISC.defs Let_def)

lemma sample_may_login: "may_login sample_env sample_login sample_account 100"
proof -
  have "escapeData (CliLoginReq.m_username sample_login) = [0x72, 0x6F]"
    "escapeData (CliLoginReq.m_password sample_login) = replicate 32 0x61"
    by (simp_all add: sample_login_def escapeData_chars escape_char_def)
  then show ?thesis
    by (simp add: may_login_def sample_env_def sample_account_def sample_isc_char accepted_reply_def listed_def
        SrvLoginReply_wire_def ServerInfo_wire_def MAX_PACKET_SIZE_def)
qed

lemma sample_login_ok: "CliLoginReq_ok sample_login" "6 + length (CliLoginReq_wire sample_login) < MAX_PACKET_SIZE"
  by (simp_all add: CliLoginReq_ok_def CliLoginReq_wire_def sample_login_def MAX_PACKET_SIZE_def)

definition sample_client :: CLoginClient where
  "sample_client = (CLoginClient_new (CNetwork_Asio_new (replicate 2047 0) 0))\<lparr>m_reading := Some 6\<rparr>"

lemma sample_client_facts: "idle sample_client" "waiting sample_client" "m_recv_queue sample_client = []"
  "m_login_state sample_client = DEFAULT" "m_sql sample_client = []" "m_network_address sample_client = []"
  by (simp_all add: sample_client_def CLoginClient_new_def idle_def waiting_def new_socket_defs MAX_PACKET_SIZE_def
      CLoginClient.CLoginClient.defs)

lemma sample_client_started:
  "start_client (login_callbacks rt hs) 0 0 (CLoginClient_new (CNetwork_Asio_new (replicate 2047 0) 0)) = Some sample_client"
  unfolding start_client_def
  by (subst login_frames.recv_data_start [where a = 0 and n = 6])
     (simp_all add: sample_client_def CLoginClient_new_def new_socket_defs CLoginClient.CLoginClient.defs
       set_update_time_def set_id_def MAX_PACKET_SIZE_def)

section \<open>Properties\<close>

text \<open>The life of a client up to the selection of a server.\<close>

definition sample_select :: CliSrvSelectReq where
  "sample_select = \<lparr>m_serverId = 1, m_channelId = 1\<rparr>"

lemma sample_select_ok: "6 + length (CliSrvSelectReq_wire sample_select) < MAX_PACKET_SIZE"
  by (simp add: CliSrvSelectReq_wire_def MAX_PACKET_SIZE_def)

lemma sample_login_reachable:
  "\<exists>s. login_reachable rt s \<and> waiting s \<and> m_recv_queue s = [] \<and> m_login_state s = LOGGEDIN \<and> m_discard_queue s \<noteq> []
    \<and> m_session_id s = 1000 \<and> m_userid s = 5 \<and> m_sql s = [SetOnline 5 3 []]"
proof (rule login_frames.exchange [where e = "(\<lambda>_. False, sample_env)" and ty = PAKCS_LOGIN_REQ and s = sample_client
      and bs = "CliLoginReq_wire sample_login" and hs = "\<lambda>_. False"])
  show "login_reachable rt sample_client" by (rule login_connects [OF sample_client_started])
next
  fix t crc
  assume t: "only_received sample_client t" "waiting t" "m_recv_queue t = []"
  have "idle t" "m_login_state t = DEFAULT" "m_sql t = []" "m_network_address t = []"
    using sample_client_facts by (subst t(1) [unfolded only_received_def], simp add: idle_def)+
  then show "\<exists>t'. (case (\<lambda>_. False, sample_env) of (hs, env) \<Rightarrow> CLoginClient_HandlePacket (login_callbacks rt hs) env)
       (header_bytes (length (CliLoginReq_wire sample_login)) PAKCS_LOGIN_REQ crc @ CliLoginReq_wire sample_login) t = Some (True, t')
      \<and> waiting t' \<and> m_recv_queue t' = [] \<and> m_login_state t' = LOGGEDIN \<and> m_discard_queue t' \<noteq> []
      \<and> m_session_id t' = 1000 \<and> m_userid t' = 5 \<and> m_sql t' = [SetOnline 5 3 []]"
    using login_request_handled [OF _ _ sample_may_login sample_login_ok, of t rt "\<lambda>_. False" crc] t(2,3)
    by (auto simp: writing_def logged_in_def waiting_def sample_env_def sample_account_def)
qed (use sample_client_facts sample_login_ok in \<open>simp_all add: PAKCS_LOGIN_REQ_def\<close>)

lemma sample_session_reachable:
  "\<exists>s. login_reachable rt s \<and> m_sql s = [SetOnline 5 3 [], InsertSession 1000 5 0]"
proof -
  obtain s where s: "login_reachable rt s" "waiting s" "m_recv_queue s = []" "m_login_state s = LOGGEDIN" "m_discard_queue s \<noteq> []"
      "m_session_id s = 1000" "m_userid s = 5" "m_sql s = [SetOnline 5 3 []]"
    using sample_login_reachable by blast
  have svr: "find (\<lambda>server. is_char_server server \<and> m_network_id server = CliSrvSelectReq.m_serverId sample_select - 1)
      (env_iscs sample_env) = Some sample_isc"
    by (simp add: sample_env_def sample_isc_char sample_select_def)
  show ?thesis
  proof (rule login_frames.exchange [where e = "(\<lambda>_. False, sample_env)" and ty = PAKCS_SRV_SELECT_REQ and s = s
        and bs = "CliSrvSelectReq_wire sample_select" and hs = "\<lambda>_. False"])
    fix t crc
    assume t: "only_received s t" "waiting t" "m_recv_queue t = []"
    have tf: "m_login_state t = LOGGEDIN" "m_discard_queue t \<noteq> []" "m_session_id t = 1000" "m_userid t = 5"
        "m_sql t = [SetOnline 5 3 []]"
      using s by (subst t(1) [unfolded only_received_def], simp)+
    have "CliSrvSelectReq_recv (env_memory sample_env) (header_bytes (length (CliSrvSelectReq_wire sample_select))
        PAKCS_SRV_SELECT_REQ crc @ CliSrvSelectReq_wire sample_select) = Inr sample_select"
      using CliSrvSelectReq.recv_wire [OF _ sample_select_ok, of "env_memory sample_env"]
      by (simp add: CliSrvSelectReq_ok_def CliSrvSelectReq_recv_def sample_env_def MAX_PACKET_SIZE_def)
    then show "\<exists>t'. (case (\<lambda>_. False, sample_env) of (hs, env) \<Rightarrow> CLoginClient_HandlePacket (login_callbacks rt hs) env)
         (header_bytes (length (CliSrvSelectReq_wire sample_select)) PAKCS_SRV_SELECT_REQ crc @ CliSrvSelectReq_wire sample_select) t
           = Some (True, t')
        \<and> m_sql t' = [SetOnline 5 3 [], InsertSession 1000 5 0]"
      using ServerSelect_busy [OF tf(1,2) _ svr, of rt "\<lambda>_. False"] tf
      by (auto simp: CLoginClient_HandlePacket_def sample_env_def sample_select_def PAKCS_SRV_SELECT_REQ_def PAKCS_CHANNEL_LIST_REQ_def)
  qed (use s sample_select_ok in \<open>simp_all add: PAKCS_SRV_SELECT_REQ_def\<close>)
qed

text \<open>C8. Sessions. Over the whole life of a login client, whatever it sends and whatever the database
  answers, a session row is only written after the account was set online, only while the client is being
  transferred, with the client's own session number and account, and at most once.\<close>

theorem login_sessions_sound:
  assumes "login_reachable rt s" and "InsertSession sid uid ch \<in> set (m_sql s)"
  shows "m_login_state s = TRANSFERING \<and> sid = m_session_id s \<and> uid = m_userid s
    \<and> (\<exists>n a. SetOnline uid n a \<in> set (m_sql s)) \<and> length (filter is_session (m_sql s)) = 1"
proof -
  have inv: "login_inv s" by (rule login_life.life_inv [OF assms(1)])
  have mem: "InsertSession sid uid ch \<in> set (filter is_session (m_sql s))" using assms(2) by simp
  then have ne: "filter is_session (m_sql s) \<noteq> []" by (metis empty_iff list.set(1))
  then have st: "m_login_state s = TRANSFERING" using inv unfolding login_inv_def by presburger
  then obtain ch' where f: "filter is_session (m_sql s) = [InsertSession (m_session_id s) (m_userid s) ch']"
    using inv ne by (auto simp: login_inv_def)
  have "list_ex (is_online (m_userid s)) (m_sql s)" using inv st by (simp add: login_inv_def)
  then obtain x where "x \<in> set (m_sql s)" "is_online (m_userid s) x" by (auto simp: list_ex_iff)
  then have "\<exists>n a. SetOnline (m_userid s) n a \<in> set (m_sql s)" by (metis is_online_cases)
  moreover have "InsertSession sid uid ch = InsertSession (m_session_id s) (m_userid s) ch'"
    using mem unfolding f by simp
  ultimately show ?thesis using f st by simp
qed

theorem login_sessions_sound_witness:
  "\<exists>s. login_reachable sample_keys s \<and> InsertSession 1000 5 0 \<in> set (m_sql s) \<and> m_login_state s = TRANSFERING
    \<and> m_session_id s = 1000 \<and> m_userid s = 5"
proof -
  obtain s where s: "login_reachable sample_keys s" "InsertSession 1000 5 0 \<in> set (m_sql s)"
    using sample_session_reachable [of sample_keys] by auto
  from login_sessions_sound [OF s] s show ?thesis by auto
qed

text \<open>C9. Authentication. A client leaves the initial state only through a login request that names an
  account with the matching password which is not online, has no session and has access rights, while
  a char server is registered; it is then logged in as that account.\<close>

theorem login_requires_account:
  assumes "CLoginClient_HandlePacket (login_callbacks rt hs) env buf s = Some (ok, s')"
    and "m_login_state s = DEFAULT" and "m_login_state s' \<noteq> DEFAULT"
  shows "\<exists>P row. CliLoginReq_recv (env_memory env) buf = Inr P
    \<and> q_account env (escapeData (CliLoginReq.m_username P)) (escapeData (CliLoginReq.m_password P)) = Some (Some row)
    \<and> \<not> row_online row \<and> q_user_session env (row_id row) = Some False
    \<and> (\<exists>svr \<in> set (env_iscs env). is_char_server svr)
    \<and> m_login_state s' = LOGGEDIN \<and> m_userid s' = word_of_int (row_id row) \<and> 1 \<le> m_access_rights s'"
proof -
  have keep: "login_keeps t s' \<Longrightarrow> m_login_state s' = m_login_state t" for t by (simp add: login_keeps_def)
  have nOK: "False" if "login_replied (login_callbacks rt hs) env r b t = Some (ok, s')" "r \<noteq> OK" "m_login_state t = DEFAULT" for r b t
    using login_replied_cases [OF that(1)] that(2,3) keep assms(3) by auto
  obtain P where P: "CliLoginReq_recv (env_memory env) buf = Inr P"
    and u: "UserLogin (login_callbacks rt hs) env P s = Some (ok, s')"
    using assms
    by (auto simp: CLoginClient_HandlePacket_def Let_def ChannelList_def ServerSelect_def
        split: if_splits sum.splits dest!: CRoseSocket_HandlePacket_keeps keep)
  let ?s = "s\<lparr>m_login_name := escapeData (CliLoginReq.m_username P)\<rparr>"
  obtain row where row: "q_account env (escapeData (CliLoginReq.m_username P)) (escapeData (CliLoginReq.m_password P)) = Some (Some row)"
    and acc: "login_account (login_callbacks rt hs) env row ?s = Some (ok, s')"
    and srv: "filter is_char_server (env_iscs env) \<noteq> []"
    using u assms(2)
    by (auto simp: UserLogin_def Let_def split: if_splits option.splits bool.splits dest: nOK)
  define s1 where "s1 = (case row_access row of None \<Rightarrow> ?s | Some a \<Rightarrow> ?s\<lparr>m_access_rights := word_of_int a\<rparr>)"
  have d: "m_login_state s1 = DEFAULT" using assms(2) by (simp add: s1_def split: option.splits)
  obtain t where t: "login_replied (login_callbacks rt hs) env OK True t = Some (ok, s')"
      "m_userid t = word_of_int (row_id row)" "m_access_rights t = m_access_rights s1"
    and conds: "q_user_session env (row_id row) = Some False" "\<not> row_online row" "\<not> m_access_rights s1 < 1"
    using acc d assms(2)
    by (auto simp: login_account_def Let_def s1_def [symmetric] split: if_splits option.splits dest: nOK)
  have "login_keeps (t\<lparr>m_login_state := LOGGEDIN\<rparr>) s'" using login_replied_cases [OF t(1)] by simp
  then show ?thesis
    using P row conds(1,2) t(2,3) srv linorder_not_less [THEN iffD1, OF conds(3)]
    by (auto simp: login_keeps_def filter_empty_conv)
qed

theorem login_requires_account_witness:
  "\<exists>P row. CliLoginReq_recv (env_memory sample_env)
      (header_bytes (length (CliLoginReq_wire sample_login)) PAKCS_LOGIN_REQ 0 @ CliLoginReq_wire sample_login) = Inr P
    \<and> q_account sample_env (escapeData (CliLoginReq.m_username P)) (escapeData (CliLoginReq.m_password P)) = Some (Some row)
    \<and> \<not> row_online row"
  using login_requires_account [OF login_request_handled [OF sample_client_facts(1,4) sample_may_login sample_login_ok,
      of sample_keys "\<lambda>_. False" 0] sample_client_facts(4)]
  by (auto simp: writing_def logged_in_def)

text \<open>C3. Login over the wire. A connected client sends the encrypted login request of an account that may
  log in; however the network cuts the bytes, the task that handles the packet logs the client in as that
  account, sets it online, and writes one packet: the encryption of the reply that lists every char server.\<close>

theorem login_over_the_wire:
  assumes "waiting s" and "idle s" and "m_recv_queue s = []" and "m_login_state s = DEFAULT"
    and "CliLoginReq_ok P" and "6 + length (CliLoginReq_wire P) < MAX_PACKET_SIZE" and "may_login env P row a"
    and "receives (login_callbacks rt hs) s (the (encodeClientPacket rt
       (header_bytes (length (CliLoginReq_wire P)) PAKCS_LOGIN_REQ 0 @ CliLoginReq_wire P))) s1"
  shows "\<exists>s2. run_task (login_callbacks rt hs) (CLoginClient_HandlePacket (login_callbacks rt hs) env) s1 = Some s2
    \<and> m_login_state s2 = LOGGEDIN \<and> m_userid s2 = word_of_int (row_id row) \<and> m_session_id s2 = env_now env
    \<and> m_sql s2 = m_sql s @ [SetOnline (word_of_int (row_id row)) (row_loginCount row + 1) (m_network_address s)]
    \<and> m_written s2 = m_written s @ [wire_image rt PAKLC_LOGIN_REPLY (SrvLoginReply_wire
        \<lparr>m_login_result = 0, m_right = word_of_int a, m_login_type = 0,
         m_servers = map listed (filter is_char_server (env_iscs env))\<rparr>)]"
proof -
  have "crypt_packet (header_bytes (length (CliLoginReq_wire P)) PAKCS_LOGIN_REQ 0 @ CliLoginReq_wire P)"
    by (rule request_crypt [OF assms(6)]) (simp add: PAKCS_LOGIN_REQ_def)
  from login_frames.packet_arrives [OF assms(1,3) this assms(8)]
  obtain crc where o: "only_received s s1"
    and q: "m_recv_queue s1 = [header_bytes (length (CliLoginReq_wire P)) PAKCS_LOGIN_REQ crc @ CliLoginReq_wire P]"
    by blast
  have "m_sql s1 = m_sql s" "m_network_address s1 = m_network_address s" "m_written s1 = m_written s"
    by (subst o [unfolded only_received_def], simp)+
  then show ?thesis
    using login_handled [OF o q assms(2,4,7,5,6), of rt hs] by (simp add: writing_def logged_in_def accepted_reply_def)
qed

theorem login_over_the_wire_witness:
  "\<exists>s1 s2. receives (login_callbacks sample_keys (\<lambda>_. False)) sample_client (the (encodeClientPacket sample_keys
       (header_bytes (length (CliLoginReq_wire sample_login)) PAKCS_LOGIN_REQ 0 @ CliLoginReq_wire sample_login))) s1
    \<and> run_task (login_callbacks sample_keys (\<lambda>_. False))
        (CLoginClient_HandlePacket (login_callbacks sample_keys (\<lambda>_. False)) sample_env) s1 = Some s2
    \<and> m_login_state s2 = LOGGEDIN \<and> m_sql s2 = [SetOnline 5 3 []]"
proof -
  have "crypt_packet (header_bytes (length (CliLoginReq_wire sample_login)) PAKCS_LOGIN_REQ 0 @ CliLoginReq_wire sample_login)"
    by (rule request_crypt [OF sample_login_ok(2)]) (simp add: PAKCS_LOGIN_REQ_def)
  then obtain s1 where s1: "receives (login_callbacks sample_keys (\<lambda>_. False)) sample_client (the (encodeClientPacket sample_keys
       (header_bytes (length (CliLoginReq_wire sample_login)) PAKCS_LOGIN_REQ 0 @ CliLoginReq_wire sample_login))) s1"
    using login_frames.receives_one [OF sample_client_facts(2)] by blast
  from login_over_the_wire [OF sample_client_facts(2,1,3,4) sample_login_ok sample_may_login s1] s1
  show ?thesis using sample_client_facts(5,6) by (auto simp: sample_account_def)
qed

text \<open>A selection of a server that is not registered strands the client: nothing is sent, the client is
  being transferred, and from then on the handlers ignore its login, channel list and selection requests.\<close>

theorem unknown_server_strands_client:
  assumes "m_login_state s = LOGGEDIN"
    and "\<not> list_ex (\<lambda>svr. is_char_server svr \<and> m_network_id svr = CliSrvSelectReq.m_serverId P - 1) (env_iscs env)"
  shows "ServerSelect cb env P s = Some (True, s\<lparr>m_login_state := TRANSFERING\<rparr>)
    \<and> ServerSelect cb env' P' (s\<lparr>m_login_state := TRANSFERING\<rparr>) = Some (True, s\<lparr>m_login_state := TRANSFERING\<rparr>)
    \<and> ChannelList cb env' L (s\<lparr>m_login_state := TRANSFERING\<rparr>) = Some (True, s\<lparr>m_login_state := TRANSFERING\<rparr>)
    \<and> UserLogin cb env' R (s\<lparr>m_login_state := TRANSFERING\<rparr>) = Some (True, s\<lparr>m_login_state := TRANSFERING\<rparr>)"
proof -
  have "find (\<lambda>svr. is_char_server svr \<and> m_network_id svr = CliSrvSelectReq.m_serverId P - 1) (env_iscs env) = None"
    using assms(2) by (auto simp: list_ex_iff find_None_iff)
  then show ?thesis
    using assms(1) by (simp add: ServerSelect_def ChannelList_def UserLogin_def Let_def)
qed

theorem unknown_server_strands_client_witness:
  "ServerSelect (login_callbacks sample_keys (\<lambda>_. False)) sample_env \<lparr>m_serverId = 9, m_channelId = 1\<rparr>
     (sample_client\<lparr>m_login_state := LOGGEDIN\<rparr>) = Some (True, sample_client\<lparr>m_login_state := TRANSFERING\<rparr>)"
  using unknown_server_strands_client [of "sample_client\<lparr>m_login_state := LOGGEDIN\<rparr>"
      "\<lparr>m_serverId = 9, m_channelId = 1\<rparr>" sample_env]
  by (simp add: sample_env_def sample_isc_char)

end
