(* ===== verification/CharacterList.thy ===== *)
theory CharacterList
  imports Packets_Server
begin

text \<open>
  The list of characters the char server sends (\<open>srv_characterlistreply.h\<close>, \<open>srv_characterlistreply.cpp\<close>):
  building it, packing it and reading it. An \<open>equip_item\<close> is a union of a 32 bit word and a packed structure
  of 24 bits; its constructor sets the bit fields and leaves the top byte of the word as it was in memory,
  which is an argument here.
\<close>

section \<open>Worn items\<close>

definition MAX_EQUIPPED_ITEMS :: nat where "MAX_EQUIPPED_ITEMS = 8"

definition equip_item :: "u32 \<Rightarrow> u16 \<Rightarrow> u16 \<Rightarrow> u8 \<Rightarrow> u8 \<Rightarrow> u32" where
  "equip_item data i gem socket grade =
    push_bit 24 (drop_bit 24 data) OR push_bit 20 (ucast (take_bit 4 grade)) OR push_bit 19 (ucast (take_bit 1 socket))
      OR push_bit 10 (ucast (take_bit 9 gem)) OR ucast (take_bit 10 i)"

text \<open>\<open>getPosition\<close>: the position of an inventory slot in the list of worn items.\<close>

definition getPosition :: "u32 \<Rightarrow> u8" where
  "getPosition slot =
    (if slot = 1 then 4 else if slot = 2 then 0 else if slot = 3 then 1 else if slot = 4 then 5
     else if slot = 5 then 2 else if slot = 6 then 3 else if slot = 7 then 6 else if slot = 8 then 7 else 6)"

section \<open>The reply\<close>

record char_info =
  ci_remain_sec_until_delete :: u32
  ci_level :: u16
  ci_job :: u16
  ci_race :: u8
  ci_platinum :: u8
  ci_items :: "u32 list"
  ci_name :: cstring
  ci_face :: u32
  ci_hair :: u32

definition char_info_new :: "u32 list \<Rightarrow> cstring \<Rightarrow> u8 \<Rightarrow> u16 \<Rightarrow> u16 \<Rightarrow> u32 \<Rightarrow> u8 \<Rightarrow> u32 \<Rightarrow> u32 \<Rightarrow> char_info" where
  "char_info_new mem name race level job delete_time platinum face hair =
    \<lparr>ci_remain_sec_until_delete = delete_time, ci_level = level, ci_job = job, ci_race = race, ci_platinum = platinum,
     ci_items = map (\<lambda>k. equip_item (mem ! k) 0 0 0 0) [0..<MAX_EQUIPPED_ITEMS],
     ci_name = name, ci_face = face, ci_hair = hair\<rparr>"

record SrvCharacterListReply =
  m_character_count :: u8
  m_character_list :: "char_info list"

definition SrvCharacterListReply_new :: SrvCharacterListReply where
  "SrvCharacterListReply_new = \<lparr>m_character_count = 0, m_character_list = []\<rparr>"

definition addCharacter :: "u32 list \<Rightarrow> cstring \<Rightarrow> u8 \<Rightarrow> u16 \<Rightarrow> u16 \<Rightarrow> u32 \<Rightarrow> u32 \<Rightarrow> u32 \<Rightarrow> SrvCharacterListReply
    \<Rightarrow> SrvCharacterListReply" where
  "addCharacter mem name race level job face hair delete_time d =
    d\<lparr>m_character_count := m_character_count d + 1,
      m_character_list := m_character_list d @ [char_info_new mem name race level job delete_time 0 face hair]\<rparr>"

definition addEquipItem :: "u8 \<Rightarrow> u8 \<Rightarrow> u16 \<Rightarrow> u16 \<Rightarrow> u8 \<Rightarrow> u8 \<Rightarrow> SrvCharacterListReply \<Rightarrow> SrvCharacterListReply" where
  "addEquipItem char_id slot item_id gem socket grade d =
    (if char_id < m_character_count d \<and> unat slot < MAX_EQUIPPED_ITEMS then
       let c = m_character_list d ! unat char_id;
           item = equip_item (ci_items c ! unat slot) item_id gem socket grade
       in d\<lparr>m_character_list := (m_character_list d)[unat char_id := c\<lparr>ci_items := (ci_items c)[unat slot := item]\<rparr>]\<rparr>
     else d)"

definition char_info_put :: "char_info \<Rightarrow> CRosePacket \<Rightarrow> CRosePacket" where
  "char_info_put c = chain [put_string (ci_name c), put_u8 (ci_race c), put_u16 (ci_level c), put_u16 (ci_job c),
     put_u32 (ci_remain_sec_until_delete c), put_u8 (ci_platinum c), put_u32 (ci_face c), put_u32 (ci_hair c),
     put_list put_u32 (ci_items c)]"

definition SrvCharacterListReply_pack :: "SrvCharacterListReply \<Rightarrow> CRosePacket \<Rightarrow> CRosePacket" where
  "SrvCharacterListReply_pack d = chain [put_u8 (m_character_count d), put_list char_info_put (m_character_list d)]"

definition char_info_get :: "CRosePacket \<Rightarrow> char_info \<times> CRosePacket" where
  "char_info_get = scomp get_string (\<lambda>name. scomp get_u8 (\<lambda>race. scomp get_u16 (\<lambda>level. scomp get_u16 (\<lambda>job.
     scomp get_u32 (\<lambda>remain. scomp get_u8 (\<lambda>platinum. scomp get_u32 (\<lambda>face. scomp get_u32 (\<lambda>hair.
     scomp (get_list get_u32 MAX_EQUIPPED_ITEMS) (\<lambda>items.
     Pair \<lparr>ci_remain_sec_until_delete = remain, ci_level = level, ci_job = job, ci_race = race, ci_platinum = platinum,
       ci_items = items, ci_name = name, ci_face = face, ci_hair = hair\<rparr>)))))))))"

definition SrvCharacterListReply_read :: "CRosePacket \<Rightarrow> SrvCharacterListReply \<times> CRosePacket" where
  "SrvCharacterListReply_read = scomp get_u8 (\<lambda>n. scomp (get_list char_info_get (unat n)) (\<lambda>cs.
     Pair \<lparr>m_character_count = n, m_character_list = cs\<rparr>))"

definition SrvCharacterListReply_recv :: "byte list \<Rightarrow> byte list \<Rightarrow> packet_error + SrvCharacterListReply" where
  "SrvCharacterListReply_recv = recv_packet PAKCC_CHAR_LIST_REPLY SrvCharacterListReply_read"

section \<open>The reply is readable\<close>

definition char_info_wire :: "char_info \<Rightarrow> byte list" where
  "char_info_wire c = (ci_name c @ [0]) @ [ci_race c] @ le_bytes 2 (ci_level c) @ le_bytes 2 (ci_job c)
     @ le_bytes 4 (ci_remain_sec_until_delete c) @ [ci_platinum c] @ le_bytes 4 (ci_face c) @ le_bytes 4 (ci_hair c)
     @ concat (map (le_bytes 4) (ci_items c))"

definition SrvCharacterListReply_wire :: "SrvCharacterListReply \<Rightarrow> byte list" where
  "SrvCharacterListReply_wire d = [m_character_count d] @ concat (map char_info_wire (m_character_list d))"

definition SrvCharacterListReply_ok :: "SrvCharacterListReply \<Rightarrow> bool" where
  "SrvCharacterListReply_ok d \<longleftrightarrow> length (m_character_list d) = unat (m_character_count d)
     \<and> list_all (\<lambda>c. 0 \<notin> set (ci_name c) \<and> length (ci_items c) = MAX_EQUIPPED_ITEMS) (m_character_list d)"

lemma parses_char_info:
  assumes "0 \<notin> set (ci_name c)" and "length (ci_items c) = MAX_EQUIPPED_ITEMS"
  shows "parses char_info_get c (char_info_wire c)"
proof -
  have "parses (get_list get_u32 MAX_EQUIPPED_ITEMS) (ci_items c) (concat (map (le_bytes 4) (ci_items c)))"
    unfolding assms(2) [symmetric] by (rule parses_get_list) (rule parses_rules refl)+
  then show ?thesis
    unfolding char_info_get_def char_info_wire_def by - (rule parses_rules | simp add: assms(1))+
qed

interpretation SrvCharacterListReply: serial SrvCharacterListReply_pack SrvCharacterListReply_wire
  SrvCharacterListReply_read SrvCharacterListReply_ok
proof
  have "emits (char_info_put c) (char_info_wire c)" for c
    unfolding char_info_put_def char_info_wire_def by (rule emits_rules emits_put_list)+
  then show "emits (SrvCharacterListReply_pack d) (SrvCharacterListReply_wire d)" for d
    unfolding SrvCharacterListReply_pack_def SrvCharacterListReply_wire_def by (intro emits_rules emits_put_list)
  show "parses SrvCharacterListReply_read d (SrvCharacterListReply_wire d)" if "SrvCharacterListReply_ok d" for d
  proof -
    have "parses (get_list char_info_get (unat (m_character_count d))) (m_character_list d)
        (concat (map char_info_wire (m_character_list d)))"
      unfolding that [unfolded SrvCharacterListReply_ok_def, THEN conjunct1, symmetric]
      using that by (intro parses_get_list) (auto simp: SrvCharacterListReply_ok_def list_all_iff intro: parses_char_info)
    then show ?thesis
      unfolding SrvCharacterListReply_read_def SrvCharacterListReply_wire_def by - (rule parses_rules | simp)+
  qed
qed

text \<open>What the operations build is readable, as long as there are fewer than 256 characters.\<close>

lemma new_ok: "SrvCharacterListReply_ok SrvCharacterListReply_new"
  by (simp add: SrvCharacterListReply_ok_def SrvCharacterListReply_new_def)

lemma addCharacter_ok:
  assumes "SrvCharacterListReply_ok d" and "0 \<notin> set name" and "length (m_character_list d) < 255"
  shows "SrvCharacterListReply_ok (addCharacter mem name race level job face hair del d)"
proof -
  have "unat (m_character_count d + 1) = Suc (unat (m_character_count d))"
    using assms(1,3) by (subst unat_plus_simple [THEN iffD1]) (auto simp: SrvCharacterListReply_ok_def word_le_nat_alt unat_word_ariths)
  then show ?thesis
    using assms(1,2) by (simp add: SrvCharacterListReply_ok_def addCharacter_def char_info_new_def)
qed

lemma addEquipItem_ok:
  assumes "SrvCharacterListReply_ok d"
  shows "SrvCharacterListReply_ok (addEquipItem c slot i gem socket grade d)"
proof -
  let ?l = "m_character_list d" and ?c = "m_character_list d ! unat c"
  have "list_all (\<lambda>c. 0 \<notin> set (ci_name c) \<and> length (ci_items c) = MAX_EQUIPPED_ITEMS)
      (?l[unat c := ?c\<lparr>ci_items := (ci_items ?c)[unat slot := w]\<rparr>])" for w
  proof (cases "unat c < length ?l")
    case True
    then have "0 \<notin> set (ci_name ?c) \<and> length (ci_items ?c) = MAX_EQUIPPED_ITEMS"
      using assms by (simp add: SrvCharacterListReply_ok_def list_all_length)
    then show ?thesis
      using assms by (auto simp: SrvCharacterListReply_ok_def list_all_iff dest!: set_update_subset_insert [THEN subsetD])
  qed (use assms in \<open>simp add: SrvCharacterListReply_ok_def list_update_beyond linorder_not_less\<close>)
  then show ?thesis
    using assms by (auto simp: SrvCharacterListReply_ok_def addEquipItem_def Let_def)
qed

end
