(* ===== verification/CCharClient.thy ===== *)
theory CCharClient
  imports ClientLife CharacterList
begin

text \<open>
  The clients of the char server, who pick a character: \<open>char/src/ccharclient.cpp\<close>.
  As in the login server the database is an environment that
  answers queries, possibly with an exception (\<open>None\<close>). \<open>m_char_sql\<close> is the traffic with the database: the
  statements that change it and, for the two queries that say what a client may do, what they returned.
\<close>

section \<open>Clients\<close>

datatype char_sql =
    SelectSession u32 u32 u32
  | SelectCharacters u32 "u32 list"
  | TouchSession u32 int
  | CreateChar cstring u32 u8 u8 u8 u8
  | DeleteCharacter u32 cstring
  | UpdateSessionWithCharacter u32 u32
  | RemoveSession u32
  | AccountOffline u32

record CCharClient = CRoseSocket +
  m_accessRights :: u16
  m_loginState :: eSTATE
  m_charSessionId :: u32
  m_userId :: u32
  m_charChannelId :: u32
  m_characterRealId :: "u32 list"
  m_char_sql :: "char_sql list"

text \<open>A row of the character table, and the environment of a step: the time, the uninitialised memory of
  buffers and of the list of worn items, the static variable \<open>time\<close> of \<open>updateSession\<close>, which all clients
  share, the peer servers, and the database.\<close>

record list_row =
  lr_id :: int
  lr_name :: cstring
  lr_race :: int
  lr_level :: int
  lr_job :: int
  lr_face :: int
  lr_hair :: int
  lr_deleteDate :: int

record char_env =
  c_now :: u32
  c_memory :: "byte list"
  c_garbage :: SrvScreenShotTimeReply
  c_equip_memory :: "nat \<Rightarrow> u32 list"
  c_tick :: int
  c_last_update :: int
  c_iscs :: "CRoseSocket list"
  q_join :: "u32 \<Rightarrow> cstring \<Rightarrow> (int \<times> int) option option"
  q_characters :: "u32 \<Rightarrow> list_row list option"
  q_worn :: "int \<Rightarrow> (int \<times> int) list option"
  q_map :: "u32 \<Rightarrow> int option"
  q_execute :: bool

definition CCharClient_new :: "CNetwork_Asio \<Rightarrow> CCharClient" where
  "CCharClient_new sock = CRoseSocket.CRoseSocket.extend (CRoseClient_new sock)
     (CCharClient.CCharClient.fields 0 DEFAULT 0 0 0 [] [])"

definition char_log :: "char_sql list \<Rightarrow> CCharClient \<Rightarrow> CCharClient" where
  "char_log qs s = s\<lparr>m_char_sql := m_char_sql s @ qs\<rparr>"

text \<open>\<open>online\<close>: what the account table says of the account, if it has it. If the database throws here, the exception
  leaves the callback; only the way without exceptions is modelled.\<close>

definition CCharClient_OnDisconnected :: "(u32 \<Rightarrow> bool option) \<Rightarrow> CCharClient \<Rightarrow> CCharClient" where
  "CCharClient_OnDisconnected online s =
    char_log ((if online (m_userId s) = Some True then [RemoveSession (m_userId s)] else [])
      @ [AccountOffline (m_userId s)]) s"

definition char_callbacks :: "u32 list list \<Rightarrow> (u32 \<Rightarrow> bool option) \<Rightarrow> CCharClient callbacks" where
  "char_callbacks rt online = (client_callbacks rt)\<lparr>OnDisconnected := CCharClient_OnDisconnected online\<rparr>"

definition updateSession :: "char_env \<Rightarrow> CCharClient \<Rightarrow> CCharClient option" where
  "updateSession env s =
    (if c_tick env - c_last_update env < 120000 then Some s
     else if \<not> q_execute env then None
     else Some (char_log [TouchSession (m_userId s) (c_tick env)] s))"

definition join_replied :: "CCharClient callbacks \<Rightarrow> char_env \<Rightarrow> u8 \<Rightarrow> u32 \<Rightarrow> CCharClient
    \<Rightarrow> (bool \<times> CCharClient) option" where
  "join_replied cb env result i s = map_option (Pair True) (send_packet cb PAKSC_JOIN_SERVER_REPLY
     (SrvJoinServerReply_pack \<lparr>SrvJoinServerReply.m_result = result, m_id = i, m_payFlag = 0\<rparr>) (c_memory env) s)"

definition CCharClient_JoinServerReply :: "CCharClient callbacks \<Rightarrow> char_env \<Rightarrow> CliJoinServerReq \<Rightarrow> CCharClient
    \<Rightarrow> (bool \<times> CCharClient) option" where
  "CCharClient_JoinServerReply cb env P s =
    (if m_loginState s \<noteq> DEFAULT then Some (True, s)
     else
       let sessionID = CliJoinServerReq.m_sessionId P; password = escapeData (CliJoinServerReq.m_password P) in
       case q_join env sessionID password of
         None \<Rightarrow> join_replied cb env 1 0 s
       | Some None \<Rightarrow> join_replied cb env 3 0 s
       | Some (Some (userid, channelid)) \<Rightarrow>
           join_replied cb env 0 (c_now env)
             (char_log [SelectSession sessionID (word_of_int userid) (word_of_int channelid)]
               (s\<lparr>m_loginState := LOGGEDIN, m_userId := word_of_int userid, m_charChannelId := word_of_int channelid,
                 m_charSessionId := sessionID\<rparr>)))"

text \<open>The loop of \<open>SendCharListReply\<close> over the rows of the character table: \<open>k\<close> counts them, the inner loop
  adds the worn items of each.\<close>

definition add_row :: "char_env \<Rightarrow> nat \<Rightarrow> list_row \<Rightarrow> (int \<times> int) list \<Rightarrow> SrvCharacterListReply
    \<Rightarrow> SrvCharacterListReply" where
  "add_row env k row worn d =
    fold (\<lambda>(slot, itemid). addEquipItem (of_nat k) (getPosition (word_of_int slot)) (word_of_int itemid) 0 0 0) worn
      (addCharacter (c_equip_memory env k) (lr_name row) (word_of_int (lr_race row)) (word_of_int (lr_level row))
        (word_of_int (lr_job row)) (word_of_int (lr_face row)) (word_of_int (lr_hair row))
        (word_of_int (lr_deleteDate row)) d)"

fun list_rows :: "char_env \<Rightarrow> nat \<Rightarrow> list_row list \<Rightarrow> SrvCharacterListReply \<Rightarrow> SrvCharacterListReply option" where
  "list_rows env k [] d = Some d"
| "list_rows env k (row # rows) d =
    (case q_worn env (lr_id row) of
       None \<Rightarrow> None
     | Some worn \<Rightarrow> list_rows env (Suc k) rows (add_row env k row worn d))"

definition SendCharListReply :: "CCharClient callbacks \<Rightarrow> char_env \<Rightarrow> CCharClient \<Rightarrow> (bool \<times> CCharClient) option" where
  "SendCharListReply cb env s =
    (if m_loginState s \<noteq> LOGGEDIN then Some (True, s)
     else case q_characters env (m_userId s) of
       None \<Rightarrow> None
     | Some rows \<Rightarrow>
         let ids = map (\<lambda>row. word_of_int (lr_id row)) rows;
             s1 = char_log [SelectCharacters (m_userId s) ids] (s\<lparr>m_characterRealId := ids\<rparr>)
         in case list_rows env 0 rows SrvCharacterListReply_new of
              None \<Rightarrow> None
            | Some d \<Rightarrow> map_option (Pair True)
                (send_packet cb PAKCC_CHAR_LIST_REPLY (SrvCharacterListReply_pack d) (c_memory env) s1))"

definition SendCharCreateReply :: "CCharClient callbacks \<Rightarrow> char_env \<Rightarrow> CliCreateCharReq \<Rightarrow> CCharClient
    \<Rightarrow> (bool \<times> CCharClient) option" where
  "SendCharCreateReply cb env P s =
    (if m_loginState s \<noteq> LOGGEDIN then Some (True, s)
     else
       let s1 = (if q_execute env then char_log [CreateChar (escapeData (CliCreateCharReq.m_name P)) (m_userId s)
             (CliCreateCharReq.m_race P) (CliCreateCharReq.m_face P) (CliCreateCharReq.m_hair P)
             (CliCreateCharReq.m_stone P)] s else s);
           res = (if q_execute env then 0 else 2)
       in map_option (Pair True) (send_packet cb PAKCC_CREATE_CHAR_REPLY
            (SrvCreateCharReply_pack \<lparr>SrvCreateCharReply.m_result = res, m_platinium = 0\<rparr>) (c_memory env) s1))"

definition SendCharDeleteReply :: "CCharClient callbacks \<Rightarrow> char_env \<Rightarrow> CliDeleteCharReq \<Rightarrow> CCharClient
    \<Rightarrow> (bool \<times> CCharClient) option" where
  "SendCharDeleteReply cb env P s =
    (if m_loginState s \<noteq> LOGGEDIN then Some (True, s)
     else if 6 < CliDeleteCharReq.m_charId P then Some (False, s)
     else
       let reply = (\<lambda>time. map_option (Pair True) \<circ> send_packet cb PAKCC_DELETE_CHAR_REPLY
             (SrvDeleteCharReply_pack \<lparr>SrvDeleteCharReply.m_remainingTime = time, m_name = CliDeleteCharReq.m_name P\<rparr>)
             (c_memory env))
       in if CliDeleteCharReq.m_isDelete P \<noteq> 0 then
            if \<not> q_execute env then None
            else reply (c_now env) (char_log [DeleteCharacter (m_userId s) (escapeData (CliDeleteCharReq.m_name P))] s)
          else reply 0 s)"

text \<open>The loop of \<open>SendCharSelectReply\<close> over the peer servers sends a packet for every map server that has
  the client's channel.\<close>

fun switch_server_to :: "CCharClient callbacks \<Rightarrow> char_env \<Rightarrow> u16 \<Rightarrow> CRoseSocket list \<Rightarrow> CCharClient \<Rightarrow> CCharClient option" where
  "switch_server_to cb env map_id [] s = Some s"
| "switch_server_to cb env map_id (server # servers) s =
    (if get_type server = server_type MAP_MASTER \<and> m_network_id server = m_charChannelId s
     then (case send_packet cb PAKCC_SWITCH_SERVER
                (SrvSwitchServer_pack \<lparr>SrvSwitchServer.m_port = m_network_port server + map_id,
                   m_sessionId = m_charSessionId s, m_sessionSeed = 0, m_ip = m_network_address server\<rparr>)
                (c_memory env) s of
             None \<Rightarrow> None
           | Some s1 \<Rightarrow> switch_server_to cb env map_id servers s1)
     else switch_server_to cb env map_id servers s)"

definition SendCharSelectReply :: "CCharClient callbacks \<Rightarrow> char_env \<Rightarrow> CliSelectCharReq \<Rightarrow> CCharClient
    \<Rightarrow> (bool \<times> CCharClient) option" where
  "SendCharSelectReply cb env P s =
    (if m_loginState s \<noteq> LOGGEDIN then Some (True, s)
     else
       let s1 = s\<lparr>m_loginState := TRANSFERING\<rparr>; selected_id = unat (CliSelectCharReq.m_charId P) in
       if length (m_characterRealId s1) < selected_id then Some (False, s1)
       else if selected_id = length (m_characterRealId s1) then None
       else if \<not> q_execute env then None
       else
         let cid = m_characterRealId s1 ! selected_id;
             s2 = char_log [UpdateSessionWithCharacter (m_charSessionId s1) cid] s1
         in case q_map env cid of
              None \<Rightarrow> None
            | Some m \<Rightarrow> map_option (Pair True) (switch_server_to cb env (word_of_int m) (c_iscs env) s2))"

definition CCharClient_HandlePacket :: "CCharClient callbacks \<Rightarrow> char_env \<Rightarrow> byte list \<Rightarrow> CCharClient
    \<Rightarrow> (bool \<times> CCharClient) option" where
  "CCharClient_HandlePacket cb env buf s =
    (let ty = packet_type buf;
         base = (\<lambda>s. map_option (\<lambda>r. (True, snd r))
           (CRoseSocket_HandlePacket cb (c_now env) (c_garbage env) (c_memory env) buf s))
     in if ty = PAKCS_JOIN_SERVER_REQ then
       (case CliJoinServerReq_recv (c_memory env) buf of Inl e \<Rightarrow> None | Inr P \<Rightarrow> CCharClient_JoinServerReply cb env P s)
     else if ty = PAKCS_CHAR_LIST_REQ then SendCharListReply cb env s
     else if ty = PAKCS_CREATE_CHAR_REQ then
       (case CliCreateCharReq_recv (c_memory env) buf of Inl e \<Rightarrow> None | Inr P \<Rightarrow> SendCharCreateReply cb env P s)
     else if ty = PAKCS_DELETE_CHAR_REQ then
       (case CliDeleteCharReq_recv (c_memory env) buf of Inl e \<Rightarrow> None | Inr P \<Rightarrow> SendCharDeleteReply cb env P s)
     else if ty = PAKCS_SELECT_CHAR_REQ then
       (case CliSelectCharReq_recv (c_memory env) buf of Inl e \<Rightarrow> None | Inr P \<Rightarrow> SendCharSelectReply cb env P s)
     else if ty = PAKCS_ALIVE then
       (if m_loginState s \<noteq> LOGGEDIN then Some (True, s)
        else case updateSession env s of None \<Rightarrow> None | Some s1 \<Rightarrow> base s1)
     else base s)"

section \<open>What the network does to a client\<close>

definition char_keeps :: "CCharClient \<Rightarrow> CCharClient \<Rightarrow> bool" where
  "char_keeps s t \<longleftrightarrow> m_loginState t = m_loginState s \<and> m_charSessionId t = m_charSessionId s \<and> m_userId t = m_userId s
     \<and> m_charChannelId t = m_charChannelId s \<and> m_characterRealId t = m_characterRealId s
     \<and> (\<exists>qs. m_char_sql t = m_char_sql s @ qs \<and> set qs \<subseteq> {RemoveSession (m_userId s), AccountOffline (m_userId s)})"

lemma char_keeps_trans: "char_keeps s t \<Longrightarrow> char_keeps t u \<Longrightarrow> char_keeps s u"
  by (auto simp: char_keeps_def)

interpretation char: owner "char_callbacks rt online" char_keeps
proof
  have same: "char_keeps s t" if "CRoseSocket.CRoseSocket.more s = CRoseSocket.CRoseSocket.more t" for s t
    using that by (cases s, cases t) (auto simp: char_keeps_def intro: exI [of _ "[]"])
  show "char_keeps s t" if "CRoseSocket.CRoseSocket.more s = CRoseSocket.CRoseSocket.more t" for s t
    by (rule same [OF that])
  show "char_keeps s (OnDisconnected (char_callbacks rt online) s)" for s
    by (auto simp: char_keeps_def char_callbacks_def CCharClient_OnDisconnected_def char_log_def)
  show "char_keeps s s'" if "OnReceived (char_callbacks rt online) s = Some (ok, s')" for s ok s'
    by (rule same) (use that receive_packet_more in \<open>auto simp: char_callbacks_def client_callbacks_def CRoseSocket_OnReceived_def\<close>)
qed (auto simp: char_keeps_def char_callbacks_def client_callbacks_def initCallbacks_def
    intro: exI [of _ "[]"] char_keeps_trans [unfolded char_keeps_def])

section \<open>The state machine of the char server\<close>

fun is_choice :: "char_sql \<Rightarrow> bool" where
  "is_choice (UpdateSessionWithCharacter sid cid) = True"
| "is_choice _ = False"

text \<open>Statements about the account \<open>uid\<close> and the session \<open>sid\<close>.\<close>

fun own_statement :: "u32 \<Rightarrow> u32 \<Rightarrow> char_sql \<Rightarrow> bool" where
  "own_statement uid sid (SelectSession s u c) = (u = uid \<and> s = sid)"
| "own_statement uid sid (SelectCharacters u cs) = (u = uid)"
| "own_statement uid sid (TouchSession u t) = (u = uid)"
| "own_statement uid sid (CreateChar n u r f h st) = (u = uid)"
| "own_statement uid sid (DeleteCharacter u n) = (u = uid)"
| "own_statement uid sid (UpdateSessionWithCharacter s c) = (s = sid)"
| "own_statement uid sid (RemoveSession u) = (u = uid)"
| "own_statement uid sid (AccountOffline u) = (u = uid)"

definition char_inv :: "CCharClient \<Rightarrow> bool" where
  "char_inv s \<longleftrightarrow>
    (if m_loginState s = DEFAULT
     then m_userId s = 0 \<and> m_characterRealId s = [] \<and> set (m_char_sql s) \<subseteq> {RemoveSession 0, AccountOffline 0}
     else (\<exists>ch. SelectSession (m_charSessionId s) (m_userId s) ch \<in> set (m_char_sql s))
       \<and> (\<forall>x \<in> set (m_char_sql s). own_statement (m_userId s) (m_charSessionId s) x \<or> x = RemoveSession 0 \<or> x = AccountOffline 0)
       \<and> (m_characterRealId s = [] \<or> SelectCharacters (m_userId s) (m_characterRealId s) \<in> set (m_char_sql s))
       \<and> (filter is_choice (m_char_sql s) = []
          \<or> m_loginState s = TRANSFERING \<and> (\<exists>cid \<in> set (m_characterRealId s).
              filter is_choice (m_char_sql s) = [UpdateSessionWithCharacter (m_charSessionId s) cid])))"

lemma char_inv_keeps:
  assumes "char_keeps s t" and "char_inv s"
  shows "char_inv t"
proof -
  obtain qs where k: "m_loginState t = m_loginState s" "m_charSessionId t = m_charSessionId s" "m_userId t = m_userId s"
      "m_characterRealId t = m_characterRealId s" "m_char_sql t = m_char_sql s @ qs"
    and qs: "set qs \<subseteq> {RemoveSession (m_userId s), AccountOffline (m_userId s)}"
    using assms(1) unfolding char_keeps_def by blast
  have "filter is_choice qs = []" using qs by (auto simp: filter_empty_conv)
  moreover have "\<forall>x \<in> set qs. own_statement (m_userId s) (m_charSessionId s) x" using qs by auto
  ultimately show ?thesis using assms(2) k qs unfolding char_inv_def by (auto split: if_splits)
qed

lemmas char_sends = char_inv_keeps [OF char.keeps_send_packet]

lemma char_inv_log:
  assumes "char_inv s" and "m_loginState s = LOGGEDIN"
    and "list_all (\<lambda>x. own_statement (m_userId s) (m_charSessionId s) x \<and> \<not> is_choice x) qs"
  shows "char_inv (char_log qs s)"
proof -
  have "filter is_choice qs = []" using assms(3) by (auto simp: filter_empty_conv list_all_iff)
  then show ?thesis using assms by (auto simp: char_inv_def char_log_def list_all_iff)
qed

lemma join_replied_inv:
  "join_replied (char_callbacks rt onl) env r i s = Some (ok, s') \<Longrightarrow> char_inv s \<Longrightarrow> char_inv s'"
  unfolding join_replied_def by (auto intro: char_sends)

lemma JoinServerReply_inv:
  assumes "CCharClient_JoinServerReply (char_callbacks rt onl) env P s = Some (ok, s')" and "char_inv s"
  shows "char_inv s'"
proof (cases "m_loginState s = DEFAULT")
  case True
  then have log: "set (m_char_sql s) \<subseteq> {RemoveSession 0, AccountOffline 0}" "m_characterRealId s = []"
    using assms(2) by (simp_all add: char_inv_def)
  then have "filter is_choice (m_char_sql s) = []" by (auto simp: filter_empty_conv)
  then have "char_inv (char_log [SelectSession sid u c]
      (s\<lparr>m_loginState := LOGGEDIN, m_userId := u, m_charChannelId := c, m_charSessionId := sid\<rparr>))" for sid u c
    using log by (auto simp: char_inv_def char_log_def)
  then show ?thesis
    using assms True by (auto simp: CCharClient_JoinServerReply_def Let_def split: option.splits elim!: join_replied_inv)
next
  case False
  then show ?thesis using assms by (simp add: CCharClient_JoinServerReply_def)
qed

lemma SendCharListReply_inv:
  assumes "SendCharListReply (char_callbacks rt onl) env s = Some (ok, s')" and "char_inv s"
  shows "char_inv s'"
proof (cases "m_loginState s = LOGGEDIN")
  case True
  have "char_inv (char_log [SelectCharacters (m_userId s) ids] (s\<lparr>m_characterRealId := ids\<rparr>))" for ids
    using assms(2) True by (auto simp: char_inv_def char_log_def)
  then show ?thesis
    using assms(1) True by (auto simp: SendCharListReply_def Let_def split: option.splits intro: char_sends)
next
  case False
  then show ?thesis using assms by (simp add: SendCharListReply_def)
qed

lemma SendCharCreateReply_inv:
  "SendCharCreateReply (char_callbacks rt onl) env P s = Some (ok, s') \<Longrightarrow> char_inv s \<Longrightarrow> char_inv s'"
  by (auto simp: SendCharCreateReply_def Let_def split: if_splits elim!: char_sends intro!: char_inv_log)

lemma SendCharDeleteReply_inv:
  "SendCharDeleteReply (char_callbacks rt onl) env P s = Some (ok, s') \<Longrightarrow> char_inv s \<Longrightarrow> char_inv s'"
  by (auto simp: SendCharDeleteReply_def Let_def split: if_splits elim!: char_sends intro!: char_inv_log)

lemma switch_server_keeps:
  "switch_server_to (char_callbacks rt onl) env m svrs s = Some s' \<Longrightarrow> char_keeps s s'"
proof (induction svrs arbitrary: s)
  case Nil
  then show ?case using char.keeps_refl by simp
next
  case (Cons v svrs)
  then show ?case using char_keeps_trans [OF char.keeps_send_packet] by (auto split: if_splits option.splits)
qed

lemma SendCharSelectReply_inv:
  assumes "SendCharSelectReply (char_callbacks rt onl) env P s = Some (ok, s')" and "char_inv s"
  shows "char_inv s'"
proof (cases "m_loginState s = LOGGEDIN")
  case True
  have "char_inv (s\<lparr>m_loginState := TRANSFERING\<rparr>)" using assms(2) True by (auto simp: char_inv_def)
  moreover have "char_inv (char_log [UpdateSessionWithCharacter (m_charSessionId s) (m_characterRealId s ! k)]
      (s\<lparr>m_loginState := TRANSFERING\<rparr>))" if "k < length (m_characterRealId s)" for k
    using assms(2) True nth_mem [OF that] by (auto simp: char_inv_def char_log_def)
  ultimately show ?thesis
    using assms(1) True char_inv_keeps [OF switch_server_keeps]
    by (auto simp: SendCharSelectReply_def Let_def split: if_splits option.splits)
next
  case False
  then show ?thesis using assms by (simp add: SendCharSelectReply_def)
qed

lemma base_inv:
  assumes "CRoseSocket_HandlePacket (char_callbacks rt onl) now garbage g buf s = Some (ok, s')" and "char_inv s"
  shows "char_inv s'"
  using assms char_sends by (auto simp: CRoseSocket_HandlePacket_def Let_def split: if_splits)

lemma updateSession_inv: "updateSession env s = Some s' \<Longrightarrow> char_inv s \<Longrightarrow> m_loginState s = LOGGEDIN \<Longrightarrow> char_inv s'"
  by (auto simp: updateSession_def split: if_splits intro!: char_inv_log)

lemma CCharClient_HandlePacket_inv:
  assumes "CCharClient_HandlePacket (char_callbacks rt onl) env buf s = Some (ok, s')" and "char_inv s"
  shows "char_inv s'"
  using assms
  by (auto simp: CCharClient_HandlePacket_def Let_def split: if_splits sum.splits option.splits
      intro: JoinServerReply_inv SendCharListReply_inv SendCharCreateReply_inv SendCharDeleteReply_inv
        SendCharSelectReply_inv base_inv updateSession_inv)

abbreviation char_reachable :: "u32 list list \<Rightarrow> CCharClient \<Rightarrow> bool" where
  "char_reachable rt \<equiv> client_life (\<lambda>(onl, env). char_callbacks rt onl)
     (\<lambda>(onl, env). CCharClient_HandlePacket (char_callbacks rt onl) env) (\<lambda>e s. s) CCharClient_new"

interpretation char_life: client_class "\<lambda>(onl, env). char_callbacks rt onl"
  "\<lambda>(onl, env). CCharClient_HandlePacket (char_callbacks rt onl) env" "\<lambda>e s. s" CCharClient_new char_keeps char_inv
proof (rule client_class.intro)
  show "char_inv (CCharClient_new sock)" for sock
    by (simp add: char_inv_def CCharClient_new_def CRoseSocket.CRoseSocket.defs CCharClient.CCharClient.defs)
  show "owner (case e of (onl, env) \<Rightarrow> char_callbacks rt onl) char_keeps" for e
    by (cases e) (simp add: char.owner_axioms)
qed (auto intro: char_inv_keeps CCharClient_HandlePacket_inv)

interpretation char_frames: client_codec "char_callbacks rt onl" rt
proof
  show "OnReceived (char_callbacks rt onl) = receive_packet (decodeClientHeader rt) (decodeClientBody rt)"
    by (simp add: char_callbacks_def client_callbacks_def CRoseSocket_OnReceived_def)
  show "OnReceive (char_callbacks rt onl) s = (True, s)" for s
    by (simp add: char_callbacks_def client_callbacks_def initCallbacks_def)
  show "\<not> m_active (snd (shutdown (char_callbacks rt onl) False t))" for t
    by (auto simp: shutdown_def disconnect_def char_callbacks_def client_callbacks_def initCallbacks_def Let_def)
qed

section \<open>A client that picks a character\<close>

definition sample_map_server :: CRoseSocket where
  "sample_map_server = (CRoseClient_new (CNetwork_Asio_new (replicate 2047 0) 0))
     \<lparr>m_network_id := 0, m_network_type := 3, m_network_port := 29200, m_network_address := [0x31]\<rparr>"

definition sample_char_env :: char_env where
  "sample_char_env = \<lparr>c_now = 1000, c_memory = replicate 2047 0,
     c_garbage = \<lparr>m_year = 0, m_month = 0, m_day = 0, m_hour = 0, m_min = 0\<rparr>,
     c_equip_memory = (\<lambda>_. replicate 8 0), c_tick = 0, c_last_update = 0, c_iscs = [sample_map_server],
     q_join = (\<lambda>sid p. Some (if sid = 77 \<and> p = replicate 32 0x61 then Some (5, 0) else None)),
     q_characters = (\<lambda>u. Some (if u = 5 then [\<lparr>lr_id = 40, lr_name = [0x52], lr_race = 0, lr_level = 3, lr_job = 0,
       lr_face = 1, lr_hair = 0, lr_deleteDate = 0\<rparr>] else [])),
     q_worn = (\<lambda>_. Some [(3, 120)]), q_map = (\<lambda>_. Some 20), q_execute = True\<rparr>"

definition sample_join :: CliJoinServerReq where
  "sample_join = \<lparr>CliJoinServerReq.m_sessionId = 77, m_password = replicate 32 0x61\<rparr>"

definition sample_choice :: CliSelectCharReq where
  "sample_choice = \<lparr>CliSelectCharReq.m_charId = 0, m_runMode = 0, m_rideMode = 0, m_name = [0x52]\<rparr>"

lemma sample_requests:
  "CliJoinServerReq_ok sample_join" "6 + length (CliJoinServerReq_wire sample_join) < MAX_PACKET_SIZE"
  "CliSelectCharReq_ok sample_choice" "6 + length (CliSelectCharReq_wire sample_choice) < MAX_PACKET_SIZE"
  by (simp_all add: CliJoinServerReq_ok_def CliJoinServerReq_wire_def sample_join_def CliSelectCharReq_ok_def
      CliSelectCharReq_wire_def sample_choice_def MAX_PACKET_SIZE_def)

lemmas char_packet_ids = PAKCS_JOIN_SERVER_REQ_def PAKCS_CHAR_LIST_REQ_def PAKCS_CREATE_CHAR_REQ_def
  PAKCS_DELETE_CHAR_REQ_def PAKCS_SELECT_CHAR_REQ_def PAKCS_ALIVE_def

definition sample_char_client :: CCharClient where
  "sample_char_client = (CCharClient_new (CNetwork_Asio_new (replicate 2047 0) 0))\<lparr>m_reading := Some 6\<rparr>"

lemmas new_char_defs = CCharClient_new_def CRoseClient_new_def CRoseSocket_new_def set_active_def
  reset_internal_buffer_def CNetwork_Asio_new_def CNetwork_Asio.CNetwork_Asio.defs CRoseSocket.CRoseSocket.defs
  CCharClient.CCharClient.defs

lemma sample_char_client_facts: "idle sample_char_client" "waiting sample_char_client"
  "m_recv_queue sample_char_client = []" "m_loginState sample_char_client = DEFAULT" "m_char_sql sample_char_client = []"
  by (simp_all add: sample_char_client_def new_char_defs idle_def waiting_def MAX_PACKET_SIZE_def)

lemma sample_char_client_started:
  "start_client (char_callbacks rt onl) 0 0 (CCharClient_new (CNetwork_Asio_new (replicate 2047 0) 0)) = Some sample_char_client"
  unfolding start_client_def
  by (subst char_frames.recv_data_start [where a = 0 and n = 6])
     (simp_all add: sample_char_client_def new_char_defs set_update_time_def set_id_def MAX_PACKET_SIZE_def)

text \<open>What the sample client has done so far.\<close>

definition stage :: "eSTATE \<Rightarrow> u32 list \<Rightarrow> char_sql list \<Rightarrow> CCharClient \<Rightarrow> bool" where
  "stage st cs log s \<longleftrightarrow> waiting s \<and> m_recv_queue s = [] \<and> m_discard_queue s \<noteq> [] \<and> m_loginState s = st
     \<and> m_userId s = 5 \<and> m_charSessionId s = 77 \<and> m_charChannelId s = 0 \<and> m_characterRealId s = cs \<and> m_char_sql s = log"

lemma stage_received:
  assumes "stage st cs log s" and "only_received s t" and "waiting t" and "m_recv_queue t = []"
  shows "stage st cs log t"
proof -
  have "m_discard_queue t = m_discard_queue s" "m_loginState t = m_loginState s" "m_userId t = m_userId s"
      "m_charSessionId t = m_charSessionId s" "m_charChannelId t = m_charChannelId s"
      "m_characterRealId t = m_characterRealId s" "m_char_sql t = m_char_sql s"
    by (subst assms(2) [unfolded only_received_def], simp)+
  then show ?thesis using assms(1,3,4) by (simp add: stage_def)
qed

lemma char_exchange:
  assumes "char_reachable rt s" and "stage st cs log s" and "6 + length bs < MAX_PACKET_SIZE" and "unat ty < 2 ^ 11"
    and "\<And>t crc. stage st cs log t \<Longrightarrow> \<exists>t'. CCharClient_HandlePacket (char_callbacks rt (\<lambda>_. None)) sample_char_env
        (header_bytes (length bs) ty crc @ bs) t = Some (True, t') \<and> Q t'"
  shows "\<exists>s'. char_reachable rt s' \<and> Q s'"
proof (rule char_frames.exchange [where e = "(\<lambda>_. None, sample_char_env)" and onl = "\<lambda>_. None", OF assms(1)])
  show "\<exists>t'. (case (\<lambda>_. None, sample_char_env) of (onl, env) \<Rightarrow> CCharClient_HandlePacket (char_callbacks rt onl) env)
      (header_bytes (length bs) ty crc @ bs) t = Some (True, t') \<and> Q t'"
    if "only_received s t" "waiting t" "m_recv_queue t = []" for t crc
    using assms(5) [OF stage_received [OF assms(2) that]] by simp
qed (use assms(2-4) in \<open>simp_all add: stage_def\<close>)

lemma char_OnSend: "OnSend (char_callbacks rt onl) = CRoseSocket_OnSend rt"
  by (simp add: char_callbacks_def client_callbacks_def)

lemma sample_joined:
  "\<exists>s. char_reachable rt s \<and> stage LOGGEDIN [] [SelectSession 77 5 0] s"
proof (rule char_frames.exchange [where e = "(\<lambda>_. None, sample_char_env)" and onl = "\<lambda>_. None" and s = sample_char_client
      and bs = "CliJoinServerReq_wire sample_join" and ty = PAKCS_JOIN_SERVER_REQ])
  show "char_reachable rt sample_char_client"
    by (rule client_life.connected [where e = "(\<lambda>_. None, sample_char_env)"])
       (unfold prod.case, rule sample_char_client_started)
next
  fix t crc
  assume t: "only_received sample_char_client t" "waiting t" "m_recv_queue t = []"
  let ?buf = "header_bytes (length (CliJoinServerReq_wire sample_join)) PAKCS_JOIN_SERVER_REQ crc @ CliJoinServerReq_wire sample_join"
  have tf: "idle t" "m_loginState t = DEFAULT" "m_char_sql t = []" "m_characterRealId t = []"
    using sample_char_client_facts
    by (subst t(1) [unfolded only_received_def], simp add: idle_def sample_char_client_def new_char_defs)+
  have "CliJoinServerReq_recv (c_memory sample_char_env) ?buf = Inr sample_join"
    using CliJoinServerReq.recv_wire [OF sample_requests(1,2), of "c_memory sample_char_env"]
    by (simp add: CliJoinServerReq_recv_def sample_char_env_def MAX_PACKET_SIZE_def)
  moreover have "escapeData (replicate 32 0x61) = replicate 32 0x61" by code_simp
  moreover note send_packet_idle [OF SrvJoinServerReply.emits_pack [of "\<lparr>SrvJoinServerReply.m_result = 0, m_id = 1000, m_payFlag = 0\<rparr>"],
      where g = "replicate 2047 0" and c = "char_log [SelectSession 77 5 0]
        (t\<lparr>m_loginState := LOGGEDIN, m_userId := 5, m_charChannelId := 0, m_charSessionId := 77\<rparr>)" and ty = PAKSC_JOIN_SERVER_REPLY,
      OF _ _ _ char_OnSend [of rt "\<lambda>_. None"]]
  ultimately show "\<exists>t'. (case (\<lambda>_. None, sample_char_env) of (onl, env) \<Rightarrow> CCharClient_HandlePacket (char_callbacks rt onl) env)
      ?buf t = Some (True, t') \<and> stage LOGGEDIN [] [SelectSession 77 5 0] t'"
    using tf t(2,3)
    by (auto simp: CCharClient_HandlePacket_def CCharClient_JoinServerReply_def join_replied_def sample_join_def
        sample_char_env_def idle_def char_log_def SrvJoinServerReply_wire_def MAX_PACKET_SIZE_def writing_def stage_def waiting_def)
qed (use sample_char_client_facts sample_requests in \<open>simp_all add: char_packet_ids\<close>)

lemma stage_send:
  "stage st cs log t \<Longrightarrow> \<exists>t'. send_packet cb ty pack g t = Some t' \<and> stage st cs log t'"
  using send_packet_busy [of t cb ty pack g] by (auto simp: stage_def waiting_def)

lemma sample_listed:
  "\<exists>s. char_reachable rt s \<and> stage LOGGEDIN [40] [SelectSession 77 5 0, SelectCharacters 5 [40]] s"
proof -
  obtain s where s: "char_reachable rt s" "stage LOGGEDIN [] [SelectSession 77 5 0] s" using sample_joined by blast
  show ?thesis
  proof (rule char_exchange [OF s, where bs = "[]" and ty = PAKCS_CHAR_LIST_REQ])
    fix t crc
    assume t: "stage LOGGEDIN [] [SelectSession 77 5 0] t"
    let ?t = "char_log [SelectCharacters 5 [40]] (t\<lparr>m_characterRealId := [40]\<rparr>)"
    have u: "m_userId t = 5" "m_loginState t = LOGGEDIN" using t by (simp_all add: stage_def)
    have "stage LOGGEDIN [40] [SelectSession 77 5 0, SelectCharacters 5 [40]] ?t"
      using t by (simp add: stage_def char_log_def waiting_def)
    note st = stage_send [OF this]
    obtain rows d where q: "q_characters sample_char_env 5 = Some rows" "map (\<lambda>row. word_of_int (lr_id row)) rows = [40 :: u32]"
        "list_rows sample_char_env 0 rows SrvCharacterListReply_new = Some d"
      by (simp add: sample_char_env_def)
    from st [of "char_callbacks rt (\<lambda>_. None)" PAKCC_CHAR_LIST_REPLY "SrvCharacterListReply_pack d" "c_memory sample_char_env"]
    show "\<exists>t'. CCharClient_HandlePacket (char_callbacks rt (\<lambda>_. None)) sample_char_env
        (header_bytes (length []) PAKCS_CHAR_LIST_REQ crc @ []) t = Some (True, t')
      \<and> stage LOGGEDIN [40] [SelectSession 77 5 0, SelectCharacters 5 [40]] t'"
      using packet_type_header [of 0 PAKCS_CHAR_LIST_REQ crc "[]"] u q
      by (auto simp: CCharClient_HandlePacket_def SendCharListReply_def Let_def char_packet_ids)
  qed (simp_all add: MAX_PACKET_SIZE_def char_packet_ids)
qed

lemma sample_chosen:
  "\<exists>s. char_reachable rt s \<and> stage TRANSFERING [40]
     [SelectSession 77 5 0, SelectCharacters 5 [40], UpdateSessionWithCharacter 77 40] s"
proof -
  obtain s where s: "char_reachable rt s" "stage LOGGEDIN [40] [SelectSession 77 5 0, SelectCharacters 5 [40]] s"
    using sample_listed by blast
  show ?thesis
  proof (rule char_exchange [OF s, where bs = "CliSelectCharReq_wire sample_choice" and ty = PAKCS_SELECT_CHAR_REQ])
    fix t crc
    assume t: "stage LOGGEDIN [40] [SelectSession 77 5 0, SelectCharacters 5 [40]] t"
    let ?buf = "header_bytes (length (CliSelectCharReq_wire sample_choice)) PAKCS_SELECT_CHAR_REQ crc @ CliSelectCharReq_wire sample_choice"
    let ?t = "char_log [UpdateSessionWithCharacter 77 40] (t\<lparr>m_loginState := TRANSFERING\<rparr>)"
    have u: "m_characterRealId t = [40]" "m_loginState t = LOGGEDIN" "m_charSessionId t = 77" "m_charChannelId t = 0"
      using t by (simp_all add: stage_def)
    have recv: "CliSelectCharReq_recv (c_memory sample_char_env) ?buf = Inr sample_choice"
      using CliSelectCharReq.recv_wire [OF sample_requests(3,4), of "c_memory sample_char_env"]
      by (simp add: CliSelectCharReq_recv_def sample_char_env_def MAX_PACKET_SIZE_def)
    have "stage TRANSFERING [40] [SelectSession 77 5 0, SelectCharacters 5 [40], UpdateSessionWithCharacter 77 40] ?t"
      using t by (simp add: stage_def char_log_def waiting_def)
    from stage_send [OF this] obtain t' where
      "send_packet (char_callbacks rt (\<lambda>_. None)) PAKCC_SWITCH_SERVER (SrvSwitchServer_pack
         \<lparr>SrvSwitchServer.m_port = 29220, m_sessionId = 77, m_sessionSeed = 0, m_ip = [0x31]\<rparr>) (c_memory sample_char_env) ?t = Some t'"
      "stage TRANSFERING [40] [SelectSession 77 5 0, SelectCharacters 5 [40], UpdateSessionWithCharacter 77 40] t'"
      by blast
    then show "\<exists>t'. CCharClient_HandlePacket (char_callbacks rt (\<lambda>_. None)) sample_char_env ?buf t = Some (True, t')
      \<and> stage TRANSFERING [40] [SelectSession 77 5 0, SelectCharacters 5 [40], UpdateSessionWithCharacter 77 40] t'"
      using recv u
      by (simp add: CCharClient_HandlePacket_def SendCharSelectReply_def sample_char_env_def sample_choice_def char_packet_ids
          sample_map_server_def get_type_def char_log_def)
  qed (use sample_requests in \<open>simp_all add: char_packet_ids\<close>)
qed

text \<open>A client that has chosen: what \<open>SendCharSelectReply\<close> does when one map server has the client's channel.\<close>

lemma switch_server_to_none:
  "filter (\<lambda>v. get_type v = server_type MAP_MASTER \<and> m_network_id v = m_charChannelId u) vs = [] \<Longrightarrow>
    switch_server_to cb env k vs u = Some u"
  by (induction vs) (auto split: if_splits)

lemma switch_server_to_one:
  assumes "filter (\<lambda>v. get_type v = server_type MAP_MASTER \<and> m_network_id v = m_charChannelId u) vs = [svr]"
    and "send_packet cb PAKCC_SWITCH_SERVER (SrvSwitchServer_pack \<lparr>SrvSwitchServer.m_port = m_network_port svr + k,
       m_sessionId = m_charSessionId u, m_sessionSeed = 0, m_ip = m_network_address svr\<rparr>) (c_memory env) u = Some (writing img u)"
  shows "switch_server_to cb env k vs u = Some (writing img u)"
  using assms
proof (induction vs)
  case (Cons v vs)
  have "switch_server_to cb env k vs (writing img u) = Some (writing img u)"
    if "filter (\<lambda>v. get_type v = server_type MAP_MASTER \<and> m_network_id v = m_charChannelId u) vs = []"
    using that by (intro switch_server_to_none) (simp add: writing_def)
  with Cons show ?case by (auto split: if_splits)
qed simp

lemma select_switches:
  assumes "idle s" and "m_loginState s = LOGGEDIN" and "q_execute env"
    and "unat (CliSelectCharReq.m_charId P) < length (m_characterRealId s)"
    and "m_characterRealId s ! unat (CliSelectCharReq.m_charId P) = cid" and "q_map env cid = Some m"
    and "filter (\<lambda>v. get_type v = server_type MAP_MASTER \<and> m_network_id v = m_charChannelId s) (c_iscs env) = [svr]"
    and "length (c_memory env) = MAX_PACKET_SIZE" and "length (m_network_address svr) < 2000"
  shows "SendCharSelectReply (char_callbacks rt onl) env P s = Some (True, writing
     (wire_image rt PAKCC_SWITCH_SERVER (SrvSwitchServer_wire
        \<lparr>SrvSwitchServer.m_port = m_network_port svr + word_of_int m, m_sessionId = m_charSessionId s, m_sessionSeed = 0,
         m_ip = m_network_address svr\<rparr>))
     (char_log [UpdateSessionWithCharacter (m_charSessionId s) cid] (s\<lparr>m_loginState := TRANSFERING\<rparr>)))"
proof -
  let ?d = "\<lparr>SrvSwitchServer.m_port = m_network_port svr + word_of_int m, m_sessionId = m_charSessionId s, m_sessionSeed = 0,
      m_ip = m_network_address svr\<rparr>"
  let ?img = "wire_image rt PAKCC_SWITCH_SERVER (SrvSwitchServer_wire ?d)"
  define t where "t = char_log [UpdateSessionWithCharacter (m_charSessionId s) cid] (s\<lparr>m_loginState := TRANSFERING\<rparr>)"
  have t: "idle t" "m_charChannelId t = m_charChannelId s" "m_charSessionId t = m_charSessionId s"
    using assms(1) by (simp_all add: t_def char_log_def idle_def)
  have "send_packet (char_callbacks rt onl) PAKCC_SWITCH_SERVER (SrvSwitchServer_pack ?d) (c_memory env) t = Some (writing ?img t)"
    by (rule send_packet_idle [OF SrvSwitchServer.emits_pack assms(8) _ t(1) char_OnSend])
       (use assms(9) in \<open>simp add: SrvSwitchServer_wire_def MAX_PACKET_SIZE_def\<close>)
  then have "switch_server_to (char_callbacks rt onl) env (word_of_int m) (c_iscs env) t = Some (writing ?img t)"
    using assms(7) t(2,3) by (intro switch_server_to_one) simp_all
  then show ?thesis using assms(2-6) by (simp add: SendCharSelectReply_def t_def [symmetric])
qed

section \<open>Properties\<close>

text \<open>C10. Choosing a character. Over the whole life of a client, a session is only given a character while the
  client is being transferred, it is the session the client joined with the right password, the character
  is one the database listed for the account of that session, and this happens at most once.\<close>

theorem char_choice_sound:
  assumes "char_reachable rt s" and "UpdateSessionWithCharacter sid cid \<in> set (m_char_sql s)"
  shows "m_loginState s = TRANSFERING \<and> sid = m_charSessionId s
    \<and> (\<exists>ch. SelectSession sid (m_userId s) ch \<in> set (m_char_sql s))
    \<and> (\<exists>cs. SelectCharacters (m_userId s) cs \<in> set (m_char_sql s) \<and> cid \<in> set cs)
    \<and> length (filter is_choice (m_char_sql s)) = 1"
proof -
  have inv: "char_inv s" by (rule char_life.life_inv [OF assms(1)])
  have mem: "UpdateSessionWithCharacter sid cid \<in> set (filter is_choice (m_char_sql s))" using assms(2) by simp
  then have ne: "filter is_choice (m_char_sql s) \<noteq> []" by (metis empty_iff list.set(1))
  have "m_loginState s \<noteq> DEFAULT" using inv assms(2) by (auto simp: char_inv_def)
  then obtain c ch where c: "c \<in> set (m_characterRealId s)" "m_loginState s = TRANSFERING"
      "filter is_choice (m_char_sql s) = [UpdateSessionWithCharacter (m_charSessionId s) c]"
      "SelectSession (m_charSessionId s) (m_userId s) ch \<in> set (m_char_sql s)"
      "SelectCharacters (m_userId s) (m_characterRealId s) \<in> set (m_char_sql s)"
    using inv ne by (auto simp: char_inv_def)
  moreover have "sid = m_charSessionId s" "cid = c" using mem unfolding c(3) by simp_all
  ultimately show ?thesis by auto
qed

theorem char_choice_sound_witness:
  "\<exists>s. char_reachable sample_keys s \<and> m_loginState s = TRANSFERING \<and> m_charSessionId s = 77
    \<and> (\<exists>cs. SelectCharacters 5 cs \<in> set (m_char_sql s) \<and> 40 \<in> set cs)"
proof -
  obtain s where s: "char_reachable sample_keys s" "stage TRANSFERING [40]
      [SelectSession 77 5 0, SelectCharacters 5 [40], UpdateSessionWithCharacter 77 40] s"
    using sample_chosen [of sample_keys] by blast
  then have "UpdateSessionWithCharacter 77 40 \<in> set (m_char_sql s)" "m_userId s = 5" by (simp_all add: stage_def)
  from char_choice_sound [OF s(1) this(1)] this(2) s(1) show ?thesis by auto
qed

text \<open>C32. A client only reads and changes its own account: apart from the clean-up of the account 0, which a
  client that never joined runs when it disconnects, every statement names the account and the session that
  the database returned for the client's password.\<close>

theorem char_statements_own:
  assumes "char_reachable rt s" and "x \<in> set (m_char_sql s)" and "x \<noteq> RemoveSession 0" and "x \<noteq> AccountOffline 0"
  shows "own_statement (m_userId s) (m_charSessionId s) x \<and> m_loginState s \<noteq> DEFAULT
    \<and> (\<exists>ch. SelectSession (m_charSessionId s) (m_userId s) ch \<in> set (m_char_sql s))"
proof -
  have "char_inv s" by (rule char_life.life_inv [OF assms(1)])
  with assms(2-4) show ?thesis by (auto simp: char_inv_def split: if_splits)
qed

theorem char_statements_own_witness:
  "\<exists>s. char_reachable sample_keys s \<and> SelectCharacters 5 [40] \<in> set (m_char_sql s)
    \<and> own_statement (m_userId s) (m_charSessionId s) (SelectCharacters 5 [40])"
proof -
  obtain s where s: "char_reachable sample_keys s"
      "stage LOGGEDIN [40] [SelectSession 77 5 0, SelectCharacters 5 [40]] s"
    using sample_listed [of sample_keys] by blast
  then have "SelectCharacters 5 [40] \<in> set (m_char_sql s)" by (simp add: stage_def)
  with char_statements_own [OF s(1) this] s(1) show ?thesis by auto
qed

text \<open>Handing over. If one map server has the client's channel, a client that chooses one of its characters is
  sent to that server: the session gets the character, and one packet is written, the encryption of the
  address of the server with the port of the character's map.\<close>

theorem select_hands_over:
  assumes "idle s" and "m_loginState s = LOGGEDIN" and "q_execute env"
    and "unat (CliSelectCharReq.m_charId P) < length (m_characterRealId s)"
    and "m_characterRealId s ! unat (CliSelectCharReq.m_charId P) = cid" and "q_map env cid = Some m"
    and "filter (\<lambda>v. get_type v = server_type MAP_MASTER \<and> m_network_id v = m_charChannelId s) (c_iscs env) = [svr]"
    and "length (c_memory env) = MAX_PACKET_SIZE" and "length (m_network_address svr) < 2000"
  shows "\<exists>s'. SendCharSelectReply (char_callbacks rt onl) env P s = Some (True, s') \<and> m_loginState s' = TRANSFERING
    \<and> m_char_sql s' = m_char_sql s @ [UpdateSessionWithCharacter (m_charSessionId s) cid]
    \<and> m_written s' = m_written s @ [wire_image rt PAKCC_SWITCH_SERVER (SrvSwitchServer_wire
        \<lparr>SrvSwitchServer.m_port = m_network_port svr + word_of_int m, m_sessionId = m_charSessionId s, m_sessionSeed = 0,
         m_ip = m_network_address svr\<rparr>)]"
  using select_switches [OF assms] assms(1)
  by (simp add: char_log_def writing_def)

theorem select_hands_over_witness:
  "\<exists>s'. SendCharSelectReply (char_callbacks sample_keys (\<lambda>_. None)) sample_char_env sample_choice
      (sample_char_client\<lparr>m_loginState := LOGGEDIN, m_charSessionId := 77, m_characterRealId := [40]\<rparr>) = Some (True, s')
    \<and> m_char_sql s' = [UpdateSessionWithCharacter 77 40]"
  using select_hands_over [of "sample_char_client\<lparr>m_loginState := LOGGEDIN, m_charSessionId := 77, m_characterRealId := [40]\<rparr>"
      sample_char_env sample_choice 40 20 sample_map_server sample_keys "\<lambda>_. None"] sample_char_client_facts
  by (auto simp: idle_def sample_char_env_def sample_choice_def sample_map_server_def get_type_def MAX_PACKET_SIZE_def
      sample_char_client_def new_char_defs)

text \<open>The check of the chosen index is off by one: the index one past the list of characters reads outside the
  list, also when the client never asked for the list.\<close>

theorem select_past_end:
  assumes "m_loginState s = LOGGEDIN" and "unat (CliSelectCharReq.m_charId P) = length (m_characterRealId s)"
  shows "SendCharSelectReply cb env P s = None"
  using assms by (simp add: SendCharSelectReply_def)

theorem select_past_end_witness:
  "SendCharSelectReply (char_callbacks sample_keys (\<lambda>_. None)) sample_char_env sample_choice
     (sample_char_client\<lparr>m_loginState := LOGGEDIN\<rparr>) = None"
  using select_past_end [of "sample_char_client\<lparr>m_loginState := LOGGEDIN\<rparr>" sample_choice]
  by (simp add: sample_choice_def sample_char_client_def new_char_defs)

end
