(* ===== verification/IscServers.thy ===== *)
theory IscServers
  imports ClientLife
begin

text \<open>
  The connections between servers as the char server (\<open>char/src/ccharisc.cpp\<close>) and the map server
  (\<open>map/src/cmapisc.cpp\<close>) handle them: a map server registers with a char server, which passes the
  registration on to the login server. A server keeps its peers in a list, newest first; a peer is a pointer
  and its socket. The threads that keep a connection alive are modelled by one round of their loop.
\<close>

section \<open>Peers\<close>

type_synonym peers = "(nat \<times> CRoseSocket) list"

definition on_peer :: "nat \<Rightarrow> (CRoseSocket \<Rightarrow> CRoseSocket) \<Rightarrow> peers \<Rightarrow> peers" where
  "on_peer me f ps = map (\<lambda>(ptr, c). (ptr, if ptr = me then f c else c)) ps"

text \<open>The loops that send to the first peer of a kind.\<close>

fun send_first :: "CRoseSocket callbacks \<Rightarrow> (CRoseSocket \<Rightarrow> bool) \<Rightarrow> u16 \<Rightarrow> (CRosePacket \<Rightarrow> CRosePacket) \<Rightarrow> byte list
    \<Rightarrow> peers \<Rightarrow> (bool \<times> peers) option" where
  "send_first cb wants ty pack g [] = Some (False, [])"
| "send_first cb wants ty pack g ((ptr, c) # rest) =
    (if wants c then map_option (\<lambda>c'. (True, (ptr, c') # rest)) (send_packet cb ty pack g c)
     else map_option (\<lambda>(b, rest'). (b, (ptr, c) # rest')) (send_first cb wants ty pack g rest))"

section \<open>The char server\<close>

definition IsLogin :: "CRoseSocket \<Rightarrow> bool" where
  "IsLogin s \<longleftrightarrow> get_type s = server_type LOGIN"

text \<open>\<open>ty0\<close> is the local variable \<open>type\<close>, which only the registration of a map server sets.\<close>

definition CCharISC_ServerRegister :: "CRoseSocket callbacks \<Rightarrow> byte list \<Rightarrow> u8 \<Rightarrow> IscServerRegister \<Rightarrow> nat \<Rightarrow> peers
    \<Rightarrow> (bool \<times> peers) option" where
  "CCharISC_ServerRegister cb g ty0 P me ps =
    (let master = (IscServerRegister.m_serverType P = server_type MAP_MASTER);
         ps1 = (if master then on_peer me (\<lambda>c. c\<lparr>m_network_address := IscServerRegister.m_addr P,
             m_network_port := ucast (IscServerRegister.m_port P),
             m_network_type := ucast (IscServerRegister.m_serverType P)\<rparr>) ps else ps);
         type = (if master then IscServerRegister.m_serverType P else ty0);
         name = (if master then IscServerRegister.m_name P else []);
         right = (if master then IscServerRegister.m_right P else 0)
     in case map_of ps1 me of
          None \<Rightarrow> None
        | Some self \<Rightarrow> send_first cb IsLogin ISC_SERVER_REGISTER
            (IscServerRegister_pack \<lparr>IscServerRegister.m_serverType = type, m_name = name, m_addr = m_network_address self,
               m_port = ucast (m_network_port self), m_right = right, m_id = m_network_id self\<rparr>) g ps1)"

definition CCharISC_HandlePacket :: "CRoseSocket callbacks \<Rightarrow> byte list \<Rightarrow> u8 \<Rightarrow> byte list \<Rightarrow> nat \<Rightarrow> peers
    \<Rightarrow> (bool \<times> peers) option" where
  "CCharISC_HandlePacket cb g ty0 buf me ps =
    (let ty = packet_type buf in
     if ty = ISC_ALIVE \<or> ty = ISC_SERVER_AUTH \<or> ty = ISC_TRANSFER \<or> ty = ISC_SHUTDOWN then Some (True, ps)
     else if ty = ISC_SERVER_REGISTER then
       (case IscServerRegister_recv g buf of Inl e \<Rightarrow> None | Inr P \<Rightarrow> CCharISC_ServerRegister cb g ty0 P me ps)
     else Some (False, ps))"

text \<open>What a server says of itself when it registers: the configuration.\<close>

record server_config =
  cfg_name :: cstring
  cfg_ip :: cstring
  cfg_clientPort :: u32
  cfg_accessLevel :: u32

definition CCharISC_OnConnected :: "CRoseSocket callbacks \<Rightarrow> byte list \<Rightarrow> server_config \<Rightarrow> CRoseSocket \<Rightarrow> CRoseSocket option" where
  "CCharISC_OnConnected cb g cfg s =
    map_option (set_type (ucast (server_type LOGIN)))
      (send_packet cb ISC_SERVER_REGISTER (IscServerRegister_pack \<lparr>IscServerRegister.m_serverType = server_type CHAR_SERVER,
         m_name = cfg_name cfg, m_addr = cfg_ip cfg, m_port = cfg_clientPort cfg, m_right = cfg_accessLevel cfg,
         m_id = m_network_id s\<rparr>) g s)"

definition keep_alive :: "CRoseSocket callbacks \<Rightarrow> (CRoseSocket \<Rightarrow> bool) \<Rightarrow> byte list \<Rightarrow> int \<Rightarrow> CRoseSocket \<Rightarrow> CRoseSocket option" where
  "keep_alive cb wants g now s =
    (if m_active s \<and> wants s \<and> 60000 < now - m_update_time s then send_packet cb ISC_ALIVE (\<lambda>p. p) g s else Some s)"

text \<open>\<open>OnShutdown\<close>: \<open>failed\<close> says whether the connection could not be established again. The result is
  whether the shutdown goes on.\<close>

definition CCharISC_OnShutdown :: "CRoseSocket callbacks \<Rightarrow> byte list \<Rightarrow> bool \<Rightarrow> nat \<Rightarrow> peers \<Rightarrow> (bool \<times> peers) option" where
  "CCharISC_OnShutdown cb g failed me ps =
    (case map_of ps me of
       None \<Rightarrow> None
     | Some self \<Rightarrow>
         if \<not> m_active self then Some (True, ps)
         else if IsLogin self then
           let (ok, self1) = reconnect cb failed self in Some (\<not> ok, on_peer me (\<lambda>_. self1) ps)
         else map_option (\<lambda>(q, ps'). (True, ps'))
           (send_each cb (\<lambda>(ptr, c). IsLogin c)
             (IscShutdown_pack \<lparr>IscShutdown.m_serverType = get_type self, m_id = m_network_id self\<rparr>)
             (CRosePacket_new ISC_SHUTDOWN 0 g) ps))"

section \<open>The map server\<close>

definition CMapISC_new :: "CNetwork_Asio \<Rightarrow> CRoseSocket" where
  "CMapISC_new sock = set_type (ucast (server_type MAP_MASTER)) (CRoseClient_new sock)"

definition IsChar :: "CRoseSocket \<Rightarrow> bool" where
  "IsChar s \<longleftrightarrow> get_type s = server_type CHAR_SERVER"

definition CMapISC_HandlePacket :: "byte list \<Rightarrow> byte list \<Rightarrow> CRoseSocket \<Rightarrow> (bool \<times> CRoseSocket) option" where
  "CMapISC_HandlePacket g buf s =
    (let ty = packet_type buf in
     if ty = ISC_ALIVE \<or> ty = ISC_SERVER_AUTH \<or> ty = ISC_TRANSFER \<or> ty = ISC_SHUTDOWN then Some (True, s)
     else if ty = ISC_SERVER_REGISTER then
       (case IscServerRegister_recv g buf of Inl e \<Rightarrow> None | Inr P \<Rightarrow> Some (False, s))
     else Some (False, s))"

definition CMapISC_OnConnected :: "CRoseSocket callbacks \<Rightarrow> byte list \<Rightarrow> server_config \<Rightarrow> CRoseSocket \<Rightarrow> CRoseSocket option" where
  "CMapISC_OnConnected cb g cfg s =
    send_packet cb ISC_SERVER_REGISTER (IscServerRegister_pack \<lparr>IscServerRegister.m_serverType = server_type MAP_MASTER,
      m_name = cfg_name cfg, m_addr = cfg_ip cfg, m_port = cfg_clientPort cfg, m_right = cfg_accessLevel cfg,
      m_id = m_network_id s\<rparr>) g s"

text \<open>\<open>garbage\<close> are the members of the default constructed \<open>IscShutdown\<close>.\<close>

definition CMapISC_OnShutdown :: "CRoseSocket callbacks \<Rightarrow> byte list \<Rightarrow> IscShutdown \<Rightarrow> bool \<Rightarrow> nat \<Rightarrow> peers
    \<Rightarrow> (bool \<times> peers) option" where
  "CMapISC_OnShutdown cb g garbage failed me ps =
    (case map_of ps me of
       None \<Rightarrow> None
     | Some self \<Rightarrow>
         if \<not> m_active self then Some (True, ps)
         else if IsChar self then
           let (ok, self1) = reconnect cb failed self in Some (\<not> ok, on_peer me (\<lambda>_. self1) ps)
         else map_option (\<lambda>(b, ps'). (True, ps')) (send_first cb IsChar ISC_SHUTDOWN (IscShutdown_pack garbage) g ps))"

section \<open>Registration\<close>

lemma send_isc_idle:
  assumes "emits pack bs" and "length g = MAX_PACKET_SIZE" and "6 + length bs < MAX_PACKET_SIZE" and "idle c"
  shows "send_packet isc_callbacks ty pack g c = Some (writing (header_bytes (length bs) ty 0 @ bs) c)"
proof -
  have buf: "fst (getPacked pack (CRosePacket_new ty 0 g)) = header_bytes (length bs) ty 0 @ bs"
    using getPacked_pkt_of [OF assms(1,2), of "[]" ty 0] assms(2,3) by (simp add: CRosePacket_new_eq)
  then show ?thesis
    using wire_buffer_header [OF assms(3), of ty 0] assms(4)
    by (simp add: send_packet_def send_data_def ProcessSend_def idle_def isc_callbacks_def CRoseISC_OnSend_def writing_def
        wire_buffer_def)
qed

lemma send_first_skips:
  assumes "\<forall>(ptr, c) \<in> set front. \<not> wants c" and "wants c" and "send_packet cb ty pack g c = Some c'"
  shows "send_first cb wants ty pack g (front @ (p, c) # rest) = Some (True, front @ (p, c') # rest)"
  using assms(1) by (induction front) (auto simp: assms(2,3))

lemma on_peer_append: "on_peer me f (xs @ ys) = on_peer me f xs @ on_peer me f ys"
  by (simp add: on_peer_def)

lemma on_peer_others: "me \<notin> fst ` set ps \<Longrightarrow> on_peer me f ps = ps"
  by (induction ps) (auto simp: on_peer_def)

lemma map_of_on_peer: "map_of (on_peer me f ps) me = map_option f (map_of ps me)"
  by (induction ps) (auto simp: on_peer_def)

text \<open>The socket of a map server after it registered.\<close>

definition registered :: "IscServerRegister \<Rightarrow> CRoseSocket \<Rightarrow> CRoseSocket" where
  "registered P c = c\<lparr>m_network_address := IscServerRegister.m_addr P, m_network_port := ucast (IscServerRegister.m_port P),
     m_network_type := ucast (IscServerRegister.m_serverType P)\<rparr>"

text \<open>A map server that registers is passed on, with its own name, address, port and rights and the number
  of its connection, to the first peer in the list whose type is 0. That is the login server only if
  every connection accepted after it has registered: a new connection has type 0 too.\<close>

theorem registration_forwarded:
  assumes "IscServerRegister.m_serverType P = server_type MAP_MASTER"
    and "ps = front @ (p, c) # rest" and "\<forall>(q, d) \<in> set front. q = me \<or> \<not> IsLogin d" and "p \<noteq> me" and "IsLogin c"
    and "idle c" and "map_of ps me = Some self" and "length g = MAX_PACKET_SIZE"
    and "21 + length (IscServerRegister.m_name P) + length (IscServerRegister.m_addr P) < MAX_PACKET_SIZE"
  shows "\<exists>bs. CCharISC_ServerRegister isc_callbacks g ty0 P me ps
      = Some (True, on_peer me (registered P) front @ (p, writing (header_bytes (length bs) ISC_SERVER_REGISTER 0 @ bs) c)
          # on_peer me (registered P) rest)
    \<and> bs = IscServerRegister_wire \<lparr>IscServerRegister.m_serverType = server_type MAP_MASTER, m_name = IscServerRegister.m_name P,
        m_addr = IscServerRegister.m_addr P, m_port = ucast (ucast (IscServerRegister.m_port P) :: u16),
        m_right = IscServerRegister.m_right P, m_id = m_network_id self\<rparr>"
proof -
  let ?d = "\<lparr>IscServerRegister.m_serverType = server_type MAP_MASTER, m_name = IscServerRegister.m_name P,
      m_addr = IscServerRegister.m_addr P, m_port = ucast (ucast (IscServerRegister.m_port P) :: u16),
      m_right = IscServerRegister.m_right P, m_id = m_network_id self\<rparr>"
  let ?bs = "IscServerRegister_wire ?d"
  have fr: "\<forall>(q, d) \<in> set (on_peer me (registered P) front). \<not> IsLogin d"
    using assms(1,3) by (auto simp: on_peer_def IsLogin_def get_type_def registered_def split: prod.splits)
  have sent: "send_packet isc_callbacks ISC_SERVER_REGISTER (IscServerRegister_pack ?d) g c
      = Some (writing (header_bytes (length ?bs) ISC_SERVER_REGISTER 0 @ ?bs) c)"
    by (rule send_isc_idle [OF IscServerRegister.emits_pack assms(8) _ assms(6)])
       (use assms(9) in \<open>simp add: IscServerRegister_wire_def\<close>)
  have one: "on_peer me (registered P) ((p, c) # rest) = (p, c) # on_peer me (registered P) rest"
    using assms(4) by (simp add: on_peer_def)
  have self: "map_of (on_peer me (registered P) ps) me = Some (registered P self)"
    using assms(7) by (simp add: map_of_on_peer)
  have "CCharISC_ServerRegister isc_callbacks g ty0 P me ps
      = send_first isc_callbacks IsLogin ISC_SERVER_REGISTER (IscServerRegister_pack ?d) g (on_peer me (registered P) ps)"
    using self assms(1) by (simp add: CCharISC_ServerRegister_def registered_def [abs_def] Let_def)
  then show ?thesis
    unfolding assms(2) on_peer_append one using send_first_skips [OF fr assms(5) sent] by simp
qed

text \<open>A connection that was just accepted stands before the login server and gets the registration.\<close>

definition new_peer :: CRoseSocket where
  "new_peer = CRoseClient_new (CNetwork_Asio_new (replicate 2047 0) 0)"

definition login_peer :: CRoseSocket where
  "login_peer = set_type (ucast (server_type LOGIN)) new_peer"

theorem registration_forwarded_witness:
  "\<exists>bs. CCharISC_ServerRegister isc_callbacks (replicate 2047 0) 9
      \<lparr>IscServerRegister.m_serverType = 3, m_name = [0x41], m_addr = [0x31], m_port = 29200, m_right = 1, m_id = 0\<rparr> 7
      [(8, new_peer), (7, new_peer), (1, login_peer)]
    = Some (True, [(8, writing (header_bytes (length bs) ISC_SERVER_REGISTER 0 @ bs) new_peer),
        (7, registered \<lparr>IscServerRegister.m_serverType = 3, m_name = [0x41], m_addr = [0x31], m_port = 29200, m_right = 1, m_id = 0\<rparr> new_peer),
        (1, login_peer)])"
proof -
  have "IsLogin new_peer" "idle new_peer"
    by (simp_all add: new_peer_def IsLogin_def get_type_def idle_def CRoseClient_new_def CRoseSocket_new_def set_active_def
        reset_internal_buffer_def CNetwork_Asio_new_def CNetwork_Asio.CNetwork_Asio.defs CRoseSocket.CRoseSocket.defs)
  then show ?thesis
    using registration_forwarded [of "\<lparr>IscServerRegister.m_serverType = 3, m_name = [0x41], m_addr = [0x31], m_port = 29200,
        m_right = 1, m_id = 0\<rparr>" "[(8, new_peer), (7, new_peer), (1, login_peer)]" "[]" 8 new_peer
        "[(7, new_peer), (1, login_peer)]" 7 new_peer "replicate 2047 0" 9]
    by (auto simp: MAX_PACKET_SIZE_def on_peer_def)
qed

end
