(* ===== verification/Item.thy ===== *)
theory Item
  imports CRosePacket
begin

text \<open>
  Items: \<open>rosecommon/{include/item.h,src/item.cpp}\<close>, the item database of \<open>itemdb.cpp\<close> and the calls into
  an item's Lua script (\<open>luaapi.h\<close>, \<open>itemapi.h\<close>). The Lua library is outside: \<open>m_lua\<close> is \<open>None\<close> for a
  default-constructed \<open>ItemAPI\<close> and otherwise names an environment, and what a call into it answers is an
  argument. The functions the server offers to item scripts change nothing, so a call has no effect on the
  model's state. Shifts of an integer are those of the 32 bit type they are converted to.
\<close>

section \<open>Data\<close>

record Item =
  m_item_type :: u8
  m_item_id :: u16
  m_isCreated :: bool
  m_gemOpt :: u16
  m_durability :: u8
  m_life :: u16
  m_hasSocket :: bool
  m_isAppraised :: bool
  m_refine :: u8
  m_count :: u32
  m_isStackable :: bool
  m_atk :: u16
  m_def :: u16
  m_range :: u16
  m_lua :: "nat option"

definition Item_new :: Item where
  "Item_new = \<lparr>m_item_type = 0, m_item_id = 0, m_isCreated = False, m_gemOpt = 0, m_durability = 0, m_life = 0,
     m_hasSocket = False, m_isAppraised = False, m_refine = 0, m_count = 0, m_isStackable = False,
     m_atk = 0, m_def = 0, m_range = 0, m_lua = None\<rparr>"

text \<open>\<open>operator bool\<close>\<close>

definition item_exists :: "Item \<Rightarrow> bool" where
  "item_exists i \<longleftrightarrow> m_item_id i \<noteq> 0"

text \<open>\<open>operator==\<close> does not compare the statistics and the script.\<close>

definition item_eq :: "Item \<Rightarrow> Item \<Rightarrow> bool" where
  "item_eq a b \<longleftrightarrow> m_item_type a = m_item_type b \<and> m_item_id a = m_item_id b \<and> m_isCreated a = m_isCreated b
     \<and> m_gemOpt a = m_gemOpt b \<and> m_durability a = m_durability b \<and> m_life a = m_life b
     \<and> m_hasSocket a = m_hasSocket b \<and> m_isAppraised a = m_isAppraised b \<and> m_refine a = m_refine b
     \<and> m_count a = m_count b \<and> m_isStackable a = m_isStackable b"

record ItemDef =
  def_type :: u8
  def_subtype :: u8
  def_id :: u16
  def_buy_price :: u32
  def_sell_price :: u32
  def_weight :: u16
  def_atk :: u16
  def_def :: u16
  def_range :: u16
  def_slots :: u8
  def_level :: u8
  def_view_id :: u32
  def_name :: cstring
  def_desc :: cstring
  def_script :: cstring

definition Item_of_def :: "ItemDef \<Rightarrow> Item" where
  "Item_of_def d = Item_new\<lparr>m_item_type := def_type d, m_item_id := def_id d, m_count := 1,
     m_isStackable := (10 \<le> def_type d \<and> def_type d \<le> 13)\<rparr>"

section \<open>The words sent to the client\<close>

definition getVisible :: "Item \<Rightarrow> u32" where
  "getVisible i = push_bit 20 (ucast (m_refine i)) OR push_bit 19 (of_bool (m_hasSocket i))
     OR push_bit 10 (ucast (m_gemOpt i)) OR ucast (m_item_id i)"

definition getHeader :: "Item \<Rightarrow> u16" where
  "getHeader i = push_bit 15 (of_bool (m_isCreated i)) OR push_bit 5 (m_item_id i) OR ucast (m_item_type i)"

definition getData :: "Item \<Rightarrow> u32" where
  "getData i =
    (if m_isStackable i then m_count i
     else push_bit 28 (ucast (m_refine i)) OR push_bit 27 (of_bool (m_isAppraised i))
       OR push_bit 26 (of_bool (m_hasSocket i)) OR push_bit 16 (ucast (m_life i))
       OR push_bit 9 (ucast (m_durability i)) OR ucast (m_gemOpt i))"

section \<open>Calls into the script\<close>

text \<open>\<open>safeLuaCall<bool>\<close>: a default-constructed \<open>LuaAPI\<close> has no logger, and the first statement of the
  call uses it. \<open>call e f\<close> is the answer of function \<open>f\<close> of environment \<open>e\<close>, \<open>None\<close> if the call fails.\<close>

datatype lua_function = OnInit | OnDelete | OnEquip | OnUnequip | OnDrop | OnPickup | OnUse

type_synonym lua_calls = "nat \<Rightarrow> lua_function \<Rightarrow> bool option"

definition safeLuaCall :: "lua_calls \<Rightarrow> lua_function \<Rightarrow> Item \<Rightarrow> bool option" where
  "safeLuaCall call f i =
    (case m_lua i of
       None \<Rightarrow> None
     | Some e \<Rightarrow> Some (case call e f of None \<Rightarrow> False | Some b \<Rightarrow> b))"

section \<open>Building and loading\<close>

text \<open>The item database is the table it was read from; \<open>getItemDef\<close> raises an exception for an item that
  is not in it.\<close>

type_synonym item_database = "u8 \<times> u16 \<Rightarrow> ItemDef option"

text \<open>A row of the table of items, and how the database is read: the query returns the rows whose type is not zero in the order
  of their numbers; if it fails after \<open>n\<close> rows, the rows that were read are kept.\<close>

record item_db_row =
  idr_type :: int
  idr_subtype :: int
  idr_id :: int
  idr_priceBuy :: int
  idr_priceSell :: int
  idr_weight :: int
  idr_attack :: int
  idr_defense :: int
  idr_slots :: int
  idr_equipLevel :: int
  idr_viewId :: int
  idr_name :: cstring
  idr_desc :: cstring
  idr_script :: cstring

definition ItemDef_new :: ItemDef where
  "ItemDef_new = \<lparr>def_type = 0, def_subtype = 0, def_id = 0, def_buy_price = 0, def_sell_price = 0, def_weight = 0, def_atk = 0, def_def = 0,
     def_range = 0, def_slots = 0, def_level = 0, def_view_id = 0, def_name = [], def_desc = [], def_script = []\<rparr>"

text \<open>The loop assigns to one variable; the range is the only member it leaves as it was.\<close>

definition assign_row :: "item_db_row \<Rightarrow> ItemDef \<Rightarrow> ItemDef" where
  "assign_row row newItem = newItem\<lparr>def_type := word_of_int (idr_type row), def_subtype := word_of_int (idr_subtype row),
     def_id := word_of_int (idr_id row), def_buy_price := word_of_int (idr_priceBuy row), def_sell_price := word_of_int (idr_priceSell row),
     def_weight := word_of_int (idr_weight row), def_atk := word_of_int (idr_attack row), def_def := word_of_int (idr_defense row),
     def_slots := word_of_int (idr_slots row), def_level := word_of_int (idr_equipLevel row), def_view_id := word_of_int (idr_viewId row),
     def_name := idr_name row, def_desc := idr_desc row, def_script := idr_script row\<rparr>"

definition item_key :: "item_db_row \<Rightarrow> u8 \<times> u16" where
  "item_key row = (word_of_int (idr_type row), word_of_int (idr_id row))"

fun read_items :: "item_db_row list \<Rightarrow> ItemDef \<Rightarrow> item_database \<Rightarrow> item_database" where
  "read_items [] newItem db = db"
| "read_items (row # rows) newItem db = (let newItem' = assign_row row newItem in read_items rows newItem' (db(item_key row \<mapsto> newItem')))"

definition item_rows :: "item_db_row list \<Rightarrow> item_db_row list" where
  "item_rows table = sort_key idr_id (filter (\<lambda>row. idr_type row \<noteq> 0) table)"

definition ItemDatabase_initialize :: "item_db_row list \<Rightarrow> nat option \<Rightarrow> item_database" where
  "ItemDatabase_initialize table failed =
    read_items (case failed of None \<Rightarrow> item_rows table | Some n \<Rightarrow> take n (item_rows table)) ItemDef_new Map.empty"

definition itemExists :: "item_database \<Rightarrow> u8 \<Rightarrow> u16 \<Rightarrow> bool" where
  "itemExists db type i \<longleftrightarrow> db (type, i) \<noteq> None"

definition getItemDef :: "item_database \<Rightarrow> u8 \<Rightarrow> u16 \<Rightarrow> ItemDef option" where
  "getItemDef db type i = db (type, i)"

text \<open>\<open>InventorySystem::buildItem\<close>; \<open>load s\<close> is the environment \<open>loadScript\<close> made of script \<open>s\<close>, if any.
  The outer option is the exception, the inner one the result.\<close>

definition buildItem :: "item_database \<Rightarrow> (cstring \<Rightarrow> nat option) \<Rightarrow> u8 \<Rightarrow> u16 \<Rightarrow> u16 \<Rightarrow> bool \<Rightarrow> Item option option" where
  "buildItem db load type i life isAppraised =
    (case getItemDef db type i of
       None \<Rightarrow> None
     | Some d \<Rightarrow>
         Some (case load (def_script d) of
                 None \<Rightarrow> None
               | Some e \<Rightarrow> Some ((Item_of_def d)\<lparr>m_life := life, m_isAppraised := isAppraised, m_lua := Some e\<rparr>)))"

text \<open>A row of the inventory table; columns are 64 bit integers, modelled without bound.\<close>

record inventory_row =
  row_charId :: int
  row_slot :: int
  row_itemtype :: int
  row_itemid :: int
  row_amount :: int
  row_refine :: int
  row_gemOpt :: int
  row_socket :: bool

definition load_columns :: "inventory_row \<Rightarrow> Item \<Rightarrow> Item" where
  "load_columns row i = i\<lparr>m_count := word_of_int (row_amount row), m_refine := word_of_int (row_refine row),
     m_gemOpt := word_of_int (row_gemOpt row), m_hasSocket := row_socket row\<rparr>"

definition Item_loadFromRow :: "item_database \<Rightarrow> (cstring \<Rightarrow> nat option) \<Rightarrow> inventory_row \<Rightarrow> Item \<Rightarrow> Item option" where
  "Item_loadFromRow db load row i =
    (case buildItem db load (word_of_int (row_itemtype row)) (word_of_int (row_itemid row)) 1000 True of
       None \<Rightarrow> None
     | Some None \<Rightarrow> Some (load_columns row i)
     | Some (Some b) \<Rightarrow> Some (load_columns row b))"

definition Item_of_row :: "inventory_row \<Rightarrow> Item" where
  "Item_of_row row = load_columns row (Item_new\<lparr>m_item_type := word_of_int (row_itemtype row),
     m_item_id := word_of_int (row_itemid row), m_life := 1000, m_isAppraised := True\<rparr>)"

definition Item_commit :: "Item \<Rightarrow> inventory_row \<Rightarrow> inventory_row" where
  "Item_commit i row = row\<lparr>row_itemid := uint (m_item_id i), row_itemtype := uint (m_item_type i),
     row_amount := uint (m_count i), row_refine := uint (m_refine i), row_gemOpt := uint (m_gemOpt i),
     row_socket := m_hasSocket i\<rparr>"

section \<open>Bits of the words\<close>

lemma take_bit_small:
  fixes w :: "'a::len word"
  assumes "unat w < 2 ^ n"
  shows "take_bit n w = w"
proof (rule word_unat_eq_iff [THEN iffD2])
  show "unat (take_bit n w) = unat w"
    using assms by (simp add: unsigned_take_bit_eq take_bit_nat_eq_self)
qed

text \<open>The header word identifies an item: with an identifier below 1024 and a type below 32 the client
  reads back the type, the identifier and the created flag.\<close>

theorem getHeader_fields:
  assumes "unat (m_item_id i) < 2 ^ 10" and "unat (m_item_type i) < 2 ^ 5"
  shows "take_bit 5 (getHeader i) = ucast (m_item_type i) \<and> take_bit 10 (drop_bit 5 (getHeader i)) = m_item_id i
    \<and> bit (getHeader i) 15 = m_isCreated i"
proof -
  have g: "getHeader i = push_bit 15 (of_bool (m_isCreated i)) OR push_bit 5 (take_bit 10 (m_item_id i))
      OR ucast (take_bit 5 (m_item_type i))"
    unfolding take_bit_small [OF assms(1)] take_bit_small [OF assms(2)] by (rule getHeader_def)
  note bits = g bit_simps
  have "take_bit 5 (getHeader i) = ucast (take_bit 5 (m_item_type i))"
    by (rule bit_word_eqI) (auto simp: bits)
  moreover have "take_bit 10 (drop_bit 5 (getHeader i)) = take_bit 10 (m_item_id i)"
    by (rule bit_word_eqI) (auto simp: bits)
  moreover have "bit (getHeader i) 15 = m_isCreated i"
    by (auto simp: bits)
  ultimately show ?thesis unfolding take_bit_small [OF assms(1)] take_bit_small [OF assms(2)] by blast
qed

theorem getHeader_fields_witness:
  "take_bit 5 (getHeader (Item_new\<lparr>m_item_id := 700, m_item_type := 8\<rparr>)) = 8
   \<and> take_bit 10 (drop_bit 5 (getHeader (Item_new\<lparr>m_item_id := 700, m_item_type := 8\<rparr>))) = 700"
  using getHeader_fields [of "Item_new\<lparr>m_item_id := 700, m_item_type := 8\<rparr>"] by simp

text \<open>So does the data word of an item that does not stack: within the widths of the fields, refinement,
  flags, life, durability and gem are read back.\<close>

theorem getData_fields:
  assumes "\<not> m_isStackable i" and "unat (m_refine i) < 2 ^ 4" and "unat (m_life i) < 2 ^ 10"
    and "unat (m_durability i) < 2 ^ 7" and "unat (m_gemOpt i) < 2 ^ 9"
  shows "drop_bit 28 (getData i) = ucast (m_refine i) \<and> bit (getData i) 27 = m_isAppraised i
    \<and> bit (getData i) 26 = m_hasSocket i \<and> take_bit 10 (drop_bit 16 (getData i)) = ucast (m_life i)
    \<and> take_bit 7 (drop_bit 9 (getData i)) = ucast (m_durability i) \<and> take_bit 9 (getData i) = ucast (m_gemOpt i)"
proof -
  note small = take_bit_small [OF assms(2)] take_bit_small [OF assms(3)] take_bit_small [OF assms(4)]
    take_bit_small [OF assms(5)]
  have g: "getData i = push_bit 28 (ucast (take_bit 4 (m_refine i))) OR push_bit 27 (of_bool (m_isAppraised i))
      OR push_bit 26 (of_bool (m_hasSocket i)) OR push_bit 16 (ucast (take_bit 10 (m_life i)))
      OR push_bit 9 (ucast (take_bit 7 (m_durability i))) OR ucast (take_bit 9 (m_gemOpt i))"
    unfolding small getData_def using assms(1) by simp
  have "drop_bit 28 (getData i) = ucast (take_bit 4 (m_refine i))"
    by (rule bit_word_eqI) (auto simp: g bit_simps)
  moreover have "bit (getData i) 27 = m_isAppraised i" "bit (getData i) 26 = m_hasSocket i"
    by (auto simp: g bit_simps)
  moreover have "take_bit 10 (drop_bit 16 (getData i)) = ucast (take_bit 10 (m_life i))"
    by (rule bit_word_eqI) (auto simp: g bit_simps)
  moreover have "take_bit 7 (drop_bit 9 (getData i)) = ucast (take_bit 7 (m_durability i))"
    by (rule bit_word_eqI) (auto simp: g bit_simps)
  moreover have "take_bit 9 (getData i) = ucast (take_bit 9 (m_gemOpt i))"
    by (rule bit_word_eqI) (auto simp: g bit_simps)
  ultimately show ?thesis unfolding small by blast
qed

theorem getData_fields_witness:
  "drop_bit 28 (getData (Item_new\<lparr>m_refine := 9, m_life := 1000, m_gemOpt := 301\<rparr>)) = 9
   \<and> take_bit 10 (drop_bit 16 (getData (Item_new\<lparr>m_refine := 9, m_life := 1000, m_gemOpt := 301\<rparr>))) = 1000"
  using getData_fields [of "Item_new\<lparr>m_refine := 9, m_life := 1000, m_gemOpt := 301\<rparr>"] by (simp add: Item_new_def)

section \<open>The item database\<close>

text \<open>What the loop assigned before does not matter, because the range is never assigned.\<close>

lemma assign_row_range: "def_range newItem = 0 \<Longrightarrow> assign_row row newItem = assign_row row ItemDef_new"
  by (cases newItem) (simp add: assign_row_def ItemDef_new_def)

lemma read_items_map:
  "def_range newItem = 0 \<Longrightarrow> read_items rows newItem db = db ++ map_of (rev (map (\<lambda>row. (item_key row, assign_row row ItemDef_new)) rows))"
proof (induction rows arbitrary: newItem db)
  case (Cons row rows)
  have "def_range (assign_row row newItem) = 0" using Cons.prems by (simp add: assign_row_def)
  from Cons.IH [OF this] assign_row_range [OF Cons.prems] show ?case by (simp add: Let_def map_add_def fun_eq_iff split: option.splits)
qed simp

text \<open>A definition is found under its own type and number, and every row of the table is found unless another has its key.\<close>

theorem item_database_keys:
  assumes "getItemDef (ItemDatabase_initialize table failed) type i = Some d"
  shows "def_type d = type \<and> def_id d = i \<and> (\<exists>row \<in> set table. idr_type row \<noteq> 0 \<and> item_key row = (type, i) \<and> d = assign_row row ItemDef_new)"
proof -
  have zero: "def_range ItemDef_new = 0" by (simp add: ItemDef_new_def)
  define rows where "rows = (case failed of None \<Rightarrow> item_rows table | Some n \<Rightarrow> take n (item_rows table))"
  have rows: "set rows \<subseteq> set (item_rows table)" "ItemDatabase_initialize table failed = read_items rows ItemDef_new Map.empty"
    by (auto simp: rows_def ItemDatabase_initialize_def split: option.splits dest: in_set_takeD)
  then have "map_of (rev (map (\<lambda>row. (item_key row, assign_row row ItemDef_new)) rows)) (type, i) = Some d"
    using assms by (simp add: getItemDef_def read_items_map [OF zero])
  then obtain row where "row \<in> set rows" "item_key row = (type, i)" "d = assign_row row ItemDef_new" by (auto dest!: map_of_SomeD)
  then show ?thesis using rows(1) by (auto simp: item_rows_def item_key_def assign_row_def)
qed

theorem item_database_complete:
  assumes "distinct (map item_key (filter (\<lambda>row. idr_type row \<noteq> 0) table))" and "row \<in> set table" and "idr_type row \<noteq> 0"
  shows "getItemDef (ItemDatabase_initialize table None) (fst (item_key row)) (snd (item_key row)) = Some (assign_row row ItemDef_new)"
proof -
  have zero: "def_range ItemDef_new = 0" by (simp add: ItemDef_new_def)
  have "distinct (map item_key (item_rows table))" using assms(1) by (simp add: item_rows_def distinct_map)
  then have "distinct (map fst (rev (map (\<lambda>row. (item_key row, assign_row row ItemDef_new)) (item_rows table))))"
    by (simp add: rev_map [symmetric] comp_def)
  moreover have "(item_key row, assign_row row ItemDef_new) \<in> set (rev (map (\<lambda>row. (item_key row, assign_row row ItemDef_new)) (item_rows table)))"
    using assms(2,3) by (auto simp: item_rows_def)
  ultimately show ?thesis
    by (simp add: getItemDef_def ItemDatabase_initialize_def read_items_map [OF zero])
qed

section \<open>Stored and loaded\<close>

definition same_stored :: "Item \<Rightarrow> Item \<Rightarrow> bool" where
  "same_stored a b \<longleftrightarrow> m_item_type a = m_item_type b \<and> m_item_id a = m_item_id b \<and> m_count a = m_count b
     \<and> m_refine a = m_refine b \<and> m_gemOpt a = m_gemOpt b \<and> m_hasSocket a = m_hasSocket b"

lemma same_stored_trans: "same_stored a b \<Longrightarrow> same_stored b c \<Longrightarrow> same_stored a c"
  by (simp add: same_stored_def)

lemma item_eq_same_stored: "item_eq a b \<Longrightarrow> same_stored a b"
  by (simp add: item_eq_def same_stored_def)

lemma Item_of_row_commit: "same_stored (Item_of_row (Item_commit i row)) i"
  by (simp add: same_stored_def Item_of_row_def load_columns_def Item_commit_def)

end
