(* ===== verification/Inventory.thy ===== *)
theory Inventory
  imports Item Packets_Client "HOL-Library.Multiset"
begin

text \<open>
  Inventories: the component (\<open>components/inventory.h\<close>), the operations of \<open>InventorySystem\<close>
  (\<open>map/src/systems/inventorysystem.cpp\<close>) and the way \<open>EntitySystem\<close> stores and loads an inventory
  (\<open>map/src/entitysystem.cpp\<close>). A player is the part of its entity these operations use: the inventory
  component (\<open>None\<close> if there is none), the identifier of its \<open>BasicInfo\<close>, its position, whether a client is connected,
  the items it put on the ground and the packets sent. \<open>None\<close> as the result of an operation is an access
  outside the array or through a null pointer.
\<close>

section \<open>The component\<close>

definition maxItems :: nat where "maxItems = 140"
definition MAX_EQUIP_ITEMS :: nat where "MAX_EQUIP_ITEMS = 12"

datatype recipient = Self | Everyone

text \<open>The packets hold what \<open>pack\<close> reads from the entity when they are sent.\<close>

datatype inv_packet =
    SET_ITEM "(u8 \<times> u16 \<times> u32) list"
  | EQUIP_ITEM u16 u16 u32
  | DROP_ITEM f32 f32 u16 u32 u16 u16

record player =
  m_items :: "Item list option"
  m_basic_id :: u16
  m_x :: f32
  m_y :: f32
  m_has_client :: bool
  m_ground :: "(u16 \<times> Item) list"
  m_sent :: "(recipient \<times> inv_packet) list"

fun inv_packet_type :: "inv_packet \<Rightarrow> u16" where
  "inv_packet_type (SET_ITEM es) = PAKWC_SET_ITEM"
| "inv_packet_type (EQUIP_ITEM i slot v) = PAKWC_EQUIP_ITEM"
| "inv_packet_type (DROP_ITEM x y h d i owner) = PAKWC_DROP_ITEM"

fun inv_packet_pack :: "inv_packet \<Rightarrow> CRosePacket \<Rightarrow> CRosePacket" where
  "inv_packet_pack (SET_ITEM es) = chain [put_u8 (of_nat (length es)),
     put_list (\<lambda>(s, h, d). chain [put_u8 s, put_u16 h, put_u32 d]) es]"
| "inv_packet_pack (EQUIP_ITEM i slot v) = chain [put_u16 i, put_u16 slot, put_u32 v]"
| "inv_packet_pack (DROP_ITEM x y h d i owner) = chain [put_u32 x, put_u32 y, put_u16 h, put_u32 d, put_u16 i,
     put_u16 owner, put_u16 5]"

definition Inventory_new :: "Item list" where
  "Inventory_new = replicate maxItems Item_new"

fun Inventory_loadFromResult :: "item_database \<Rightarrow> (cstring \<Rightarrow> nat option) \<Rightarrow> inventory_row list \<Rightarrow> Item list
    \<Rightarrow> Item list option" where
  "Inventory_loadFromResult db load [] items = Some items"
| "Inventory_loadFromResult db load (row # rows) items =
    (if int maxItems \<le> row_slot row then Inventory_loadFromResult db load rows items
     else if row_slot row < 0 then None
     else case Item_loadFromRow db load row (items ! nat (row_slot row)) of
            None \<Rightarrow> None
          | Some i \<Rightarrow> Inventory_loadFromResult db load rows (items[nat (row_slot row) := i]))"

section \<open>The system\<close>

definition findNextEmptySlot :: "player \<Rightarrow> u8" where
  "findNextEmptySlot w =
    (case m_items w of
       None \<Rightarrow> 0
     | Some items \<Rightarrow>
         (case find (\<lambda>i. m_item_id (items ! i) = 0) [MAX_EQUIP_ITEMS..<maxItems] of
            None \<Rightarrow> 0
          | Some i \<Rightarrow> of_nat i))"

text \<open>\<open>swapItems\<close> also changes the slots it is given.\<close>

definition swapItems :: "u8 \<Rightarrow> u8 \<Rightarrow> player \<Rightarrow> bool \<times> u8 \<times> u8 \<times> player" where
  "swapItems a b w =
    (case m_items w of
       None \<Rightarrow> (False, a, b, w)
     | Some items \<Rightarrow>
         if maxItems \<le> unat a \<or> maxItems \<le> unat b then (False, a, b, w)
         else if a = b \<or> (a = 0 \<and> b = 0) then (False, a, b, w)
         else
           let a1 = (if a = 0 then findNextEmptySlot w else a);
               b1 = (if b = 0 then findNextEmptySlot w else b)
           in (True, a1, b1, w\<lparr>m_items := Some (items[unat a1 := items ! unat b1, unat b1 := items ! unat a1])\<rparr>))"

definition set_item_packet :: "Item list \<Rightarrow> u8 list \<Rightarrow> inv_packet option" where
  "set_item_packet items slots =
    (if list_all (\<lambda>s. unat s < length items) slots
     then Some (SET_ITEM (map (\<lambda>s. (s, getHeader (items ! unat s), getData (items ! unat s))) slots))
     else None)"

definition equip_item_packet :: "u16 \<Rightarrow> Item list \<Rightarrow> u16 \<Rightarrow> inv_packet option" where
  "equip_item_packet i items slot =
    (if 0 \<le> sint slot \<and> sint slot < int (length items)
     then Some (EQUIP_ITEM i slot (getVisible (items ! nat (sint slot)))) else None)"

definition send_to :: "recipient \<Rightarrow> inv_packet option \<Rightarrow> player \<Rightarrow> player option" where
  "send_to r p w = map_option (\<lambda>q. w\<lparr>m_sent := m_sent w @ [(r, q)]\<rparr>) p"

text \<open>The script of the item in a slot is asked; an empty slot does not object.\<close>

definition ask_script :: "lua_calls \<Rightarrow> lua_function \<Rightarrow> Item \<Rightarrow> bool option" where
  "ask_script call f i = (if item_exists i then safeLuaCall call f i else Some True)"

definition processEquip :: "lua_calls \<Rightarrow> CliEquipItem \<Rightarrow> player \<Rightarrow> player option" where
  "processEquip call P w =
    (if sint (m_slotTo P) < 1 \<or> int MAX_EQUIP_ITEMS \<le> sint (m_slotTo P) then Some w
     else
       let to = ucast (m_slotTo P); frm = ucast (m_slotFrom P) in
       case m_items w of
         None \<Rightarrow> None
       | Some items \<Rightarrow>
           (case ask_script call OnUnequip (items ! unat (to :: u8)) of
              None \<Rightarrow> None
            | Some unequip \<Rightarrow>
                if length items \<le> unat (frm :: u8) then None
                else (case ask_script call OnEquip (items ! unat frm) of
                   None \<Rightarrow> None
                 | Some equip \<Rightarrow>
                     if \<not> equip \<or> \<not> unequip then Some w
                     else
                       let (ok, to1, frm1, w1) = swapItems to frm w in
                       if \<not> ok then Some w1
                       else (case m_items w1 of
                          None \<Rightarrow> None
                        | Some items1 \<Rightarrow>
                            Option.bind (send_to Everyone (equip_item_packet (m_basic_id w1) items1 (m_slotTo P)) w1)
                              (send_to Self (set_item_packet items1 [to1, frm1]))))))"

definition removeItem :: "lua_calls \<Rightarrow> u8 \<Rightarrow> player \<Rightarrow> (Item \<times> player) option" where
  "removeItem call slot w =
    (if slot = 0 \<or> maxItems \<le> unat slot then Some (Item_new, w)
     else case m_items w of
       None \<Rightarrow> None
     | Some items \<Rightarrow>
         let item = items ! unat slot; items1 = items[unat slot := Item_new]; w1 = w\<lparr>m_items := Some items1\<rparr> in
         (case safeLuaCall call OnDrop item of
            None \<Rightarrow> None
          | Some _ \<Rightarrow>
              if \<not> m_has_client w1 then None
              else (case send_to Self (set_item_packet items1 [slot]) w1 of
                 None \<Rightarrow> None
               | Some w2 \<Rightarrow>
                   if unat slot < MAX_EQUIP_ITEMS
                   then map_option (Pair item) (send_to Everyone (equip_item_packet (m_basic_id w2) items1 (ucast slot)) w2)
                   else Some (item, w2))))"

text \<open>\<open>EntitySystem::buildItemEntity\<close>: the item becomes an entity at the player's position; \<open>new\<close> is the
  identifier the id manager gave it.\<close>

definition buildItemEntity :: "u16 \<Rightarrow> Item \<Rightarrow> player \<Rightarrow> player" where
  "buildItemEntity new item w = w\<lparr>m_ground := m_ground w @ [(new, item)]\<rparr>"

definition dropItem :: "lua_calls \<Rightarrow> u16 \<Rightarrow> CliDropItem \<Rightarrow> player \<Rightarrow> player option" where
  "dropItem call new P w =
    (if CliDropItem.m_item P = 0 \<or> maxItems \<le> unat (CliDropItem.m_item P) then Some w
     else case m_items w of
       None \<Rightarrow> None
     | Some items \<Rightarrow>
         let slot = CliDropItem.m_item P;
             held = Item.m_count (items ! unat slot);
             count = (if held < m_quantity P then held else m_quantity P);
             dropped =
               (if count < held then
                  let item = (items ! unat slot)\<lparr>Item.m_count := held - count\<rparr>;
                      items1 = items[unat slot := item]
                  in map_option (Pair (item\<lparr>Item.m_count := count\<rparr>))
                       (send_to Self (set_item_packet items1 [slot]) (w\<lparr>m_items := Some items1\<rparr>))
                else removeItem call slot w)
         in (case dropped of
               None \<Rightarrow> None
             | Some (item, w1) \<Rightarrow>
                 send_to Everyone (Some (DROP_ITEM (m_x w1) (m_y w1) (getHeader item) (getData item) new (m_basic_id w1)))
                   (buildItemEntity new item w1)))"

definition addItem :: "lua_calls \<Rightarrow> Item \<Rightarrow> player \<Rightarrow> (bool \<times> player) option" where
  "addItem call item w =
    (let slot = findNextEmptySlot w in
     if slot = 0 then Some (False, w)
     else (case safeLuaCall call OnPickup item of
        None \<Rightarrow> None
      | Some _ \<Rightarrow>
          (case m_items w of
             None \<Rightarrow> None
           | Some items \<Rightarrow>
               let items1 = items[unat slot := item]; w1 = w\<lparr>m_items := Some items1\<rparr> in
               if \<not> m_has_client w1 then None
               else map_option (Pair True) (send_to Self (set_item_packet items1 [slot]) w1))))"

section \<open>The invariant\<close>

text \<open>An inventory is an array of \<open>maxItems\<close> items; every item that is there has a script.\<close>

definition wf_items :: "Item list \<Rightarrow> bool" where
  "wf_items items \<longleftrightarrow> length items = maxItems \<and> (\<forall>i \<in> set items. item_exists i \<longrightarrow> m_lua i \<noteq> None)"

lemma wf_items_update: "wf_items items \<Longrightarrow> m_lua i \<noteq> None \<or> \<not> item_exists i \<Longrightarrow> wf_items (items[k := i])"
  using set_update_subset_insert [of items k i] by (auto simp: wf_items_def)

lemma wf_items_swap:
  "wf_items items \<Longrightarrow> a < maxItems \<Longrightarrow> b < maxItems \<Longrightarrow> wf_items (items[a := items ! b, b := items ! a])"
  by (intro wf_items_update) (auto simp: wf_items_def dest: nth_mem)

lemma ask_script_wf: "wf_items items \<Longrightarrow> k < maxItems \<Longrightarrow> \<exists>b. ask_script call f (items ! k) = Some b"
  by (auto simp: ask_script_def safeLuaCall_def wf_items_def dest: nth_mem)

lemma not_item_exists_new [simp]: "\<not> item_exists Item_new"
  by (simp add: item_exists_def Item_new_def)

section \<open>The next empty slot\<close>

lemma findNextEmptySlot_cases:
  assumes "m_items w = Some items"
  obtains "findNextEmptySlot w = 0" and "\<forall>k. MAX_EQUIP_ITEMS \<le> k \<and> k < maxItems \<longrightarrow> item_exists (items ! k)"
  | k where "findNextEmptySlot w = of_nat k" and "unat (of_nat k :: u8) = k" and "MAX_EQUIP_ITEMS \<le> k" and "k < maxItems"
      and "\<not> item_exists (items ! k)"
      and "\<forall>j. MAX_EQUIP_ITEMS \<le> j \<and> j < k \<longrightarrow> item_exists (items ! j)"
proof (cases "find (\<lambda>i. m_item_id (items ! i) = 0) [MAX_EQUIP_ITEMS..<maxItems]")
  case None
  then have "\<forall>k. MAX_EQUIP_ITEMS \<le> k \<and> k < maxItems \<longrightarrow> item_exists (items ! k)"
    by (auto simp: find_None_iff item_exists_def)
  then show thesis using that(1) None assms by (simp add: findNextEmptySlot_def)
next
  case (Some k)
  then obtain n where n: "n < maxItems - MAX_EQUIP_ITEMS" "k = MAX_EQUIP_ITEMS + n" "m_item_id (items ! k) = 0"
      "\<forall>j < n. m_item_id (items ! (MAX_EQUIP_ITEMS + j)) \<noteq> 0"
    by (auto simp: find_Some_iff)
  then have k: "MAX_EQUIP_ITEMS \<le> k" "k < maxItems" by auto
  have "\<forall>j. MAX_EQUIP_ITEMS \<le> j \<and> j < k \<longrightarrow> item_exists (items ! j)"
    using n(2,4) by (auto simp: item_exists_def dest!: le_Suc_ex)
  moreover have "unat (of_nat k :: u8) = k"
    using k(2) by (intro unat_of_nat_small) (simp add: maxItems_def)
  ultimately show thesis
    using that(2) k n(3) Some assms by (simp add: findNextEmptySlot_def item_exists_def)
qed

lemma findNextEmptySlot_less: "unat (findNextEmptySlot w) < maxItems"
proof (cases "m_items w")
  case None
  then show ?thesis by (simp add: findNextEmptySlot_def maxItems_def)
next
  case (Some items)
  then show ?thesis by (rule findNextEmptySlot_cases) (simp_all add: maxItems_def)
qed

section \<open>Swapping\<close>

definition swapped :: "nat \<Rightarrow> nat \<Rightarrow> Item list \<Rightarrow> Item list" where
  "swapped a b items = items[a := items ! b, b := items ! a]"

lemma mset_swapped: "a < length items \<Longrightarrow> b < length items \<Longrightarrow> mset (swapped a b items) = mset items"
  unfolding swapped_def by (rule mset_swap)

lemma wf_swapped: "wf_items items \<Longrightarrow> a < maxItems \<Longrightarrow> b < maxItems \<Longrightarrow> wf_items (swapped a b items)"
  unfolding swapped_def by (rule wf_items_swap)

lemma swapItems_cases:
  assumes "m_items w = Some items" and "swapItems a b w = (ok, a1, b1, w1)"
  shows "if ok then unat a1 < maxItems \<and> unat b1 < maxItems
        \<and> w1 = w\<lparr>m_items := Some (swapped (unat a1) (unat b1) items)\<rparr>
        \<and> a1 = (if a = 0 then findNextEmptySlot w else a) \<and> b1 = (if b = 0 then findNextEmptySlot w else b)
    else w1 = w"
  using assms findNextEmptySlot_less [of w]
  by (auto simp: swapItems_def swapped_def Let_def split: if_splits)

lemma send_to_Some: "p = Some q \<Longrightarrow> send_to r p w = Some (w\<lparr>m_sent := m_sent w @ [(r, q)]\<rparr>)"
  by (simp add: send_to_def)

lemma equip_slot:
  assumes "1 \<le> sint (s :: u16)" and "sint s < int MAX_EQUIP_ITEMS"
  shows "unat (ucast s :: u8) = nat (sint s)" and "nat (sint s) < maxItems"
proof -
  have "uint s = take_bit 16 (sint s)" using uint_sint [of s] by simp
  also have "\<dots> = sint s" using assms by (intro take_bit_int_eq_self) (simp_all add: MAX_EQUIP_ITEMS_def)
  finally have u: "unat s = nat (sint s)" by (metis unat_eq_nat_uint)
  then show "unat (ucast s :: u8) = nat (sint s)"
    using assms by (simp add: unsigned_ucast_eq take_bit_nat_eq_self MAX_EQUIP_ITEMS_def)
  show "nat (sint s) < maxItems" using assms by (simp add: maxItems_def MAX_EQUIP_ITEMS_def)
qed

text \<open>What a request to equip does to an inventory that is well-formed.\<close>

lemma processEquip_cases:
  assumes items: "m_items w = Some items" "wf_items items"
    and slot: "1 \<le> sint (m_slotTo P)" "sint (m_slotTo P) < int MAX_EQUIP_ITEMS"
    and frm: "unat (ucast (m_slotFrom P) :: u8) < maxItems"
  obtains "processEquip call P w = Some w"
  | a b where "swapItems (ucast (m_slotTo P)) (ucast (m_slotFrom P)) w
        = (True, a, b, w\<lparr>m_items := Some (swapped (unat a) (unat b) items)\<rparr>)"
      and "unat a < maxItems" and "unat b < maxItems"
      and "a = ucast (m_slotTo P)" and "b = (if ucast (m_slotFrom P) = (0 :: u8) then findNextEmptySlot w else ucast (m_slotFrom P))"
      and "processEquip call P w = Some (w\<lparr>m_items := Some (swapped (unat a) (unat b) items), m_sent := m_sent w @
        [(Everyone, EQUIP_ITEM (m_basic_id w) (m_slotTo P) (getVisible (swapped (unat a) (unat b) items ! unat a))),
         (Self, SET_ITEM (map (\<lambda>s. (s, getHeader (swapped (unat a) (unat b) items ! unat s),
            getData (swapped (unat a) (unat b) items ! unat s))) [a, b]))]\<rparr>)"
proof -
  let ?to = "ucast (m_slotTo P) :: u8" and ?frm = "ucast (m_slotFrom P) :: u8"
  note to = equip_slot [OF slot]
  have len: "length items = maxItems" using items(2) by (simp add: wf_items_def)
  have guard: "\<not> (sint (m_slotTo P) < 1 \<or> int MAX_EQUIP_ITEMS \<le> sint (m_slotTo P))" using slot by simp
  have to0: "?to \<noteq> 0" using to(1) slot(1) by (auto simp: unat_eq_0 [symmetric])
  obtain u e where u: "ask_script call OnUnequip (items ! unat ?to) = Some u" "ask_script call OnEquip (items ! unat ?frm) = Some e"
    using ask_script_wf [OF items(2)] to frm by metis
  obtain ok a b w1 where sw: "swapItems ?to ?frm w = (ok, a, b, w1)" by (metis prod_cases4)
  note c = swapItems_cases [OF items(1) sw]
  show thesis
  proof (cases "e \<and> u \<and> ok")
    case False
    then have "processEquip call P w = Some w"
      using guard items(1) u frm len sw c by (auto simp: processEquip_def Let_def)
    then show thesis by (rule that(1))
  next
    case True
    let ?items = "swapped (unat a) (unat b) items"
    have c': "unat a < maxItems" "unat b < maxItems" "w1 = w\<lparr>m_items := Some ?items\<rparr>" "a = ?to"
        "b = (if ?frm = 0 then findNextEmptySlot w else ?frm)"
      using c True to0 by (auto split: if_splits)
    have l: "length ?items = maxItems" using len by (simp add: swapped_def)
    have eq: "equip_item_packet (m_basic_id w) ?items (m_slotTo P)
        = Some (EQUIP_ITEM (m_basic_id w) (m_slotTo P) (getVisible (?items ! unat a)))"
      using slot to l by (auto simp: equip_item_packet_def c'(4) maxItems_def MAX_EQUIP_ITEMS_def)
    have st: "set_item_packet ?items [a, b] = Some (SET_ITEM (map (\<lambda>s. (s, getHeader (?items ! unat s), getData (?items ! unat s))) [a, b]))"
      using l c'(1,2) by (simp add: set_item_packet_def)
    have "processEquip call P w = Some (w\<lparr>m_items := Some ?items, m_sent := m_sent w @
        [(Everyone, EQUIP_ITEM (m_basic_id w) (m_slotTo P) (getVisible (?items ! unat a))),
         (Self, SET_ITEM (map (\<lambda>s. (s, getHeader (?items ! unat s), getData (?items ! unat s))) [a, b]))]\<rparr>)"
      using guard items(1) u frm len sw True eq st
      by (simp add: processEquip_def Let_def c'(3) send_to_def)
    then show thesis using that(2) [of a b] sw True c' by simp
  qed
qed

section \<open>Properties of the system\<close>

text \<open>C20. Equipping conserves the items. Whatever slots a client names inside the inventory and whatever the
  scripts answer, a request to equip never fails, and the inventory holds afterwards the same items with
  the same multiplicities; nothing lands on the ground.\<close>

theorem equip_conserves_items:
  assumes "m_items w = Some items" and "wf_items items" and "unat (ucast (m_slotFrom P) :: u8) < maxItems"
  shows "\<exists>w' items'. processEquip call P w = Some w' \<and> m_items w' = Some items' \<and> wf_items items'
    \<and> mset items' = mset items \<and> m_ground w' = m_ground w"
proof (cases "1 \<le> sint (m_slotTo P) \<and> sint (m_slotTo P) < int MAX_EQUIP_ITEMS")
  case True
  then have slot: "1 \<le> sint (m_slotTo P)" "sint (m_slotTo P) < int MAX_EQUIP_ITEMS" by auto
  have len: "length items = maxItems" using assms(2) by (simp add: wf_items_def)
  show ?thesis
    by (rule processEquip_cases [OF assms(1,2) slot assms(3), of call])
       (use assms(1,2) len in \<open>auto simp: wf_swapped mset_swapped\<close>)
next
  case False
  then show ?thesis using assms(1,2) by (auto simp: processEquip_def)
qed

definition sample_sword :: Item where
  "sample_sword = Item_new\<lparr>m_item_type := 8, m_item_id := 1, Item.m_count := 1, m_lua := Some 0\<rparr>"

definition sample_arrows :: Item where
  "sample_arrows = Item_new\<lparr>m_item_type := 12, m_item_id := 9, Item.m_count := 40, m_isStackable := True, m_lua := Some 1\<rparr>"

definition sample_player :: player where
  "sample_player = \<lparr>m_items = Some (Inventory_new[12 := sample_sword, 13 := sample_arrows]), m_basic_id = 3, m_x = 0, m_y = 0,
     m_has_client = True, m_ground = [], m_sent = []\<rparr>"

lemma wf_Inventory_new: "wf_items Inventory_new"
  by (simp add: wf_items_def Inventory_new_def)

lemma sample_player_items: "m_items sample_player = Some (Inventory_new[12 := sample_sword, 13 := sample_arrows])"
  "wf_items (Inventory_new[12 := sample_sword, 13 := sample_arrows])" "m_has_client sample_player"
  by (auto simp: sample_player_def sample_sword_def sample_arrows_def intro!: wf_items_update wf_Inventory_new)

theorem equip_conserves_items_witness:
  "\<exists>w' items'. processEquip (\<lambda>e f. Some True) \<lparr>m_slotTo = 7, m_slotFrom = 12\<rparr> sample_player = Some w'
    \<and> m_items w' = Some items' \<and> mset items' = mset (Inventory_new[12 := sample_sword, 13 := sample_arrows])"
  using equip_conserves_items [OF sample_player_items(1,2), of "\<lparr>m_slotTo = 7, m_slotFrom = 12\<rparr>" "\<lambda>e f. Some True"]
  by (auto simp: maxItems_def)

text \<open>Equipping. If the scripts agree, the item of the bag slot goes to the equipment slot and the item
  that was worn there into the bag; everyone is shown the new item and the client is told both slots.\<close>

theorem equip_moves_item:
  assumes "m_items w = Some items" and "wf_items items" and "1 \<le> sint (m_slotTo P)" and "sint (m_slotTo P) < int MAX_EQUIP_ITEMS"
    and "ucast (m_slotFrom P) = from" and "from \<noteq> (0 :: u8)" and "unat from < maxItems" and "ucast (m_slotTo P) = to" and "from \<noteq> to"
    and "ask_script call OnUnequip (items ! unat to) = Some True" and "ask_script call OnEquip (items ! unat from) = Some True"
  shows "\<exists>items' w'. processEquip call P w = Some w' \<and> m_items w' = Some items' \<and> length items' = length items
    \<and> (\<forall>k. items' ! k = (if k = unat to then items ! unat from else if k = unat from then items ! unat to else items ! k))
    \<and> m_sent w' = m_sent w @ [(Everyone, EQUIP_ITEM (m_basic_id w) (m_slotTo P) (getVisible (items ! unat from))),
        (Self, SET_ITEM [(to, getHeader (items ! unat from), getData (items ! unat from)),
                         (from, getHeader (items ! unat to), getData (items ! unat to))])]"
proof -
  have frm: "unat (ucast (m_slotFrom P) :: u8) < maxItems" using assms(5,7) by simp
  have to: "unat to < maxItems" "to \<noteq> 0"
    using equip_slot [OF assms(3,4)] assms(3,8) by (auto simp: unat_eq_0 [symmetric])
  have len: "length items = maxItems" using assms(2) by (simp add: wf_items_def)
  have ne: "unat from \<noteq> unat to" using assms(9) word_unat_eq_iff by blast
  let ?items = "swapped (unat to) (unat from) items"
  have sw: "swapItems to from w = (True, to, from, w\<lparr>m_items := Some ?items\<rparr>)"
    using assms(1,6,7,9) to by (auto simp: swapItems_def swapped_def Let_def)
  have nth: "?items ! k = (if k = unat to then items ! unat from else if k = unat from then items ! unat to else items ! k)" for k
    using len to(1) assms(7) ne by (auto simp: swapped_def nth_list_update)
  have "processEquip call P w = Some (w\<lparr>m_items := Some ?items, m_sent := m_sent w @
      [(Everyone, EQUIP_ITEM (m_basic_id w) (m_slotTo P) (getVisible (?items ! unat to))),
       (Self, SET_ITEM (map (\<lambda>s. (s, getHeader (?items ! unat s), getData (?items ! unat s))) [to, from]))]\<rparr>)"
    using assms len to equip_slot [OF assms(3,4)] sw
    by (simp add: processEquip_def Let_def send_to_def equip_item_packet_def set_item_packet_def swapped_def
        maxItems_def MAX_EQUIP_ITEMS_def)
  moreover have "length ?items = length items" by (simp add: swapped_def)
  ultimately show ?thesis using nth ne by simp
qed

theorem equip_moves_item_witness:
  "\<exists>items' w'. processEquip (\<lambda>e f. Some True) \<lparr>m_slotTo = 7, m_slotFrom = 12\<rparr> sample_player = Some w'
    \<and> m_items w' = Some items' \<and> items' ! 7 = sample_sword \<and> items' ! 12 = Item_new"
proof -
  have u: "unat (ucast (7 :: u16) :: u8) = 7" "unat (ucast (12 :: u16) :: u8) = 12" by simp_all
  have s: "sint (7 :: u16) = 7" by (simp add: sint_uint signed_take_bit_int_eq_self)
  have "ask_script (\<lambda>e f. Some True) OnUnequip Item_new = Some True" by (simp add: ask_script_def)
  moreover have "ask_script (\<lambda>e f. Some True) OnEquip sample_sword = Some True"
    by (simp add: ask_script_def safeLuaCall_def sample_sword_def)
  ultimately show ?thesis
    using equip_moves_item [OF sample_player_items(1,2), of "\<lparr>m_slotTo = 7, m_slotFrom = 12\<rparr>" 12 7 "\<lambda>e f. Some True"] s
    by (force simp: maxItems_def MAX_EQUIP_ITEMS_def Inventory_new_def)
qed

text \<open>A slot number of the client outside the inventory reaches the array access before the check in
  \<open>swapItems\<close>.\<close>

theorem equip_reads_out_of_bounds:
  assumes "m_items w = Some items" and "wf_items items" and "1 \<le> sint (m_slotTo P)" and "sint (m_slotTo P) < int MAX_EQUIP_ITEMS"
    and "maxItems \<le> unat (ucast (m_slotFrom P) :: u8)"
  shows "processEquip call P w = None"
proof -
  have "\<exists>b. ask_script call OnUnequip (items ! unat (ucast (m_slotTo P) :: u8)) = Some b"
    using ask_script_wf [OF assms(2)] equip_slot [OF assms(3,4)] by simp
  then show ?thesis using assms by (auto simp: processEquip_def Let_def wf_items_def)
qed

theorem equip_reads_out_of_bounds_witness:
  "processEquip (\<lambda>e f. Some True) \<lparr>m_slotTo = 7, m_slotFrom = 200\<rparr> sample_player = None"
  using equip_reads_out_of_bounds [OF sample_player_items(1,2), of "\<lparr>m_slotTo = 7, m_slotFrom = 200\<rparr>"]
  by (simp add: maxItems_def MAX_EQUIP_ITEMS_def sint_uint signed_take_bit_int_eq_self)

text \<open>With a full bag, taking off a worn item (the client names slot 0 and the server looks for a free
  one) swaps it into slot 0, which no request can name: the item is worn no longer and not in the bag.\<close>

theorem unequip_into_full_bag:
  assumes "m_items w = Some items" and "wf_items items" and "1 \<le> sint (m_slotTo P)" and "sint (m_slotTo P) < int MAX_EQUIP_ITEMS"
    and "ucast (m_slotFrom P) = (0 :: u8)" and "ucast (m_slotTo P) = (to :: u8)" and "\<not> item_exists (items ! 0)"
    and "\<forall>k. MAX_EQUIP_ITEMS \<le> k \<and> k < maxItems \<longrightarrow> item_exists (items ! k)"
    and "ask_script call OnUnequip (items ! unat to) = Some True"
  shows "\<exists>w' items'. processEquip call P w = Some w' \<and> m_items w' = Some items' \<and> items' ! 0 = items ! unat to
    \<and> (\<forall>k. k \<noteq> 0 \<and> k \<noteq> unat to \<longrightarrow> items' ! k = items ! k)"
proof -
  have len: "length items = maxItems" using assms(2) by (simp add: wf_items_def)
  have to: "unat to < maxItems" "to \<noteq> 0"
    using equip_slot [OF assms(3,4)] assms(3,6) by (auto simp: unat_eq_0 [symmetric])
  have full: "findNextEmptySlot w = 0"
    by (rule findNextEmptySlot_cases [OF assms(1)]) (use assms(8) in auto)
  let ?items = "swapped (unat to) 0 items"
  have sw: "swapItems to 0 w = (True, to, 0, w\<lparr>m_items := Some ?items\<rparr>)"
    using assms(1) to by (simp add: swapItems_def swapped_def Let_def full maxItems_def)
  have ask: "ask_script call OnEquip (items ! 0) = Some True" using assms(7) by (simp add: ask_script_def)
  have "\<exists>w'. processEquip call P w = Some w' \<and> m_items w' = Some ?items"
    using assms len to equip_slot [OF assms(3,4)] sw ask
    by (simp add: processEquip_def Let_def send_to_def equip_item_packet_def set_item_packet_def swapped_def
        maxItems_def MAX_EQUIP_ITEMS_def)
  moreover have "?items ! 0 = items ! unat to" "\<forall>k. k \<noteq> 0 \<and> k \<noteq> unat to \<longrightarrow> ?items ! k = items ! k"
    using len by (simp_all add: swapped_def maxItems_def)
  ultimately show ?thesis by blast
qed

definition full_bag :: "Item list" where
  "full_bag = replicate 7 Item_new @ [sample_sword] @ replicate 4 Item_new @ replicate 128 sample_arrows"

lemma wf_full_bag: "wf_items full_bag"
  by (auto simp: wf_items_def full_bag_def maxItems_def sample_sword_def sample_arrows_def)

theorem unequip_into_full_bag_witness:
  "\<exists>w' items'. processEquip (\<lambda>e f. Some True) \<lparr>m_slotTo = 7, m_slotFrom = 0\<rparr> (sample_player\<lparr>m_items := Some full_bag\<rparr>) = Some w'
    \<and> m_items w' = Some items' \<and> items' ! 0 = sample_sword"
proof -
  have bag: "\<forall>k. MAX_EQUIP_ITEMS \<le> k \<and> k < maxItems \<longrightarrow> item_exists (full_bag ! k)"
    by (auto simp: full_bag_def MAX_EQUIP_ITEMS_def maxItems_def nth_append item_exists_def sample_arrows_def nth_Cons')
  have n: "full_bag ! 7 = sample_sword" "full_bag ! 0 = Item_new"
    by (simp_all add: full_bag_def nth_append)
  have "ask_script (\<lambda>e f. Some True) OnUnequip sample_sword = Some True"
    by (simp add: ask_script_def safeLuaCall_def sample_sword_def)
  then show ?thesis
    using unequip_into_full_bag [of "sample_player\<lparr>m_items := Some full_bag\<rparr>" full_bag "\<lparr>m_slotTo = 7, m_slotFrom = 0\<rparr>" 7
        "\<lambda>e f. Some True"] wf_full_bag bag n
    by (auto simp: MAX_EQUIP_ITEMS_def sint_uint signed_take_bit_int_eq_self)
qed

lemma removeItem_there:
  assumes "m_items w = Some items" and "wf_items items" and "slot \<noteq> 0" and "unat slot < maxItems"
    and "item_exists (items ! unat slot)" and "m_has_client w"
  shows "\<exists>w'. removeItem call slot w = Some (items ! unat slot, w') \<and> m_items w' = Some (items[unat slot := Item_new])
    \<and> m_ground w' = m_ground w"
proof -
  have len: "length items = maxItems" using assms(2) by (simp add: wf_items_def)
  have "items ! unat slot \<in> set items" using assms(4) len by simp
  then obtain e where lua: "m_lua (items ! unat slot) = Some e" using assms(2,5) by (auto simp: wf_items_def)
  have "sint (ucast slot :: u16) = int (unat slot)"
    using assms(4) by (subst sint_eq_unat_small) (auto simp: maxItems_def unsigned_ucast_eq take_bit_nat_eq_self)
  moreover have "int (unat slot) < int maxItems" using assms(4) by (simp only: of_nat_less_iff)
  ultimately show ?thesis
    using assms len lua
    by (auto simp: removeItem_def Let_def safeLuaCall_def send_to_def set_item_packet_def equip_item_packet_def)
qed

text \<open>C31. Dropping. A request to drop an item that is there puts an item of the same kind on the ground, with
  the quantity asked for or all there is; what stays in the slot and what lies on the ground add up to what
  was held, and every other slot is as it was.\<close>

theorem drop_conserves_count:
  assumes "m_items w = Some items" and "wf_items items" and "CliDropItem.m_item P \<noteq> 0"
    and "unat (CliDropItem.m_item P) = k" and "k < maxItems" and "item_exists (items ! k)" and "m_has_client w"
  shows "\<exists>w' items' i. dropItem call new P w = Some w' \<and> m_items w' = Some items' \<and> wf_items items'
    \<and> m_ground w' = m_ground w @ [(new, i)]
    \<and> m_item_id i = m_item_id (items ! k) \<and> m_item_type i = m_item_type (items ! k)
    \<and> unat (Item.m_count i) = min (unat (m_quantity P)) (unat (Item.m_count (items ! k)))
    \<and> unat (Item.m_count (items' ! k)) + unat (Item.m_count i) = unat (Item.m_count (items ! k))
    \<and> (\<forall>j. j \<noteq> k \<longrightarrow> items' ! j = items ! j)"
proof (cases "m_quantity P < Item.m_count (items ! k)")
  case True
  let ?held = "Item.m_count (items ! k)"
  let ?item = "(items ! k)\<lparr>Item.m_count := ?held - m_quantity P\<rparr>"
  have len: "length items = maxItems" using assms(2) by (simp add: wf_items_def)
  have lua: "m_lua (items ! k) \<noteq> None" using assms(2,5,6) len by (auto simp: wf_items_def)
  have "wf_items (items[k := ?item])" by (rule wf_items_update) (use assms(2) lua in auto)
  moreover have "unat (?held - m_quantity P) = unat ?held - unat (m_quantity P)"
    by (rule unat_sub) (use True in simp)
  moreover have "unat (m_quantity P) < unat ?held" using True by (simp add: word_less_nat_alt)
  moreover have "\<exists>w'. dropItem call new P w = Some w' \<and> m_items w' = Some (items[k := ?item])
      \<and> m_ground w' = m_ground w @ [(new, ?item\<lparr>Item.m_count := m_quantity P\<rparr>)]"
    using assms(1,3,4,5) True len
    by (auto simp: dropItem_def Let_def send_to_def set_item_packet_def buildItemEntity_def)
  ultimately show ?thesis using assms(5) len by force
next
  case False
  obtain w1 where r: "removeItem call (CliDropItem.m_item P) w = Some (items ! k, w1)"
      "m_items w1 = Some (items[k := Item_new])" "m_ground w1 = m_ground w"
    using removeItem_there [OF assms(1,2,3), of call] assms(4-7) by auto
  have "\<exists>w'. dropItem call new P w = Some w' \<and> m_items w' = Some (items[k := Item_new])
      \<and> m_ground w' = m_ground w @ [(new, items ! k)]"
    using assms(1,3,4,5) False r by (auto simp: dropItem_def Let_def send_to_def buildItemEntity_def)
  moreover have "wf_items (items[k := Item_new])" by (rule wf_items_update [OF assms(2)]) simp
  moreover have "unat (Item.m_count (items ! k)) \<le> unat (m_quantity P)" using False by (simp add: word_less_nat_alt)
  ultimately show ?thesis using assms(2,5) by (auto simp: wf_items_def Item_new_def)
qed

theorem drop_conserves_count_witness:
  "\<exists>w' i. dropItem (\<lambda>e f. Some True) 77 \<lparr>m_item = 13, m_quantity = 15\<rparr> sample_player = Some w'
    \<and> m_ground w' = [(77, i)] \<and> unat (Item.m_count i) = 15"
proof -
  have n: "(Inventory_new[12 := sample_sword, 13 := sample_arrows]) ! 13 = sample_arrows"
    by (simp add: Inventory_new_def maxItems_def)
  have "item_exists sample_arrows" "Item.m_count sample_arrows = 40" "m_ground sample_player = []"
    by (simp_all add: item_exists_def sample_arrows_def sample_player_def)
  then show ?thesis
    using drop_conserves_count [OF sample_player_items(1,2), of "\<lparr>m_item = 13, m_quantity = 15\<rparr>" 13 "\<lambda>e f. Some True" 77]
      sample_player_items(3) n by (auto simp: maxItems_def)
qed

text \<open>A request to drop what is in an empty slot calls into the script of an item that has none, through a
  null pointer: any client can stop the server with it.\<close>

theorem drop_empty_slot_crashes:
  assumes "m_items w = Some items" and "items ! unat (CliDropItem.m_item P) = Item_new"
    and "CliDropItem.m_item P \<noteq> 0" and "unat (CliDropItem.m_item P) < maxItems"
  shows "dropItem call new P w = None"
  using assms by (simp add: dropItem_def Let_def removeItem_def safeLuaCall_def Item_new_def)

theorem drop_empty_slot_crashes_witness:
  "dropItem (\<lambda>e f. Some True) 0 \<lparr>m_item = 50, m_quantity = 1\<rparr> sample_player = None"
  using drop_empty_slot_crashes [OF sample_player_items(1), of "\<lparr>m_item = 50, m_quantity = 1\<rparr>"]
  by (simp add: Inventory_new_def maxItems_def)

text \<open>Picking up. An item with a script goes into the first free bag slot, and it is refused exactly when
  there is none.\<close>

theorem addItem_first_free:
  assumes "m_items w = Some items" and "wf_items items" and "m_lua i \<noteq> None" and "m_has_client w"
  shows "if \<forall>k. MAX_EQUIP_ITEMS \<le> k \<and> k < maxItems \<longrightarrow> item_exists (items ! k) then addItem call i w = Some (False, w)
    else \<exists>k w'. addItem call i w = Some (True, w') \<and> m_items w' = Some (items[k := i]) \<and> wf_items (items[k := i])
      \<and> MAX_EQUIP_ITEMS \<le> k \<and> k < maxItems \<and> \<not> item_exists (items ! k)
      \<and> (\<forall>j. MAX_EQUIP_ITEMS \<le> j \<and> j < k \<longrightarrow> item_exists (items ! j))"
proof (rule findNextEmptySlot_cases [OF assms(1)])
  assume "findNextEmptySlot w = 0" "\<forall>k. MAX_EQUIP_ITEMS \<le> k \<and> k < maxItems \<longrightarrow> item_exists (items ! k)"
  then show ?thesis by (simp add: addItem_def)
next
  fix k assume k: "findNextEmptySlot w = of_nat k" "unat (of_nat k :: u8) = k" "MAX_EQUIP_ITEMS \<le> k" "k < maxItems"
      "\<not> item_exists (items ! k)" "\<forall>j. MAX_EQUIP_ITEMS \<le> j \<and> j < k \<longrightarrow> item_exists (items ! j)"
  have len: "length items = maxItems" using assms(2) by (simp add: wf_items_def)
  have nz: "(of_nat k :: u8) \<noteq> 0" using k(2,3) by (metis MAX_EQUIP_ITEMS_def not_numeral_le_zero unat_0)
  have "\<exists>w'. addItem call i w = Some (True, w') \<and> m_items w' = Some (items[k := i])"
    using assms k(1,2,4) nz len by (auto simp: addItem_def Let_def safeLuaCall_def send_to_def set_item_packet_def)
  then show ?thesis using k wf_items_update [OF assms(2), of i k] assms(3) by auto
qed

theorem addItem_first_free_witness:
  "\<exists>k w'. addItem (\<lambda>e f. Some True) sample_sword sample_player = Some (True, w')
    \<and> m_items w' = Some (Inventory_new[12 := sample_sword, 13 := sample_arrows, k := sample_sword])"
proof -
  have "\<not> item_exists ((Inventory_new[12 := sample_sword, 13 := sample_arrows]) ! 14)"
    by (simp add: Inventory_new_def maxItems_def)
  then have free: "\<not> (\<forall>k. MAX_EQUIP_ITEMS \<le> k \<and> k < maxItems
      \<longrightarrow> item_exists ((Inventory_new[12 := sample_sword, 13 := sample_arrows]) ! k))"
    by (auto simp: MAX_EQUIP_ITEMS_def maxItems_def intro!: exI [of _ 14])
  have "m_lua sample_sword \<noteq> None" by (simp add: sample_sword_def)
  from addItem_first_free [OF sample_player_items(1,2) this sample_player_items(3), of "\<lambda>e f. Some True"]
  show ?thesis unfolding if_not_P [OF free] by blast
qed

end
