(* ===== verification/CharacterStore.thy ===== *)
theory CharacterStore
  imports Inventory
begin

text \<open>
  How \<open>EntitySystem::saveCharacter\<close> writes an inventory to the database and \<open>loadCharacter\<close> reads it
  (\<open>map/src/entitysystem.cpp\<close>). The inventory table is a list of rows; the statements \<open>saveCharacter\<close>
  runs are values, and \<open>run_sql\<close> is what they mean. A row with a negative slot would be used as an index
  into the array, which is \<open>None\<close>.
\<close>

section \<open>Definitions\<close>

datatype inv_sql = RemoveFrom int | UpdateSlot int Item | InsertInto int Item

definition of_slot :: "int \<Rightarrow> int \<Rightarrow> inventory_row \<Rightarrow> bool" where
  "of_slot charId slot r \<longleftrightarrow> row_charId r = charId \<and> row_slot r = slot"

definition inserted_row :: "int \<Rightarrow> int \<Rightarrow> Item \<Rightarrow> inventory_row" where
  "inserted_row charId slot i = Item_commit i \<lparr>row_charId = charId, row_slot = slot, row_itemtype = 0, row_itemid = 0,
     row_amount = 0, row_refine = 0, row_gemOpt = 0, row_socket = False\<rparr>"

fun run_sql :: "int \<Rightarrow> inv_sql \<Rightarrow> inventory_row list \<Rightarrow> inventory_row list" where
  "run_sql charId (RemoveFrom slot) t = filter (\<lambda>r. \<not> of_slot charId slot r) t"
| "run_sql charId (UpdateSlot slot i) t = map (\<lambda>r. if of_slot charId slot r then Item_commit i r else r) t"
| "run_sql charId (InsertInto slot i) t = t @ [inserted_row charId slot i]"

definition toDelete :: "Item list \<Rightarrow> inventory_row list \<Rightarrow> int list" where
  "toDelete items rows = map row_slot
     (filter (\<lambda>r. int maxItems \<le> row_slot r \<or> \<not> item_exists (items ! nat (row_slot r))) rows)"

definition toUpdate :: "Item list \<Rightarrow> inventory_row list \<Rightarrow> int list" where
  "toUpdate items rows = map row_slot
     (filter (\<lambda>r. \<not> int maxItems \<le> row_slot r \<and> item_exists (items ! nat (row_slot r))
        \<and> \<not> item_eq (items ! nat (row_slot r)) (Item_of_row r)) rows)"

definition toInsert :: "Item list \<Rightarrow> inventory_row list \<Rightarrow> nat list" where
  "toInsert items rows = filter (\<lambda>k. item_exists (items ! k) \<and> int k \<notin> row_slot ` set rows) [0..<length items]"

definition save_statements :: "Item list \<Rightarrow> inventory_row list \<Rightarrow> inv_sql list" where
  "save_statements items rows =
     map RemoveFrom (toDelete items rows) @ map (\<lambda>s. UpdateSlot s (items ! nat s)) (toUpdate items rows)
     @ map (\<lambda>k. InsertInto (int k) (items ! k)) (toInsert items rows)"

definition save_inventory :: "int \<Rightarrow> Item list \<Rightarrow> inventory_row list \<Rightarrow> inventory_row list option" where
  "save_inventory charId items t =
    (let rows = filter (\<lambda>r. row_charId r = charId) t in
     if list_ex (\<lambda>r. row_slot r < 0) rows then None
     else Some (fold (run_sql charId) (save_statements items rows) t))"

definition load_inventory :: "item_database \<Rightarrow> (cstring \<Rightarrow> nat option) \<Rightarrow> int \<Rightarrow> inventory_row list \<Rightarrow> Item list option" where
  "load_inventory db load charId t =
     Inventory_loadFromResult db load (filter (\<lambda>r. row_charId r = charId) t) Inventory_new"

section \<open>What the statements do\<close>

lemma run_removes:
  "fold (run_sql c) (map RemoveFrom ss) t = filter (\<lambda>r. \<not> (row_charId r = c \<and> row_slot r \<in> set ss)) t"
  by (induction ss arbitrary: t) (auto simp: of_slot_def intro!: filter_cong)

lemma Item_commit_slot [simp]: "row_charId (Item_commit i r) = row_charId r" "row_slot (Item_commit i r) = row_slot r"
  by (simp_all add: Item_commit_def)

lemma Item_commit_twice [simp]: "Item_commit i (Item_commit j r) = Item_commit i r"
  by (simp add: Item_commit_def)

lemma run_updates:
  "fold (run_sql c) (map (\<lambda>s. UpdateSlot s (f s)) ss) t
    = map (\<lambda>r. if row_charId r = c \<and> row_slot r \<in> set ss then Item_commit (f (row_slot r)) r else r) t"
  by (induction ss arbitrary: t) (auto simp: of_slot_def intro!: map_cong)

lemma run_inserts:
  "fold (run_sql c) (map (\<lambda>k. InsertInto (g k) (f k)) ks) t = t @ map (\<lambda>k. inserted_row c (g k) (f k)) ks"
  by (induction ks arbitrary: t) auto

lemma run_sql_others: "filter (\<lambda>r. row_charId r \<noteq> c) (run_sql c s t) = filter (\<lambda>r. row_charId r \<noteq> c) t"
proof (cases s)
  case (RemoveFrom slot)
  then show ?thesis by (auto simp: of_slot_def intro!: filter_cong)
next
  case (UpdateSlot slot i)
  have "filter (\<lambda>r. row_charId r \<noteq> c) (map (\<lambda>r. if of_slot c slot r then Item_commit i r else r) t)
      = filter (\<lambda>r. row_charId r \<noteq> c) t"
    by (induction t) (auto simp: of_slot_def)
  then show ?thesis using UpdateSlot by simp
next
  case (InsertInto slot i)
  then show ?thesis by (simp add: inserted_row_def Item_commit_def)
qed

lemma run_all_others:
  "filter (\<lambda>r. row_charId r \<noteq> c) (fold (run_sql c) ss t) = filter (\<lambda>r. row_charId r \<noteq> c) t"
  by (induction ss arbitrary: t) (simp_all only: fold_simps run_sql_others)

text \<open>The rows of a saved character.\<close>

definition stores :: "int \<Rightarrow> Item list \<Rightarrow> inventory_row list \<Rightarrow> bool" where
  "stores c items t \<longleftrightarrow>
    (\<forall>r \<in> set t. row_charId r = c \<longrightarrow> 0 \<le> row_slot r \<and> row_slot r < int maxItems
       \<and> item_exists (items ! nat (row_slot r)) \<and> same_stored (Item_of_row r) (items ! nat (row_slot r)))
    \<and> (\<forall>k < maxItems. item_exists (items ! k) \<longrightarrow> (\<exists>r \<in> set t. row_charId r = c \<and> row_slot r = int k))"

lemma same_stored_sym: "same_stored a b \<Longrightarrow> same_stored b a"
  by (simp add: same_stored_def)

lemma same_stored_inserted: "same_stored (Item_of_row (inserted_row c s i)) i"
  unfolding inserted_row_def by (rule Item_of_row_commit)

lemma inserted_row_slot [simp]: "row_charId (inserted_row c s i) = c" "row_slot (inserted_row c s i) = s"
  by (simp_all add: inserted_row_def)

lemma save_inventory_table:
  assumes "\<forall>r \<in> set t. row_charId r = c \<longrightarrow> 0 \<le> row_slot r"
  defines "rows \<equiv> filter (\<lambda>r. row_charId r = c) t"
  shows "save_inventory c items t = Some
    (map (\<lambda>r. if row_charId r = c \<and> row_slot r \<in> set (toUpdate items rows) then Item_commit (items ! nat (row_slot r)) r else r)
       (filter (\<lambda>r. \<not> (row_charId r = c \<and> row_slot r \<in> set (toDelete items rows))) t)
     @ map (\<lambda>k. inserted_row c (int k) (items ! k)) (toInsert items rows))"
proof -
  have "\<not> list_ex (\<lambda>r. row_slot r < 0) rows" using assms(1) by (auto simp: rows_def list_ex_iff)
  then show ?thesis
    unfolding save_inventory_def Let_def rows_def [symmetric] save_statements_def fold_append comp_apply
      run_removes run_updates [where f = "\<lambda>s. items ! nat s"] run_inserts
    by simp
qed

lemma save_inventory_stores:
  assumes "length items = maxItems" and "\<forall>r \<in> set t. row_charId r = c \<longrightarrow> 0 \<le> row_slot r"
    and "save_inventory c items t = Some t'"
  shows "stores c items t'"
proof -
  let ?rows = "filter (\<lambda>r. row_charId r = c) t"
  let ?U = "set (toUpdate items ?rows)" and ?D = "set (toDelete items ?rows)"
  note t' = save_inventory_table [OF assms(2), of items, unfolded assms(3), simplified]
  have kept: "0 \<le> row_slot r \<and> row_slot r < int maxItems \<and> item_exists (items ! nat (row_slot r))
      \<and> (row_slot r \<in> ?U \<or> same_stored (Item_of_row r) (items ! nat (row_slot r)))"
    if "r \<in> set t" "row_charId r = c" "row_slot r \<notin> ?D" for r
    using that assms(2) by (fastforce simp: toDelete_def toUpdate_def dest: item_eq_same_stored same_stored_sym)
  let ?ok = "\<lambda>r. 0 \<le> row_slot r \<and> row_slot r < int maxItems \<and> item_exists (items ! nat (row_slot r))
    \<and> same_stored (Item_of_row r) (items ! nat (row_slot r))"
  have upd: "?ok (if row_charId r = c \<and> row_slot r \<in> ?U then Item_commit (items ! nat (row_slot r)) r else r)"
    if "r \<in> set t" "row_charId r = c" "row_slot r \<notin> ?D" for r
    using kept [OF that] that(2) by (auto simp: Item_of_row_commit)
  have ins: "?ok (inserted_row c (int k) (items ! k))" if "k \<in> set (toInsert items ?rows)" for k
    using that assms(1) by (simp add: toInsert_def same_stored_inserted)
  have sound: "?ok r" if r: "r \<in> set t'" "row_charId r = c" for r
  proof -
    from r(1) consider k where "k \<in> set (toInsert items ?rows)" "r = inserted_row c (int k) (items ! k)"
      | r0 where "r0 \<in> set t" "\<not> (row_charId r0 = c \<and> row_slot r0 \<in> ?D)"
          "r = (if row_charId r0 = c \<and> row_slot r0 \<in> ?U then Item_commit (items ! nat (row_slot r0)) r0 else r0)"
      unfolding t' set_append set_map by auto
    then show ?thesis
    proof cases
      case 1
      then show ?thesis using ins by simp
    next
      case 2
      then have "row_charId r0 = c" using r(2) by (auto split: if_splits)
      then show ?thesis using upd [of r0] 2 by auto
    qed
  qed
  have "\<exists>r \<in> set t'. row_charId r = c \<and> row_slot r = int k" if "k < maxItems" "item_exists (items ! k)" for k
  proof (cases "int k \<in> row_slot ` set ?rows")
    case True
    then obtain r where r: "r \<in> set t" "row_charId r = c" "row_slot r = int k" by auto
    have "item_exists (items ! nat (int k))" using that by simp
    then have nd: "row_slot r \<notin> ?D" using r(3) that(1) unfolding toDelete_def by (auto simp del: nat_int)
    let ?r = "if row_charId r = c \<and> row_slot r \<in> ?U then Item_commit (items ! nat (row_slot r)) r else r"
    have "?r \<in> set t'" unfolding t' set_append set_map using r(1) nd by (intro UnI1 imageI) simp
    moreover have "row_charId ?r = c" "row_slot ?r = int k" using r(2,3) by simp_all
    ultimately show ?thesis by blast
  next
    case False
    then have "k \<in> set (toInsert items ?rows)" using that assms(1) by (auto simp: toInsert_def)
    then show ?thesis by (auto simp: t' intro!: bexI [of _ "inserted_row c (int k) (items ! k)"])
  qed
  with sound show ?thesis unfolding stores_def by blast
qed

section \<open>Loading what was saved\<close>

text \<open>An item whose definition and script the server finds.\<close>

definition buildable :: "item_database \<Rightarrow> (cstring \<Rightarrow> nat option) \<Rightarrow> Item \<Rightarrow> bool" where
  "buildable db load i \<longleftrightarrow> (case db (m_item_type i, m_item_id i) of
     None \<Rightarrow> False
   | Some d \<Rightarrow> def_type d = m_item_type i \<and> def_id d = m_item_id i \<and> load (def_script d) \<noteq> None)"

lemma loadFromRow_stored:
  assumes "same_stored (Item_of_row r) i" and "buildable db load i"
  shows "\<exists>j. Item_loadFromRow db load r k = Some j \<and> same_stored j i \<and> m_lua j \<noteq> None"
proof -
  have key: "word_of_int (row_itemtype r) = m_item_type i" "word_of_int (row_itemid r) = m_item_id i"
    and cols: "word_of_int (row_amount r) = Item.m_count i" "word_of_int (row_refine r) = Item.m_refine i"
      "word_of_int (row_gemOpt r) = m_gemOpt i" "row_socket r = m_hasSocket i"
    using assms(1) by (simp_all add: same_stored_def Item_of_row_def load_columns_def)
  from assms(2) obtain d e where "db (m_item_type i, m_item_id i) = Some d" "def_type d = m_item_type i"
      "def_id d = m_item_id i" "load (def_script d) = Some e"
    by (auto simp: buildable_def split: option.splits)
  then show ?thesis
    by (simp add: Item_loadFromRow_def buildItem_def getItemDef_def key cols load_columns_def same_stored_def Item_of_def_def)
qed

lemma loadFromResult_stored:
  assumes "\<forall>r \<in> set rows. 0 \<le> row_slot r \<and> row_slot r < int maxItems
      \<and> same_stored (Item_of_row r) (items ! nat (row_slot r)) \<and> buildable db load (items ! nat (row_slot r))"
    and "wf_items start"
  shows "\<exists>loaded. Inventory_loadFromResult db load rows start = Some loaded \<and> wf_items loaded
    \<and> (\<forall>k < maxItems. if int k \<in> row_slot ` set rows then same_stored (loaded ! k) (items ! k) else loaded ! k = start ! k)"
  using assms
proof (induction rows arbitrary: start)
  case Nil
  then show ?case by simp
next
  case (Cons r rows)
  let ?k = "nat (row_slot r)"
  have r: "0 \<le> row_slot r" "row_slot r < int maxItems" "?k < maxItems"
    "same_stored (Item_of_row r) (items ! ?k)" "buildable db load (items ! ?k)"
    using Cons.prems(1) by auto
  obtain j where j: "Item_loadFromRow db load r (start ! ?k) = Some j" "same_stored j (items ! ?k)" "m_lua j \<noteq> None"
    using loadFromRow_stored [OF r(4,5)] by blast
  have "wf_items (start[?k := j])" by (rule wf_items_update) (use Cons.prems(2) j(3) in auto)
  from Cons.IH [OF _ this] Cons.prems(1) obtain loaded
    where l: "Inventory_loadFromResult db load rows (start[?k := j]) = Some loaded" "wf_items loaded"
      "\<forall>k < maxItems. if int k \<in> row_slot ` set rows then same_stored (loaded ! k) (items ! k) else loaded ! k = start[?k := j] ! k"
    by auto
  have "if int k \<in> row_slot ` set (r # rows) then same_stored (loaded ! k) (items ! k) else loaded ! k = start ! k"
    if "k < maxItems" for k
    using l(3) [rule_format, OF that] j(2) r(1) that Cons.prems(2)
    by (cases "k = ?k") (auto simp: wf_items_def split: if_splits)
  then show ?case using j(1) l(1,2) r(1,2) by auto
qed

section \<open>Properties\<close>

text \<open>C19. Saving. Whatever rows the inventory table had before, after \<open>saveCharacter\<close> the rows of the character
  are exactly the items of the inventory, slot by slot with all stored columns, and the rows of every other
  character are untouched.\<close>

theorem save_inventory_refines:
  assumes "length items = maxItems" and "\<forall>r \<in> set t. row_charId r = c \<longrightarrow> 0 \<le> row_slot r"
  shows "\<exists>t'. save_inventory c items t = Some t'
    \<and> filter (\<lambda>r. row_charId r \<noteq> c) t' = filter (\<lambda>r. row_charId r \<noteq> c) t
    \<and> (\<forall>k. (\<exists>r \<in> set t'. of_slot c k r) \<longleftrightarrow> 0 \<le> k \<and> k < int maxItems \<and> item_exists (items ! nat k))
    \<and> (\<forall>r \<in> set t'. row_charId r = c \<longrightarrow> same_stored (Item_of_row r) (items ! nat (row_slot r)))"
proof -
  obtain t' where t': "save_inventory c items t = Some t'" using save_inventory_table [OF assms(2)] by blast
  note st = save_inventory_stores [OF assms t']
  have "filter (\<lambda>r. row_charId r \<noteq> c) t' = filter (\<lambda>r. row_charId r \<noteq> c) t"
    using t' run_all_others by (auto simp: save_inventory_def Let_def split: if_splits)
  moreover have "(\<exists>r \<in> set t'. of_slot c k r) \<longleftrightarrow> 0 \<le> k \<and> k < int maxItems \<and> item_exists (items ! nat k)" for k
  proof
    assume "0 \<le> k \<and> k < int maxItems \<and> item_exists (items ! nat k)"
    then show "\<exists>r \<in> set t'. of_slot c k r"
      using st unfolding stores_def of_slot_def by (metis int_nat_eq nat_less_iff)
  qed (use st in \<open>auto simp: stores_def of_slot_def\<close>)
  ultimately show ?thesis using t' st unfolding stores_def by blast
qed

definition sample_rows :: "inventory_row list" where
  "sample_rows = [inserted_row 1 12 sample_arrows, inserted_row 1 20 sample_sword, inserted_row 2 12 sample_sword]"

definition sample_items :: "Item list" where
  "sample_items = Inventory_new[12 := sample_sword, 13 := sample_arrows]"

lemma sample_items_length: "length sample_items = maxItems" "item_exists (sample_items ! 12)" "item_exists (sample_items ! 13)"
  "\<not> item_exists (sample_items ! 20)"
  by (simp_all add: sample_items_def Inventory_new_def maxItems_def item_exists_def sample_sword_def sample_arrows_def Item_new_def)

lemma sample_rows_slots: "\<forall>r \<in> set sample_rows. row_charId r = c \<longrightarrow> 0 \<le> row_slot r"
  by (auto simp: sample_rows_def)

theorem save_inventory_refines_witness:
  "\<exists>t'. save_inventory 1 sample_items sample_rows = Some t' \<and> (\<exists>r \<in> set t'. of_slot 1 12 r) \<and> (\<exists>r \<in> set t'. of_slot 1 13 r)
    \<and> \<not> (\<exists>r \<in> set t'. of_slot 1 20 r)"
proof -
  obtain t' where t': "save_inventory 1 sample_items sample_rows = Some t'"
    and k: "\<forall>k. (\<exists>r \<in> set t'. of_slot 1 k r) \<longleftrightarrow> 0 \<le> k \<and> k < int maxItems \<and> item_exists (sample_items ! nat k)"
    using save_inventory_refines [OF sample_items_length(1) sample_rows_slots [of 1]] by blast
  have "(\<exists>r \<in> set t'. of_slot 1 12 r) \<and> (\<exists>r \<in> set t'. of_slot 1 13 r) \<and> \<not> (\<exists>r \<in> set t'. of_slot 1 20 r)"
    unfolding k [rule_format] using sample_items_length(2-4) by (simp add: maxItems_def)
  with t' show ?thesis by blast
qed

text \<open>C30. Saved and loaded. If the server knows the definition and the script of every item, the inventory it
  loads after saving has in every slot an item with the same stored columns, and is empty where the saved
  one was.\<close>

theorem save_load_roundtrip:
  assumes "length items = maxItems" and "\<forall>r \<in> set t. row_charId r = c \<longrightarrow> 0 \<le> row_slot r"
    and "\<forall>i \<in> set items. item_exists i \<longrightarrow> buildable db load i"
  shows "\<exists>t' loaded. save_inventory c items t = Some t' \<and> load_inventory db load c t' = Some loaded \<and> wf_items loaded
    \<and> (\<forall>k < maxItems. if item_exists (items ! k) then same_stored (loaded ! k) (items ! k) else loaded ! k = Item_new)"
proof -
  obtain t' where t': "save_inventory c items t = Some t'" using save_inventory_table [OF assms(2)] by blast
  note st = save_inventory_stores [OF assms(1,2) t']
  let ?rows = "filter (\<lambda>r. row_charId r = c) t'"
  have rows: "\<forall>r \<in> set ?rows. 0 \<le> row_slot r \<and> row_slot r < int maxItems
      \<and> same_stored (Item_of_row r) (items ! nat (row_slot r)) \<and> buildable db load (items ! nat (row_slot r))"
    using st assms(1,3) by (auto simp: stores_def)
  obtain loaded where l: "Inventory_loadFromResult db load ?rows Inventory_new = Some loaded" "wf_items loaded"
      "\<forall>k < maxItems. if int k \<in> row_slot ` set ?rows then same_stored (loaded ! k) (items ! k) else loaded ! k = Inventory_new ! k"
    using loadFromResult_stored [OF rows wf_Inventory_new] by blast
  have "int k \<in> row_slot ` set ?rows \<longleftrightarrow> item_exists (items ! k)" if "k < maxItems" for k
    using st that unfolding stores_def by (auto simp: image_iff) (metis nat_int)+
  then have "\<forall>k < maxItems. if item_exists (items ! k) then same_stored (loaded ! k) (items ! k) else loaded ! k = Item_new"
    using l(3) by (simp add: Inventory_new_def)
  then show ?thesis using t' l(1,2) unfolding load_inventory_def by blast
qed

definition sample_database :: item_database where
  "sample_database = (\<lambda>(ty, i). Some \<lparr>def_type = ty, def_subtype = 0, def_id = i, def_buy_price = 1, def_sell_price = 1,
     def_weight = 1, def_atk = 1, def_def = 1, def_range = 1, def_slots = 1, def_level = 1, def_view_id = 1,
     def_name = [], def_desc = [], def_script = []\<rparr>)"

theorem save_load_roundtrip_witness:
  "\<exists>t' loaded. save_inventory 1 sample_items sample_rows = Some t'
    \<and> load_inventory sample_database (\<lambda>_. Some 4) 1 t' = Some loaded
    \<and> same_stored (loaded ! 13) sample_arrows \<and> loaded ! 20 = Item_new"
proof -
  have "\<forall>i \<in> set sample_items. item_exists i \<longrightarrow> buildable sample_database (\<lambda>_. Some 4) i"
    by (simp add: buildable_def sample_database_def)
  from save_load_roundtrip [OF sample_items_length(1) sample_rows_slots [of 1] this]
  obtain t' loaded where l: "save_inventory 1 sample_items sample_rows = Some t'"
      "load_inventory sample_database (\<lambda>_. Some 4) 1 t' = Some loaded"
    and k: "\<forall>k < maxItems. if item_exists (sample_items ! k) then same_stored (loaded ! k) (sample_items ! k) else loaded ! k = Item_new"
    by blast
  have "sample_items ! 13 = sample_arrows" by (simp add: sample_items_def Inventory_new_def maxItems_def)
  then show ?thesis
    using l k [rule_format, of 13] k [rule_format, of 20] sample_items_length(3,4) by (auto simp: maxItems_def)
qed

text \<open>An item whose script cannot be loaded is lost for good: the slot stays empty when the character is
  loaded, and the next save deletes its row.\<close>

theorem missing_script_loses_item:
  assumes "row_charId r = c" and "0 \<le> row_slot r" and "row_slot r < int maxItems"
    and "db (word_of_int (row_itemtype r), word_of_int (row_itemid r)) = Some d" and "load (def_script d) = None"
  shows "\<exists>items. load_inventory db load c [r] = Some items \<and> save_inventory c items [r] = Some []"
proof -
  let ?items = "Inventory_new[nat (row_slot r) := load_columns r Item_new]"
  have k: "nat (row_slot r) < maxItems" using assms(2,3) by simp
  have loaded: "load_inventory db load c [r] = Some ?items"
    using assms k by (simp add: load_inventory_def Item_loadFromRow_def buildItem_def getItemDef_def Inventory_new_def)
  have empty: "\<not> item_exists (?items ! j)" if "j < maxItems" for j
    using that k by (cases "j = nat (row_slot r)")
      (auto simp: Inventory_new_def item_exists_def load_columns_def Item_new_def)
  have "\<not> item_exists (load_columns r Item_new)" by (simp add: item_exists_def load_columns_def Item_new_def)
  then have "save_inventory c ?items [r] = Some []"
    using assms(1-3) k empty
    by (auto simp: save_inventory_def Let_def save_statements_def toDelete_def toUpdate_def toInsert_def of_slot_def
        Inventory_new_def filter_empty_conv)
  with loaded show ?thesis by blast
qed

theorem missing_script_loses_item_witness:
  "\<exists>items. load_inventory sample_database (\<lambda>_. None) 1 [inserted_row 1 12 sample_sword] = Some items
    \<and> save_inventory 1 items [inserted_row 1 12 sample_sword] = Some []"
  using missing_script_loses_item [of "inserted_row 1 12 sample_sword" 1 sample_database _ "\<lambda>_. None"]
  by (simp add: sample_database_def maxItems_def)

end
