(* ===== verification/Components.thy ===== *)
theory Components
  imports Prelude
begin

text \<open>
  The components of a character (\<open>rosecommon/include/components\<close>) that are stored in the character table,
  with their \<open>loadFromRow\<close> and \<open>commitToUpdate\<close>, and how \<open>EntitySystem::loadCharacter\<close> and
  \<open>saveCharacter\<close> (\<open>map/src/entitysystem.cpp\<close>) use them. A row of the table has unbounded integers in its
  integer columns; a member takes the value modulo its width. \<open>x\<close> and \<open>y\<close> are bit patterns of floats.
\<close>

section \<open>The table\<close>

record character_row =
  row_name :: cstring
  row_level :: int
  row_exp :: int
  row_x :: f32
  row_y :: f32
  row_map :: int
  row_reviveMap :: int
  row_maxHp :: int
  row_maxMp :: int
  row_str :: int
  row_dex :: int
  row_int :: int
  row_con :: int
  row_charm :: int
  row_sense :: int
  row_zuly :: int
  row_currentHp :: int
  row_currentMp :: int
  row_face :: int
  row_hair :: int
  row_race :: int
  row_job :: int
  row_stone :: int
  row_statPoints :: int
  row_skillPoints :: int
  row_penaltyExp :: int
  row_factionid :: int
  row_factionRank :: int
  row_fame :: int
  row_factionFame1 :: int
  row_factionFame2 :: int
  row_factionPoints1 :: int
  row_factionPoints2 :: int
  row_factionPoints3 :: int
  row_clanid :: int
  row_clanContribution :: int
  row_clanRank :: int
  row_pkFlag :: int
  row_stamina :: int

section \<open>\<open>Position\<close>\<close>

record Position =
  p_x :: f32
  p_y :: f32
  p_z :: u16
  p_map :: u16
  p_spawn :: u16
  p_angle :: f32

definition Position_new :: "f32 \<Rightarrow> f32 \<Rightarrow> u16 \<Rightarrow> u16 \<Rightarrow> Position" where
  "Position_new x y m spawn = \<lparr>p_x = x, p_y = y, p_z = 0, p_map = m, p_spawn = spawn, p_angle = 0\<rparr>"

definition Position_of_row :: "character_row \<Rightarrow> Position" where
  "Position_of_row row = Position_new (row_x row) (row_y row) (word_of_int (row_map row)) (word_of_int (row_reviveMap row))"

definition Position_commit :: "Position \<Rightarrow> character_row \<Rightarrow> character_row" where
  "Position_commit c row = row\<lparr>row_x := p_x c, row_y := p_y c, row_map := uint (p_map c), row_reviveMap := uint (p_spawn c)\<rparr>"

section \<open>\<open>BasicInfo\<close>\<close>

record BasicInfo =
  b_name :: cstring
  b_level :: u16
  b_xp :: u32
  b_id :: u16
  b_tag :: u32
  b_teamId :: u32
  b_targetId :: u16
  b_command :: u16
  b_isOnMap :: bool
  b_ownerId :: u16

definition BasicInfo_new :: "u16 \<Rightarrow> BasicInfo" where
  "BasicInfo_new i = \<lparr>b_name = [], b_level = 0, b_xp = 0, b_id = i, b_tag = 0, b_teamId = 0, b_targetId = 0,
     b_command = 0, b_isOnMap = False, b_ownerId = 0\<rparr>"

text \<open>The constructor with an identifier takes it as 32 bits and keeps the low half as \<open>id_\<close>.\<close>

definition BasicInfo_of_row :: "character_row \<Rightarrow> u32 \<Rightarrow> BasicInfo" where
  "BasicInfo_of_row row i = (BasicInfo_new 0)\<lparr>b_name := row_name row, b_level := word_of_int (row_level row),
     b_xp := word_of_int (row_exp row), b_id := ucast i, b_tag := i\<rparr>"

definition BasicInfo_commit :: "BasicInfo \<Rightarrow> character_row \<Rightarrow> character_row" where
  "BasicInfo_commit c row = row\<lparr>row_level := uint (b_level c), row_exp := uint (b_xp c)\<rparr>"

section \<open>\<open>Stats\<close>\<close>

record Stats =
  s_maxHp :: u32
  s_maxMp :: u32
  s_str :: u16
  s_dex :: u16
  s_int :: u16
  s_con :: u16
  s_charm :: u16
  s_sense :: u16
  s_bodySize :: u8
  s_headSize :: u8

definition Stats_of_row :: "character_row \<Rightarrow> Stats" where
  "Stats_of_row row = \<lparr>s_maxHp = word_of_int (row_maxHp row), s_maxMp = word_of_int (row_maxMp row),
     s_str = word_of_int (row_str row), s_dex = word_of_int (row_dex row), s_int = word_of_int (row_int row),
     s_con = word_of_int (row_con row), s_charm = word_of_int (row_charm row), s_sense = word_of_int (row_sense row),
     s_bodySize = 100, s_headSize = 100\<rparr>"

definition Stats_commit :: "Stats \<Rightarrow> character_row \<Rightarrow> character_row" where
  "Stats_commit c row = row\<lparr>row_maxHp := sint (s_maxHp c), row_maxMp := sint (s_maxMp c), row_str := uint (s_str c),
     row_dex := uint (s_dex c), row_int := uint (s_int c), row_con := uint (s_con c), row_charm := uint (s_charm c),
     row_sense := uint (s_sense c)\<rparr>"

section \<open>\<open>AdvancedInfo\<close>\<close>

record AdvancedInfo =
  a_zuly :: u64
  a_hp :: u32
  a_mp :: u32
  a_moveMode :: u8
  a_runSpeed :: u16
  a_atkSpeed :: u16
  a_weightRate :: u8

definition AdvancedInfo_of_row :: "character_row \<Rightarrow> AdvancedInfo" where
  "AdvancedInfo_of_row row = \<lparr>a_zuly = word_of_int (row_zuly row), a_hp = word_of_int (row_currentHp row),
     a_mp = word_of_int (row_currentMp row), a_moveMode = 1, a_runSpeed = 0, a_atkSpeed = 0, a_weightRate = 0\<rparr>"

definition AdvancedInfo_commit :: "AdvancedInfo \<Rightarrow> character_row \<Rightarrow> character_row" where
  "AdvancedInfo_commit c row = row\<lparr>row_zuly := sint (a_zuly c), row_currentHp := sint (a_hp c), row_currentMp := sint (a_mp c)\<rparr>"

section \<open>\<open>CharacterGraphics\<close>\<close>

record CharacterGraphics =
  g_face :: u8
  g_hair :: u8
  g_race :: u8

definition CharacterGraphics_of_row :: "character_row \<Rightarrow> CharacterGraphics" where
  "CharacterGraphics_of_row row = \<lparr>g_face = word_of_int (row_face row), g_hair = word_of_int (row_hair row),
     g_race = word_of_int (row_race row)\<rparr>"

section \<open>\<open>CharacterInfo\<close>\<close>

record CharacterInfo =
  c_job :: u16
  c_stone :: u8
  c_statPoints :: u32
  c_skillPoints :: u32
  c_penaltyXp :: u32
  c_deleteDate :: u32
  c_platinium :: bool
  c_factionId :: u8
  c_factionRank :: u8
  c_fame :: u8
  c_factionFame :: "u16 list"
  c_factionPoints :: "u16 list"
  c_guildId :: u32
  c_guildContribution :: u16
  c_guildRank :: u8
  c_pkFlag :: u16
  c_statusFlag :: u32
  c_subFlag :: u32
  c_stamina :: u16
  c_patHp :: u16
  c_patCooldownTime :: u32
  c_charId :: u32

definition CharacterInfo_of_row :: "character_row \<Rightarrow> bool \<Rightarrow> u32 \<Rightarrow> CharacterInfo" where
  "CharacterInfo_of_row row platinium charId =
    \<lparr>c_job = word_of_int (row_job row), c_stone = word_of_int (row_stone row),
     c_statPoints = word_of_int (row_statPoints row), c_skillPoints = word_of_int (row_skillPoints row),
     c_penaltyXp = word_of_int (row_penaltyExp row), c_deleteDate = 0, c_platinium = platinium,
     c_factionId = word_of_int (row_factionid row), c_factionRank = word_of_int (row_factionRank row),
     c_fame = word_of_int (row_fame row),
     c_factionFame = [word_of_int (row_factionFame1 row), word_of_int (row_factionFame2 row)],
     c_factionPoints = [word_of_int (row_factionPoints1 row), word_of_int (row_factionPoints2 row),
       word_of_int (row_factionPoints3 row), 0, 0, 0, 0, 0, 0, 0],
     c_guildId = word_of_int (row_clanid row), c_guildContribution = word_of_int (row_clanContribution row),
     c_guildRank = word_of_int (row_clanRank row), c_pkFlag = word_of_int (row_pkFlag row), c_statusFlag = 0,
     c_subFlag = 0, c_stamina = word_of_int (row_stamina row), c_patHp = 0, c_patCooldownTime = 0, c_charId = charId\<rparr>"

definition CharacterInfo_commit :: "CharacterInfo \<Rightarrow> character_row \<Rightarrow> character_row" where
  "CharacterInfo_commit c row =
    row\<lparr>row_job := uint (c_job c), row_statPoints := uint (c_statPoints c), row_skillPoints := uint (c_skillPoints c),
        row_penaltyExp := uint (c_penaltyXp c), row_factionid := uint (c_factionId c),
        row_factionRank := uint (c_factionRank c), row_fame := uint (c_fame c),
        row_factionFame1 := uint (c_factionFame c ! 0), row_factionFame2 := uint (c_factionFame c ! 1),
        row_factionPoints1 := uint (c_factionPoints c ! 0), row_factionPoints2 := uint (c_factionPoints c ! 1),
        row_factionPoints3 := uint (c_factionPoints c ! 2), row_clanid := uint (c_guildId c),
        row_clanContribution := uint (c_guildContribution c), row_pkFlag := uint (c_pkFlag c),
        row_stamina := uint (c_stamina c)\<rparr>"

section \<open>A character\<close>

text \<open>The components \<open>loadCharacter\<close> assigns from the row.\<close>

record character =
  position :: Position
  basicInfo :: BasicInfo
  stats :: Stats
  advancedInfo :: AdvancedInfo
  graphics :: CharacterGraphics
  characterInfo :: CharacterInfo

definition load_components :: "character_row \<Rightarrow> u16 \<Rightarrow> bool \<Rightarrow> u32 \<Rightarrow> character" where
  "load_components row i platinium charId =
    \<lparr>position = Position_of_row row, basicInfo = BasicInfo_of_row row (ucast i), stats = Stats_of_row row,
     advancedInfo = AdvancedInfo_of_row row, graphics = CharacterGraphics_of_row row,
     characterInfo = CharacterInfo_of_row row platinium charId\<rparr>"

definition save_components :: "character \<Rightarrow> character_row \<Rightarrow> character_row" where
  "save_components c = chain [Position_commit (position c), BasicInfo_commit (basicInfo c), Stats_commit (stats c),
     AdvancedInfo_commit (advancedInfo c), CharacterInfo_commit (characterInfo c)]"

section \<open>Saved and loaded\<close>

lemmas commits = save_components_def Position_commit_def BasicInfo_commit_def Stats_commit_def
  AdvancedInfo_commit_def CharacterInfo_commit_def

lemmas loads = load_components_def Position_of_row_def Position_new_def BasicInfo_of_row_def BasicInfo_new_def
  Stats_of_row_def AdvancedInfo_of_row_def CharacterGraphics_of_row_def CharacterInfo_of_row_def

text \<open>A saved character is loaded with the same position, level, experience, statistics, money and
  hit points, and with the same character data but for the stone and the guild rank: these two are read from
  the row and never written to it, so the values of the last load come back. The name and the looks are
  those of the row; what is not stored has its initial value.\<close>

theorem saved_character_loads:
  assumes "length (c_factionFame (characterInfo c)) = 2"
  shows "load_components (save_components c row) i platinium charId =
    \<lparr>position = (position c)\<lparr>p_z := 0, p_angle := 0\<rparr>,
     basicInfo = (BasicInfo_new i)\<lparr>b_name := row_name row, b_level := b_level (basicInfo c), b_xp := b_xp (basicInfo c),
       b_tag := ucast i\<rparr>,
     stats = (stats c)\<lparr>s_bodySize := 100, s_headSize := 100\<rparr>,
     advancedInfo = (advancedInfo c)\<lparr>a_moveMode := 1, a_runSpeed := 0, a_atkSpeed := 0, a_weightRate := 0\<rparr>,
     graphics = CharacterGraphics_of_row row,
     characterInfo = (characterInfo c)\<lparr>c_stone := word_of_int (row_stone row), c_guildRank := word_of_int (row_clanRank row),
       c_deleteDate := 0, c_platinium := platinium, c_factionPoints := [c_factionPoints (characterInfo c) ! 0,
         c_factionPoints (characterInfo c) ! 1, c_factionPoints (characterInfo c) ! 2, 0, 0, 0, 0, 0, 0, 0],
       c_statusFlag := 0, c_subFlag := 0, c_patHp := 0, c_patCooldownTime := 0, c_charId := charId\<rparr>\<rparr>"
proof -
  obtain f1 f2 where f: "c_factionFame (characterInfo c) = [f1, f2]"
    using assms by (auto simp: length_Suc_conv numeral_2_eq_2)
  have u: "ucast (ucast i :: u32) = i" by (rule bit_word_eqI) (simp add: bit_simps)
  show ?thesis
    using f u by (cases c; cases "position c"; cases "stats c"; cases "advancedInfo c"; cases "characterInfo c")
      (simp add: commits loads)
qed

definition sample_row :: character_row where
  "sample_row = \<lparr>row_name = [0x41], row_level = 5, row_exp = 120, row_x = 7, row_y = 8, row_map = 1, row_reviveMap = 2,
     row_maxHp = 100, row_maxMp = 50, row_str = 10, row_dex = 11, row_int = 12, row_con = 13, row_charm = 14, row_sense = 15,
     row_zuly = 1000, row_currentHp = 90, row_currentMp = 40, row_face = 1, row_hair = 2, row_race = 0, row_job = 111,
     row_stone = 3, row_statPoints = 4, row_skillPoints = 5, row_penaltyExp = 0, row_factionid = 0, row_factionRank = 0,
     row_fame = 0, row_factionFame1 = 0, row_factionFame2 = 0, row_factionPoints1 = 0, row_factionPoints2 = 0,
     row_factionPoints3 = 0, row_clanid = 6, row_clanContribution = 7, row_clanRank = 2, row_pkFlag = 0, row_stamina = 5000\<rparr>"

text \<open>A character that gained a level and a better stone: the level is loaded again, the stone is not.\<close>

definition sample_character :: character where
  "sample_character = (let c = load_components sample_row 5 False 9 in
     c\<lparr>basicInfo := (basicInfo c)\<lparr>b_level := 6\<rparr>, characterInfo := (characterInfo c)\<lparr>c_stone := 4\<rparr>\<rparr>)"

theorem saved_character_loads_witness:
  "b_level (basicInfo (load_components (save_components sample_character sample_row) 8 False 9)) = 6
   \<and> c_stone (characterInfo (load_components (save_components sample_character sample_row) 8 False 9)) = 3"
  using saved_character_loads [of sample_character sample_row 8 False 9]
  by (simp add: sample_character_def Let_def loads sample_row_def)

end
