(* ===== verification/EntityPackets.thy ===== *)
theory EntityPackets
  imports Inventory Components
begin

text \<open>
  A player as the map server keeps it: the components that are not stored in the character table
  (\<open>skills.h\<close>, \<open>hotbar.h\<close>, \<open>statuseffects.h\<close>, \<open>quests.h\<close>, \<open>wishlist.h\<close>, \<open>bulletitems.h\<close>,
  \<open>ridingitems.h\<close>, \<open>destination.h\<close>), what \<open>loadCharacter\<close> makes of them, the speed and the command that
  \<open>UpdateSystem\<close> computes, and the packets that are built from an entity.
\<close>

section \<open>Components\<close>

record Skill =
  sk_id :: u16
  sk_level :: u8

definition maxSkills :: nat where "maxSkills = 120"

text \<open>The loop of \<open>Skills::loadFromResult\<close>, \<open>i\<close> its counter: it is increased before it is used as an index.\<close>

fun skills_loop :: "nat \<Rightarrow> (int \<times> int) list \<Rightarrow> Skill list \<Rightarrow> Skill list option" where
  "skills_loop i [] skills = Some skills"
| "skills_loop i ((sid, level) # rows) skills =
    (if maxSkills \<le> i then Some skills
     else if maxSkills \<le> Suc i then None
     else skills_loop (Suc i) rows (skills[Suc i := \<lparr>sk_id = word_of_int sid, sk_level = word_of_int level\<rparr>]))"

definition Skills_loadFromResult :: "(int \<times> int) list \<Rightarrow> Skill list option" where
  "Skills_loadFromResult rows = skills_loop 0 rows (replicate maxSkills \<lparr>sk_id = 0, sk_level = 0\<rparr>)"

definition Hotbar_new :: "u16 list" where "Hotbar_new = replicate 32 0"

record StatusEffect =
  e_expiredSeconds :: u32
  e_value :: u16
  e_unkown :: u16

definition StatusEffect_new :: StatusEffect where
  "StatusEffect_new = \<lparr>e_expiredSeconds = 0, e_value = 0, e_unkown = 0\<rparr>"

definition maxEffects :: nat where "maxEffects = 40"

definition StatusEffects_new :: "StatusEffect list \<Rightarrow> StatusEffect list" where
  "StatusEffects_new effects = (let kept = take maxEffects effects in
     kept @ replicate (maxEffects - length kept) StatusEffect_new)"

definition BulletItems_new :: "Item list" where "BulletItems_new = replicate 3 Item_new"

definition RidingItems_new :: "Item list" where "RidingItems_new = replicate 4 Item_new"

record Quest =
  q_id :: u16
  q_timer :: u32
  q_vars :: "u16 list"
  q_switches :: u32
  q_items :: "Item list"

definition Quest_new :: Quest where
  "Quest_new = \<lparr>q_id = 0, q_timer = 0, q_vars = replicate 10 0, q_switches = 0, q_items = replicate 6 Item_new\<rparr>"

record Quests =
  qs_episode :: "u16 list"
  qs_job :: "u16 list"
  qs_planet :: "u16 list"
  qs_union :: "u16 list"
  qs_quests :: "Quest list"
  qs_switches :: "u32 list"

definition Quests_new :: Quests where
  "Quests_new = \<lparr>qs_episode = replicate 5 0, qs_job = replicate 3 0, qs_planet = replicate 7 0,
     qs_union = replicate 10 0, qs_quests = replicate 10 Quest_new, qs_switches = replicate 16 0\<rparr>"

definition maxWishes :: nat where "maxWishes = 30"

fun Wishlist_loadFromResult :: "item_database \<Rightarrow> (cstring \<Rightarrow> nat option) \<Rightarrow> inventory_row list \<Rightarrow> Item list
    \<Rightarrow> Item list option" where
  "Wishlist_loadFromResult db load [] items = Some items"
| "Wishlist_loadFromResult db load (row # rows) items =
    (if int maxWishes \<le> row_slot row then Wishlist_loadFromResult db load rows items
     else if row_slot row < 0 then None
     else case Item_loadFromRow db load row (items ! nat (row_slot row)) of
            None \<Rightarrow> None
          | Some i \<Rightarrow> Wishlist_loadFromResult db load rows (items[nat (row_slot row) := i]))"

record Destination =
  d_x :: f32
  d_y :: f32
  d_z :: u16
  d_dist :: u16

definition getEquipped :: "Item list \<Rightarrow> Item list" where
  "getEquipped items = take 8 (drop 1 items)"

text \<open>All components of a player.\<close>

record avatar = character +
  v_items :: "Item list"
  v_skills :: "Skill list"
  v_hotbar :: "u16 list"
  v_effects :: "StatusEffect list"
  v_riding :: "Item list"
  v_bullets :: "Item list"
  v_quests :: Quests
  v_wishlist :: "Item list"
  v_destination :: "Destination option"

section \<open>The update system\<close>

text \<open>
  \<open>calculateSpeed\<close> adds a fraction of the dexterity as a double and truncates: for 16 bit numbers the
  product with \<open>0.8500001\<close> is never within one part in ten million of an integer, so rounding does not show and the
  truncated sum is the one written here. With boots the code converts
  \<open>13094 * (dex + 13094) / 23.222\<close>, which is larger than 65535 for every \<open>dex\<close>, to 16 bits; the result
  of that conversion is undefined and is the argument \<open>dexMod\<close>.
\<close>

definition calculateSpeed :: "u16 \<Rightarrow> avatar \<Rightarrow> avatar" where
  "calculateSpeed dexMod v =
    (let a = advancedInfo v;
         base = (if a_moveMode a = 0 then 200 else 425) :: u16;
         boots = v_items v ! 6;
         realSpeed = - 65 :: u16;
         realMod = realSpeed div 5
     in v\<lparr>advancedInfo := a\<lparr>a_runSpeed :=
       (if a_moveMode a = 1 then
          let run = of_nat ((unat base * 10000000 + unat (s_dex (stats v)) * 8500001) div 10000000)
          in if m_item_id boots \<noteq> 0 \<and> m_life boots \<noteq> 0 then run + (realSpeed * 5 + realMod + dexMod) else run
        else base)\<rparr>\<rparr>)"

definition calculateCommand :: "Destination option \<Rightarrow> BasicInfo \<Rightarrow> BasicInfo" where
  "calculateCommand d b = (if d \<noteq> None then b\<lparr>b_command := 1\<rparr> else b)"

section \<open>Loading a character\<close>

text \<open>\<open>loadCharacter\<close>, from the rows of the four tables and a free identifier: \<open>Some None\<close> is the invalid entity it
  yields unless there is exactly one row.\<close>

record character_tables =
  t_character :: "character_row list"
  t_skills :: "(int \<times> int) list"
  t_inventory :: "inventory_row list"
  t_wishes :: "inventory_row list"

definition loadCharacter :: "item_database \<Rightarrow> (cstring \<Rightarrow> nat option) \<Rightarrow> u16 \<Rightarrow> u16 \<Rightarrow> u32 \<Rightarrow> bool \<Rightarrow> character_tables
    \<Rightarrow> avatar option option" where
  "loadCharacter db load dexMod i charId platinium t =
    (case t_character t of
       [row] \<Rightarrow>
         (case Skills_loadFromResult (t_skills t) of
            None \<Rightarrow> None
          | Some skills \<Rightarrow>
              (case Inventory_loadFromResult db load (t_inventory t) Inventory_new of
                 None \<Rightarrow> None
               | Some items \<Rightarrow>
                   (case Wishlist_loadFromResult db load (t_wishes t) (replicate maxWishes Item_new) of
                      None \<Rightarrow> None
                    | Some wishes \<Rightarrow> Some (Some (calculateSpeed dexMod
                        (character.extend (load_components row i platinium charId)
                          \<lparr>v_items = items, v_skills = skills, v_hotbar = Hotbar_new, v_effects = StatusEffects_new [],
                           v_riding = RidingItems_new, v_bullets = BulletItems_new, v_quests = Quests_new,
                           v_wishlist = wishes, v_destination = None\<rparr>))))))
     | _ \<Rightarrow> Some None)"

section \<open>Packets built from an entity\<close>

subsection \<open>Items, effects and quests\<close>

definition put_item :: "Item \<Rightarrow> CRosePacket \<Rightarrow> CRosePacket" where
  "put_item it = chain [put_u16 (getHeader it), put_u32 (getData it)]"

definition item_wire :: "Item \<Rightarrow> byte list" where
  "item_wire it = le_bytes 2 (getHeader it) @ le_bytes 4 (getData it)"

definition put_effect :: "StatusEffect \<Rightarrow> CRosePacket \<Rightarrow> CRosePacket" where
  "put_effect e = chain [put_u32 (e_expiredSeconds e), put_u16 (e_value e), put_u16 (e_unkown e)]"

definition effect_wire :: "StatusEffect \<Rightarrow> byte list" where
  "effect_wire e = le_bytes 4 (e_expiredSeconds e) @ le_bytes 2 (e_value e) @ le_bytes 2 (e_unkown e)"

definition Quest_pack :: "Quest \<Rightarrow> CRosePacket \<Rightarrow> CRosePacket" where
  "Quest_pack q = chain [put_u16 (q_id q), put_u32 (q_timer q), put_list put_u16 (q_vars q),
     put_u32 (q_switches q), put_list put_item (q_items q)]"

definition Quest_wire :: "Quest \<Rightarrow> byte list" where
  "Quest_wire q = le_bytes 2 (q_id q) @ le_bytes 4 (q_timer q) @ concat (map (le_bytes 2) (q_vars q)) @
     le_bytes 4 (q_switches q) @ concat (map item_wire (q_items q))"

definition Quests_pack :: "Quests \<Rightarrow> CRosePacket \<Rightarrow> CRosePacket" where
  "Quests_pack q = chain [put_list put_u16 (qs_episode q), put_list put_u16 (qs_job q),
     put_list put_u16 (qs_planet q), put_list put_u16 (qs_union q), put_list Quest_pack (qs_quests q),
     put_list put_u32 (qs_switches q)]"

definition Quests_wire :: "Quests \<Rightarrow> byte list" where
  "Quests_wire q = concat (map (le_bytes 2) (qs_episode q)) @ concat (map (le_bytes 2) (qs_job q)) @
     concat (map (le_bytes 2) (qs_planet q)) @ concat (map (le_bytes 2) (qs_union q)) @
     concat (map Quest_wire (qs_quests q)) @ concat (map (le_bytes 4) (qs_switches q))"

lemma emits_item: "emits (put_item it) (item_wire it)"
  unfolding put_item_def item_wire_def by (rule emits_rules)+

lemma emits_effect: "emits (put_effect e) (effect_wire e)"
  unfolding put_effect_def effect_wire_def by (rule emits_rules)+

lemma emits_Quest: "emits (Quest_pack q) (Quest_wire q)"
  unfolding Quest_pack_def Quest_wire_def
  by (rule emits_rules emits_put_list emits_item)+

lemma emits_Quests: "emits (Quests_pack q) (Quests_wire q)"
  unfolding Quests_pack_def Quests_wire_def
  by (rule emits_rules emits_put_list emits_Quest)+

lemmas entity_emits = emits_rules emits_put_list emits_item emits_effect emits_Quest emits_Quests

subsection \<open>The data of a player\<close>

definition SrvSelectCharReply_pack :: "avatar \<Rightarrow> CRosePacket \<Rightarrow> CRosePacket" where
  "SrvSelectCharReply_pack v = chain [put_u8 (g_race (graphics v)), put_u16 (p_map (position v)),
     put_u32 (p_x (position v)), put_u32 (p_y (position v)), put_u16 (p_spawn (position v)),
     put_u32 (ucast (g_face (graphics v))), put_u32 (ucast (g_hair (graphics v))),
     put_list put_u32 (map getVisible (getEquipped (v_items v))), put_u8 (c_stone (characterInfo v)),
     put_u8 (g_face (graphics v)), put_u8 (g_hair (graphics v)), put_u16 (c_job (characterInfo v)),
     put_u8 (c_factionId (characterInfo v)), put_u8 (c_factionRank (characterInfo v)),
     put_u8 (c_fame (characterInfo v)), put_u16 (s_str (stats v)), put_u16 (s_dex (stats v)),
     put_u16 (s_int (stats v)), put_u16 (s_con (stats v)), put_u16 (s_charm (stats v)),
     put_u16 (s_sense (stats v)), put_u32 (a_hp (advancedInfo v)), put_u32 (a_mp (advancedInfo v)),
     put_u32 (b_xp (basicInfo v)), put_u16 (b_level (basicInfo v)), put_u32 (c_statPoints (characterInfo v)),
     put_u32 (c_skillPoints (characterInfo v)), put_u8 (s_bodySize (stats v)), put_u8 (s_headSize (stats v)),
     put_u32 (c_penaltyXp (characterInfo v)), put_list put_u16 (c_factionFame (characterInfo v)),
     put_list put_u16 (c_factionPoints (characterInfo v)), put_u32 (c_guildId (characterInfo v)),
     put_u16 (c_guildContribution (characterInfo v)), put_u8 (c_guildRank (characterInfo v)),
     put_u16 (c_pkFlag (characterInfo v)), put_u16 (c_stamina (characterInfo v)),
     put_list put_effect (v_effects v), put_u16 (c_patHp (characterInfo v)),
     put_u32 (c_patCooldownTime (characterInfo v)), put_list put_u16 (map sk_id (v_skills v)),
     put_list put_u16 (v_hotbar v), put_u32 (b_tag (basicInfo v)), put_string (b_name (basicInfo v))]"

definition SrvSelectCharReply_wire :: "avatar \<Rightarrow> byte list" where
  "SrvSelectCharReply_wire v = [g_race (graphics v)] @ le_bytes 2 (p_map (position v)) @
     le_bytes 4 (p_x (position v)) @ le_bytes 4 (p_y (position v)) @ le_bytes 2 (p_spawn (position v)) @
     le_bytes 4 (ucast (g_face (graphics v)) :: u32) @ le_bytes 4 (ucast (g_hair (graphics v)) :: u32) @
     concat (map (le_bytes 4) (map getVisible (getEquipped (v_items v)))) @ [c_stone (characterInfo v)] @
     [g_face (graphics v)] @ [g_hair (graphics v)] @ le_bytes 2 (c_job (characterInfo v)) @
     [c_factionId (characterInfo v)] @ [c_factionRank (characterInfo v)] @ [c_fame (characterInfo v)] @
     le_bytes 2 (s_str (stats v)) @ le_bytes 2 (s_dex (stats v)) @ le_bytes 2 (s_int (stats v)) @
     le_bytes 2 (s_con (stats v)) @ le_bytes 2 (s_charm (stats v)) @ le_bytes 2 (s_sense (stats v)) @
     le_bytes 4 (a_hp (advancedInfo v)) @ le_bytes 4 (a_mp (advancedInfo v)) @
     le_bytes 4 (b_xp (basicInfo v)) @ le_bytes 2 (b_level (basicInfo v)) @
     le_bytes 4 (c_statPoints (characterInfo v)) @ le_bytes 4 (c_skillPoints (characterInfo v)) @
     [s_bodySize (stats v)] @ [s_headSize (stats v)] @ le_bytes 4 (c_penaltyXp (characterInfo v)) @
     concat (map (le_bytes 2) (c_factionFame (characterInfo v))) @
     concat (map (le_bytes 2) (c_factionPoints (characterInfo v))) @ le_bytes 4 (c_guildId (characterInfo v)) @
     le_bytes 2 (c_guildContribution (characterInfo v)) @ [c_guildRank (characterInfo v)] @
     le_bytes 2 (c_pkFlag (characterInfo v)) @ le_bytes 2 (c_stamina (characterInfo v)) @
     concat (map effect_wire (v_effects v)) @ le_bytes 2 (c_patHp (characterInfo v)) @
     le_bytes 4 (c_patCooldownTime (characterInfo v)) @ concat (map (le_bytes 2) (map sk_id (v_skills v))) @
     concat (map (le_bytes 2) (v_hotbar v)) @ le_bytes 4 (b_tag (basicInfo v)) @ (b_name (basicInfo v) @ [0])"

interpretation SrvSelectCharReply: emitter SrvSelectCharReply_pack SrvSelectCharReply_wire
  by standard (unfold SrvSelectCharReply_pack_def SrvSelectCharReply_wire_def, (rule entity_emits)+)

definition SrvInventoryData_pack :: "avatar \<Rightarrow> CRosePacket \<Rightarrow> CRosePacket" where
  "SrvInventoryData_pack v = chain [put_u64 (a_zuly (advancedInfo v)), put_list put_item (v_items v)]"

definition SrvInventoryData_wire :: "avatar \<Rightarrow> byte list" where
  "SrvInventoryData_wire v = le_bytes 8 (a_zuly (advancedInfo v)) @ concat (map item_wire (v_items v))"

interpretation SrvInventoryData: emitter SrvInventoryData_pack SrvInventoryData_wire
  by standard (unfold SrvInventoryData_pack_def SrvInventoryData_wire_def, (rule entity_emits)+)

definition SrvQuestData_pack :: "avatar \<Rightarrow> CRosePacket \<Rightarrow> CRosePacket" where
  "SrvQuestData_pack v = chain [Quests_pack (v_quests v), put_list put_item (v_wishlist v)]"

definition SrvQuestData_wire :: "avatar \<Rightarrow> byte list" where
  "SrvQuestData_wire v = Quests_wire (v_quests v) @ concat (map item_wire (v_wishlist v))"

interpretation SrvQuestData: emitter SrvQuestData_pack SrvQuestData_wire
  by standard (unfold SrvQuestData_pack_def SrvQuestData_wire_def, (rule entity_emits)+)

definition SrvBillingMsg_pack :: "unit \<Rightarrow> CRosePacket \<Rightarrow> CRosePacket" where
  "SrvBillingMsg_pack u = chain [put_u16 0x1001, put_u32 2]"

definition SrvBillingMsg_wire :: "unit \<Rightarrow> byte list" where
  "SrvBillingMsg_wire u = le_bytes 2 (0x1001 :: u16) @ le_bytes 4 (2 :: u32)"

interpretation SrvBillingMsg: emitter SrvBillingMsg_pack SrvBillingMsg_wire
  by standard (unfold SrvBillingMsg_pack_def SrvBillingMsg_wire_def, (rule entity_emits)+)

subsection \<open>Players and other entities\<close>

text \<open>Where an entity is going: its destination, or its position.\<close>

definition heading :: "avatar \<Rightarrow> f32 \<times> f32" where
  "heading v = (case v_destination v of
     Some d \<Rightarrow> (d_x d, d_y d) | None \<Rightarrow> (p_x (position v), p_y (position v)))"

definition SrvPlayerChar_pack :: "avatar \<Rightarrow> CRosePacket \<Rightarrow> CRosePacket" where
  "SrvPlayerChar_pack v = chain [put_u16 (b_id (basicInfo v)), put_u32 (p_x (position v)),
     put_u32 (p_y (position v)), put_u32 (fst (heading v)), put_u32 (snd (heading v)),
     put_u16 (b_command (basicInfo v)), put_u16 (b_targetId (basicInfo v)),
     put_u8 (a_moveMode (advancedInfo v)), put_u32 (a_hp (advancedInfo v)), put_u32 (b_teamId (basicInfo v)),
     put_u32 (c_statusFlag (characterInfo v)), put_u8 (g_race (graphics v)),
     put_u16 (a_runSpeed (advancedInfo v)), put_u16 (a_atkSpeed (advancedInfo v)),
     put_u8 (a_weightRate (advancedInfo v)), put_u32 (ucast (g_face (graphics v))),
     put_u32 (ucast (g_hair (graphics v))), put_list put_u32 (map getVisible (getEquipped (v_items v))),
     put_list put_u16 (map getHeader (v_bullets v)), put_u16 (c_job (characterInfo v)),
     put_u16 (b_level (basicInfo v)), put_list put_u32 (map getVisible (v_riding v)),
     put_u16 (p_z (position v)), put_u32 (c_subFlag (characterInfo v)), put_string (b_name (basicInfo v)),
     put_string (b_name (basicInfo v))]"

definition SrvPlayerChar_wire :: "avatar \<Rightarrow> byte list" where
  "SrvPlayerChar_wire v = le_bytes 2 (b_id (basicInfo v)) @ le_bytes 4 (p_x (position v)) @
     le_bytes 4 (p_y (position v)) @ le_bytes 4 (fst (heading v)) @ le_bytes 4 (snd (heading v)) @
     le_bytes 2 (b_command (basicInfo v)) @ le_bytes 2 (b_targetId (basicInfo v)) @
     [a_moveMode (advancedInfo v)] @ le_bytes 4 (a_hp (advancedInfo v)) @ le_bytes 4 (b_teamId (basicInfo v)) @
     le_bytes 4 (c_statusFlag (characterInfo v)) @ [g_race (graphics v)] @
     le_bytes 2 (a_runSpeed (advancedInfo v)) @ le_bytes 2 (a_atkSpeed (advancedInfo v)) @
     [a_weightRate (advancedInfo v)] @ le_bytes 4 (ucast (g_face (graphics v)) :: u32) @
     le_bytes 4 (ucast (g_hair (graphics v)) :: u32) @
     concat (map (le_bytes 4) (map getVisible (getEquipped (v_items v)))) @
     concat (map (le_bytes 2) (map getHeader (v_bullets v))) @ le_bytes 2 (c_job (characterInfo v)) @
     le_bytes 2 (b_level (basicInfo v)) @ concat (map (le_bytes 4) (map getVisible (v_riding v))) @
     le_bytes 2 (p_z (position v)) @ le_bytes 4 (c_subFlag (characterInfo v)) @ (b_name (basicInfo v) @ [0]) @
     (b_name (basicInfo v) @ [0])"

interpretation SrvPlayerChar: emitter SrvPlayerChar_pack SrvPlayerChar_wire
  by standard (unfold SrvPlayerChar_pack_def SrvPlayerChar_wire_def, (rule entity_emits)+)

definition SrvTeleportReply_pack :: "'a character_scheme \<Rightarrow> CRosePacket \<Rightarrow> CRosePacket" where
  "SrvTeleportReply_pack v = chain [put_u16 (b_id (basicInfo v)), put_u16 (p_map (position v)),
     put_u32 (p_x (position v)), put_u32 (p_y (position v)), put_u8 (a_moveMode (advancedInfo v)), put_u8 (0)]"

definition SrvTeleportReply_wire :: "'a character_scheme \<Rightarrow> byte list" where
  "SrvTeleportReply_wire v = le_bytes 2 (b_id (basicInfo v)) @ le_bytes 2 (p_map (position v)) @
     le_bytes 4 (p_x (position v)) @ le_bytes 4 (p_y (position v)) @ [a_moveMode (advancedInfo v)] @ [0]"

interpretation SrvTeleportReply: emitter SrvTeleportReply_pack SrvTeleportReply_wire
  by standard (unfold SrvTeleportReply_pack_def SrvTeleportReply_wire_def, (rule entity_emits)+)

record npc_entity =
  n_basic :: BasicInfo
  n_advanced :: AdvancedInfo
  n_info :: CharacterInfo
  n_position :: Position
  n_destination :: "Destination option"
  n_npc_id :: u16
  n_quest_id :: u16

definition npc_heading :: "npc_entity \<Rightarrow> f32 \<times> f32" where
  "npc_heading n = (case n_destination n of
     Some d \<Rightarrow> (d_x d, d_y d) | None \<Rightarrow> (p_x (n_position n), p_y (n_position n)))"

definition SrvMobChar_pack :: "npc_entity \<Rightarrow> CRosePacket \<Rightarrow> CRosePacket" where
  "SrvMobChar_pack n = chain [put_u16 (b_id (n_basic n)), put_u32 (p_x (n_position n)),
     put_u32 (p_y (n_position n)), put_u32 (fst (npc_heading n)), put_u32 (snd (npc_heading n)),
     put_u16 (b_command (n_basic n)), put_u16 (b_targetId (n_basic n)), put_u8 (a_moveMode (n_advanced n)),
     put_u32 (a_hp (n_advanced n)), put_u32 (b_teamId (n_basic n)), put_u32 (c_statusFlag (n_info n)),
     put_u16 (n_npc_id n), put_u16 (n_quest_id n)]"

definition SrvMobChar_wire :: "npc_entity \<Rightarrow> byte list" where
  "SrvMobChar_wire n = le_bytes 2 (b_id (n_basic n)) @ le_bytes 4 (p_x (n_position n)) @
     le_bytes 4 (p_y (n_position n)) @ le_bytes 4 (fst (npc_heading n)) @ le_bytes 4 (snd (npc_heading n)) @
     le_bytes 2 (b_command (n_basic n)) @ le_bytes 2 (b_targetId (n_basic n)) @ [a_moveMode (n_advanced n)] @
     le_bytes 4 (a_hp (n_advanced n)) @ le_bytes 4 (b_teamId (n_basic n)) @
     le_bytes 4 (c_statusFlag (n_info n)) @ le_bytes 2 (n_npc_id n) @ le_bytes 2 (n_quest_id n)"

interpretation SrvMobChar: emitter SrvMobChar_pack SrvMobChar_wire
  by standard (unfold SrvMobChar_pack_def SrvMobChar_wire_def, (rule entity_emits)+)

definition SrvNpcChar_pack :: "npc_entity \<Rightarrow> CRosePacket \<Rightarrow> CRosePacket" where
  "SrvNpcChar_pack n = chain [SrvMobChar_pack n, put_u32 (p_angle (n_position n)), put_u16 0]"

definition SrvNpcChar_wire :: "npc_entity \<Rightarrow> byte list" where
  "SrvNpcChar_wire n = SrvMobChar_wire n @ le_bytes 4 (p_angle (n_position n)) @ le_bytes 2 (0 :: u16)"

interpretation SrvNpcChar: emitter SrvNpcChar_pack SrvNpcChar_wire
  by standard (unfold SrvNpcChar_pack_def SrvNpcChar_wire_def, (rule entity_emits SrvMobChar.emits_pack)+)

definition SrvStopMoving_pack :: "'a character_scheme \<Rightarrow> CRosePacket \<Rightarrow> CRosePacket" where
  "SrvStopMoving_pack v = chain [put_u16 (b_id (basicInfo v)), put_u32 (p_x (position v)),
     put_u32 (p_y (position v)), put_u16 (p_z (position v))]"

definition SrvStopMoving_wire :: "'a character_scheme \<Rightarrow> byte list" where
  "SrvStopMoving_wire v = le_bytes 2 (b_id (basicInfo v)) @ le_bytes 4 (p_x (position v)) @
     le_bytes 4 (p_y (position v)) @ le_bytes 2 (p_z (position v))"

interpretation SrvStopMoving: emitter SrvStopMoving_pack SrvStopMoving_wire
  by standard (unfold SrvStopMoving_pack_def SrvStopMoving_wire_def, (rule entity_emits)+)

definition SrvStop_pack :: "'a character_scheme \<Rightarrow> CRosePacket \<Rightarrow> CRosePacket" where
  "SrvStop_pack v = chain [put_u16 (b_id (basicInfo v)), put_u32 (p_x (position v)),
     put_u32 (p_y (position v)), put_u16 (p_z (position v))]"

definition SrvStop_wire :: "'a character_scheme \<Rightarrow> byte list" where
  "SrvStop_wire v = le_bytes 2 (b_id (basicInfo v)) @ le_bytes 4 (p_x (position v)) @
     le_bytes 4 (p_y (position v)) @ le_bytes 2 (p_z (position v))"

interpretation SrvStop: emitter SrvStop_pack SrvStop_wire
  by standard (unfold SrvStop_pack_def SrvStop_wire_def, (rule entity_emits)+)

definition SrvAdjustPosition_pack :: "'a character_scheme \<Rightarrow> CRosePacket \<Rightarrow> CRosePacket" where
  "SrvAdjustPosition_pack v = chain [put_u16 (b_id (basicInfo v)), put_u32 (p_x (position v)),
     put_u32 (p_y (position v)), put_u16 (p_z (position v))]"

definition SrvAdjustPosition_wire :: "'a character_scheme \<Rightarrow> byte list" where
  "SrvAdjustPosition_wire v = le_bytes 2 (b_id (basicInfo v)) @ le_bytes 4 (p_x (position v)) @
     le_bytes 4 (p_y (position v)) @ le_bytes 2 (p_z (position v))"

interpretation SrvAdjustPosition: emitter SrvAdjustPosition_pack SrvAdjustPosition_wire
  by standard (unfold SrvAdjustPosition_pack_def SrvAdjustPosition_wire_def, (rule entity_emits)+)

definition SrvSetMoney_pack :: "'a character_scheme \<Rightarrow> CRosePacket \<Rightarrow> CRosePacket" where
  "SrvSetMoney_pack v = chain [put_u64 (a_zuly (advancedInfo v))]"

definition SrvSetMoney_wire :: "'a character_scheme \<Rightarrow> byte list" where
  "SrvSetMoney_wire v = le_bytes 8 (a_zuly (advancedInfo v))"

interpretation SrvSetMoney: emitter SrvSetMoney_pack SrvSetMoney_wire
  by standard (unfold SrvSetMoney_pack_def SrvSetMoney_wire_def, (rule entity_emits)+)

definition SrvRemoveObject_pack :: "u16 \<Rightarrow> CRosePacket \<Rightarrow> CRosePacket" where
  "SrvRemoveObject_pack i = chain [put_u16 (i)]"

definition SrvRemoveObject_wire :: "u16 \<Rightarrow> byte list" where
  "SrvRemoveObject_wire i = le_bytes 2 (i)"

interpretation SrvRemoveObject: emitter SrvRemoveObject_pack SrvRemoveObject_wire
  by standard (unfold SrvRemoveObject_pack_def SrvRemoveObject_wire_def, (rule entity_emits)+)

text \<open>\<open>SrvMouseCmd\<close> uses the destination without a test.\<close>

definition SrvMouseCmd_pack :: "avatar \<Rightarrow> (CRosePacket \<Rightarrow> CRosePacket) option" where
  "SrvMouseCmd_pack v = map_option (\<lambda>d. chain [put_u16 (b_id (basicInfo v)), put_u16 (b_targetId (basicInfo v)),
     put_u16 (d_dist d), put_u32 (d_x d), put_u32 (d_y d), put_u16 (p_z (position v))]) (v_destination v)"

section \<open>The sizes of arrays and packets\<close>

lemma skills_loop_shift:
  assumes "i + length rows < maxSkills" and "length skills = maxSkills"
  shows "skills_loop i rows skills = Some (take (Suc i) skills
    @ map (\<lambda>(sid, level). \<lparr>sk_id = word_of_int sid, sk_level = word_of_int level\<rparr>) rows
    @ drop (Suc i + length rows) skills)"
  using assms
proof (induction rows arbitrary: i skills)
  case (Cons row rows)
  obtain sid level where "row = (sid, level)" by (cases row)
  moreover have "take (Suc (Suc i)) (skills[Suc i := x]) = take (Suc i) skills @ [x]" for x
    using Cons.prems by (simp add: take_Suc_conv_app_nth)
  ultimately show ?case using Cons.IH [of "Suc i"] Cons.prems by simp
qed simp

lemma skills_loop_past_end:
  "maxSkills \<le> i + length rows \<Longrightarrow> i < maxSkills \<Longrightarrow> skills_loop i rows skills = None"
proof (induction rows arbitrary: i skills)
  case (Cons row rows)
  then show ?case by (cases row) (auto simp: not_le)
qed simp

text \<open>What the constructors and loaders make has the length of the arrays.\<close>

definition avatar_ok :: "avatar \<Rightarrow> bool" where
  "avatar_ok v \<longleftrightarrow> length (v_items v) = 140 \<and> length (v_skills v) = 120 \<and> length (v_hotbar v) = 32
     \<and> length (v_effects v) = 40 \<and> length (v_riding v) = 4 \<and> length (v_bullets v) = 3 \<and> v_quests v = Quests_new
     \<and> length (v_wishlist v) = 30 \<and> length (c_factionFame (characterInfo v)) = 2
     \<and> length (c_factionPoints (characterInfo v)) = 10"

lemma Inventory_load_length:
  "Inventory_loadFromResult db load rows items = Some items' \<Longrightarrow> length items' = length items"
  by (induction db load rows items rule: Inventory_loadFromResult.induct) (auto split: if_splits option.splits)

lemma Wishlist_load_length:
  "Wishlist_loadFromResult db load rows items = Some items' \<Longrightarrow> length items' = length items"
  by (induction db load rows items rule: Wishlist_loadFromResult.induct) (auto split: if_splits option.splits)

lemma skills_loop_length: "skills_loop i rows skills = Some skills' \<Longrightarrow> length skills' = length skills"
  by (induction i rows skills rule: skills_loop.induct) (auto split: if_splits)

lemma calculateSpeed_ok [simp]: "avatar_ok (calculateSpeed dexMod v) = avatar_ok v"
  by (simp add: calculateSpeed_def Let_def avatar_ok_def)

lemma loaded_ok: "loadCharacter db load dexMod i charId platinium t = Some (Some v) \<Longrightarrow> avatar_ok v"
  by (auto simp: loadCharacter_def split: list.splits option.splits)
     (auto simp: avatar_ok_def character.defs load_components_def CharacterInfo_of_row_def Skills_loadFromResult_def
       maxSkills_def maxWishes_def maxItems_def Hotbar_new_def StatusEffects_new_def maxEffects_def RidingItems_new_def
       BulletItems_new_def Inventory_new_def dest!: skills_loop_length Inventory_load_length Wishlist_load_length)

lemma length_concat_map: "(\<And>x. length (f x) = k) \<Longrightarrow> length (concat (map f xs)) = k * length xs"
  by (induction xs) auto

lemma element_lengths [simp]:
  "length (concat (map (\<lambda>x :: u16. le_bytes 2 x) xs)) = 2 * length xs"
  "length (concat (map (\<lambda>x :: u32. le_bytes 4 x) ys)) = 4 * length ys"
  "length (concat (map item_wire is)) = 6 * length is" "length (concat (map effect_wire es)) = 8 * length es"
  by (simp_all add: length_concat_map item_wire_def effect_wire_def)

lemma Quests_new_length: "length (Quests_wire Quests_new) = 774"
  by (simp add: Quests_wire_def Quests_new_def Quest_wire_def Quest_new_def item_wire_def length_concat map_replicate_const
      sum_list_triv comp_def sum_list_replicate)

lemma player_data_lengths:
  assumes "avatar_ok v"
  shows "length (SrvSelectCharReply_wire v) = 771 + length (b_name (basicInfo v))"
    and "length (SrvInventoryData_wire v) = 848" and "length (SrvQuestData_wire v) = 954"
    and "length (SrvBillingMsg_wire ()) = 6" and "length (SrvTeleportReply_wire v) = 14"
  using assms Quests_new_length
  by (simp_all add: avatar_ok_def SrvSelectCharReply_wire_def SrvInventoryData_wire_def SrvQuestData_wire_def
      SrvBillingMsg_wire_def SrvTeleportReply_wire_def getEquipped_def length_concat sum_list_triv comp_def item_wire_def effect_wire_def)

definition sample_tables :: character_tables where
  "sample_tables = \<lparr>t_character = [sample_row], t_skills = [(7, 1)], t_inventory = [], t_wishes = []\<rparr>"

lemma sample_loads:
  "\<exists>v. loadCharacter (\<lambda>_. None) (\<lambda>_. None) 0 i cid False sample_tables = Some (Some v) \<and> b_name (basicInfo v) = row_name sample_row"
  by (simp add: loadCharacter_def sample_tables_def Skills_loadFromResult_def maxSkills_def calculateSpeed_def Let_def
      character.defs load_components_def BasicInfo_of_row_def)

text \<open>What a slot holds after loading: the columns of a row of that slot, or what it held before.\<close>

definition filled_from :: "inventory_row \<Rightarrow> Item \<Rightarrow> bool" where
  "filled_from r it \<longleftrightarrow> Item.m_count it = word_of_int (row_amount r) \<and> m_refine it = word_of_int (row_refine r)
     \<and> m_gemOpt it = word_of_int (row_gemOpt r) \<and> m_hasSocket it = row_socket r"

lemma loadFromRow_filled: "Item_loadFromRow db load r i = Some it \<Longrightarrow> filled_from r it"
  by (auto simp: Item_loadFromRow_def filled_from_def load_columns_def split: option.splits)

lemma Inventory_load_slots:
  "Inventory_loadFromResult db load rows items = Some items' \<Longrightarrow> k < maxItems \<Longrightarrow> length items = maxItems \<Longrightarrow>
    (\<exists>r \<in> set rows. row_slot r = int k \<and> filled_from r (items' ! k))
    \<or> (\<forall>r \<in> set rows. row_slot r \<noteq> int k) \<and> items' ! k = items ! k"
proof (induction db load rows items rule: Inventory_loadFromResult.induct)
  case (2 db load row rows items)
  show ?case
  proof (cases "int maxItems \<le> row_slot row")
    case True
    then show ?thesis using 2 by auto
  next
    case False
    then obtain it where it: "Item_loadFromRow db load row (items ! nat (row_slot row)) = Some it"
        "Inventory_loadFromResult db load rows (items[nat (row_slot row) := it]) = Some items'" "0 \<le> row_slot row"
      using "2.prems"(1) by (auto split: if_splits option.splits)
    note IH = "2.IH"(2) [OF False _ it(1,2) "2.prems"(2)]
    show ?thesis
    proof (cases "row_slot row = int k")
      case True
      then show ?thesis
        using IH it(3) loadFromRow_filled [OF it(1)] "2.prems"(2,3) by auto
    next
      case False
      then have "nat (row_slot row) \<noteq> k" using it(3) by auto
      then show ?thesis using IH it(3) False "2.prems"(3) by auto
    qed
  qed
qed simp

lemma skills_loaded:
  assumes "Skills_loadFromResult rows = Some skills"
  shows "skills = \<lparr>sk_id = 0, sk_level = 0\<rparr> # map (\<lambda>(sid, level). \<lparr>sk_id = word_of_int sid, sk_level = word_of_int level\<rparr>) rows
      @ replicate (maxSkills - 1 - length rows) \<lparr>sk_id = 0, sk_level = 0\<rparr>"
proof -
  have "0 < maxSkills" by (simp add: maxSkills_def)
  then have "length rows < maxSkills"
    using assms skills_loop_past_end [of 0 rows] by (force simp: Skills_loadFromResult_def)
  moreover from this have "min (Suc 0) maxSkills = Suc 0" by simp
  ultimately show ?thesis
    using assms skills_loop_shift [of 0 rows "replicate maxSkills \<lparr>sk_id = 0, sk_level = 0\<rparr>"] by (simp add: Skills_loadFromResult_def)
qed

lemma loadedE:
  assumes "loadCharacter db load dexMod i charId platinium t = Some (Some v)"
  obtains row skills items wishes where "t_character t = [row]" and "Skills_loadFromResult (t_skills t) = Some skills"
    and "Inventory_loadFromResult db load (t_inventory t) Inventory_new = Some items"
    and "v = calculateSpeed dexMod (character.extend (load_components row i platinium charId)
      \<lparr>v_items = items, v_skills = skills, v_hotbar = Hotbar_new, v_effects = StatusEffects_new [],
       v_riding = RidingItems_new, v_bullets = BulletItems_new, v_quests = Quests_new,
       v_wishlist = wishes, v_destination = None\<rparr>)"
  using assms by (auto simp: loadCharacter_def split: list.splits option.splits)

lemma calculateSpeed_keeps [simp]: "position (calculateSpeed d v) = position v" "basicInfo (calculateSpeed d v) = basicInfo v"
  "stats (calculateSpeed d v) = stats v" "graphics (calculateSpeed d v) = graphics v"
  "characterInfo (calculateSpeed d v) = characterInfo v" "v_items (calculateSpeed d v) = v_items v"
  "v_skills (calculateSpeed d v) = v_skills v" "a_zuly (advancedInfo (calculateSpeed d v)) = a_zuly (advancedInfo v)"
  "a_hp (advancedInfo (calculateSpeed d v)) = a_hp (advancedInfo v)" "a_mp (advancedInfo (calculateSpeed d v)) = a_mp (advancedInfo v)"
  by (simp_all add: calculateSpeed_def Let_def)

lemma narrow_id: "ucast (ucast i :: u32) = (i :: u16)"
  by (rule bit_word_eqI) (simp add: bit_simps)



text \<open>The skills of a character are loaded one slot too far: the first slot stays empty, and a character with as many
  skills as there are slots cannot be loaded, because the last one is written outside the array.\<close>

theorem skills_shifted:
  "(length rows < maxSkills \<longrightarrow> Skills_loadFromResult rows = Some (\<lparr>sk_id = 0, sk_level = 0\<rparr>
      # map (\<lambda>(sid, level). \<lparr>sk_id = word_of_int sid, sk_level = word_of_int level\<rparr>) rows
      @ replicate (maxSkills - 1 - length rows) \<lparr>sk_id = 0, sk_level = 0\<rparr>))
   \<and> (maxSkills \<le> length rows \<longrightarrow> Skills_loadFromResult rows = None)"
proof -
  have "0 < maxSkills" by (simp add: maxSkills_def)
  moreover from this have "min (Suc 0) maxSkills = Suc 0" by simp
  ultimately show ?thesis
    using skills_loop_shift [of 0 rows "replicate maxSkills \<lparr>sk_id = 0, sk_level = 0\<rparr>"] skills_loop_past_end [of 0 rows]
    by (simp add: Skills_loadFromResult_def)
qed

end
