(* ===== verification/SystemManager.thy ===== *)
theory SystemManager
  imports PacketFactory
begin

text \<open>
  How the map server runs its systems: \<open>map/include/systemmanager.h\<close>, \<open>map/src/systemmanager.cpp\<close> and the queues of
  \<open>EntitySystem\<close> (\<open>map/src/entitysystem.cpp\<close>). Packets of clients are queued by \<open>dispatch\<close> and handled by the
  next \<open>update\<close>, between the commands that create entities and the commands that delete them.

  The entities themselves are kept by the entityx library. Its state \<open>'s\<close> and what is asked of it are
  arguments: \<open>valid\<close> says whether a handle is the handle of a living entity, \<open>client\<close> is \<open>getClient\<close>, and
  \<open>handler\<close> and \<open>updater\<close> are the handlers and the \<open>update\<close> of the systems. \<open>None\<close> is an exception or an
  access through a null pointer.
\<close>

section \<open>The system manager\<close>

type_synonym entity = nat

datatype system =
    MovementSystem
  | UpdateSystem
  | ChatSystem
  | InventorySystem
  | PartySystem
  | MapSystem
  | LuaSystem

text \<open>The packets for which the constructor of a system calls \<open>registerDispatcher\<close>.\<close>

fun dispatchers :: "system \<Rightarrow> u16 list" where
  "dispatchers MovementSystem = [PAKCS_MOUSE_CMD, PAKCS_STOP_MOVING]"
| "dispatchers UpdateSystem = []"
| "dispatchers ChatSystem = [PAKCS_NORMAL_CHAT, PAKCS_WHISPER_CHAT, PAKCS_PARTY_CHAT]"
| "dispatchers InventorySystem = [PAKCS_EQUIP_ITEM, PAKCS_DROP_ITEM]"
| "dispatchers PartySystem = [PAKCS_PARTY_REQ, PAKCS_PARTY_REPLY]"
| "dispatchers MapSystem = [PAKCS_CHANGE_MAP_REQ]"
| "dispatchers LuaSystem = []"

record SystemManager =
  m_systems :: "system list"
  m_dispatch :: "(u16 \<times> system) list"

definition SystemManager_new :: SystemManager where
  "SystemManager_new = \<lparr>m_systems = [], m_dispatch = []\<rparr>"

definition add_system :: "system \<Rightarrow> SystemManager \<Rightarrow> SystemManager" where
  "add_system sys m = m\<lparr>m_dispatch := m_dispatch m @ map (\<lambda>ty. (ty, sys)) (dispatchers sys),
     m_systems := List.insert sys (m_systems m)\<rparr>"

definition remove_system :: "system \<Rightarrow> SystemManager \<Rightarrow> SystemManager" where
  "remove_system sys m = m\<lparr>m_systems := removeAll sys (m_systems m)\<rparr>"

definition wouldDispatch :: "u16 \<Rightarrow> SystemManager \<Rightarrow> bool" where
  "wouldDispatch ty m \<longleftrightarrow> list_ex (\<lambda>(t, sys). t = ty) (m_dispatch m)"

text \<open>The loop of \<open>dispatch\<close> over the entries of the packet's type: the function \<open>registerDispatcher\<close> stored calls
  the handler if the system is there, the entity is valid and has a client, and an entry whose function
  yields false is erased.\<close>

fun dispatch_entries :: "('s \<Rightarrow> entity \<Rightarrow> bool) \<Rightarrow> ('s \<Rightarrow> entity \<Rightarrow> bool) \<Rightarrow> (system \<Rightarrow> entity \<Rightarrow> 'p \<Rightarrow> 's \<Rightarrow> 's option)
    \<Rightarrow> system list \<Rightarrow> u16 \<Rightarrow> entity \<Rightarrow> 'p \<Rightarrow> (u16 \<times> system) list \<Rightarrow> 's \<Rightarrow> ((u16 \<times> system) list \<times> 's) option" where
  "dispatch_entries valid client handler systems ty e p [] s = Some ([], s)"
| "dispatch_entries valid client handler systems ty e p ((t, sys) # rest) s =
    (if t \<noteq> ty then map_option (\<lambda>(kept, s'). ((t, sys) # kept, s'))
         (dispatch_entries valid client handler systems ty e p rest s)
     else if sys \<in> set systems \<and> valid s e \<and> client s e then
       (case handler sys e p s of
          None \<Rightarrow> None
        | Some s1 \<Rightarrow> map_option (\<lambda>(kept, s'). ((t, sys) # kept, s'))
            (dispatch_entries valid client handler systems ty e p rest s1))
     else dispatch_entries valid client handler systems ty e p rest s)"

definition SystemManager_dispatch :: "('s \<Rightarrow> entity \<Rightarrow> bool) \<Rightarrow> ('s \<Rightarrow> entity \<Rightarrow> bool)
    \<Rightarrow> (system \<Rightarrow> entity \<Rightarrow> 'p \<Rightarrow> 's \<Rightarrow> 's option) \<Rightarrow> u16 \<Rightarrow> entity \<Rightarrow> 'p \<Rightarrow> SystemManager \<Rightarrow> 's
    \<Rightarrow> (SystemManager \<times> 's) option" where
  "SystemManager_dispatch valid client handler ty e p m s =
    map_option (\<lambda>(d, s'). (m\<lparr>m_dispatch := d\<rparr>, s'))
      (dispatch_entries valid client handler (m_systems m) ty e p (m_dispatch m) s)"

fun run_all :: "('x \<Rightarrow> 's \<Rightarrow> 's option) \<Rightarrow> 'x list \<Rightarrow> 's \<Rightarrow> 's option" where
  "run_all f [] s = Some s"
| "run_all f (x # xs) s = (case f x s of None \<Rightarrow> None | Some s1 \<Rightarrow> run_all f xs s1)"

text \<open>\<open>systems_\<close> is a hash map, so \<open>order\<close> is the order of its iteration.\<close>

definition SystemManager_update :: "(system \<Rightarrow> 's \<Rightarrow> 's option) \<Rightarrow> (system list \<Rightarrow> system list) \<Rightarrow> SystemManager \<Rightarrow> 's \<Rightarrow> 's option" where
  "SystemManager_update updater order m s = run_all updater (order (m_systems m)) s"

section \<open>The queues of the entity system\<close>

text \<open>A command is a function on the entities; \<open>m_toDispatch\<close> holds the entity, the type and the packet.\<close>

record ('s, 'p) EntitySystem =
  m_store :: 's
  m_manager :: SystemManager
  m_create_commands :: "('s \<Rightarrow> 's option) list"
  m_delete_commands :: "('s \<Rightarrow> 's option) list"
  m_toDispatch :: "(entity \<times> u16 \<times> 'p) list"

definition all_systems :: SystemManager where
  "all_systems = fold add_system
     [MovementSystem, UpdateSystem, ChatSystem, InventorySystem, PartySystem, MapSystem, LuaSystem] SystemManager_new"

definition EntitySystem_new :: "'s \<Rightarrow> ('s, 'p) EntitySystem" where
  "EntitySystem_new s = \<lparr>m_store = s, m_manager = all_systems, m_create_commands = [], m_delete_commands = [],
     m_toDispatch = []\<rparr>"

definition EntitySystem_dispatch :: "('s \<Rightarrow> entity \<Rightarrow> bool) \<Rightarrow> entity \<Rightarrow> u16 \<Rightarrow> 'p \<Rightarrow> ('s, 'p) EntitySystem
    \<Rightarrow> bool \<times> ('s, 'p) EntitySystem" where
  "EntitySystem_dispatch valid e ty p es =
    (if \<not> valid (m_store es) e then (False, es)
     else if wouldDispatch ty (m_manager es) then (True, es\<lparr>m_toDispatch := m_toDispatch es @ [(e, ty, p)]\<rparr>)
     else (False, es))"

text \<open>\<open>destroy\<close> takes the entity off the map at once and queues its removal.\<close>

definition EntitySystem_destroy :: "('s \<Rightarrow> entity \<Rightarrow> bool) \<Rightarrow> ('s \<Rightarrow> entity \<Rightarrow> bool) \<Rightarrow> (entity \<Rightarrow> 's \<Rightarrow> 's)
    \<Rightarrow> (entity \<Rightarrow> bool \<Rightarrow> 's \<Rightarrow> 's option) \<Rightarrow> entity \<Rightarrow> bool \<Rightarrow> ('s, 'p) EntitySystem \<Rightarrow> ('s, 'p) EntitySystem" where
  "EntitySystem_destroy valid on_map leave_map command e save es =
    (if \<not> valid (m_store es) e then es
     else if \<not> on_map (m_store es) e then es
     else es\<lparr>m_store := leave_map e (m_store es), m_delete_commands := m_delete_commands es @ [command e save]\<rparr>)"

text \<open>The loop of \<open>update\<close> over the queue of packets.\<close>

fun dispatch_queue :: "('s \<Rightarrow> entity \<Rightarrow> bool) \<Rightarrow> ('s \<Rightarrow> entity \<Rightarrow> bool) \<Rightarrow> (system \<Rightarrow> entity \<Rightarrow> 'p \<Rightarrow> 's \<Rightarrow> 's option)
    \<Rightarrow> (entity \<times> u16 \<times> 'p) list \<Rightarrow> SystemManager \<Rightarrow> 's \<Rightarrow> (SystemManager \<times> 's) option" where
  "dispatch_queue valid client handler [] m s = Some (m, s)"
| "dispatch_queue valid client handler ((e, ty, p) # rest) m s =
    (case SystemManager_dispatch valid client handler ty e p m s of
       None \<Rightarrow> None
     | Some (m1, s1) \<Rightarrow> dispatch_queue valid client handler rest m1 s1)"

definition EntitySystem_update :: "('s \<Rightarrow> entity \<Rightarrow> bool) \<Rightarrow> ('s \<Rightarrow> entity \<Rightarrow> bool) \<Rightarrow> (system \<Rightarrow> entity \<Rightarrow> 'p \<Rightarrow> 's \<Rightarrow> 's option)
    \<Rightarrow> (system \<Rightarrow> 's \<Rightarrow> 's option) \<Rightarrow> (system list \<Rightarrow> system list) \<Rightarrow> ('s, 'p) EntitySystem \<Rightarrow> ('s, 'p) EntitySystem option" where
  "EntitySystem_update valid client handler updater order es =
    (case run_all (\<lambda>c. c) (m_create_commands es) (m_store es) of
       None \<Rightarrow> None
     | Some s1 \<Rightarrow>
         (case dispatch_queue valid client handler (m_toDispatch es) (m_manager es) s1 of
            None \<Rightarrow> None
          | Some (m2, s2) \<Rightarrow>
              (case SystemManager_update updater order m2 s2 of
                 None \<Rightarrow> None
               | Some s3 \<Rightarrow>
                   (case run_all (\<lambda>c. c) (m_delete_commands es) s3 of
                      None \<Rightarrow> None
                    | Some s4 \<Rightarrow> Some (es\<lparr>m_store := s4, m_manager := m2, m_create_commands := [],
                        m_toDispatch := [], m_delete_commands := []\<rparr>)))))"

section \<open>The dispatch table\<close>

lemma all_systems_dispatch: "m_dispatch all_systems =
    [(PAKCS_MOUSE_CMD, MovementSystem), (PAKCS_STOP_MOVING, MovementSystem), (PAKCS_NORMAL_CHAT, ChatSystem),
     (PAKCS_WHISPER_CHAT, ChatSystem), (PAKCS_PARTY_CHAT, ChatSystem), (PAKCS_EQUIP_ITEM, InventorySystem),
     (PAKCS_DROP_ITEM, InventorySystem), (PAKCS_PARTY_REQ, PartySystem), (PAKCS_PARTY_REPLY, PartySystem),
     (PAKCS_CHANGE_MAP_REQ, MapSystem)]"
  by (simp add: all_systems_def add_system_def SystemManager_new_def)

lemma all_systems_there: "sys \<in> set (m_systems all_systems)"
  by (cases sys) (simp_all add: all_systems_def add_system_def SystemManager_new_def List.insert_def)

lemma all_systems_distinct: "distinct (map fst (m_dispatch all_systems))"
  by (simp add: all_systems_dispatch PAKCS_MOUSE_CMD_def PAKCS_STOP_MOVING_def PAKCS_NORMAL_CHAT_def PAKCS_WHISPER_CHAT_def
      PAKCS_PARTY_CHAT_def PAKCS_EQUIP_ITEM_def PAKCS_DROP_ITEM_def PAKCS_PARTY_REQ_def PAKCS_PARTY_REPLY_def
      PAKCS_CHANGE_MAP_REQ_def)

lemma dispatch_entries_other:
  "ty \<notin> fst ` set d \<Longrightarrow> dispatch_entries valid client handler systems ty e p d s = Some (d, s)"
  by (induction d) auto

lemma dispatch_entries_stale:
  "\<not> (valid s e \<and> client s e) \<Longrightarrow>
    dispatch_entries valid client handler systems ty e p d s = Some (filter (\<lambda>(t, sys). t \<noteq> ty) d, s)"
  by (induction d) auto

lemma dispatch_entries_subset:
  "dispatch_entries valid client handler systems ty e p d s = Some (d', s') \<Longrightarrow> set d' \<subseteq> set d"
proof (induction d arbitrary: d' s)
  case (Cons x d)
  then show ?case by (cases x) (fastforce split: if_splits option.splits)
qed simp

lemma dispatch_entries_one:
  assumes "distinct (map fst d)" and "(ty, sys) \<in> set d" and "sys \<in> set systems" and "valid s e" and "client s e"
  shows "dispatch_entries valid client handler systems ty e p d s = map_option (Pair d) (handler sys e p s)"
  using assms(1,2)
proof (induction d)
  case (Cons x d)
  obtain t sys' where x: "x = (t, sys')" by (cases x)
  show ?case
  proof (cases "t = ty")
    case True
    then have "sys' = sys" "ty \<notin> fst ` set d" using Cons.prems x by (force, simp)
    then show ?thesis using True x assms(3-5) by (simp add: dispatch_entries_other split: option.splits)
  next
    case False
    then show ?thesis using Cons x by (cases "handler sys e p s") auto
  qed
qed simp

lemma dispatch_queue_subset:
  "dispatch_queue valid client handler q m s = Some (m', s') \<Longrightarrow> set (m_dispatch m') \<subseteq> set (m_dispatch m)"
proof (induction q arbitrary: m s)
  case (Cons x q)
  obtain e ty p where x: "x = (e, ty, p)" by (cases x)
  then obtain m1 s1 where 1: "SystemManager_dispatch valid client handler ty e p m s = Some (m1, s1)"
      "dispatch_queue valid client handler q m1 s1 = Some (m', s')"
    using Cons.prems by (auto split: option.splits)
  then have "set (m_dispatch m1) \<subseteq> set (m_dispatch m)"
    by (auto simp: SystemManager_dispatch_def dest!: dispatch_entries_subset)
  with Cons.IH [OF 1(2)] show ?case by blast
qed simp

section \<open>What becomes of the queued packets\<close>

text \<open>The system that registered for a type, and the manager whose table still has the entries of the types \<open>T\<close>.\<close>

definition system_of :: "u16 \<Rightarrow> system option" where
  "system_of ty = find (\<lambda>sys. ty \<in> set (dispatchers sys))
     [MovementSystem, UpdateSystem, ChatSystem, InventorySystem, PartySystem, MapSystem, LuaSystem]"

definition kept :: "u16 set \<Rightarrow> SystemManager" where
  "kept T = all_systems\<lparr>m_dispatch := filter (\<lambda>(t, sys). t \<in> T) (m_dispatch all_systems)\<rparr>"

text \<open>The service of a queue, without a table: every packet in its turn, by the system of its type. A packet of an entity that
  is dead or without a client takes the type out of service, and later packets of that type are passed over.\<close>

fun serve :: "('s \<Rightarrow> entity \<Rightarrow> bool) \<Rightarrow> ('s \<Rightarrow> entity \<Rightarrow> bool) \<Rightarrow> (system \<Rightarrow> entity \<Rightarrow> 'p \<Rightarrow> 's \<Rightarrow> 's option)
    \<Rightarrow> u16 set \<Rightarrow> (entity \<times> u16 \<times> 'p) list \<Rightarrow> 's \<Rightarrow> (u16 set \<times> 's) option" where
  "serve valid client handler T [] s = Some (T, s)"
| "serve valid client handler T ((e, ty, p) # q) s =
    (case (if ty \<in> T then system_of ty else None) of
       None \<Rightarrow> serve valid client handler T q s
     | Some sys \<Rightarrow>
         if valid s e \<and> client s e then
           (case handler sys e p s of None \<Rightarrow> None | Some s1 \<Rightarrow> serve valid client handler T q s1)
         else serve valid client handler (T - {ty}) q s)"

lemma system_of_entry: "system_of ty = map_of (m_dispatch all_systems) ty"
  by (simp add: system_of_def all_systems_dispatch)

lemma kept_UNIV [simp]: "kept UNIV = all_systems"
proof -
  have "filter (\<lambda>(t, sys). t \<in> UNIV) d = d" for d :: "(u16 \<times> system) list" by (induction d) auto
  then show ?thesis by (simp add: kept_def)
qed

lemma kept_table: "m_dispatch (kept T) = filter (\<lambda>(t, sys). t \<in> T) (m_dispatch all_systems)" "m_systems (kept T) = m_systems all_systems"
  by (simp_all add: kept_def)

lemma kept_types: "ty \<in> fst ` set (m_dispatch (kept T)) \<longleftrightarrow> ty \<in> T \<and> system_of ty \<noteq> None"
  by (force simp: kept_table system_of_entry map_of_eq_None_iff)

lemma kept_remove: "(kept T)\<lparr>m_dispatch := filter (\<lambda>(t, sys). t \<noteq> ty) (m_dispatch (kept T))\<rparr> = kept (T - {ty})"
proof -
  have "filter (\<lambda>(t, sys). t \<noteq> ty) (filter (\<lambda>(t, sys). t \<in> T) d) = filter (\<lambda>(t, sys). t \<in> T - {ty}) d" for d :: "(u16 \<times> system) list"
    by (induction d) auto
  then show ?thesis by (simp add: kept_def)
qed

lemma distinct_kept: "distinct (map fst (m_dispatch (kept T)))"
  unfolding kept_table by (rule distinct_map_filter [OF all_systems_distinct])

lemma dispatch_kept: "SystemManager_dispatch valid client handler ty e p (kept T) s =
    (case (if ty \<in> T then system_of ty else None) of
       None \<Rightarrow> Some (kept T, s)
     | Some sys \<Rightarrow> if valid s e \<and> client s e then map_option (Pair (kept T)) (handler sys e p s) else Some (kept (T - {ty}), s))"
proof (cases "ty \<in> T \<and> system_of ty \<noteq> None")
  case False
  then have "ty \<notin> fst ` set (m_dispatch (kept T))" by (simp add: kept_types)
  then show ?thesis using False by (simp add: SystemManager_dispatch_def dispatch_entries_other split: option.split)
next
  case True
  then obtain sys where sys: "system_of ty = Some sys" by blast
  then have entry: "(ty, sys) \<in> set (m_dispatch (kept T))"
    using True by (auto simp: kept_table system_of_entry dest: map_of_SomeD)
  show ?thesis
  proof (cases "valid s e \<and> client s e")
    case True
    then show ?thesis
      using dispatch_entries_one [OF distinct_kept entry, of "m_systems (kept T)" valid s e client handler p] all_systems_there
        \<open>ty \<in> T \<and> system_of ty \<noteq> None\<close> sys
      by (cases "handler sys e p s") (simp_all add: SystemManager_dispatch_def kept_table)
  next
    case False
    then show ?thesis
      using \<open>ty \<in> T \<and> system_of ty \<noteq> None\<close> sys by (auto simp: SystemManager_dispatch_def dispatch_entries_stale kept_remove)
  qed
qed

text \<open>The loop over the table, which erases entries as it goes, is the service of the queue.\<close>

lemma queue_serve: "dispatch_queue valid client handler q (kept T) s
    = map_option (\<lambda>(T', s'). (kept T', s')) (serve valid client handler T q s)"
proof (induction q arbitrary: T s)
  case (Cons x q)
  obtain e ty p where "x = (e, ty, p)" by (cases x)
  then show ?case using Cons by (auto simp: dispatch_kept split: option.splits)
qed simp

text \<open>If the entities of the queue stay alive and connected and the handlers return, nothing is passed over.\<close>

lemma serve_all:
  assumes "\<And>e ty p s. (e, ty, p) \<in> set q \<Longrightarrow> good s \<Longrightarrow>
      ty \<in> T \<and> valid s e \<and> client s e \<and> (\<exists>sys s'. system_of ty = Some sys \<and> handler sys e p s = Some s' \<and> good s')" and "good s"
  shows "\<exists>s'. run_all (\<lambda>(e, ty, p). handler (the (system_of ty)) e p) q s = Some s' \<and> good s'
    \<and> serve valid client handler T q s = Some (T, s')"
  using assms
proof (induction q arbitrary: s)
  case (Cons x q)
  obtain e ty p where x: "x = (e, ty, p)" by (cases x)
  then obtain sys s1 where s1: "ty \<in> T" "valid s e" "client s e" "system_of ty = Some sys" "handler sys e p s = Some s1" "good s1"
    using Cons.prems by (metis list.set_intros(1))
  obtain s' where "run_all (\<lambda>(e, ty, p). handler (the (system_of ty)) e p) q s1 = Some s'" "good s'"
      "serve valid client handler T q s1 = Some (T, s')"
    using Cons.IH [OF Cons.prems(1) s1(6)] by auto
  then show ?case using x s1 by simp
qed simp

text \<open>The whole of \<open>update\<close>, with the service of the queue in place of the loop.\<close>

lemma update_serves:
  assumes "m_manager es = kept T"
  shows "EntitySystem_update valid client handler updater order es =
    Option.bind (run_all (\<lambda>c. c) (m_create_commands es) (m_store es)) (\<lambda>s1.
    Option.bind (serve valid client handler T (m_toDispatch es) s1) (\<lambda>(T', s2).
    Option.bind (run_all updater (order (m_systems all_systems)) s2) (\<lambda>s3.
    Option.bind (run_all (\<lambda>c. c) (m_delete_commands es) s3) (\<lambda>s4.
    Some \<lparr>m_store = s4, m_manager = kept T', m_create_commands = [], m_delete_commands = [], m_toDispatch = []\<rparr>))))"
  using assms
  by (auto simp: EntitySystem_update_def queue_serve SystemManager_update_def kept_table split: option.split)

text \<open>An entity store for the witnesses: who is connected, and the packets handled so far.\<close>

definition log_handler :: "system \<Rightarrow> entity \<Rightarrow> nat \<Rightarrow> entity set \<times> (system \<times> entity \<times> nat) list
    \<Rightarrow> (entity set \<times> (system \<times> entity \<times> nat) list) option" where
  "log_handler sys e p s = Some (fst s, snd s @ [(sys, e, p)])"

definition sample_queue :: "(entity set \<times> (system \<times> entity \<times> nat) list, nat) EntitySystem" where
  "sample_queue = (EntitySystem_new ({1, 2}, []))\<lparr>m_toDispatch := [(1, PAKCS_NORMAL_CHAT, 7), (2, PAKCS_EQUIP_ITEM, 8)]\<rparr>"

lemma no_update: "SystemManager_update (\<lambda>sys s. Some s) (\<lambda>l. l) m s = Some s"
proof -
  have "run_all (\<lambda>sys s. Some s) l s = Some s" for l :: "system list" by (induction l) auto
  then show ?thesis by (simp add: SystemManager_update_def)
qed

section \<open>A packet that comes too late\<close>

text \<open>Everything that happens to an entity system afterwards.\<close>

inductive later :: "('s \<Rightarrow> entity \<Rightarrow> bool) \<Rightarrow> ('s \<Rightarrow> entity \<Rightarrow> bool) \<Rightarrow> (system \<Rightarrow> entity \<Rightarrow> 'p \<Rightarrow> 's \<Rightarrow> 's option)
    \<Rightarrow> ('s, 'p) EntitySystem \<Rightarrow> ('s, 'p) EntitySystem \<Rightarrow> bool" for valid client handler es where
  now: "later valid client handler es es"
| dispatched: "later valid client handler es es1 \<Longrightarrow>
    later valid client handler es (snd (EntitySystem_dispatch valid e ty p es1))"
| destroyed: "later valid client handler es es1 \<Longrightarrow>
    later valid client handler es (EntitySystem_destroy valid on_map leave command e save es1)"
| commanded: "later valid client handler es es1 \<Longrightarrow>
    later valid client handler es (es1\<lparr>m_create_commands := cs, m_delete_commands := ds, m_store := s\<rparr>)"
| updated: "later valid client handler es es1 \<Longrightarrow>
    EntitySystem_update valid client handler updater order es1 = Some es2 \<Longrightarrow> later valid client handler es es2"

lemma update_subset:
  "EntitySystem_update valid client handler updater order es = Some es' \<Longrightarrow>
    set (m_dispatch (m_manager es')) \<subseteq> set (m_dispatch (m_manager es))"
  using dispatch_queue_subset [of valid client handler "m_toDispatch es" "m_manager es"]
  by (force simp: EntitySystem_update_def split: option.splits)

lemma later_subset:
  "later valid client handler es es' \<Longrightarrow> set (m_dispatch (m_manager es')) \<subseteq> set (m_dispatch (m_manager es))"
proof (induction rule: later.induct)
  case (updated es1 updater order es2)
  then show ?case using update_subset by blast
qed (auto simp: EntitySystem_dispatch_def EntitySystem_destroy_def)

text \<open>One late packet takes a handler away from everyone. If a client disconnects between sending a packet and the
  next \<open>update\<close>, the handler of that packet's type is removed from the table, and from then on no packet of
  that type is accepted from any client, whatever happens.\<close>

theorem late_packet_unregisters:
  assumes "run_all (\<lambda>c. c) (m_create_commands es) (m_store es) = Some s1" and "m_toDispatch es = [(e, ty, p)]"
    and "\<not> client s1 e" and "EntitySystem_update valid client handler updater order es = Some es1"
    and "later valid client handler es1 es2"
  shows "EntitySystem_dispatch valid e' ty p' es2 = (False, es2)"
proof -
  have "SystemManager_dispatch valid client handler ty e p (m_manager es) s1
      = Some ((m_manager es)\<lparr>m_dispatch := filter (\<lambda>(t, sys). t \<noteq> ty) (m_dispatch (m_manager es))\<rparr>, s1)"
    using assms(3) by (simp add: SystemManager_dispatch_def dispatch_entries_stale)
  then have "m_dispatch (m_manager es1) = filter (\<lambda>(t, sys). t \<noteq> ty) (m_dispatch (m_manager es))"
    using assms(1,2,4) by (auto simp: EntitySystem_update_def split: option.splits)
  then have "\<not> wouldDispatch ty (m_manager es2)"
    using later_subset [OF assms(5)] by (fastforce simp: wouldDispatch_def list_ex_iff)
  then show ?thesis by (simp add: EntitySystem_dispatch_def)
qed

theorem late_packet_unregisters_witness:
  "\<exists>es1. EntitySystem_update (\<lambda>s e. True) (\<lambda>s e. e \<in> fst s) log_handler (\<lambda>sys s. Some s) (\<lambda>l. l)
     (sample_queue\<lparr>m_store := ({2}, []), m_toDispatch := [(1, PAKCS_NORMAL_CHAT, 7)]\<rparr>) = Some es1
   \<and> EntitySystem_dispatch (\<lambda>s e. True) 2 PAKCS_NORMAL_CHAT 8 es1 = (False, es1)"
proof -
  let ?es = "sample_queue\<lparr>m_store := ({2}, []), m_toDispatch := [(1, PAKCS_NORMAL_CHAT, 7)]\<rparr>"
  obtain es1 where es1: "EntitySystem_update (\<lambda>s e. True) (\<lambda>s e. e \<in> fst s) log_handler (\<lambda>sys s. Some s) (\<lambda>l. l) ?es = Some es1"
    by (simp add: EntitySystem_update_def sample_queue_def EntitySystem_new_def SystemManager_dispatch_def
        dispatch_entries_stale no_update)
  then show ?thesis
    using late_packet_unregisters [of ?es "({2}, [])" 1 PAKCS_NORMAL_CHAT 7, OF _ _ _ es1 later.now, of 2 8]
    by (auto simp: sample_queue_def EntitySystem_new_def)
qed

end
