(* ===== verification/CMapClient.thy ===== *)
theory CMapClient
  imports ClientLife EntityPackets SystemManager
begin

text \<open>
  The clients of the map server: \<open>map/src/cmapclient.cpp\<close>. The client authenticates with the session the
  char server prepared; its character is loaded into an entity, its packets are handed to the entity system,
  and the entity is destroyed when the connection ends. What the client asks of the database and of the
  entity system is recorded in \<open>m_map_calls\<close>; what they answer is the environment of a step. The movement
  system may call \<open>switch_server\<close> at any time.
\<close>

section \<open>The client\<close>

datatype map_state = M_DEFAULT | M_LOGGEDIN | M_SWITCHING

datatype map_call =
    MapSelectSession u32 u32 u32
  | MapLoadCharacter u32 bool "entity option"
  | MapSetWorld u32 cstring u16
  | MapAssignSocket entity
  | MapTouchSession u32 int
  | MapDispatch "entity option" rose_packet bool
  | MapSwitch
  | MapDestroy "entity option" bool
  | MapOffline u32

record CMapClient = CRoseSocket +
  m_access_rights :: u16
  m_map_state :: map_state
  m_map_sessionId :: u32
  m_map_userid :: u32
  m_map_charid :: u32
  m_map_entity :: "entity option"
  m_map_calls :: "map_call list"

text \<open>The environment: the time and the uninitialised memory of buffers, the static variable \<open>time\<close> of
  \<open>updateSession\<close>, the configuration, the query for the session (user, character, whether the world address
  is null, platinum), the tables of a character, the handle of the next entity and its identifier, whether
  an update succeeds, and what \<open>EntitySystem::dispatch\<close> yields. \<open>None\<close> is an exception of the database.\<close>

record map_env =
  v_now :: u32
  v_memory :: "byte list"
  v_garbage :: SrvScreenShotTimeReply
  v_tick :: int
  v_last_update :: int
  v_ip :: cstring
  v_clientPort :: u16
  v_session :: "u32 \<Rightarrow> cstring \<Rightarrow> (int \<times> int \<times> bool \<times> bool) option option"
  v_tables :: "u32 \<Rightarrow> character_tables option"
  v_db :: item_database
  v_scripts :: "cstring \<Rightarrow> nat option"
  v_dexMod :: u16
  v_free_id :: u16
  v_handle :: entity
  v_execute :: bool
  v_dispatch :: "entity option \<Rightarrow> rose_packet \<Rightarrow> bool"

definition CMapClient_new :: "CNetwork_Asio \<Rightarrow> CMapClient" where
  "CMapClient_new sock = CRoseSocket.CRoseSocket.extend (CRoseClient_new sock)
     (CMapClient.CMapClient.fields 0 M_DEFAULT 0 0 0 None [])"

definition map_log :: "map_call list \<Rightarrow> CMapClient \<Rightarrow> CMapClient" where
  "map_log qs s = s\<lparr>m_map_calls := m_map_calls s @ qs\<rparr>"

definition switch_server :: "CMapClient \<Rightarrow> CMapClient" where
  "switch_server s = map_log [MapSwitch] (s\<lparr>m_map_state := M_SWITCHING\<rparr>)"

text \<open>If the database throws here, the exception leaves the callback and the state stays; only the way without exceptions
  is modelled.\<close>

definition CMapClient_OnDisconnected :: "CMapClient \<Rightarrow> CMapClient" where
  "CMapClient_OnDisconnected s =
    (if m_map_state s = M_DEFAULT then s
     else
       let switching = (m_map_state s = M_SWITCHING) in
       (map_log ([MapDestroy (m_map_entity s) (\<not> switching)]
          @ (if switching then [] else [MapOffline (m_network_id s)])) s)\<lparr>m_map_state := M_DEFAULT\<rparr>)"

definition map_callbacks :: "u32 list list \<Rightarrow> CMapClient callbacks" where
  "map_callbacks rt = (client_callbacks rt)\<lparr>OnDisconnected := CMapClient_OnDisconnected\<rparr>"

definition CMapClient_updateSession :: "map_env \<Rightarrow> CMapClient \<Rightarrow> CMapClient option" where
  "CMapClient_updateSession env s =
    (if v_tick env - v_last_update env < 120000 then Some s
     else if \<not> v_execute env then None
     else Some (map_log [MapTouchSession (m_network_id s) (v_tick env)] s))"

definition map_replied :: "CMapClient callbacks \<Rightarrow> map_env \<Rightarrow> u8 \<Rightarrow> u32 \<Rightarrow> CMapClient \<Rightarrow> CMapClient option" where
  "map_replied cb env result i s = send_packet cb PAKSC_JOIN_SERVER_REPLY
     (SrvJoinServerReply_pack \<lparr>SrvJoinServerReply.m_result = result, m_id = i, m_payFlag = 0\<rparr>) (v_memory env) s"

definition send_player_data :: "CMapClient callbacks \<Rightarrow> map_env \<Rightarrow> avatar \<Rightarrow> CMapClient \<Rightarrow> CMapClient option" where
  "send_player_data cb env v s =
    Option.bind (send_packet cb PAKWC_SELECT_CHAR_REPLY (SrvSelectCharReply_pack v) (v_memory env) s) (\<lambda>s.
    Option.bind (send_packet cb PAKWC_INVENTORY_DATA (SrvInventoryData_pack v) (v_memory env) s) (\<lambda>s.
    Option.bind (send_packet cb PAKWC_QUEST_DATA (SrvQuestData_pack v) (v_memory env) s) (\<lambda>s.
    send_packet cb PAKWC_BILLING_MESSAGE (SrvBillingMsg_pack ()) (v_memory env) s)))"

text \<open>What \<open>JoinServerReply\<close> does with a character that was loaded.\<close>

definition join_loaded :: "CMapClient callbacks \<Rightarrow> map_env \<Rightarrow> u32 \<Rightarrow> bool \<Rightarrow> avatar \<Rightarrow> CMapClient \<Rightarrow> CMapClient option" where
  "join_loaded cb env sessionID first v s =
    (if \<not> v_execute env then map_replied cb env 1 0 s
     else
       Option.bind (map_replied cb env 0 (ucast (b_id (basicInfo v)))
         (map_log [MapSetWorld sessionID (v_ip env) (v_clientPort env), MapAssignSocket (v_handle env)] s)) (\<lambda>s.
       if first then send_player_data cb env v s
       else send_packet cb PAKWC_TELEPORT_REPLY (SrvTeleportReply_pack v) (v_memory env) s))"

definition CMapClient_JoinServerReply :: "CMapClient callbacks \<Rightarrow> map_env \<Rightarrow> CliJoinServerReq \<Rightarrow> CMapClient
    \<Rightarrow> CMapClient option" where
  "CMapClient_JoinServerReply cb env P s =
    (if m_map_state s \<noteq> M_DEFAULT then Some s
     else
       let sessionID = CliJoinServerReq.m_sessionId P; password = escapeData (CliJoinServerReq.m_password P) in
       case v_session env sessionID password of
         None \<Rightarrow> map_replied cb env 1 0 s
       | Some None \<Rightarrow> map_replied cb env 3 0 s
       | Some (Some (userid, charid, first, platinium)) \<Rightarrow>
           let cid = word_of_int charid;
               s1 = map_log [MapSelectSession sessionID (word_of_int userid) cid]
                 (s\<lparr>m_map_state := M_LOGGEDIN, m_map_userid := word_of_int userid, m_map_charid := cid,
                   m_map_sessionId := sessionID\<rparr>)
           in case v_tables env cid of
                None \<Rightarrow> map_replied cb env 1 0 s1
              | Some t \<Rightarrow>
                  (case loadCharacter (v_db env) (v_scripts env) (v_dexMod env) (v_free_id env) cid platinium t of
                     None \<Rightarrow> None
                   | Some None \<Rightarrow> map_replied cb env 1 0
                       (map_log [MapLoadCharacter cid platinium None] (s1\<lparr>m_map_entity := None\<rparr>))
                   | Some (Some v) \<Rightarrow> join_loaded cb env sessionID first v
                       (map_log [MapLoadCharacter cid platinium (Some (v_handle env))]
                         (s1\<lparr>m_map_entity := Some (v_handle env)\<rparr>))))"

definition CMapClient_dispatch :: "CMapClient callbacks \<Rightarrow> map_env \<Rightarrow> byte list \<Rightarrow> CMapClient \<Rightarrow> (bool \<times> CMapClient) option" where
  "CMapClient_dispatch cb env buf s =
    (let base = (\<lambda>s. map_option (\<lambda>r. (True, snd r))
           (CRoseSocket_HandlePacket cb (v_now env) (v_garbage env) (v_memory env) buf s))
     in case fetchPacket (v_memory env) buf of
          Inl e \<Rightarrow> None
        | Inr None \<Rightarrow> base s
        | Inr (Some p) \<Rightarrow>
            let ok = v_dispatch env (m_map_entity s) p; s1 = map_log [MapDispatch (m_map_entity s) p ok] s
            in if ok then Some (True, s1) else base s1)"

definition CMapClient_HandlePacket :: "CMapClient callbacks \<Rightarrow> map_env \<Rightarrow> byte list \<Rightarrow> CMapClient
    \<Rightarrow> (bool \<times> CMapClient) option" where
  "CMapClient_HandlePacket cb env buf s =
    (let ty = packet_type buf in
     if ty = PAKCS_JOIN_SERVER_REQ then
       (case CliJoinServerReq_recv (v_memory env) buf of
          Inl e \<Rightarrow> None
        | Inr P \<Rightarrow> map_option (Pair True) (CMapClient_JoinServerReply cb env P s))
     else if ty = PAKCS_CHANGE_CHAR_REQ then Some (True, s)
     else if m_map_state s \<noteq> M_LOGGEDIN then
       (if ty = PAKCS_ALIVE \<or> ty = PAKCS_CHANGE_MAP_REQ then Some (True, s)
        else CRoseSocket_HandlePacket cb (v_now env) (v_garbage env) (v_memory env) buf s)
     else if ty = PAKCS_ALIVE then Option.bind (CMapClient_updateSession env s) (CMapClient_dispatch cb env buf)
     else CMapClient_dispatch cb env buf s)"

section \<open>The protocol between a client and the entity system\<close>

text \<open>
  What a client may ask for, in which order: an automaton over the calls, which remembers the entity. Out: nothing
  until a session matched. In: the character of the session is loaded, and only its entity receives packets.
  Then either the client leaves, and the entity is saved and destroyed, or it moves to another map server, and
  the entity is destroyed without being saved.
\<close>

datatype phase =
    Out "entity option"
  | In u32 "entity option"
  | Moving "entity option"
  | Leaving "entity option"

fun protocol :: "phase \<Rightarrow> map_call \<Rightarrow> phase option" where
  "protocol (Out e) (MapSelectSession sid uid cid) = Some (In cid e)"
| "protocol (Out e) MapSwitch = Some (Moving e)"
| "protocol (In cid e) (MapLoadCharacter c platinium r) = (if c = cid then Some (In cid r) else None)"
| "protocol (In cid e) (MapSetWorld sid ip port) = (if e = None then None else Some (In cid e))"
| "protocol (In cid e) (MapAssignSocket h) = (if e = Some h then Some (In cid e) else None)"
| "protocol (In cid e) (MapTouchSession i tick) = Some (In cid e)"
| "protocol (In cid e) (MapDispatch h p ok) = (if h = e then Some (In cid e) else None)"
| "protocol (In cid e) MapSwitch = Some (Moving e)"
| "protocol (In cid e) (MapDestroy h save) = (if h = e \<and> save then Some (Leaving e) else None)"
| "protocol (Moving e) MapSwitch = Some (Moving e)"
| "protocol (Moving e) (MapDestroy h save) = (if h = e \<and> \<not> save then Some (Out e) else None)"
| "protocol (Leaving e) (MapOffline i) = Some (Out e)"
| "protocol _ _ = None"

fun run_protocol :: "phase \<Rightarrow> map_call list \<Rightarrow> phase option" where
  "run_protocol ph [] = Some ph"
| "run_protocol ph (c # cs) = Option.bind (protocol ph c) (\<lambda>ph'. run_protocol ph' cs)"

lemma run_protocol_append:
  "run_protocol ph (xs @ ys) = Option.bind (run_protocol ph xs) (\<lambda>ph'. run_protocol ph' ys)"
  by (induction xs arbitrary: ph) (auto split: bind_splits)

definition map_phase :: "CMapClient \<Rightarrow> phase" where
  "map_phase s = (case m_map_state s of
     M_DEFAULT \<Rightarrow> Out (m_map_entity s)
   | M_LOGGEDIN \<Rightarrow> In (m_map_charid s) (m_map_entity s)
   | M_SWITCHING \<Rightarrow> Moving (m_map_entity s))"

definition map_inv :: "CMapClient \<Rightarrow> bool" where
  "map_inv s \<longleftrightarrow> run_protocol (Out None) (m_map_calls s) = Some (map_phase s)"

definition map_keeps :: "CMapClient \<Rightarrow> CMapClient \<Rightarrow> bool" where
  "map_keeps s t \<longleftrightarrow> m_map_charid t = m_map_charid s \<and> m_map_entity t = m_map_entity s
     \<and> (m_map_state t = m_map_state s \<and> m_map_calls t = m_map_calls s
       \<or> m_map_state t = M_DEFAULT
         \<and> (m_map_state s = M_SWITCHING \<and> m_map_calls t = m_map_calls s @ [MapDestroy (m_map_entity s) False]
           \<or> m_map_state s = M_LOGGEDIN
             \<and> (\<exists>i. m_map_calls t = m_map_calls s @ [MapDestroy (m_map_entity s) True, MapOffline i])))"

lemma map_keeps_trans: "map_keeps s t \<Longrightarrow> map_keeps t u \<Longrightarrow> map_keeps s u"
  by (auto simp: map_keeps_def)

interpretation mapc: owner "map_callbacks rt" map_keeps
proof
  have same: "map_keeps s t" if "CRoseSocket.CRoseSocket.more s = CRoseSocket.CRoseSocket.more t" for s t
    using that by (cases s, cases t) (auto simp: map_keeps_def)
  show "map_keeps s t" if "CRoseSocket.CRoseSocket.more s = CRoseSocket.CRoseSocket.more t" for s t
    by (rule same [OF that])
  show "map_keeps s (OnDisconnected (map_callbacks rt) s)" for s
    by (cases "m_map_state s")
       (simp_all add: map_keeps_def map_callbacks_def CMapClient_OnDisconnected_def map_log_def)
  show "map_keeps s s'" if "OnReceived (map_callbacks rt) s = Some (ok, s')" for s ok s'
    by (rule same) (use that receive_packet_more in \<open>auto simp: map_callbacks_def client_callbacks_def CRoseSocket_OnReceived_def\<close>)
qed (auto simp: map_keeps_def map_callbacks_def client_callbacks_def initCallbacks_def
    intro: map_keeps_trans [unfolded map_keeps_def])

lemma map_inv_keeps: "map_keeps s t \<Longrightarrow> map_inv s \<Longrightarrow> map_inv t"
  by (auto simp: map_keeps_def map_inv_def map_phase_def run_protocol_append split: map_state.splits)

lemmas map_sends = map_inv_keeps [OF mapc.keeps_send_packet]

lemma map_inv_log:
  assumes "map_inv s" and "run_protocol (map_phase s) qs = Some (map_phase t)" and "m_map_calls t = m_map_calls s"
  shows "map_inv (map_log qs t)"
proof -
  have "map_phase (map_log qs t) = map_phase t" by (cases "m_map_state t") (simp_all add: map_log_def map_phase_def)
  then show ?thesis using assms by (simp add: map_inv_def map_log_def run_protocol_append)
qed

lemma switch_server_inv: "map_inv s \<Longrightarrow> map_inv (switch_server s)"
  unfolding switch_server_def by (rule map_inv_log) (simp_all add: map_phase_def split: map_state.splits)

lemma map_replied_inv: "map_replied (map_callbacks rt) env r i s = Some s' \<Longrightarrow> map_inv s \<Longrightarrow> map_inv s'"
  unfolding map_replied_def by (rule map_sends)

lemma send_player_data_inv:
  "send_player_data (map_callbacks rt) env v s = Some s' \<Longrightarrow> map_inv s \<Longrightarrow> map_inv s'"
  unfolding send_player_data_def bind_eq_Some_conv by (blast intro: map_sends)

lemma join_loaded_inv:
  assumes "join_loaded (map_callbacks rt) env sid first v s = Some s'" and "map_inv s"
    and "m_map_state s = M_LOGGEDIN" and "m_map_entity s = Some (v_handle env)"
  shows "map_inv s'"
proof -
  have "map_inv (map_log [MapSetWorld sid ip port, MapAssignSocket (v_handle env)] s)" for ip port
    by (rule map_inv_log [OF assms(2)]) (simp_all add: map_phase_def assms(3,4))
  then show ?thesis
    using assms(1,2)
    by (auto simp: join_loaded_def bind_eq_Some_conv split: if_splits)
       (blast intro: map_replied_inv send_player_data_inv map_sends)+
qed

lemma map_join_inv:
  assumes "CMapClient_JoinServerReply (map_callbacks rt) env P s = Some s'" and "map_inv s"
  shows "map_inv s'"
proof (cases "m_map_state s = M_DEFAULT")
  case True
  have sel: "map_inv (map_log [MapSelectSession sid u c]
      (s\<lparr>m_map_state := M_LOGGEDIN, m_map_userid := u, m_map_charid := c, m_map_sessionId := sid\<rparr>))" for sid u c
    by (rule map_inv_log [OF assms(2)]) (simp_all add: map_phase_def True)
  have "map_inv (map_log [MapLoadCharacter c p r] (t\<lparr>m_map_entity := r\<rparr>))"
    if "map_inv t" "m_map_state t = M_LOGGEDIN" "m_map_charid t = c" for t c p r
    by (rule map_inv_log [OF that(1)]) (simp_all add: map_phase_def that)
  from this [OF sel] have load: "map_inv (map_log [MapLoadCharacter c p r] ((map_log [MapSelectSession sid u c]
      (s\<lparr>m_map_state := M_LOGGEDIN, m_map_userid := u, m_map_charid := c, m_map_sessionId := sid\<rparr>))\<lparr>m_map_entity := r\<rparr>))"
    for sid u c p r by (simp add: map_log_def)
  show ?thesis
    using assms True
    by (auto simp: CMapClient_JoinServerReply_def Let_def split: option.splits
        elim!: map_replied_inv join_loaded_inv intro!: sel load) (simp_all add: map_log_def)
next
  case False
  then show ?thesis using assms by (simp add: CMapClient_JoinServerReply_def)
qed

lemma map_base_inv:
  assumes "CRoseSocket_HandlePacket (map_callbacks rt) now garbage g buf s = Some (ok, s')" and "map_inv s"
  shows "map_inv s'"
  using assms map_sends by (auto simp: CRoseSocket_HandlePacket_def Let_def split: if_splits)

lemma map_dispatch_inv:
  assumes "CMapClient_dispatch (map_callbacks rt) env buf s = Some (ok, s')" and "map_inv s" and "m_map_state s = M_LOGGEDIN"
  shows "map_inv s'"
proof -
  have "map_inv (map_log [MapDispatch (m_map_entity s) p b] s)" for p b
    by (rule map_inv_log [OF assms(2)]) (simp_all add: map_phase_def assms(3))
  then show ?thesis
    using assms by (auto simp: CMapClient_dispatch_def Let_def split: sum.splits option.splits if_splits intro: map_base_inv)
qed

lemma map_update_inv:
  assumes "CMapClient_updateSession env s = Some s'" and "map_inv s" and "m_map_state s = M_LOGGEDIN"
  shows "map_inv s' \<and> m_map_state s' = M_LOGGEDIN"
proof -
  have "map_inv (map_log [MapTouchSession i tick] s)" for i tick
    by (rule map_inv_log [OF assms(2)]) (simp_all add: map_phase_def assms(3))
  then show ?thesis
    using assms by (auto simp: CMapClient_updateSession_def map_log_def split: if_splits)
qed

lemma CMapClient_HandlePacket_inv:
  assumes "CMapClient_HandlePacket (map_callbacks rt) env buf s = Some (ok, s')" and "map_inv s"
  shows "map_inv s'"
  using assms
  by (auto simp: CMapClient_HandlePacket_def Let_def bind_eq_Some_conv split: if_splits sum.splits
      intro: map_join_inv map_base_inv map_dispatch_inv dest: map_update_inv)

abbreviation map_reachable :: "u32 list list \<Rightarrow> CMapClient \<Rightarrow> bool" where
  "map_reachable rt \<equiv> client_life (\<lambda>env. map_callbacks rt) (CMapClient_HandlePacket (map_callbacks rt))
     (\<lambda>env. switch_server) CMapClient_new"

interpretation map_life: client_class "\<lambda>env. map_callbacks rt" "CMapClient_HandlePacket (map_callbacks rt)"
  "\<lambda>env. switch_server" CMapClient_new map_keeps map_inv
proof (rule client_class.intro)
  show "map_inv (CMapClient_new sock)" for sock
    by (simp add: map_inv_def map_phase_def CMapClient_new_def CRoseSocket.CRoseSocket.defs CMapClient.CMapClient.defs)
qed (auto intro: map_inv_keeps CMapClient_HandlePacket_inv switch_server_inv mapc.owner_axioms)

interpretation map_frames: client_codec "map_callbacks rt" rt
proof
  show "OnReceived (map_callbacks rt) = receive_packet (decodeClientHeader rt) (decodeClientBody rt)"
    by (simp add: map_callbacks_def client_callbacks_def CRoseSocket_OnReceived_def)
  show "OnReceive (map_callbacks rt) s = (True, s)" for s
    by (simp add: map_callbacks_def client_callbacks_def initCallbacks_def)
  show "\<not> m_active (snd (shutdown (map_callbacks rt) False t))" for t
    by (auto simp: shutdown_def disconnect_def map_callbacks_def client_callbacks_def initCallbacks_def Let_def)
qed

section \<open>Entering the map\<close>

lemma send_packet_queued:
  assumes "emits pack bs" and "length g = MAX_PACKET_SIZE" and "6 + length bs < MAX_PACKET_SIZE" and "m_discard_queue s \<noteq> []"
  shows "send_packet cb ty pack g s = Some (s\<lparr>m_send_queue := m_send_queue s @ [header_bytes (length bs) ty 0 @ bs]\<rparr>)"
proof -
  have "fst (getPacked pack (CRosePacket_new ty 0 g)) = header_bytes (length bs) ty 0 @ bs"
    using getPacked_pkt_of [OF assms(1,2), of "[]" ty 0] assms(2,3) by (simp add: CRosePacket_new_eq)
  then show ?thesis
    using assms(4) by (cases "m_send_queue s") (simp_all add: send_packet_def send_data_def ProcessSend_def)
qed

text \<open>The packets with the data of a player, as they are queued: all of the data fits into each packet.\<close>

definition packed :: "u16 \<Rightarrow> byte list \<Rightarrow> byte list" where
  "packed ty bs = header_bytes (length bs) ty 0 @ bs"

definition player_packets :: "avatar \<Rightarrow> byte list list" where
  "player_packets v = [packed PAKWC_SELECT_CHAR_REPLY (SrvSelectCharReply_wire v),
     packed PAKWC_INVENTORY_DATA (SrvInventoryData_wire v), packed PAKWC_QUEST_DATA (SrvQuestData_wire v),
     packed PAKWC_BILLING_MESSAGE (SrvBillingMsg_wire ())]"

lemma send_player_data_queued:
  assumes "avatar_ok v" and "length (b_name (basicInfo v)) < 1200" and "length (v_memory env) = MAX_PACKET_SIZE"
    and "m_discard_queue s \<noteq> []"
  shows "send_player_data cb env v s = Some (s\<lparr>m_send_queue := m_send_queue s @ player_packets v\<rparr>)"
  using assms(2-4) player_data_lengths [OF assms(1)]
  by (simp add: send_player_data_def player_packets_def packed_def MAX_PACKET_SIZE_def
      send_packet_queued [OF SrvSelectCharReply.emits_pack] send_packet_queued [OF SrvInventoryData.emits_pack]
      send_packet_queued [OF SrvQuestData.emits_pack] send_packet_queued [OF SrvBillingMsg.emits_pack])

lemma join_entered:
  assumes "idle s" and "m_map_state s = M_DEFAULT"
    and "v_session env (CliJoinServerReq.m_sessionId P) (escapeData (CliJoinServerReq.m_password P))
      = Some (Some (userid, charid, first, platinium))"
    and "v_tables env (word_of_int charid) = Some t"
    and "loadCharacter (v_db env) (v_scripts env) (v_dexMod env) (v_free_id env) (word_of_int charid) platinium t = Some (Some v)"
    and "v_execute env" and "length (v_memory env) = MAX_PACKET_SIZE" and "length (b_name (basicInfo v)) < 1200"
  shows "\<exists>s'. CMapClient_JoinServerReply (map_callbacks rt) env P s = Some s'
    \<and> map_phase s' = In (word_of_int charid) (Some (v_handle env))
    \<and> m_map_calls s' = m_map_calls s
      @ [MapSelectSession (CliJoinServerReq.m_sessionId P) (word_of_int userid) (word_of_int charid),
         MapLoadCharacter (word_of_int charid) platinium (Some (v_handle env)),
         MapSetWorld (CliJoinServerReq.m_sessionId P) (v_ip env) (v_clientPort env), MapAssignSocket (v_handle env)]
    \<and> m_written s' = m_written s @ [wire_image rt PAKSC_JOIN_SERVER_REPLY (SrvJoinServerReply_wire
        \<lparr>SrvJoinServerReply.m_result = 0, m_id = ucast (b_id (basicInfo v)), m_payFlag = 0\<rparr>)]
    \<and> m_send_queue s' = (if first then player_packets v else [packed PAKWC_TELEPORT_REPLY (SrvTeleportReply_wire v)])"
proof -
  let ?d = "\<lparr>SrvJoinServerReply.m_result = 0, m_id = ucast (b_id (basicInfo v)), m_payFlag = 0\<rparr>"
  let ?sid = "CliJoinServerReq.m_sessionId P"
  define s1 where "s1 = map_log [MapLoadCharacter (word_of_int charid) platinium (Some (v_handle env))]
    ((map_log [MapSelectSession ?sid (word_of_int userid) (word_of_int charid)]
      (s\<lparr>m_map_state := M_LOGGEDIN, m_map_userid := word_of_int userid, m_map_charid := word_of_int charid,
         m_map_sessionId := ?sid\<rparr>))\<lparr>m_map_entity := Some (v_handle env)\<rparr>)"
  define s2 where "s2 = map_log [MapSetWorld ?sid (v_ip env) (v_clientPort env), MapAssignSocket (v_handle env)] s1"
  let ?s3 = "writing (wire_image rt PAKSC_JOIN_SERVER_REPLY (SrvJoinServerReply_wire ?d)) s2"
  have ok: "avatar_ok v" by (rule loaded_ok [OF assms(5)])
  have i: "idle s2" using assms(1) by (simp add: s2_def s1_def map_log_def idle_def)
  have "map_replied (map_callbacks rt) env 0 (ucast (b_id (basicInfo v))) s2 = Some ?s3"
    unfolding map_replied_def
    by (rule send_packet_idle [OF SrvJoinServerReply.emits_pack assms(7) _ i])
       (simp_all add: SrvJoinServerReply_wire_def MAX_PACKET_SIZE_def map_callbacks_def client_callbacks_def)
  then have "CMapClient_JoinServerReply (map_callbacks rt) env P s
      = (if first then send_player_data (map_callbacks rt) env v ?s3
         else send_packet (map_callbacks rt) PAKWC_TELEPORT_REPLY (SrvTeleportReply_pack v) (v_memory env) ?s3)"
    using assms(2-6) by (simp add: CMapClient_JoinServerReply_def Let_def join_loaded_def s2_def s1_def)
  moreover have "send_packet (map_callbacks rt) PAKWC_TELEPORT_REPLY (SrvTeleportReply_pack v) (v_memory env) ?s3
      = Some (?s3\<lparr>m_send_queue := m_send_queue ?s3 @ [packed PAKWC_TELEPORT_REPLY (SrvTeleportReply_wire v)]\<rparr>)"
    unfolding packed_def
    by (rule send_packet_queued [OF SrvTeleportReply.emits_pack assms(7)])
       (simp_all add: player_data_lengths [OF ok] MAX_PACKET_SIZE_def writing_def)
  ultimately show ?thesis
    using send_player_data_queued [OF ok assms(8,7), of ?s3 "map_callbacks rt"]
    by (simp add: writing_def) (simp add: s2_def s1_def map_log_def map_phase_def)
qed

section \<open>A client that enters the map\<close>

definition sample_map_env :: map_env where
  "sample_map_env = \<lparr>v_now = 1000, v_memory = replicate 2047 0,
     v_garbage = \<lparr>m_year = 0, m_month = 0, m_day = 0, m_hour = 0, m_min = 0\<rparr>, v_tick = 0, v_last_update = 0,
     v_ip = [0x31], v_clientPort = 29200,
     v_session = (\<lambda>sid p. Some (if sid = 77 \<and> p = replicate 32 0x61 then Some (5, 40, True, False) else None)),
     v_tables = (\<lambda>_. Some sample_tables), v_db = (\<lambda>_. None), v_scripts = (\<lambda>_. None), v_dexMod = 0, v_free_id = 3,
     v_handle = 8, v_execute = True, v_dispatch = (\<lambda>_ _. True)\<rparr>"

definition sample_enter :: CliJoinServerReq where
  "sample_enter = \<lparr>CliJoinServerReq.m_sessionId = 77, m_password = replicate 32 0x61\<rparr>"

definition sample_map_client :: CMapClient where
  "sample_map_client = (CMapClient_new (CNetwork_Asio_new (replicate 2047 0) 0))\<lparr>m_reading := Some 6\<rparr>"

lemmas new_map_defs = CMapClient_new_def CRoseClient_new_def CRoseSocket_new_def set_active_def
  reset_internal_buffer_def CNetwork_Asio_new_def CNetwork_Asio.CNetwork_Asio.defs CRoseSocket.CRoseSocket.defs
  CMapClient.CMapClient.defs

lemma sample_map_client_facts: "idle sample_map_client" "waiting sample_map_client"
  "m_recv_queue sample_map_client = []" "m_map_state sample_map_client = M_DEFAULT" "m_map_calls sample_map_client = []"
  by (simp_all add: sample_map_client_def new_map_defs idle_def waiting_def MAX_PACKET_SIZE_def)

lemma sample_map_client_reachable: "map_reachable rt sample_map_client"
proof (rule client_life.connected [where e = sample_map_env])
  show "start_client (map_callbacks rt) 0 0 (CMapClient_new (CNetwork_Asio_new (replicate 2047 0) 0)) = Some sample_map_client"
    unfolding start_client_def
    by (subst map_frames.recv_data_start [where a = 0 and n = 6])
       (simp_all add: sample_map_client_def new_map_defs set_update_time_def set_id_def MAX_PACKET_SIZE_def)
qed

lemma sample_password: "escapeData (replicate 32 0x61) = replicate 32 0x61"
  by code_simp

lemma sample_entered: "\<exists>s. map_reachable rt s \<and> length (m_map_calls s) = 4 \<and> map_phase s = In 40 (Some 8)"
proof (rule map_frames.exchange [where e = sample_map_env and s = sample_map_client
      and bs = "CliJoinServerReq_wire sample_enter" and ty = PAKCS_JOIN_SERVER_REQ])
  show "map_reachable rt sample_map_client" by (rule sample_map_client_reachable)
next
  fix t crc
  assume t: "only_received sample_map_client t" "waiting t" "m_recv_queue t = []"
  let ?buf = "header_bytes (length (CliJoinServerReq_wire sample_enter)) PAKCS_JOIN_SERVER_REQ crc @ CliJoinServerReq_wire sample_enter"
  have tf: "idle t" "m_map_state t = M_DEFAULT" "m_map_calls t = []"
    using sample_map_client_facts
    by (subst t(1) [unfolded only_received_def], simp add: idle_def sample_map_client_def new_map_defs)+
  have recv: "CliJoinServerReq_recv (v_memory sample_map_env) ?buf = Inr sample_enter"
    using CliJoinServerReq.recv_wire [of sample_enter "v_memory sample_map_env"]
    by (simp add: CliJoinServerReq_recv_def sample_map_env_def MAX_PACKET_SIZE_def sample_enter_def CliJoinServerReq_ok_def
        CliJoinServerReq_wire_def)
  obtain v where v: "loadCharacter (\<lambda>_. None) (\<lambda>_. None) 0 3 40 False sample_tables = Some (Some v)"
      "b_name (basicInfo v) = row_name sample_row"
    using sample_loads by blast
  have q: "v_session sample_map_env (CliJoinServerReq.m_sessionId sample_enter) (escapeData (CliJoinServerReq.m_password sample_enter))
      = Some (Some (5, 40, True, False))"
    by (simp add: sample_map_env_def sample_enter_def sample_password)
  have n: "length (row_name sample_row) < 1200" by (simp add: sample_row_def)
  from join_entered [OF tf(1,2) q, of sample_tables v rt] v n tf(3)
  obtain s' where "CMapClient_JoinServerReply (map_callbacks rt) sample_map_env sample_enter t = Some s'"
      "map_phase s' = In 40 (Some 8)" "length (m_map_calls s') = 4"
    by (auto simp: sample_map_env_def MAX_PACKET_SIZE_def)
  then show "\<exists>t'. CMapClient_HandlePacket (map_callbacks rt) sample_map_env ?buf t = Some (True, t')
      \<and> length (m_map_calls t') = 4 \<and> map_phase t' = In 40 (Some 8)"
    using recv by (simp add: CMapClient_HandlePacket_def)
qed (use sample_map_client_facts in \<open>simp_all add: sample_enter_def CliJoinServerReq_wire_def MAX_PACKET_SIZE_def
    PAKCS_JOIN_SERVER_REQ_def\<close>)

section \<open>Properties\<close>

text \<open>C14. The calls of a client to the database and the entity system follow the protocol, whatever the client sends and
  whenever it is disconnected: nothing reaches the entity system before a session matched the password; from then
  on packets go only to the entity of the character the session names; when the client leaves, that entity is
  saved and destroyed, and when it moves to another server the entity is destroyed without being saved again.\<close>

theorem map_calls_follow_protocol:
  assumes "map_reachable rt s"
  shows "run_protocol (Out None) (m_map_calls s) = Some (map_phase s)"
  using map_life.life_inv [OF assms] by (simp add: map_inv_def)

theorem map_calls_follow_protocol_witness:
  "\<exists>s. map_reachable sample_keys s \<and> length (m_map_calls s) = 5
    \<and> run_protocol (Out None) (m_map_calls s) = Some (Moving (Some 8))"
proof -
  obtain s where s: "map_reachable sample_keys s" "length (m_map_calls s) = 4" "map_phase s = In 40 (Some 8)"
    using sample_entered [of sample_keys] by blast
  then have "map_reachable sample_keys (switch_server s)" by (intro client_life.called)
  moreover have "map_phase (switch_server s) = Moving (Some 8)" "length (m_map_calls (switch_server s)) = 5"
    using s(2,3) by (auto simp: switch_server_def map_log_def map_phase_def split: map_state.splits)
  ultimately show ?thesis using map_calls_follow_protocol by (metis (no_types))
qed

text \<open>C33. Entering the map. A client whose session and password match gets its character: the reply with the identifier
  of the entity is written, and all the data of the character is queued behind it, complete, or, if the client
  comes from another map server, the teleport reply.\<close>

theorem join_sends_player_data:
  assumes "idle s" and "m_map_state s = M_DEFAULT"
    and "v_session env (CliJoinServerReq.m_sessionId P) (escapeData (CliJoinServerReq.m_password P))
      = Some (Some (userid, charid, first, platinium))"
    and "v_tables env (word_of_int charid) = Some t"
    and "loadCharacter (v_db env) (v_scripts env) (v_dexMod env) (v_free_id env) (word_of_int charid) platinium t = Some (Some v)"
    and "v_execute env" and "length (v_memory env) = MAX_PACKET_SIZE" and "length (b_name (basicInfo v)) < 1200"
  shows "\<exists>s'. CMapClient_JoinServerReply (map_callbacks rt) env P s = Some s'
    \<and> map_phase s' = In (word_of_int charid) (Some (v_handle env))
    \<and> m_map_calls s' = m_map_calls s
      @ [MapSelectSession (CliJoinServerReq.m_sessionId P) (word_of_int userid) (word_of_int charid),
         MapLoadCharacter (word_of_int charid) platinium (Some (v_handle env)),
         MapSetWorld (CliJoinServerReq.m_sessionId P) (v_ip env) (v_clientPort env), MapAssignSocket (v_handle env)]
    \<and> m_written s' = m_written s @ [wire_image rt PAKSC_JOIN_SERVER_REPLY (SrvJoinServerReply_wire
        \<lparr>SrvJoinServerReply.m_result = 0, m_id = ucast (b_id (basicInfo v)), m_payFlag = 0\<rparr>)]
    \<and> m_send_queue s' = (if first then player_packets v else [packed PAKWC_TELEPORT_REPLY (SrvTeleportReply_wire v)])"
  by (rule join_entered [OF assms])

theorem join_sends_player_data_witness:
  "\<exists>s' v. CMapClient_JoinServerReply (map_callbacks sample_keys) sample_map_env sample_enter sample_map_client = Some s'
    \<and> map_phase s' = In 40 (Some 8) \<and> m_send_queue s' = player_packets v \<and> b_name (basicInfo v) = row_name sample_row"
proof -
  obtain v where v: "loadCharacter (\<lambda>_. None) (\<lambda>_. None) 0 3 40 False sample_tables = Some (Some v)"
      "b_name (basicInfo v) = row_name sample_row"
    using sample_loads by blast
  have "v_session sample_map_env (CliJoinServerReq.m_sessionId sample_enter) (escapeData (CliJoinServerReq.m_password sample_enter))
      = Some (Some (5, 40, True, False))"
    by (simp add: sample_map_env_def sample_enter_def sample_password)
  note join = join_sends_player_data [OF sample_map_client_facts(1,4) this, of sample_tables v sample_keys]
  have "length (row_name sample_row) < 1200" by (simp add: sample_row_def)
  with join v show ?thesis by (simp add: sample_map_env_def MAX_PACKET_SIZE_def) blast
qed

end
