(* ===== verification/PartySystem.thy ===== *)
theory PartySystem
  imports SystemManager Components Packets_Server
begin

text \<open>
  Parties: \<open>rosecommon/include/partybase.h\<close>, \<open>components/party.h\<close> and \<open>map/src/systems/partysystem.cpp\<close>, with the
  packets they send. A party is an object shared by its members through a \<open>shared_ptr\<close>; here the objects are
  a list and a pointer is an index. Of the entity library the code uses that an entity has at most one
  component of a type, that \<open>assign\<close> sets it, and that \<open>remove\<close> calls the registered function with it and
  takes it away; the components are a function of the entity. \<open>None\<close> is an access outside a vector or
  through a null pointer.
\<close>

section \<open>Parties\<close>

record PartyBase =
  pb_xp :: u32
  pb_range :: int
  pb_level :: u8
  pb_leader :: entity
  pb_members :: "entity list"
  pb_options :: u8
  pb_lastItem :: int
  pb_lastEtc :: int
  pb_lastZuly :: int
  pb_capacity :: u8

definition PartyBase_new :: "entity \<Rightarrow> PartyBase" where
  "PartyBase_new leader = \<lparr>pb_xp = 0, pb_range = 7, pb_level = 1, pb_leader = leader, pb_members = [leader], pb_options = 0,
     pb_lastItem = -1, pb_lastEtc = -1, pb_lastZuly = -1, pb_capacity = 5\<rparr>"

definition addMember :: "entity option \<Rightarrow> PartyBase \<Rightarrow> bool \<times> PartyBase" where
  "addMember member b =
    (case member of
       None \<Rightarrow> (False, b)
     | Some m \<Rightarrow> if m \<in> set (pb_members b) then (False, b)
         else (True, b\<lparr>pb_members := pb_members b @ [m]\<rparr>))"

text \<open>\<open>removeMember\<close> reads the first member after it took one away.\<close>

definition removeMember :: "entity \<Rightarrow> PartyBase \<Rightarrow> (bool \<times> PartyBase) option" where
  "removeMember m b =
    (if m \<notin> set (pb_members b) then Some (False, b)
     else
       let ms = remove1 m (pb_members b); b1 = b\<lparr>pb_members := ms\<rparr> in
       if pb_leader b = m then (case ms of [] \<Rightarrow> None | l # _ \<Rightarrow> Some (True, b1\<lparr>pb_leader := l\<rparr>))
       else Some (True, b1))"

definition isMember :: "entity \<Rightarrow> PartyBase \<Rightarrow> bool" where
  "isMember m b \<longleftrightarrow> m \<in> set (pb_members b)"

definition PartyBase_changeLeader :: "entity \<Rightarrow> PartyBase \<Rightarrow> bool \<times> PartyBase" where
  "PartyBase_changeLeader l b = (if \<not> isMember l b \<or> l = pb_leader b then (False, b) else (True, b\<lparr>pb_leader := l\<rparr>))"

record Party =
  isRequested :: bool
  isKicked :: bool
  party :: "nat option"

definition Party_new :: "nat option \<Rightarrow> Party" where
  "Party_new p = \<lparr>isRequested = False, isKicked = False, party = p\<rparr>"

section \<open>Packets\<close>

text \<open>A packet about members keeps the entities; \<open>pack\<close> reads their components.\<close>

datatype party_packet =
    PARTY_REQ u8 entity
  | PARTY_REPLY SrvPartyReply
  | PARTY_MEMBER u8 bool "entity list"

record party_world =
  w_character :: "entity \<Rightarrow> character"
  w_client :: "entity \<Rightarrow> bool"
  w_idToEntity :: "u32 \<Rightarrow> entity option"
  w_party :: "entity \<Rightarrow> Party option"
  w_parties :: "PartyBase list"
  w_sent :: "(entity \<times> party_packet) list"

definition put_member :: "character \<Rightarrow> CRosePacket \<Rightarrow> CRosePacket" where
  "put_member c = chain [put_u32 (b_tag (basicInfo c)), put_u16 (b_id (basicInfo c)), put_u32 (s_maxHp (stats c)),
     put_u32 (a_hp (advancedInfo c)), put_u32 (c_statusFlag (characterInfo c)), put_u16 (s_con (stats c)), put_u16 0, put_u16 0,
     put_u16 (c_stamina (characterInfo c)), put_string (b_name (basicInfo c))]"

fun party_packet_pack :: "(entity \<Rightarrow> character) \<Rightarrow> party_packet \<Rightarrow> (CRosePacket \<Rightarrow> CRosePacket) option" where
  "party_packet_pack c (PARTY_REQ request e) =
    Some (chain [put_u8 request, put_u32 (b_tag (basicInfo (c e))), put_string (b_name (basicInfo (c e)))])"
| "party_packet_pack c (PARTY_REPLY d) = Some (SrvPartyReply_pack d)"
| "party_packet_pack c (PARTY_MEMBER rules isDelete es) =
    (if isDelete then
       if length es < 2 then None
       else Some (chain [put_u8 rules, put_u8 (- 1), put_u32 (b_tag (basicInfo (c (es ! 0)))),
         put_u32 (b_tag (basicInfo (c (es ! 1))))])
     else Some (chain [put_u8 rules, put_u8 (of_nat (length es)), put_list (\<lambda>e. put_member (c e)) es]))"

definition party_send :: "entity \<Rightarrow> party_packet \<Rightarrow> party_world \<Rightarrow> party_world option" where
  "party_send e p w =
    (if \<not> w_client w e then Some w
     else case party_packet_pack (w_character w) p of
       None \<Rightarrow> None
     | Some pack \<Rightarrow> Some (w\<lparr>w_sent := w_sent w @ [(e, p)]\<rparr>))"

definition party_reply :: "u8 \<Rightarrow> entity \<Rightarrow> party_world \<Rightarrow> party_packet" where
  "party_reply reply e w = PARTY_REPLY \<lparr>SrvPartyReply.m_reply = reply, m_id = b_tag (basicInfo (w_character w e))\<rparr>"

fun send_members :: "party_packet \<Rightarrow> entity list \<Rightarrow> party_world \<Rightarrow> party_world option" where
  "send_members p [] w = Some w"
| "send_members p (m # ms) w = (case party_send m p w of None \<Rightarrow> None | Some w1 \<Rightarrow> send_members p ms w1)"

section \<open>The system\<close>

definition set_party :: "nat \<Rightarrow> PartyBase \<Rightarrow> party_world \<Rightarrow> party_world" where
  "set_party k b w = w\<lparr>w_parties := (w_parties w)[k := b]\<rparr>"

definition set_component :: "entity \<Rightarrow> Party option \<Rightarrow> party_world \<Rightarrow> party_world" where
  "set_component e c w = w\<lparr>w_party := (w_party w)(e := c)\<rparr>"

text \<open>\<open>entity.remove<Party>()\<close> with the function the constructor registers: the last member of a party that is left
  alone loses its component in the same way. Every step takes a member out of a party.\<close>

definition member_count :: "party_world \<Rightarrow> nat" where
  "member_count w = (\<Sum>b \<leftarrow> w_parties w. length (pb_members b))"

lemma removeMember_True:
  assumes "removeMember m b = Some (True, b')"
  shows "m \<in> set (pb_members b) \<and> pb_members b' = remove1 m (pb_members b) \<and> pb_options b' = pb_options b
    \<and> pb_leader b' = (if pb_leader b = m then hd (pb_members b') else pb_leader b) \<and> (pb_leader b = m \<longrightarrow> pb_members b' \<noteq> [])"
  using assms by (auto simp: removeMember_def Let_def split: if_splits list.splits)

lemma member_count_removed:
  assumes "removeMember m b = Some (True, b')" and "k < length (w_parties w)" and "w_parties w ! k = b"
  shows "member_count (set_party k b' w) < member_count w"
proof -
  let ?ls = "map (\<lambda>b. length (pb_members b)) (w_parties w)"
  have "length (pb_members b') < length (pb_members b)"
    using removeMember_True [OF assms(1)] by (auto simp: length_remove1 intro!: diff_less length_pos_if_in_set)
  moreover have "length (pb_members b) \<le> sum_list ?ls" using elem_le_sum_list [of k ?ls] assms(2,3) by simp
  moreover have "member_count (set_party k b' w) = sum_list ?ls + length (pb_members b') - length (pb_members b)"
    using sum_list_update [of k ?ls "length (pb_members b')"] assms(2,3)
    by (simp add: member_count_def set_party_def map_update)
  ultimately show ?thesis by (simp add: member_count_def)
qed

lemma party_send_parties: "party_send e p w = Some w' \<Longrightarrow> \<exists>q. w' = w\<lparr>w_sent := w_sent w @ q\<rparr>"
  by (auto simp: party_send_def split: if_splits option.splits intro: exI [of _ "[]"])

function remove_party :: "entity \<Rightarrow> party_world \<Rightarrow> party_world option" where
  "remove_party e w =
    (case w_party w e of
       None \<Rightarrow> None
     | Some c \<Rightarrow>
         (case party c of
            None \<Rightarrow> Some (set_component e None w)
          | Some k \<Rightarrow>
              if length (w_parties w) \<le> k then None
              else case removeMember e (w_parties w ! k) of
                None \<Rightarrow> None
              | Some (removed, b) \<Rightarrow>
                  if \<not> removed then Some (set_component e None w)
                  else case party_send e (party_reply 5 (if isKicked c then pb_leader b else e) w) (set_party k b w) of
                    None \<Rightarrow> None
                  | Some w1 \<Rightarrow>
                      (case if length (pb_members b) = 1 then remove_party (hd (pb_members b)) w1 else Some w1 of
                         None \<Rightarrow> None
                       | Some w2 \<Rightarrow>
                           map_option (set_component e None)
                             (send_members (PARTY_MEMBER (pb_options (w_parties w2 ! k)) True [e])
                               (pb_members (w_parties w2 ! k)) w2))))"
  by pat_completeness auto
termination
proof (relation "measure (\<lambda>(e, w). member_count w)")
  fix e :: entity and w c k x removed b w1
  assume a: "\<not> length (w_parties w) \<le> k" "removeMember e (w_parties w ! k) = Some x" "(removed, b) = x" "\<not> \<not> removed"
    "party_send e (party_reply 5 (if isKicked c then pb_leader b else e) w) (set_party k b w) = Some w1"
  have "member_count w1 = member_count (set_party k b w)"
    using party_send_parties [OF a(5)] by (auto simp: member_count_def)
  moreover have "removeMember e (w_parties w ! k) = Some (True, b)" using a(2-4) by auto
  ultimately show "((hd (pb_members b), w1), (e, w)) \<in> measure (\<lambda>(e, w). member_count w)"
    using member_count_removed [of e "w_parties w ! k" b k w] a(1) by simp
qed simp

declare remove_party.simps [simp del]

definition PartySystem_update :: "entity list \<Rightarrow> party_world \<Rightarrow> party_world option" where
  "PartySystem_update es w = run_all (\<lambda>e w.
     case w_party w e of
       None \<Rightarrow> Some w
     | Some c \<Rightarrow> if party c = None \<and> \<not> isRequested c then remove_party e w else Some w) es w"

definition addPartyMember :: "entity \<Rightarrow> entity \<Rightarrow> party_world \<Rightarrow> party_world option" where
  "addPartyMember leader newMember w =
    (case w_party w leader of
       None \<Rightarrow> Some w
     | Some c \<Rightarrow>
         if w_party w newMember \<noteq> None then Some w
         else
           let (k, w1) = (case party c of
                 Some k \<Rightarrow> (k, w)
               | None \<Rightarrow> (length (w_parties w), set_component leader (Some (c\<lparr>party := Some (length (w_parties w))\<rparr>))
                   (w\<lparr>w_parties := w_parties w @ [PartyBase_new leader]\<rparr>)));
               w2 = set_component newMember (Some (Party_new (Some k))) w1
           in if length (w_parties w2) \<le> k then None
              else
                let b = w_parties w2 ! k in
                case send_members (PARTY_MEMBER (pb_options b) False [newMember]) (pb_members b) w2 of
                  None \<Rightarrow> None
                | Some w3 \<Rightarrow>
                    (case party_send newMember (PARTY_MEMBER (pb_options b) False (pb_members b)) w3 of
                       None \<Rightarrow> None
                     | Some w4 \<Rightarrow> Some (set_party k (snd (addMember (Some newMember) b)) w4)))"

definition PartySystem_changeLeader :: "entity \<Rightarrow> entity \<Rightarrow> party_world \<Rightarrow> party_world option" where
  "PartySystem_changeLeader leader newLeader w =
    (case w_party w leader of
       None \<Rightarrow> Some w
     | Some c \<Rightarrow>
         (case party c of
            None \<Rightarrow> Some w
          | Some k \<Rightarrow>
              if length (w_parties w) \<le> k then None
              else
                let (ok, b) = PartyBase_changeLeader newLeader (w_parties w ! k) in
                if \<not> ok then Some w
                else send_members (party_reply 8 newLeader w) (pb_members b) (set_party k b w)))"

text \<open>\<open>client\<close> is the connection of \<open>entity\<close> when the packet is handled; \<open>getEntity\<close> yields an invalid entity for an
  identifier it does not know.\<close>

definition in_party :: "entity \<Rightarrow> party_world \<Rightarrow> nat option" where
  "in_party e w = (case w_party w e of None \<Rightarrow> None | Some c \<Rightarrow> party c)"

definition processPartyReq :: "entity \<Rightarrow> CliPartyReq \<Rightarrow> party_world \<Rightarrow> party_world option" where
  "processPartyReq e P w =
    (case w_idToEntity w (CliPartyReq.m_idXorTag P) of
       None \<Rightarrow> party_send e (PARTY_REPLY \<lparr>SrvPartyReply.m_reply = 0, m_id = CliPartyReq.m_idXorTag P\<rparr>) w
     | Some other \<Rightarrow>
         if \<not> w_client w other then
           party_send e (PARTY_REPLY \<lparr>SrvPartyReply.m_reply = 0, m_id = CliPartyReq.m_idXorTag P\<rparr>) w
         else if CliPartyReq.m_request P = 0 then
           (if in_party e w \<noteq> None then Some w
            else party_send other (PARTY_REQ (CliPartyReq.m_request P) e)
              (set_component e (Some ((Party_new None)\<lparr>isRequested := True\<rparr>)) w))
         else if CliPartyReq.m_request P = 1 then
           (case w_party w e of
              None \<Rightarrow> Some w
            | Some c \<Rightarrow> if party c = None then Some w
                else party_send other (PARTY_REQ (CliPartyReq.m_request P) e) (set_component e (Some (c\<lparr>isRequested := True\<rparr>)) w))
         else if CliPartyReq.m_request P = 2 then
           (if w_party w e = None then Some w else remove_party e w)
         else if CliPartyReq.m_request P = 3 then
           (case in_party e w of
              None \<Rightarrow> Some w
            | Some k \<Rightarrow> if length (w_parties w) \<le> k then None
                else if pb_leader (w_parties w ! k) \<noteq> e then Some w
                else PartySystem_changeLeader e other w)
         else if CliPartyReq.m_request P = 0x81 then
           (case in_party e w of
              None \<Rightarrow> Some w
            | Some k \<Rightarrow> if length (w_parties w) \<le> k then None
                else if \<not> isMember other (w_parties w ! k) then Some w
                else case w_party w other of
                  None \<Rightarrow> None
                | Some c \<Rightarrow> remove_party other (set_component other (Some (c\<lparr>isKicked := True\<rparr>)) w))
         else Some w)"

definition processPartyReply :: "entity \<Rightarrow> CliPartyReply \<Rightarrow> party_world \<Rightarrow> party_world option" where
  "processPartyReply e P w =
    (case w_idToEntity w (CliPartyReply.m_idXorTag P) of
       None \<Rightarrow> Some w
     | Some other \<Rightarrow>
         if \<not> w_client w other then Some w
         else case w_party w other of
           None \<Rightarrow> Some w
         | Some c \<Rightarrow>
             if \<not> isRequested c then Some w
             else
               let reply = CliPartyReply.m_reply P; w1 = set_component other (Some (c\<lparr>isRequested := False\<rparr>)) w in
               if reply = 1 \<or> reply = 4 then
                 (case (if party c = None then remove_party other w1 else Some w1) of
                    None \<Rightarrow> None
                  | Some w2 \<Rightarrow> party_send other (party_reply reply e w2) w2)
               else if reply = 2 \<or> reply = 3 then
                 (case party_send other (party_reply reply e w1) w1 of
                    None \<Rightarrow> None
                  | Some w2 \<Rightarrow> addPartyMember other e w2)
               else Some w)"

section \<open>Membership\<close>

definition sound_party :: "PartyBase \<Rightarrow> bool" where
  "sound_party b \<longleftrightarrow> distinct (pb_members b) \<and> pb_leader b \<in> set (pb_members b) \<and> 2 \<le> length (pb_members b)"

text \<open>A component points to a party exactly if the entity is one of its members.\<close>

definition party_inv :: "party_world \<Rightarrow> bool" where
  "party_inv w \<longleftrightarrow> (\<forall>e k. in_party e w = Some k \<longleftrightarrow> k < length (w_parties w) \<and> e \<in> set (pb_members (w_parties w ! k)))
     \<and> (\<forall>b \<in> set (w_parties w). sound_party b)"

lemma party_invD:
  assumes "party_inv w" and "in_party e w = Some k"
  shows "k < length (w_parties w)" and "e \<in> set (pb_members (w_parties w ! k))" and "sound_party (w_parties w ! k)"
  using assms by (auto simp: party_inv_def)

lemma party_inv_same:
  "party_inv w \<Longrightarrow> w_parties w' = w_parties w \<Longrightarrow> (\<And>e. in_party e w' = in_party e w) \<Longrightarrow> party_inv w'"
  by (simp add: party_inv_def)

lemma party_inv_set_party:
  assumes "party_inv w" and "k < length (w_parties w)" and "sound_party b"
    and "\<And>e. in_party e w' = (if e \<in> set (pb_members b) then Some k else if in_party e w = Some k then None else in_party e w)"
    and "w_parties w' = (w_parties w)[k := b]"
    and "\<And>e. e \<in> set (pb_members b) \<Longrightarrow> in_party e w = None \<or> in_party e w = Some k"
  shows "party_inv w'"
proof -
  have "in_party e w' = Some j \<longleftrightarrow> j < length (w_parties w') \<and> e \<in> set (pb_members (w_parties w' ! j))" for e j
  proof (cases "j = k")
    case True
    then show ?thesis using assms(2,4,5) by auto
  next
    case False
    have "in_party e w = Some j \<longleftrightarrow> j < length (w_parties w) \<and> e \<in> set (pb_members (w_parties w ! j))"
      using assms(1) by (simp add: party_inv_def)
    then show ?thesis using False assms(4,5) assms(6) [of e] by auto
  qed
  moreover have "\<forall>b \<in> set (w_parties w'). sound_party b"
    using assms(1,3,5) set_update_subset_insert [of "w_parties w" k b] by (auto simp: party_inv_def)
  ultimately show ?thesis by (simp add: party_inv_def)
qed

lemma in_party_simps [simp]:
  "in_party e (w\<lparr>w_sent := q\<rparr>) = in_party e w" "in_party e (set_party k b w) = in_party e w"
  "in_party e (w\<lparr>w_parties := ps\<rparr>) = in_party e w"
  by (simp_all add: in_party_def set_party_def)

lemma in_party_component [simp]:
  "in_party e (set_component x c w) = (if e = x then case c of None \<Rightarrow> None | Some c \<Rightarrow> party c else in_party e w)"
  by (simp add: in_party_def set_component_def)

lemma component_simps [simp]: "w_parties (set_component x c w) = w_parties w"
  "w_parties (set_party k b w) = (w_parties w)[k := b]" "w_client (set_component x c w) = w_client w"
  "w_client (set_party k b w) = w_client w" "w_sent (set_component x c w) = w_sent w"
  "w_sent (set_party k b w) = w_sent w" "w_party (set_party k b w) = w_party w"
  "w_character (set_component x c w) = w_character w" "w_character (set_party k b w) = w_character w"
  by (simp_all add: set_component_def set_party_def)

lemma send_members_sent: "send_members p ms w = Some w' \<Longrightarrow> \<exists>q. w' = w\<lparr>w_sent := w_sent w @ q\<rparr>"
proof (induction ms arbitrary: w)
  case (Cons m ms)
  then obtain w1 where 1: "party_send m p w = Some w1" "send_members p ms w1 = Some w'" by (auto split: option.splits)
  then show ?case using party_send_parties [OF 1(1)] Cons.IH [OF 1(2)] by auto
qed (auto intro: exI [of _ "[]"])

lemma send_members_all:
  assumes "party_packet_pack (w_character w) p \<noteq> None"
  shows "send_members p ms w = Some (w\<lparr>w_sent := w_sent w @ map (\<lambda>m. (m, p)) (filter (w_client w) ms)\<rparr>)"
  using assms
proof (induction ms arbitrary: w)
  case (Cons m ms)
  show ?case
  proof (cases "w_client w m")
    case True
    then have "party_send m p w = Some (w\<lparr>w_sent := w_sent w @ [(m, p)]\<rparr>)" using Cons.prems by (auto simp: party_send_def)
    then show ?thesis using Cons.IH [of "w\<lparr>w_sent := w_sent w @ [(m, p)]\<rparr>"] Cons.prems True by simp
  next
    case False
    then show ?thesis using Cons.IH [of w] Cons.prems by (simp add: party_send_def)
  qed
qed simp

lemma send_members_fails:
  assumes "party_packet_pack (w_character w) p = None"
  shows "send_members p ms w = (if \<exists>m \<in> set ms. w_client w m then None else Some w)"
  using assms by (induction ms) (auto simp: party_send_def)

lemma removeMember_sound:
  assumes "sound_party b" and "e \<in> set (pb_members b)"
  shows "\<exists>b'. removeMember e b = Some (True, b') \<and> pb_members b' = remove1 e (pb_members b) \<and> pb_options b' = pb_options b
    \<and> distinct (pb_members b') \<and> pb_leader b' \<in> set (pb_members b') \<and> Suc (length (pb_members b')) = length (pb_members b)"
proof -
  have len: "Suc (length (remove1 e (pb_members b))) = length (pb_members b)"
    using assms by (auto simp: length_remove1 sound_party_def)
  then have ne: "remove1 e (pb_members b) \<noteq> []" using assms(1) by (auto simp: sound_party_def)
  then have "\<exists>b'. removeMember e b = Some (True, b')"
    using assms(2) by (cases "remove1 e (pb_members b)") (auto simp: removeMember_def Let_def)
  then obtain b' where b': "removeMember e b = Some (True, b')" by blast
  note R = removeMember_True [OF b']
  have "pb_leader b' \<in> set (pb_members b')"
  proof (cases "pb_leader b = e")
    case True
    then have "pb_leader b' = hd (pb_members b')" "pb_members b' \<noteq> []" using R by auto
    then show ?thesis using hd_in_set by metis
  next
    case False
    then show ?thesis using R assms(1) by (simp add: sound_party_def in_set_remove1)
  qed
  then show ?thesis using b' R len assms(1) by (auto simp: sound_party_def)
qed

lemma remove_last_member:
  assumes "in_party e w = Some k" and "k < length (w_parties w)" and "pb_members (w_parties w ! k) = [e]"
    and "pb_leader (w_parties w ! k) = e"
  shows "remove_party e w = None"
  using assms by (subst remove_party.simps) (auto simp: in_party_def removeMember_def split: option.splits)

text \<open>Leaving a party goes well only if at least two members are left and none of them has a client. Otherwise a
  vector is read outside its bounds: the members of the empty party, or the list in the packet.\<close>

lemma remove_party_member:
  assumes "party_inv w" and "in_party e w = Some k" and "removeMember e (w_parties w ! k) = Some (True, b)"
  shows "remove_party e w =
    (if length (pb_members b) = 1 \<or> (\<exists>m \<in> set (pb_members b). w_client w m) then None
     else Some (set_component e None (set_party k b w)\<lparr>w_sent := w_sent w @ (if w_client w e
       then [(e, party_reply 5 (if isKicked (the (w_party w e)) then pb_leader b else e) w)] else [])\<rparr>))"
proof -
  note D = party_invD [OF assms(1,2)]
  obtain c where c: "w_party w e = Some c" "party c = Some k" using assms(2) by (auto simp: in_party_def split: option.splits)
  let ?p = "party_reply 5 (if isKicked c then pb_leader b else e) w"
  let ?w1 = "(set_party k b w)\<lparr>w_sent := w_sent w @ (if w_client w e then [(e, ?p)] else [])\<rparr>"
  have R: "pb_members b = remove1 e (pb_members (w_parties w ! k))" "pb_leader b \<in> set (pb_members b)"
    using removeMember_sound [OF D(3,2)] assms(3) by auto
  have sent: "party_send e ?p (set_party k b w) = Some ?w1"
    by (simp add: party_send_def party_reply_def set_party_def)
  have last: "remove_party (hd (pb_members b)) ?w1 = None" if one: "length (pb_members b) = 1"
  proof -
    obtain m where m: "pb_members b = [m]" using one by (cases "pb_members b") auto
    then have "m \<in> set (pb_members (w_parties w ! k))" using R(1) by (metis in_set_remove1 list.set_intros(1) notin_set_remove1)
    then have "in_party m w = Some k" using assms(1) D(1) by (simp add: party_inv_def)
    then show ?thesis using remove_last_member [of m ?w1 k] m R(2) D(1) by simp
  qed
  have w1: "w_parties ?w1 ! k = b" "w_client ?w1 = w_client w" using D(1) by simp_all
  have del: "party_packet_pack f (PARTY_MEMBER rules True [e]) = None" for f rules by simp
  have "remove_party e w = (case if length (pb_members b) = 1 then remove_party (hd (pb_members b)) ?w1 else Some ?w1 of
      None \<Rightarrow> None
    | Some w2 \<Rightarrow> map_option (set_component e None)
        (send_members (PARTY_MEMBER (pb_options (w_parties w2 ! k)) True [e]) (pb_members (w_parties w2 ! k)) w2))"
    using c D(1) assms(3) sent by (subst remove_party.simps) simp
  then show ?thesis
    using last send_members_fails [where w = ?w1, OF del] w1 c(1) by (auto simp: set_component_def set_party_def)
qed

section \<open>The invariant is kept\<close>

lemma inv_sent: "party_inv w \<Longrightarrow> party_inv (w\<lparr>w_sent := q\<rparr>)"
  by (erule party_inv_same) simp_all

lemma inv_send: "party_send e p w = Some w' \<Longrightarrow> party_inv w \<Longrightarrow> party_inv w'"
  using party_send_parties inv_sent by blast

lemma inv_members: "send_members p ms w = Some w' \<Longrightarrow> party_inv w \<Longrightarrow> party_inv w'"
  using send_members_sent inv_sent by blast

lemma inv_component:
  "party_inv w \<Longrightarrow> (case c of None \<Rightarrow> None | Some c \<Rightarrow> party c) = in_party e w \<Longrightarrow> party_inv (set_component e c w)"
  by (erule party_inv_same) simp_all

lemma inv_remove:
  assumes "remove_party e w = Some w'" and "party_inv w"
  shows "party_inv w'"
proof (cases "in_party e w")
  case None
  then have "w' = set_component e None w"
    using assms(1) by (subst (asm) remove_party.simps) (auto simp: in_party_def split: option.splits)
  then show ?thesis using assms(2) None by (simp add: inv_component)
next
  case (Some k)
  note D = party_invD [OF assms(2) Some]
  obtain b where b: "removeMember e (w_parties w ! k) = Some (True, b)" "pb_members b = remove1 e (pb_members (w_parties w ! k))"
      "distinct (pb_members b)" "pb_leader b \<in> set (pb_members b)"
    using removeMember_sound [OF D(3,2)] by blast
  have r: "length (pb_members b) \<noteq> 1" "\<exists>q. w' = set_component e None (set_party k b w)\<lparr>w_sent := q\<rparr>"
    using assms(1) remove_party_member [OF assms(2) Some b(1)] by (auto split: if_splits)
  have "length (pb_members b) \<noteq> 0" using b(4) by auto
  with r(1) have "2 \<le> length (pb_members b)" by linarith
  then have sound: "sound_party b" using b by (simp add: sound_party_def)
  have mem: "x \<in> set (pb_members (w_parties w ! k)) \<longleftrightarrow> in_party x w = Some k" for x
    using assms(2) D(1) by (simp add: party_inv_def)
  have "x \<in> set (pb_members b) \<longleftrightarrow> x \<noteq> e \<and> in_party x w = Some k" for x
    using b(2) mem D(3) by (auto simp: sound_party_def set_remove1_eq)
  then have "party_inv (set_component e None (set_party k b w))"
    by (intro party_inv_set_party [OF assms(2) D(1) sound]) (auto simp: Some)
  then show ?thesis using r(2) inv_sent by blast
qed

lemma inv_addPartyMember:
  assumes "addPartyMember l m w = Some w'" and "party_inv w"
  shows "party_inv w'"
proof (cases "w_party w l = None \<or> w_party w m \<noteq> None")
  case True
  then show ?thesis using assms by (auto simp: addPartyMember_def split: option.splits)
next
  case False
  then obtain c where c: "w_party w l = Some c" "w_party w m = None" by auto
  then have nm: "in_party m w = None" "l \<noteq> m" by (auto simp: in_party_def)
  show ?thesis
  proof (cases "party c")
    case (Some k)
    then have k: "in_party l w = Some k" using c by (simp add: in_party_def)
    note D = party_invD [OF assms(2) k]
    let ?b = "(w_parties w ! k)\<lparr>pb_members := pb_members (w_parties w ! k) @ [m]\<rparr>"
    have mem: "x \<in> set (pb_members (w_parties w ! k)) \<longleftrightarrow> in_party x w = Some k" for x
      using assms(2) D(1) by (simp add: party_inv_def)
    obtain q where w': "w' = set_party k ?b ((set_component m (Some (Party_new (Some k))) w)\<lparr>w_sent := q\<rparr>)"
      using assms(1) c Some D(1) nm mem [of m]
      by (auto simp: addPartyMember_def addMember_def Let_def set_party_def set_component_def split: option.splits
          dest!: send_members_sent party_send_parties)
    have "sound_party ?b" using D(3) mem [of m] nm(1) by (auto simp: sound_party_def)
    then show ?thesis
      unfolding w' by (rule party_inv_set_party [OF assms(2) D(1)]) (auto simp: Party_new_def mem nm)
  next
    case None
    then have nl: "in_party l w = None" using c by (simp add: in_party_def)
    let ?k = "length (w_parties w)" and ?b = "(PartyBase_new l)\<lparr>pb_members := [l, m]\<rparr>"
    obtain q where w': "w' = set_party ?k ?b ((set_component m (Some (Party_new (Some ?k)))
        (set_component l (Some (c\<lparr>party := Some ?k\<rparr>)) (w\<lparr>w_parties := w_parties w @ [PartyBase_new l]\<rparr>)))\<lparr>w_sent := q\<rparr>)"
      using assms(1) c None nm
      by (auto simp: addPartyMember_def addMember_def Let_def set_party_def set_component_def PartyBase_new_def split: option.splits
          dest!: send_members_sent party_send_parties)
    have in': "in_party x w' = (if x = l \<or> x = m then Some ?k else in_party x w)" for x
      by (simp add: w' Party_new_def)
    have ps: "w_parties w' = w_parties w @ [?b]" by (simp add: w')
    have old: "in_party x w = Some j \<longleftrightarrow> j < ?k \<and> x \<in> set (pb_members (w_parties w ! j))" for x j
      using assms(2) by (simp add: party_inv_def)
    have "in_party x w' = Some j \<longleftrightarrow> j < Suc ?k \<and> x \<in> set (pb_members ((w_parties w @ [?b]) ! j))" for x j
      using old [of x j] nm nl by (auto simp: in' nth_append PartyBase_new_def less_Suc_eq)
    moreover have "sound_party ?b" using nm(2) by (simp add: sound_party_def PartyBase_new_def)
    ultimately show ?thesis using assms(2) by (simp add: party_inv_def ps)
  qed
qed

lemma inv_changeLeader:
  assumes "PartySystem_changeLeader l n w = Some w'" and "party_inv w"
  shows "party_inv w'"
proof (cases "in_party l w")
  case None
  then show ?thesis using assms by (auto simp: PartySystem_changeLeader_def in_party_def split: option.splits)
next
  case (Some k)
  note D = party_invD [OF assms(2) Some]
  have mem: "x \<in> set (pb_members (w_parties w ! k)) \<longleftrightarrow> in_party x w = Some k" for x
    using assms(2) D(1) by (simp add: party_inv_def)
  have "party_inv (set_party k ((w_parties w ! k)\<lparr>pb_leader := n\<rparr>) w)" if "isMember n (w_parties w ! k)"
  proof (rule party_inv_set_party [OF assms(2) D(1)])
    show "sound_party ((w_parties w ! k)\<lparr>pb_leader := n\<rparr>)" using D(3) that by (simp add: sound_party_def isMember_def)
  qed (simp_all add: mem)
  then show ?thesis
    using assms Some D(1) inv_members
    by (auto simp: PartySystem_changeLeader_def PartyBase_changeLeader_def in_party_def Let_def split: option.splits if_splits)
qed

lemma inv_request:
  assumes "processPartyReq e P w = Some w'" and "party_inv w"
  shows "party_inv w'"
proof -
  have kick: "party_inv (set_component x (Some (c\<lparr>isKicked := b\<rparr>)) w)" if "w_party w x = Some c" for x c b
    by (rule inv_component [OF assms(2)]) (simp add: in_party_def that)
  have ask: "party_inv (set_component x (Some (c\<lparr>isRequested := b\<rparr>)) w)" if "w_party w x = Some c" for x c b
    by (rule inv_component [OF assms(2)]) (simp add: in_party_def that)
  have make: "party_inv (set_component e (Some ((Party_new None)\<lparr>isRequested := True\<rparr>)) w)" if "in_party e w = None"
    by (rule inv_component [OF assms(2)]) (simp add: that Party_new_def)
  show ?thesis
    using assms
    by (auto simp: processPartyReq_def split: option.splits if_splits
        elim!: inv_send inv_remove inv_changeLeader intro: kick ask make)
qed

lemma inv_reply:
  assumes "processPartyReply e P w = Some w'" and "party_inv w"
  shows "party_inv w'"
proof -
  have ask: "party_inv (set_component x (Some (c\<lparr>isRequested := b\<rparr>)) w)" if "w_party w x = Some c" for x c b
    by (rule inv_component [OF assms(2)]) (simp add: in_party_def that)
  show ?thesis
    using assms
    by (auto simp: processPartyReply_def Let_def split: option.splits if_splits
        elim!: inv_send inv_remove inv_addPartyMember intro: ask)
qed

lemma inv_update:
  assumes "PartySystem_update es w = Some w'" and "party_inv w"
  shows "party_inv w'"
  using assms unfolding PartySystem_update_def
proof (induction es arbitrary: w)
  case (Cons e es)
  then show ?case using inv_remove by (auto split: option.splits if_splits)
qed simp

text \<open>Everything that happens: requests and replies of players, updates, entities that are destroyed, and changes of
  the other components, of connections and of the register of entities.\<close>

inductive party_reachable :: "party_world \<Rightarrow> bool" where
  start: "party_reachable \<lparr>w_character = ch, w_client = cl, w_idToEntity = reg, w_party = (\<lambda>_. None), w_parties = [], w_sent = []\<rparr>"
| request: "party_reachable w \<Longrightarrow> processPartyReq e P w = Some w' \<Longrightarrow> party_reachable w'"
| reply: "party_reachable w \<Longrightarrow> processPartyReply e R w = Some w' \<Longrightarrow> party_reachable w'"
| update: "party_reachable w \<Longrightarrow> PartySystem_update es w = Some w' \<Longrightarrow> party_reachable w'"
| destroyed: "party_reachable w \<Longrightarrow> remove_party e w = Some w' \<Longrightarrow> party_reachable w'"
| others: "party_reachable w \<Longrightarrow> party_reachable (w\<lparr>w_character := ch, w_client := cl, w_idToEntity := reg\<rparr>)"

lemma party_reachable_inv: "party_reachable w \<Longrightarrow> party_inv w"
proof (induction rule: party_reachable.induct)
  case (start ch cl reg)
  show ?case by (simp add: party_inv_def in_party_def)
next
  case (others w)
  show ?case by (rule party_inv_same [OF others(2)]) (simp_all add: in_party_def)
qed (auto intro: inv_request inv_reply inv_update inv_remove)

section \<open>Properties\<close>

definition sample_world :: party_world where
  "sample_world = \<lparr>w_character = (\<lambda>_. undefined), w_client = (\<lambda>e. e = 1 \<or> e = 2),
     w_idToEntity = (\<lambda>i. if i = 10 then Some 1 else if i = 20 then Some 2 else None), w_party = (\<lambda>_. None), w_parties = [], w_sent = []\<rparr>"

definition sample_asked :: party_world where
  "sample_asked = the (processPartyReq 1 \<lparr>CliPartyReq.m_request = 0, m_idXorTag = 20\<rparr> sample_world)"

lemma sample_asked_facts: "processPartyReq 1 \<lparr>CliPartyReq.m_request = 0, m_idXorTag = 20\<rparr> sample_world = Some sample_asked"
  "w_party sample_asked 1 = Some ((Party_new None)\<lparr>isRequested := True\<rparr>)" "w_party sample_asked 2 = None"
  "w_idToEntity sample_asked 10 = Some 1" "w_client sample_asked 1" "w_client sample_asked 2"
  by (simp_all add: sample_asked_def processPartyReq_def sample_world_def in_party_def party_send_def set_component_def)

lemma sample_asked_reachable: "party_reachable sample_asked"
  using party_reachable.request [OF party_reachable.start sample_asked_facts(1) [unfolded sample_world_def]] .

text \<open>C34. Joining. If a connected player asked for a party and the other player, who has none, accepts, then both are in
  one party: the one of the player who asked, or a new one of which that player is the leader. The new member
  comes last; the player who asked gets the answer, the other members learn of the new one, and the new
  member is sent the list of members.\<close>

theorem accept_joins:
  assumes "party_reachable w" and "w_idToEntity w (CliPartyReply.m_idXorTag P) = Some other" and "w_client w other"
    and "w_party w other = Some c" and "isRequested c" and "w_party w e = None"
    and "CliPartyReply.m_reply P = 2 \<or> CliPartyReply.m_reply P = 3"
    and "b = (case party c of None \<Rightarrow> PartyBase_new other | Some j \<Rightarrow> w_parties w ! j)"
  shows "\<exists>w' k. processPartyReply e P w = Some w' \<and> in_party e w' = Some k \<and> in_party other w' = Some k
    \<and> pb_members (w_parties w' ! k) = pb_members b @ [e] \<and> pb_leader (w_parties w' ! k) = pb_leader b
    \<and> w_sent w' = w_sent w @ [(other, party_reply (CliPartyReply.m_reply P) e w)]
        @ map (\<lambda>m. (m, PARTY_MEMBER (pb_options b) False [e])) (filter (w_client w) (pb_members b))
        @ (if w_client w e then [(e, PARTY_MEMBER (pb_options b) False (pb_members b))] else [])"
proof -
  note inv = party_reachable_inv [OF assms(1)]
  let ?w1 = "set_component other (Some (c\<lparr>isRequested := False\<rparr>)) w"
  let ?w2 = "?w1\<lparr>w_sent := w_sent w @ [(other, party_reply (CliPartyReply.m_reply P) e w)]\<rparr>"
  have ne: "e \<noteq> other" using assms(4,6) by auto
  have "party_reply r e ?w1 = party_reply r e w" for r by (simp add: party_reply_def)
  then have 1: "processPartyReply e P w = addPartyMember other e ?w2"
    using assms(2-5,7) by (auto simp: processPartyReply_def Let_def party_send_def party_reply_def)
  have pk: "party_packet_pack f (PARTY_MEMBER rules False es) \<noteq> None" for f rules es by simp
  have new: "party_send e (PARTY_MEMBER rules False es) v
      = Some (v\<lparr>w_sent := w_sent v @ (if w_client v e then [(e, PARTY_MEMBER rules False es)] else [])\<rparr>)" for rules es v
    by (simp add: party_send_def)
  have nin: "e \<notin> set (pb_members b)"
  proof (cases "party c")
    case (Some j)
    then have "in_party other w = Some j" using assms(4) by (simp add: in_party_def)
    moreover have "in_party e w = None" using assms(6) by (simp add: in_party_def)
    ultimately have "e \<notin> set (pb_members (w_parties w ! j))"
      using inv party_invD(1) [OF inv] by (metis option.distinct(1) party_inv_def)
    then show ?thesis using Some assms(8) by simp
  qed (simp add: assms(8) PartyBase_new_def ne)
  show ?thesis
  proof (cases "party c")
    case (Some j)
    then have "j < length (w_parties w)" using party_invD(1) [OF inv, of other j] assms(4) by (simp add: in_party_def)
    then show ?thesis
      unfolding 1 using Some assms(4,6,8) ne nin
      by (simp add: addPartyMember_def Let_def send_members_all [OF pk] new addMember_def in_party_def set_component_def set_party_def Party_new_def)
  next
    case None
    then show ?thesis
      unfolding 1 using assms(4,6,8) ne nin
      by (simp add: addPartyMember_def Let_def send_members_all [OF pk] new addMember_def in_party_def set_component_def set_party_def Party_new_def
          PartyBase_new_def)
  qed
qed

theorem accept_joins_witness:
  "\<exists>w' k. processPartyReply 2 \<lparr>CliPartyReply.m_reply = 2, m_idXorTag = 10\<rparr> sample_asked = Some w'
    \<and> in_party 2 w' = Some k \<and> pb_members (w_parties w' ! k) = [1, 2]"
proof -
  have "party ((Party_new None)\<lparr>isRequested := True\<rparr>) = None" "pb_members (PartyBase_new 1) = [1]"
    by (simp_all add: Party_new_def PartyBase_new_def)
  with accept_joins [OF sample_asked_reachable _ _ sample_asked_facts(2) _ sample_asked_facts(3),
      of "\<lparr>CliPartyReply.m_reply = 2, m_idXorTag = 10\<rparr>" "PartyBase_new 1"] sample_asked_facts(4-)
  show ?thesis by fastforce
qed

lemma sample_party: "\<exists>w. party_reachable w \<and> in_party 1 w = Some 0 \<and> pb_members (w_parties w ! 0) = [1, 2]
    \<and> w_idToEntity w 20 = Some 2 \<and> w_client w 2"
proof -
  have "\<exists>w'. processPartyReply 2 \<lparr>CliPartyReply.m_reply = 2, m_idXorTag = 10\<rparr> sample_asked = Some w'
      \<and> in_party 1 w' = Some 0 \<and> pb_members (w_parties w' ! 0) = [1, 2] \<and> w_idToEntity w' 20 = Some 2 \<and> w_client w' 2"
    by (simp add: processPartyReply_def sample_asked_def processPartyReq_def sample_world_def in_party_def party_send_def
        set_component_def party_reply_def addPartyMember_def Party_new_def PartyBase_new_def set_party_def addMember_def)
  then show ?thesis using party_reachable.reply [OF sample_asked_reachable] by blast
qed

text \<open>C21. Membership is consistent. Over everything that can happen, a player's component points to a party exactly if
  the player is one of its members, so no player is in two parties; members are listed once, the leader is a
  member, and no party has fewer than two members.\<close>

theorem party_membership_consistent:
  assumes "party_reachable w"
  shows "(in_party e w = Some k \<longleftrightarrow> k < length (w_parties w) \<and> e \<in> set (pb_members (w_parties w ! k)))
    \<and> (k < length (w_parties w) \<longrightarrow> distinct (pb_members (w_parties w ! k))
        \<and> pb_leader (w_parties w ! k) \<in> set (pb_members (w_parties w ! k)) \<and> 2 \<le> length (pb_members (w_parties w ! k)))"
  using party_reachable_inv [OF assms] by (simp add: party_inv_def sound_party_def)

theorem party_membership_consistent_witness:
  "\<exists>w. party_reachable w \<and> in_party 2 w = Some 0 \<and> pb_leader (w_parties w ! 0) \<in> {1, 2}"
proof -
  obtain w where w: "party_reachable w" "in_party 1 w = Some 0" "pb_members (w_parties w ! 0) = [1, 2]"
    using sample_party by blast
  from party_membership_consistent [OF w(1), of 1 0] party_membership_consistent [OF w(1), of 2 0] w
  show ?thesis by auto
qed

text \<open>Leaving a party fails whenever another member is connected: the packet that tells the others is built with one
  entity and packed with two; and leaving a party of two removes the last member too, which reads the first
  member of the empty party.\<close>

theorem leaving_party_crashes:
  assumes "party_reachable w" and "in_party e w = Some k" and "CliPartyReq.m_request P = 2"
    and "w_idToEntity w (CliPartyReq.m_idXorTag P) = Some other" and "w_client w other"
    and "length (pb_members (w_parties w ! k)) = 2 \<or> (\<exists>m \<in> set (pb_members (w_parties w ! k)). m \<noteq> e \<and> w_client w m)"
  shows "processPartyReq e P w = None"
proof -
  note inv = party_reachable_inv [OF assms(1)]
  note D = party_invD [OF inv assms(2)]
  obtain b where b: "removeMember e (w_parties w ! k) = Some (True, b)" "pb_members b = remove1 e (pb_members (w_parties w ! k))"
      "Suc (length (pb_members b)) = length (pb_members (w_parties w ! k))"
    using removeMember_sound [OF D(3,2)] by blast
  have "length (pb_members b) = 1 \<or> (\<exists>m \<in> set (pb_members b). w_client w m)"
    using assms(6) b(2,3) by (auto simp: in_set_remove1)
  then have "remove_party e w = None" using remove_party_member [OF inv assms(2) b(1)] by auto
  moreover have "w_party w e \<noteq> None" using assms(2) by (auto simp: in_party_def split: option.splits)
  ultimately show ?thesis using assms(3-5) by (simp add: processPartyReq_def)
qed

theorem leaving_party_crashes_witness:
  "\<exists>w. party_reachable w \<and> in_party 1 w = Some 0 \<and> processPartyReq 1 \<lparr>CliPartyReq.m_request = 2, m_idXorTag = 20\<rparr> w = None"
proof -
  obtain w where w: "party_reachable w" "in_party 1 w = Some 0" "pb_members (w_parties w ! 0) = [1, 2]"
      "w_idToEntity w 20 = Some 2" "w_client w 2"
    using sample_party by blast
  from leaving_party_crashes [OF w(1,2), of "\<lparr>CliPartyReq.m_request = 2, m_idXorTag = 20\<rparr>" 2] w show ?thesis by auto
qed

end
