(* ===== verification/IdManager.thy ===== *)
theory IdManager
  imports Prelude
begin

text \<open>
  Identifiers of entities: \<open>map/src/id_manager.cpp\<close>. \<open>_free_ids\<close> is a hash set, so which element
  \<open>begin()\<close> is depends on the hash function: \<open>bgn\<close>, an argument, says at which position it is. The locale
  \<open>id_source\<close> is the contract the entity system relies on, with a set of live identifiers as the abstract
  state.
\<close>

section \<open>Definitions\<close>

record IdManager =
  m_free_ids :: "u16 list"
  m_max_id :: u16

definition IdManager_new :: IdManager where
  "IdManager_new = \<lparr>m_free_ids = [], m_max_id = 0\<rparr>"

definition get_free_id :: "(u16 list \<Rightarrow> nat) \<Rightarrow> IdManager \<Rightarrow> u16 \<times> IdManager" where
  "get_free_id bgn m =
    (let free = m_free_ids m; k = bgn free in
     if free \<noteq> [] then (free ! k, m\<lparr>m_free_ids := remove1 (free ! k) free\<rparr>)
     else (m_max_id m, m\<lparr>m_max_id := m_max_id m + 1\<rparr>))"

definition release_id :: "u16 \<Rightarrow> IdManager \<Rightarrow> IdManager" where
  "release_id i m = (if i \<in> set (m_free_ids m) then m else m\<lparr>m_free_ids := i # m_free_ids m\<rparr>)"

text \<open>\<open>begin()\<close> of a set that is not empty is one of its elements.\<close>

definition is_begin :: "(u16 list \<Rightarrow> nat) \<Rightarrow> bool" where
  "is_begin bgn \<longleftrightarrow> (\<forall>free. free \<noteq> [] \<longrightarrow> bgn free < length free)"

section \<open>The contract\<close>

locale id_source =
  fixes get :: "'m \<Rightarrow> u16 \<times> 'm" and release :: "u16 \<Rightarrow> 'm \<Rightarrow> 'm"
    and holds :: "u16 set \<Rightarrow> 'm \<Rightarrow> bool"
  assumes get_fresh: "holds live m \<Longrightarrow> card live < 2 ^ 16 - 1 \<Longrightarrow> get m = (i, m') \<Longrightarrow>
      i \<notin> live \<and> holds (insert i live) m'"
    and release_live: "holds live m \<Longrightarrow> i \<in> live \<Longrightarrow> holds (live - {i}) (release i m)"
    and holds_finite: "holds live m \<Longrightarrow> finite live"
begin

text \<open>A user takes identifiers and gives back ones it has.\<close>

inductive uses :: "'m \<Rightarrow> u16 list \<Rightarrow> 'm \<Rightarrow> bool" for m0 where
  start: "uses m0 [] m0"
| take: "uses m0 live m \<Longrightarrow> length live < 2 ^ 16 - 1 \<Longrightarrow> get m = (i, m') \<Longrightarrow> uses m0 (i # live) m'"
| give: "uses m0 live m \<Longrightarrow> i \<in> set live \<Longrightarrow> uses m0 (remove1 i live) (release i m)"

lemma uses_distinct:
  assumes "uses m0 live m" and "holds {} m0"
  shows "distinct live \<and> holds (set live) m"
  using assms
proof (induction rule: uses.induct)
  case start
  then show ?case by simp
next
  case (take live m i m')
  then have "holds (set live) m" "distinct live" by auto
  moreover have "card (set live) < 2 ^ 16 - 1" using take.hyps(2) card_length [of live] by simp
  ultimately show ?case using get_fresh [OF _ _ take.hyps(3)] by auto
next
  case (give live m i)
  then show ?case using release_live [of "set live" m i] by (auto simp: set_remove1_eq)
qed

end

section \<open>The manager keeps it\<close>

definition holds_ids :: "u16 set \<Rightarrow> IdManager \<Rightarrow> bool" where
  "holds_ids live m \<longleftrightarrow> distinct (m_free_ids m) \<and> live \<inter> set (m_free_ids m) = {}
     \<and> live \<union> set (m_free_ids m) = {i. i < m_max_id m}"

lemma card_below: "card {i :: u16. i < n} = unat n"
proof -
  have lt: "unat n < 2 ^ LENGTH(16)" by (rule unsigned_less)
  have "{i :: u16. i < n} = of_nat ` {..<unat n}"
  proof (intro set_eqI iffI)
    fix i :: u16 assume "i \<in> {i. i < n}"
    then have "unat i < unat n" by (simp add: word_less_nat_alt)
    then show "i \<in> of_nat ` {..<unat n}" by (intro image_eqI [of _ _ "unat i"]) simp_all
  next
    fix i :: u16 assume "i \<in> of_nat ` {..<unat n}"
    then obtain k where "k < unat n" "i = of_nat k" by auto
    then show "i \<in> {i. i < n}" using lt
      by (simp add: word_less_nat_alt unat_of_nat_small)
  qed
  moreover have "inj_on (of_nat :: nat \<Rightarrow> u16) {..<unat n}"
    using lt by (intro inj_onI) (metis lessThan_iff order_less_trans unat_of_nat_small)
  ultimately show ?thesis by (simp add: card_image)
qed

lemma get_free_id_fresh:
  assumes "is_begin bgn" and "holds_ids live m" and "card live < 2 ^ 16 - 1" and "get_free_id bgn m = (i, m')"
  shows "i \<notin> live \<and> holds_ids (insert i live) m'"
proof (cases "m_free_ids m = []")
  case True
  then have live: "live = {i. i < m_max_id m}" using assms(2) by (simp add: holds_ids_def)
  then have "unat (m_max_id m) < 2 ^ 16 - 1" using assms(3) card_below by simp
  then have less: "x < m_max_id m + 1 \<longleftrightarrow> x \<le> m_max_id m" for x
    by (simp add: word_less_nat_alt word_le_nat_alt unat_word_ariths less_Suc_eq_le)
  then have ins: "{i. i < m_max_id m + 1} = insert (m_max_id m) {i. i < m_max_id m}"
    by (intro set_eqI) (simp only: mem_Collect_eq insert_iff less le_less disj_commute)
  have "i = m_max_id m" "m' = m\<lparr>m_max_id := m_max_id m + 1\<rparr>"
    using assms(4) True by (auto simp: get_free_id_def)
  then show ?thesis unfolding live holds_ids_def by (simp add: True ins)
next
  case False
  let ?k = "bgn (m_free_ids m)"
  have k: "?k < length (m_free_ids m)" using assms(1) False by (simp add: is_begin_def)
  then have mem: "m_free_ids m ! ?k \<in> set (m_free_ids m)" by simp
  have i: "i = m_free_ids m ! ?k" "m' = m\<lparr>m_free_ids := remove1 (m_free_ids m ! ?k) (m_free_ids m)\<rparr>"
    using assms(4) False by (auto simp: get_free_id_def Let_def)
  have d: "distinct (m_free_ids m)" using assms(2) by (simp add: holds_ids_def)
  show ?thesis
    using assms(2) mem set_remove1_eq [OF d] distinct_remove1 [OF d] unfolding i holds_ids_def by auto
qed

lemma release_id_live: "holds_ids live m \<Longrightarrow> i \<in> live \<Longrightarrow> holds_ids (live - {i}) (release_id i m)"
  by (auto simp: holds_ids_def release_id_def)

text \<open>Positions of \<open>begin()\<close> as a total function: an argument out of range means the first element.\<close>

definition begin_of :: "(u16 list \<Rightarrow> nat) \<Rightarrow> u16 list \<Rightarrow> nat" where
  "begin_of bgn free = (if bgn free < length free then bgn free else 0)"

lemma is_begin_of: "is_begin (begin_of bgn)"
  by (simp add: is_begin_def begin_of_def)

interpretation ids: id_source "get_free_id (begin_of bgn)" release_id holds_ids
proof
  show "i \<notin> live \<and> holds_ids (insert i live) m'"
    if "holds_ids live m" "card live < 2 ^ 16 - 1" "get_free_id (begin_of bgn) m = (i, m')" for live m i m'
    using get_free_id_fresh [OF is_begin_of that] .
  show "finite live" if "holds_ids live m" for live m
    using that finite_subset [of live "{i. i < m_max_id m}"] by (auto simp: holds_ids_def)
qed (rule release_id_live)

text \<open>Identifiers are unique. Over any sequence of takes and releases, with at most 65535 identifiers in
  use at a time and whatever order the hash set has, the identifiers in use are all different.\<close>

theorem live_ids_distinct:
  assumes "ids.uses bgn IdManager_new live m"
  shows "distinct live"
proof -
  have "holds_ids {} IdManager_new" by (simp add: holds_ids_def IdManager_new_def)
  with ids.uses_distinct [OF assms] show ?thesis by blast
qed

theorem live_ids_distinct_witness:
  "ids.uses (\<lambda>_. 0) IdManager_new [0, 1] (IdManager_new\<lparr>m_max_id := 2\<rparr>) \<and> distinct [0, 1 :: u16]"
proof -
  let ?b = "begin_of (\<lambda>_. 0)"
  have g: "get_free_id ?b IdManager_new = (0, IdManager_new\<lparr>m_max_id := 1\<rparr>)"
      "get_free_id ?b (IdManager_new\<lparr>m_max_id := 1\<rparr>) = (1, IdManager_new\<lparr>m_max_id := 2\<rparr>)"
      "get_free_id ?b (IdManager_new\<lparr>m_free_ids := [0], m_max_id := 2\<rparr>) = (0, IdManager_new\<lparr>m_max_id := 2\<rparr>)"
    by (simp_all add: get_free_id_def IdManager_new_def begin_of_def)
  have r: "release_id 0 (IdManager_new\<lparr>m_max_id := 2\<rparr>) = IdManager_new\<lparr>m_free_ids := [0], m_max_id := 2\<rparr>"
    by (simp add: release_id_def IdManager_new_def)
  have "ids.uses (\<lambda>_. 0) IdManager_new [1, 0] (IdManager_new\<lparr>m_max_id := 2\<rparr>)"
    by (intro ids.uses.take [OF _ _ g(2)] ids.uses.take [OF _ _ g(1)] ids.uses.start) simp_all
  from ids.uses.give [OF this, of 0]
  have "ids.uses (\<lambda>_. 0) IdManager_new [1] (IdManager_new\<lparr>m_free_ids := [0], m_max_id := 2\<rparr>)" by (simp add: r)
  from ids.uses.take [OF this _ g(3)]
  have u: "ids.uses (\<lambda>_. 0) IdManager_new [0, 1] (IdManager_new\<lparr>m_max_id := 2\<rparr>)" by simp
  from live_ids_distinct [OF u] u show ?thesis by blast
qed

end
