(* ===== verification/MapWorld.thy ===== *)
theory MapWorld
  imports EntityPackets PartySystem IdManager CRoseServer
begin

text \<open>
  The entities of a map and how they move: \<open>map/src/entitysystem.cpp\<close>, \<open>map/src/systems/movementsystem.cpp\<close> and
  \<open>updatesystem.cpp\<close>. The world is the list of living entities with their components, in the order in which
  the entityx library enumerates them, the maps of the entity system from names and identifiers to entities,
  the grid of the movement system, and a record of what was sent and saved.

  Two things are arguments, members of \<open>env\<close>. Arithmetic on floats, whose values are bit patterns here: what is
  proved does not depend on it. And two choices of entityx: whether it runs the function registered for the removal of
  a component when the component is not there, and whether it runs these functions when an entity is destroyed.
\<close>

section \<open>Entities\<close>

text \<open>\<open>Gate\<close>: a warp gate, with the scale of its \<open>Warpgate\<close> component if it has one.\<close>

datatype world_entity =
    PlayerE avatar
  | NpcE npc_entity
  | ItemE BasicInfo Position Item
  | GateE BasicInfo Position "Destination option" "(f32 \<times> f32 \<times> f32) option"

fun basic_of :: "world_entity \<Rightarrow> BasicInfo" where
  "basic_of (PlayerE v) = basicInfo v"
| "basic_of (NpcE n) = n_basic n"
| "basic_of (ItemE b p i) = b"
| "basic_of (GateE b p d g) = b"

fun set_basic :: "BasicInfo \<Rightarrow> world_entity \<Rightarrow> world_entity" where
  "set_basic b (PlayerE v) = PlayerE (v\<lparr>basicInfo := b\<rparr>)"
| "set_basic b (NpcE n) = NpcE (n\<lparr>n_basic := b\<rparr>)"
| "set_basic b (ItemE b0 p i) = ItemE b p i"
| "set_basic b (GateE b0 p d g) = GateE b p d g"

fun position_of :: "world_entity \<Rightarrow> Position" where
  "position_of (PlayerE v) = position v"
| "position_of (NpcE n) = n_position n"
| "position_of (ItemE b p i) = p"
| "position_of (GateE b p d g) = p"

fun set_position :: "Position \<Rightarrow> world_entity \<Rightarrow> world_entity" where
  "set_position p (PlayerE v) = PlayerE (v\<lparr>position := p\<rparr>)"
| "set_position p (NpcE n) = NpcE (n\<lparr>n_position := p\<rparr>)"
| "set_position p (ItemE b p0 i) = ItemE b p i"
| "set_position p (GateE b p0 d g) = GateE b p d g"

fun destination_of :: "world_entity \<Rightarrow> Destination option" where
  "destination_of (PlayerE v) = v_destination v"
| "destination_of (NpcE n) = n_destination n"
| "destination_of (ItemE b p i) = None"
| "destination_of (GateE b p d g) = d"

fun set_destination :: "Destination option \<Rightarrow> world_entity \<Rightarrow> world_entity" where
  "set_destination d (PlayerE v) = PlayerE (v\<lparr>v_destination := d\<rparr>)"
| "set_destination d (NpcE n) = NpcE (n\<lparr>n_destination := d\<rparr>)"
| "set_destination d (ItemE b p i) = ItemE b p i"
| "set_destination d (GateE b p d0 g) = GateE b p d g"

fun advanced_of :: "world_entity \<Rightarrow> AdvancedInfo option" where
  "advanced_of (PlayerE v) = Some (advancedInfo v)"
| "advanced_of (NpcE n) = Some (n_advanced n)"
| "advanced_of _ = None"

fun warpgate_of :: "world_entity \<Rightarrow> (f32 \<times> f32 \<times> f32) option" where
  "warpgate_of (GateE b p d g) = g"
| "warpgate_of _ = None"

section \<open>The world\<close>

text \<open>\<open>SrvChangeMapReply\<close> (\<open>mappackets.cpp\<close>): its constructor takes 16 bits of everything, its members are wider.\<close>

record SrvChangeMapReply =
  r_object_index :: u16
  r_current_hp :: u16
  r_current_mp :: u16
  r_current_exp :: u64
  r_penalize_exp :: u64
  r_world_time :: u32
  r_team_number :: u32
  r_item_rate :: "u8 list"

definition SrvChangeMapReply_new :: "u16 \<Rightarrow> u16 \<Rightarrow> u16 \<Rightarrow> u16 \<Rightarrow> u16 \<Rightarrow> u16 \<Rightarrow> u16 \<Rightarrow> SrvChangeMapReply" where
  "SrvChangeMapReply_new i hp mp xp penalty time team = \<lparr>r_object_index = i, r_current_hp = hp, r_current_mp = mp,
     r_current_exp = ucast xp, r_penalize_exp = ucast penalty, r_world_time = ucast time, r_team_number = ucast team,
     r_item_rate = replicate 11 0\<rparr>"

definition setItemRate :: "u8 \<Rightarrow> u8 \<Rightarrow> SrvChangeMapReply \<Rightarrow> SrvChangeMapReply option" where
  "setItemRate type rate d =
    (if unat type < 11 then Some (d\<lparr>r_item_rate := (r_item_rate d)[unat type := rate]\<rparr>) else None)"

definition SrvChangeMapReply_pack :: "SrvChangeMapReply \<Rightarrow> CRosePacket \<Rightarrow> CRosePacket" where
  "SrvChangeMapReply_pack d = chain [put_u16 (r_object_index d), put_u16 (r_current_hp d), put_u16 (r_current_mp d),
     put_u64 (r_current_exp d), put_u64 (r_penalize_exp d), put_u16 0, put_u32 0, put_u16 0, put_u8 0,
     put_list put_u8 (r_item_rate d), put_u32 0, put_u32 (r_world_time d), put_u32 (r_team_number d)]"

text \<open>\<open>SrvServerData\<close>: the economy of a map. The arrays have eleven entries, of which the first is never sent.\<close>

record Enconmy_Data =
  ec_counter :: u32
  ec_pop_base :: u16
  ec_dev_base :: u16
  ec_consume :: "u16 list"
  ec_dev :: u16
  ec_pop :: u32
  ec_item :: "u32 list"

record SrvServerData =
  sv_type :: u8
  sv_enconmy_data :: Enconmy_Data

definition SrvServerData_new :: "u8 \<Rightarrow> SrvServerData" where
  "SrvServerData_new ty = \<lparr>sv_type = ty, sv_enconmy_data = \<lparr>ec_counter = 0, ec_pop_base = 0, ec_dev_base = 0, ec_consume = replicate 11 0,
     ec_dev = 0, ec_pop = 0, ec_item = replicate 11 0\<rparr>\<rparr>"

definition SrvServerData_pack :: "SrvServerData \<Rightarrow> CRosePacket \<Rightarrow> CRosePacket" where
  "SrvServerData_pack d = (let e = sv_enconmy_data d in
    if sv_type d = 0 then chain [put_u8 (sv_type d), put_u32 (ec_counter e), put_u16 (ec_pop_base e), put_u16 (ec_dev_base e),
      put_list put_u16 (drop 1 (ec_consume e)), put_u16 (ec_dev e), put_u32 (ec_pop e), put_list put_u32 (drop 1 (ec_item e))]
    else put_u8 (sv_type d))"

definition SrvServerData_wire :: "SrvServerData \<Rightarrow> byte list" where
  "SrvServerData_wire d = (let e = sv_enconmy_data d in
    if sv_type d = 0 then [sv_type d] @ le_bytes 4 (ec_counter e) @ le_bytes 2 (ec_pop_base e) @ le_bytes 2 (ec_dev_base e)
      @ concat (map (le_bytes 2) (drop 1 (ec_consume e))) @ le_bytes 2 (ec_dev e) @ le_bytes 4 (ec_pop e)
      @ concat (map (le_bytes 4) (drop 1 (ec_item e)))
    else [sv_type d])"

interpretation SrvServerData: emitter SrvServerData_pack SrvServerData_wire
proof
  show "emits (SrvServerData_pack d) (SrvServerData_wire d)" for d
    unfolding SrvServerData_pack_def SrvServerData_wire_def Let_def
    by (cases "sv_type d = 0"; simp only: simp_thms if_True if_False; intro emits_rules emits_put_list)
qed

text \<open>A packet that was sent. A packet built from an entity shows the entity as it was.\<close>

datatype world_packet =
    W_PLAYER_CHAR entity avatar
  | W_NPC_CHAR entity npc_entity
  | W_DROP_ITEM BasicInfo Position Item
  | W_REMOVE_OBJECT u16
  | W_MOUSE_CMD avatar
  | W_STOP_MOVING avatar
  | W_TELEPORT_REPLY avatar
  | W_SWITCH_SERVER SrvSwitchServer
  | W_CHANGE_MAP_REPLY SrvChangeMapReply
  | W_NORMAL_CHAT SrvNormalChat
  | W_WHISPER_CHAT SrvWhisperChat
  | W_PARTY_CHAT SrvPartyChat
  | W_INVENTORY inv_packet
  | W_PARTY party_packet

text \<open>To one client, or to the clients a broadcast of a type reaches. Clients who have no entity yet also get
  what is sent to everyone; they are not part of the world.\<close>

datatype delivery =
    Sent entity world_packet
  | Broadcast eSendType "entity list" world_packet

text \<open>\<open>mw_client\<close>: the session of the client of an entity, if it has one; \<open>mw_switched\<close>: the clients on which
  \<open>switch_server\<close> was called.\<close>

record map_world =
  mw_entities :: "(entity \<times> world_entity) list"
  mw_created :: nat
  mw_client :: "entity \<Rightarrow> u32 option"
  mw_switched :: "entity list"
  mw_nameToEntity :: "cstring \<Rightarrow> entity option"
  mw_idToEntity :: "u32 \<Rightarrow> entity option"
  mw_itemToEntity :: "u32 \<Rightarrow> entity option"
  mw_id_manager :: IdManager
  mw_grid :: "u16 \<times> u16 \<Rightarrow> entity list"
  mw_party :: "entity \<Rightarrow> Party option"
  mw_parties :: "PartyBase list"
  mw_saved :: "(u32 \<times> avatar) list"
  mw_sent :: "delivery list"

text \<open>Floats, and the rest of the environment: the configuration, the time, the hash set of the id manager, where
  entityx puts the next entity, the item database, Lua, the order of a hash map.
  \<open>f_arrives\<close> is \<open>ntime <= dt\<close> and \<open>f_advance x dx ntime\<close> is \<open>x + dx * dt / ntime\<close>, for the \<open>dt\<close> of the update.\<close>

record env =
  f_add :: "f32 \<Rightarrow> f32 \<Rightarrow> f32"
  f_sub :: "f32 \<Rightarrow> f32 \<Rightarrow> f32"
  f_mul :: "f32 \<Rightarrow> f32 \<Rightarrow> f32"
  f_div :: "f32 \<Rightarrow> f32 \<Rightarrow> f32"
  f_sqrt :: "f32 \<Rightarrow> f32"
  f_lt :: "f32 \<Rightarrow> f32 \<Rightarrow> bool"
  f_zero :: "f32 \<Rightarrow> bool"
  f_to_u16 :: "f32 \<Rightarrow> u16"
  f_of_u16 :: "u16 \<Rightarrow> f32"
  f_of_int :: "int \<Rightarrow> f32"
  f_arrives :: "f32 \<Rightarrow> bool"
  f_advance :: "f32 \<Rightarrow> f32 \<Rightarrow> f32 \<Rightarrow> f32"
  removal_without :: bool
  destroy_notifies :: bool
  cfg_mapPort :: u16
  cfg_serverIp :: cstring
  now_time :: u32
  id_begin :: "u16 list \<Rightarrow> nat"
  speed_mod :: "entity \<Rightarrow> u16"
  entity_slot :: nat
  env_db :: item_database
  env_scripts :: "cstring \<Rightarrow> nat option"
  env_lua :: lua_calls
  f_parse :: "cstring \<Rightarrow> (f32 \<times> cstring) option"
  gm_order :: "nat list"

abbreviation entity_at :: "map_world \<Rightarrow> entity \<Rightarrow> world_entity option" where
  "entity_at w e \<equiv> map_of (mw_entities w) e"

definition set_entity :: "entity \<Rightarrow> (world_entity \<Rightarrow> world_entity) \<Rightarrow> map_world \<Rightarrow> map_world" where
  "set_entity e f w = w\<lparr>mw_entities := map (\<lambda>(h, x). (h, if h = e then f x else x)) (mw_entities w)\<rparr>"

definition isOnMap :: "entity \<Rightarrow> map_world \<Rightarrow> bool" where
  "isOnMap e w = (case entity_at w e of None \<Rightarrow> False | Some x \<Rightarrow> b_isOnMap (basic_of x))"

section \<open>Who is near\<close>

definition grid_position_at :: "env \<Rightarrow> f32 \<Rightarrow> f32 \<Rightarrow> u16 \<times> u16" where
  "grid_position_at env x y = (f_to_u16 env (f_div env x 0x447A0000), f_to_u16 env (f_div env y 0x447A0000))"

definition get_grid_position :: "env \<Rightarrow> world_entity \<Rightarrow> u16 \<times> u16" where
  "get_grid_position env x = grid_position_at env (p_x (position_of x)) (p_y (position_of x))"

definition is_nearby :: "env \<Rightarrow> entity \<Rightarrow> entity \<Rightarrow> map_world \<Rightarrow> bool" where
  "is_nearby env a b w =
    (case (entity_at w a, entity_at w b) of
       (Some x, Some y) \<Rightarrow>
         (let (xa, ya) = get_grid_position env x; (xb, yb) = get_grid_position env y in
          \<bar>int (unat xa) - int (unat xb)\<bar> \<le> 1 \<and> \<bar>int (unat ya) - int (unat yb)\<bar> \<le> 1)
     | _ \<Rightarrow> False)"

section \<open>Sending\<close>

definition send_client :: "entity \<Rightarrow> world_packet \<Rightarrow> map_world \<Rightarrow> map_world" where
  "send_client e p w = w\<lparr>mw_sent := mw_sent w @ [Sent e p]\<rparr>"

text \<open>\<open>SendPacket\<close>: the clients in the world for whom \<open>receives_type\<close> holds. \<open>src\<close> is the sender's entity.\<close>

definition receivers :: "env \<Rightarrow> entity option \<Rightarrow> eSendType \<Rightarrow> map_world \<Rightarrow> entity list" where
  "receivers env src type w = filter (\<lambda>e. mw_client w e \<noteq> None
     \<and> receives_type type (case src of None \<Rightarrow> 0 | Some s \<Rightarrow> Suc s) (\<lambda>e. isOnMap e w)
         (\<lambda>e. case src of None \<Rightarrow> False | Some s \<Rightarrow> is_nearby env e s w) (Suc e, e)) (map fst (mw_entities w))"

definition world_send :: "env \<Rightarrow> entity option \<Rightarrow> eSendType \<Rightarrow> world_packet \<Rightarrow> map_world \<Rightarrow> map_world" where
  "world_send env src type p w = w\<lparr>mw_sent := mw_sent w @ [Broadcast type (receivers env src type w) p]\<rparr>"

section \<open>The movement system\<close>

text \<open>\<open>std::remove\<close> moves the elements that are kept to the front; what is behind them stays.\<close>

definition std_remove :: "'a \<Rightarrow> 'a list \<Rightarrow> 'a list" where
  "std_remove x xs = (let kept = filter (\<lambda>y. y \<noteq> x) xs in kept @ drop (length kept) xs)"

definition updatePosition :: "env \<Rightarrow> entity \<Rightarrow> f32 \<Rightarrow> f32 \<Rightarrow> map_world \<Rightarrow> map_world" where
  "updatePosition env e old_x old_y w =
    (let grid = mw_grid w; old = grid_position_at env old_x old_y;
         grid1 = (if \<not> f_zero env old_x \<and> \<not> f_zero env old_y then grid(old := std_remove e (grid old)) else grid)
     in case entity_at w e of
          None \<Rightarrow> w\<lparr>mw_grid := grid1\<rparr>
        | Some x \<Rightarrow> w\<lparr>mw_grid := grid1(get_grid_position env x := grid1 (get_grid_position env x) @ [e])\<rparr>)"

text \<open>\<open>entity.remove<Destination>()\<close> with the function the constructor registers: those near a client learn that it
  stopped.\<close>

definition remove_destination :: "env \<Rightarrow> entity \<Rightarrow> map_world \<Rightarrow> map_world" where
  "remove_destination env e w =
    (case entity_at w e of
       Some (PlayerE v) \<Rightarrow>
         let w1 = (if (v_destination v \<noteq> None \<or> removal_without env) \<and> mw_client w e \<noteq> None
                   then world_send env (Some e) NEARBY (W_STOP_MOVING v) w else w)
         in set_entity e (set_destination None) w1
     | _ \<Rightarrow> set_entity e (set_destination None) w)"

definition saveCharacter :: "entity \<Rightarrow> map_world \<Rightarrow> map_world" where
  "saveCharacter e w = (case entity_at w e of
     Some (PlayerE v) \<Rightarrow> w\<lparr>mw_saved := mw_saved w @ [(c_charId (characterInfo v), v)]\<rparr>
   | _ \<Rightarrow> w)"

definition set_basic_at :: "entity \<Rightarrow> (BasicInfo \<Rightarrow> BasicInfo) \<Rightarrow> map_world \<Rightarrow> map_world" where
  "set_basic_at e f = set_entity e (\<lambda>x. set_basic (f (basic_of x)) x)"

definition set_position_at :: "entity \<Rightarrow> (Position \<Rightarrow> Position) \<Rightarrow> map_world \<Rightarrow> map_world" where
  "set_position_at e f = set_entity e (\<lambda>x. set_position (f (position_of x)) x)"

definition teleport :: "env \<Rightarrow> entity \<Rightarrow> u16 \<Rightarrow> f32 \<Rightarrow> f32 \<Rightarrow> map_world \<Rightarrow> map_world option" where
  "teleport env e map_id x y w =
    (let w1 = set_position_at e (\<lambda>p. p\<lparr>p_x := x, p_y := y\<rparr>)
           (remove_destination env e (set_basic_at e (\<lambda>b. b\<lparr>b_targetId := 0\<rparr>) w))
     in case entity_at w1 e of
          None \<Rightarrow> None
        | Some x \<Rightarrow>
            if p_map (position_of x) = map_id then
              (case (mw_client w1 e, x) of
                 (Some _, PlayerE v) \<Rightarrow> Some (send_client e (W_TELEPORT_REPLY v) w1)
               | _ \<Rightarrow> None)
            else (case mw_client w1 e of
                None \<Rightarrow> Some w1
              | Some session \<Rightarrow>
                  let w2 = set_position_at e (\<lambda>p. p\<lparr>p_map := map_id\<rparr>) w1;
                      w3 = w2\<lparr>mw_switched := mw_switched w2 @ [e]\<rparr>;
                      w4 = send_client e (W_SWITCH_SERVER \<lparr>SrvSwitchServer.m_port = cfg_mapPort env + map_id,
                        m_sessionId = session, m_sessionSeed = 0, m_ip = cfg_serverIp env\<rparr>) w3
                  in Some (saveCharacter e w4)))"

text \<open>The gate an entity stands on; both distances are taken from its \<open>x\<close>.\<close>

definition is_on_warpgate :: "env \<Rightarrow> entity \<Rightarrow> map_world \<Rightarrow> entity option" where
  "is_on_warpgate env e w =
    (case entity_at w e of
       None \<Rightarrow> None
     | Some x \<Rightarrow>
         find (\<lambda>h. case entity_at w h of
             None \<Rightarrow> False
           | Some g \<Rightarrow> warpgate_of g \<noteq> None \<and>
               (let dx = f_sub env (p_x (position_of x)) (p_x (position_of g));
                    dy = f_sub env (p_x (position_of x)) (p_y (position_of g))
                in f_lt env (f_add env (f_mul env dx dx) (f_mul env dy dy)) 0x451C4000))
           (mw_grid w (get_grid_position env x)))"

definition move_entity :: "env \<Rightarrow> entity \<Rightarrow> map_world \<Rightarrow> map_world option" where
  "move_entity env e w =
    (case entity_at w e of
       None \<Rightarrow> Some w
     | Some x \<Rightarrow>
         (case (destination_of x, advanced_of x) of
            (Some d, Some a) \<Rightarrow>
              let p = position_of x;
                  dx = f_sub env (d_x d) (p_x p);
                  dy = f_sub env (d_y d) (p_y p);
                  distance = f_sqrt env (f_add env (f_mul env dx dx) (f_mul env dy dy));
                  w1 = set_entity e (set_destination (Some (d\<lparr>d_dist := f_to_u16 env distance\<rparr>))) w;
                  ntime = f_div env distance (f_of_u16 env (a_runSpeed a));
                  w2 = (if f_arrives env ntime \<or> f_zero env distance
                        then remove_destination env e (set_position_at e (\<lambda>q. q\<lparr>p_x := d_x d, p_y := d_y d\<rparr>) w1)
                        else set_position_at e (\<lambda>q. q\<lparr>p_x := f_advance env (p_x p) dx ntime,
                               p_y := f_advance env (p_y p) dy ntime\<rparr>) w1);
                  w3 = updatePosition env e (p_x p) (p_y p) w2
              in (case is_on_warpgate env e w3 of
                    None \<Rightarrow> Some w3
                  | Some h \<Rightarrow>
                      (case Option.bind (entity_at w3 h) destination_of of
                         None \<Rightarrow> None
                       | Some g \<Rightarrow> teleport env e (d_dist g) (d_x g) (d_y g) w3))
          | _ \<Rightarrow> Some w))"

definition MovementSystem_update :: "env \<Rightarrow> map_world \<Rightarrow> map_world option" where
  "MovementSystem_update env w = run_all (move_entity env) (map fst (mw_entities w)) w"

definition move :: "env \<Rightarrow> entity \<Rightarrow> f32 \<Rightarrow> f32 \<Rightarrow> u16 \<Rightarrow> map_world \<Rightarrow> map_world" where
  "move env e x y target w =
    (case entity_at w e of
       None \<Rightarrow> w
     | Some ent \<Rightarrow>
         let p = position_of ent;
             dx = f_sub env (p_x p) x;
             dy = f_sub env (p_y p) y;
             dist = f_to_u16 env (f_sqrt env (f_add env (f_mul env dx dx) (f_mul env dy dy)));
             d = (case destination_of ent of
                    Some d \<Rightarrow> d\<lparr>d_x := x, d_y := y, d_dist := dist\<rparr>
                  | None \<Rightarrow> \<lparr>d_x = x, d_y = y, d_z = 0, d_dist = dist\<rparr>);
             w1 = set_basic_at e (\<lambda>b. b\<lparr>b_targetId := target\<rparr>) (set_entity e (set_destination (Some d)) w)
         in case (mw_client w1 e, entity_at w1 e) of
              (Some _, Some (PlayerE v)) \<Rightarrow> world_send env (Some e) EVERYONE (W_MOUSE_CMD v) w1
            | _ \<Rightarrow> w1)"

definition processMove :: "env \<Rightarrow> entity \<Rightarrow> CliMouseCmd \<Rightarrow> map_world \<Rightarrow> map_world" where
  "processMove env e P w = move env e (CliMouseCmd.m_x P) (CliMouseCmd.m_y P) (CliMouseCmd.m_targetId P) w"

text \<open>\<open>stop\<close> takes the position the client claims only if it is near the one that was computed
  (\<open>POSITION_CHEATING\<close> is 100, the squared distance).\<close>

definition stop :: "env \<Rightarrow> entity \<Rightarrow> f32 \<Rightarrow> f32 \<Rightarrow> map_world \<Rightarrow> map_world" where
  "stop env e x y w =
    (case entity_at w e of
       None \<Rightarrow> w
     | Some ent \<Rightarrow>
         let w1 = remove_destination env e w;
             p = position_of ent;
             dx = f_sub env (p_x p) x;
             dy = f_sub env (p_y p) y
         in if f_lt env (f_add env (f_mul env dx dx) (f_mul env dy dy)) 0x42C80000
            then set_position_at e (\<lambda>p. p\<lparr>p_x := x, p_y := y\<rparr>) w1 else w1)"

definition stopMoving :: "env \<Rightarrow> entity \<Rightarrow> CliStopMoving \<Rightarrow> map_world \<Rightarrow> map_world" where
  "stopMoving env e P w = stop env e (CliStopMoving.m_x P) (CliStopMoving.m_y P) w"

section \<open>The update system\<close>

definition UpdateSystem_update :: "env \<Rightarrow> map_world \<Rightarrow> map_world" where
  "UpdateSystem_update env w =
    (let speeds = map (\<lambda>(e, x). (e, case x of PlayerE v \<Rightarrow> PlayerE (calculateSpeed (speed_mod env e) v) | _ \<Rightarrow> x)) (mw_entities w)
     in w\<lparr>mw_entities := map (\<lambda>(e, x). (e, set_basic (calculateCommand (destination_of x) (basic_of x)) x)) speeds\<rparr>)"

section \<open>Creating and destroying entities\<close>

text \<open>\<open>entityManager_.create()\<close> and the components; the function registered for \<open>Position\<close> puts the entity into the
  grid.\<close>

definition create_entity :: "env \<Rightarrow> world_entity \<Rightarrow> map_world \<Rightarrow> entity \<times> map_world" where
  "create_entity env x w =
    (let e = mw_created w; w1 = w\<lparr>mw_created := Suc e,
           mw_entities := take (entity_slot env) (mw_entities w) @ [(e, x)] @ drop (entity_slot env) (mw_entities w)\<rparr>
     in (e, w1\<lparr>mw_grid := (mw_grid w1)(get_grid_position env x := mw_grid w1 (get_grid_position env x) @ [e])\<rparr>))"

definition take_id :: "env \<Rightarrow> map_world \<Rightarrow> u16 \<times> map_world" where
  "take_id env w = (let (i, m) = get_free_id (id_begin env) (mw_id_manager w) in (i, w\<lparr>mw_id_manager := m\<rparr>))"

definition registerEntity :: "entity \<Rightarrow> map_world \<Rightarrow> map_world" where
  "registerEntity e w =
    (case entity_at w e of
       None \<Rightarrow> w
     | Some x \<Rightarrow>
         if b_name (basic_of x) = [] \<or> b_id (basic_of x) = 0 then w
         else w\<lparr>mw_nameToEntity := (mw_nameToEntity w)(b_name (basic_of x) := Some e),
                mw_idToEntity := (mw_idToEntity w)(ucast (b_id (basic_of x)) := Some e)\<rparr>)"

text \<open>\<open>loadCharacter\<close> on the world; the client then attaches its connection (\<open>CMapClient::JoinServerReply\<close>).\<close>

definition load_player :: "env \<Rightarrow> u32 \<Rightarrow> bool \<Rightarrow> character_tables \<Rightarrow> map_world \<Rightarrow> (entity option \<times> map_world) option" where
  "load_player env charId platinium t w =
    (let (i, w1) = take_id env w in
     case loadCharacter (env_db env) (env_scripts env) (speed_mod env (mw_created w)) i charId platinium t of
       None \<Rightarrow> None
     | Some None \<Rightarrow> Some (None, w)
     | Some (Some v) \<Rightarrow> let (e, w2) = create_entity env (PlayerE v) w1 in Some (Some e, registerEntity e w2))"

definition assign_client :: "entity \<Rightarrow> u32 \<Rightarrow> map_world \<Rightarrow> map_world" where
  "assign_client e session w = w\<lparr>mw_client := (mw_client w)(e := Some session)\<rparr>"

text \<open>The commands that \<open>create_warpgate\<close> and \<open>create_npc\<close> queue. \<open>create_warpgate\<close> does not assign a
  \<open>Warpgate\<close>. \<open>z\<close> is converted from a float; the coordinates are multiplied by 100.\<close>

definition create_warpgate :: "env \<Rightarrow> u16 \<Rightarrow> f32 \<Rightarrow> f32 \<Rightarrow> f32 \<Rightarrow> u16 \<Rightarrow> f32 \<Rightarrow> f32 \<Rightarrow> f32 \<Rightarrow> f32 \<Rightarrow> map_world \<Rightarrow> map_world" where
  "create_warpgate env dest_map dest_x dest_y dest_z map_id x y z angle w =
    (let (i, w1) = take_id env w;
         p = (Position_new (f_mul env x 0x42C80000) (f_mul env y 0x42C80000) map_id 0)\<lparr>p_z := f_to_u16 env z, p_angle := angle\<rparr>;
         d = \<lparr>d_x = f_mul env dest_x 0x42C80000, d_y = f_mul env dest_y 0x42C80000, d_z = f_to_u16 env dest_z, d_dist = dest_map\<rparr>
     in snd (create_entity env (GateE (BasicInfo_new i) p (Some d) None) w1))"

text \<open>Default constructed components; \<open>fame_\<close> is not initialised.\<close>

definition AdvancedInfo_new :: AdvancedInfo where
  "AdvancedInfo_new = \<lparr>a_zuly = 0, a_hp = 0, a_mp = 0, a_moveMode = 1, a_runSpeed = 0, a_atkSpeed = 0, a_weightRate = 0\<rparr>"

definition CharacterInfo_new :: "u8 \<Rightarrow> CharacterInfo" where
  "CharacterInfo_new fame = \<lparr>c_job = 0, c_stone = 0, c_statPoints = 0, c_skillPoints = 0, c_penaltyXp = 0, c_deleteDate = 0,
     c_platinium = False, c_factionId = 0, c_factionRank = 0, c_fame = fame, c_factionFame = replicate 2 0,
     c_factionPoints = replicate 10 0, c_guildId = 0, c_guildContribution = 0, c_guildRank = 0, c_pkFlag = 0,
     c_statusFlag = 0, c_subFlag = 0, c_stamina = 0, c_patHp = 0, c_patCooldownTime = 0, c_charId = 0\<rparr>"

definition create_npc :: "env \<Rightarrow> u8 \<Rightarrow> u16 \<Rightarrow> u16 \<Rightarrow> u16 \<Rightarrow> f32 \<Rightarrow> f32 \<Rightarrow> f32 \<Rightarrow> f32 \<Rightarrow> map_world \<Rightarrow> map_world" where
  "create_npc env fame npc_id dialog_id map_id x y z angle w =
    (let (i, w1) = take_id env w;
         p = (Position_new (f_mul env x 0x42C80000) (f_mul env y 0x42C80000) map_id 0)\<lparr>p_z := f_to_u16 env z, p_angle := angle\<rparr>;
         n = \<lparr>n_basic = BasicInfo_new i, n_advanced = AdvancedInfo_new, n_info = CharacterInfo_new fame, n_position = p, n_destination = None,
              n_npc_id = npc_id, n_quest_id = dialog_id\<rparr>;
         (e, w2) = create_entity env (NpcE n) w1
     in world_send env None EVERYONE (W_NPC_CHAR e n) w2)"

text \<open>\<open>buildItemEntity\<close>: an item on the ground.\<close>

definition build_item_entity :: "env \<Rightarrow> entity \<Rightarrow> Item \<Rightarrow> map_world \<Rightarrow> (entity \<times> map_world) option" where
  "build_item_entity env creator item w =
    (case entity_at w creator of
       None \<Rightarrow> None
     | Some x \<Rightarrow>
         let (i, w1) = take_id env w;
             p = Position_new (p_x (position_of x)) (p_y (position_of x)) (p_map (position_of x)) 0;
             b = (BasicInfo_new i)\<lparr>b_ownerId := b_id (basic_of x)\<rparr>;
             (e, w2) = create_entity env (ItemE b p item) w1
         in Some (e, w2\<lparr>mw_itemToEntity := (mw_itemToEntity w2)(ucast i := Some e)\<rparr>))"

definition Stats_new :: Stats where
  "Stats_new = \<lparr>s_maxHp = 0, s_maxMp = 0, s_str = 0, s_dex = 0, s_int = 0, s_con = 0, s_charm = 0, s_sense = 0,
     s_bodySize = 100, s_headSize = 100\<rparr>"

definition CharacterGraphics_new :: CharacterGraphics where
  "CharacterGraphics_new = \<lparr>g_face = 0, g_hair = 0, g_race = 0\<rparr>"

text \<open>What the party system sees of the world, and what it changes. Only players are in parties.\<close>

definition party_view :: "map_world \<Rightarrow> party_world" where
  "party_view w = \<lparr>w_character = (\<lambda>e. case entity_at w e of
       Some (PlayerE v) \<Rightarrow> character.truncate v
     | _ \<Rightarrow> \<lparr>position = Position_new 0 0 0 0, basicInfo = BasicInfo_new 0, stats = Stats_new, advancedInfo = AdvancedInfo_new,
         graphics = CharacterGraphics_new, characterInfo = CharacterInfo_new 0\<rparr>),
     w_client = (\<lambda>e. mw_client w e \<noteq> None), w_idToEntity = mw_idToEntity w, w_party = mw_party w, w_parties = mw_parties w, w_sent = []\<rparr>"

definition party_back :: "party_world \<Rightarrow> map_world \<Rightarrow> map_world" where
  "party_back p w = fold (\<lambda>(e, q). send_client e (W_PARTY q)) (w_sent p) (w\<lparr>mw_party := w_party p, mw_parties := w_parties p\<rparr>)"

text \<open>\<open>entity.destroy()\<close>. If the functions for removed components run, those nearby learn that the entity stopped, it
  leaves its party, and the grid.\<close>

definition erase_entity :: "entity \<Rightarrow> map_world \<Rightarrow> map_world" where
  "erase_entity e w = w\<lparr>mw_entities := filter (\<lambda>(h, _). h \<noteq> e) (mw_entities w), mw_client := (mw_client w)(e := None),
     mw_party := (mw_party w)(e := None)\<rparr>"

definition leave_grid :: "env \<Rightarrow> entity \<Rightarrow> world_entity \<Rightarrow> map_world \<Rightarrow> map_world" where
  "leave_grid env e x w = w\<lparr>mw_grid := (mw_grid w)(get_grid_position env x := std_remove e (mw_grid w (get_grid_position env x)))\<rparr>"

definition destroy_entity :: "env \<Rightarrow> entity \<Rightarrow> map_world \<Rightarrow> map_world option" where
  "destroy_entity env e w =
    (case entity_at w e of
       None \<Rightarrow> Some w
     | Some x \<Rightarrow>
         if \<not> destroy_notifies env then Some (erase_entity e w)
         else
           let w1 = (if destination_of x \<noteq> None then remove_destination env e w else w) in
           case (if mw_party w1 e = None then Some w1 else map_option (\<lambda>p. party_back p w1) (remove_party e (party_view w1))) of
             None \<Rightarrow> None
           | Some w2 \<Rightarrow> Some (erase_entity e (leave_grid env e x w2)))"

text \<open>The two parts of \<open>EntitySystem::destroy\<close>, at once and in the queued command, and the command of \<open>bulk_destroy\<close>.\<close>

definition leave_map :: "entity \<Rightarrow> map_world \<Rightarrow> map_world" where
  "leave_map e = set_basic_at e (\<lambda>b. b\<lparr>b_isOnMap := False\<rparr>)"

definition destroy_command :: "env \<Rightarrow> entity \<Rightarrow> bool \<Rightarrow> map_world \<Rightarrow> map_world option" where
  "destroy_command env e save w =
    (case entity_at w e of
       None \<Rightarrow> Some w
     | Some x \<Rightarrow>
         if warpgate_of x \<noteq> None then destroy_entity env e w
         else
           let b = basic_of x;
               w1 = (if mw_client w e \<noteq> None
                     then world_send env (Some e) EVERYONE_BUT_ME_ON_MAP (W_REMOVE_OBJECT (b_id b)) w
                     else world_send env None EVERYONE (W_REMOVE_OBJECT (b_id b)) w);
               release = (\<lambda>w. w\<lparr>mw_nameToEntity := (mw_nameToEntity w)(b_name b := None),
                 mw_idToEntity := (mw_idToEntity w)(ucast (b_id b) := None),
                 mw_id_manager := release_id (b_id b) (mw_id_manager w)\<rparr>)
           in case x of
                NpcE n \<Rightarrow> destroy_entity env e w1
              | PlayerE v \<Rightarrow> destroy_entity env e (release (if save then saveCharacter e w1 else w1))
              | _ \<Rightarrow> if save then None else destroy_entity env e (release w1))"

definition bulk_destroy :: "env \<Rightarrow> entity list \<Rightarrow> map_world \<Rightarrow> map_world option" where
  "bulk_destroy env es w = run_all (\<lambda>e w.
     case entity_at w e of
       None \<Rightarrow> Some w
     | Some x \<Rightarrow> destroy_entity env e
         (if warpgate_of x = None then world_send env None EVERYONE (W_REMOVE_OBJECT (b_id (basic_of x))) w else w)) es w"

end
