(* ===== verification/WorldSystems.thy ===== *)
theory WorldSystems
  imports MapWorld
begin

text \<open>
  The systems of a map that talk to players: \<open>map/src/systems/chatsystem.cpp\<close>, \<open>map/src/systems/mapsystem.cpp\<close>
  and the commands of game masters (\<open>map/src/gm_commands.cpp\<close>), and what happens in a map as a whole.
\<close>

section \<open>Text\<close>

text \<open>\<open>std::to_string\<close> and \<open>fmt::format\<close> of an unsigned number.\<close>

fun decimal :: "nat \<Rightarrow> cstring" where
  "decimal n = (if n < 10 then [of_nat (48 + n)] else decimal (n div 10) @ [of_nat (48 + n mod 10)])"

declare decimal.simps [simp del]

text \<open>Reading from a \<open>std::stringstream\<close>: what is left of the text, and whether an extraction failed. The extraction
  of a number skips blanks, reads a sign and digits, and yields the largest number and fails if there are too
  many; after a failure nothing is read.\<close>

type_synonym stream = "cstring \<times> bool"

definition is_space :: "byte \<Rightarrow> bool" where
  "is_space c \<longleftrightarrow> c = 32 \<or> (9 \<le> c \<and> c \<le> 13)"

definition is_digit :: "byte \<Rightarrow> bool" where
  "is_digit c \<longleftrightarrow> 48 \<le> c \<and> c \<le> 57"

fun number :: "nat \<Rightarrow> cstring \<Rightarrow> nat" where
  "number n [] = n"
| "number n (c # cs) = number (10 * n + (unat c - 48)) cs"

definition read_word :: "stream \<Rightarrow> cstring \<times> stream" where
  "read_word st = (let s = dropWhile is_space (fst st); word = takeWhile (\<lambda>c. \<not> is_space c) s in
     if snd st then ([], st) else (word, drop (length word) s, word = []))"

definition read_u16 :: "stream \<Rightarrow> u16 \<times> stream" where
  "read_u16 st =
    (if snd st then (0, st)
     else
       let s = dropWhile is_space (fst st);
           negative = (s \<noteq> [] \<and> hd s = 45);
           s1 = (if s \<noteq> [] \<and> (hd s = 45 \<or> hd s = 43) then tl s else s);
           digits = takeWhile is_digit s1;
           rest = drop (length digits) s1
       in if digits = [] then (0, rest, True)
          else if 65535 < number 0 digits then (65535, rest, True)
          else ((if negative then - of_nat (number 0 digits) else of_nat (number 0 digits)), rest, False))"

definition read_float :: "env \<Rightarrow> stream \<Rightarrow> f32 \<times> stream" where
  "read_float env st =
    (if snd st then (0, st)
     else case f_parse env (dropWhile is_space (fst st)) of
       None \<Rightarrow> (0, fst st, True)
     | Some (x, rest) \<Rightarrow> (x, rest, False))"

section \<open>Commands of game masters\<close>

definition gm_help :: "(string \<times> string) list" where
  "gm_help = [(''/item'', ''Creates an item. Usage: /item <type> <id>''), (''/load_npc'', ''Loads npc(s). TODO''),
     (''/tp'', ''Teleports a player or self. Usage: /tp <map_id> <x> <y> [client_id]'')]"

definition whisper :: "entity \<Rightarrow> string \<Rightarrow> cstring \<Rightarrow> map_world \<Rightarrow> map_world" where
  "whisper e from text w = send_client e (W_WHISPER_CHAT \<lparr>m_senderId = ascii from, m_message = text\<rparr>) w"

text \<open>With no command named, \<open>help\<close> lists all, in the order of the hash map.\<close>

definition gm_usage :: "env \<Rightarrow> entity \<Rightarrow> string \<Rightarrow> map_world \<Rightarrow> map_world" where
  "gm_usage env e command w =
    (let line = (\<lambda>(key, text). ascii key @ [32] @ ascii text); w1 = whisper e '''' (ascii ''help:'') w in
     if command \<noteq> '''' then
       whisper e '''' (line (command, case map_of gm_help command of None \<Rightarrow> '''' | Some t \<Rightarrow> t)) w1
     else fold (\<lambda>k. whisper e '''' (line (gm_help ! k))) (gm_order env) w1)"

text \<open>The inventory system works on the part of an entity it uses.\<close>

definition player_of :: "entity \<Rightarrow> avatar \<Rightarrow> map_world \<Rightarrow> player" where
  "player_of e v w = \<lparr>m_items = Some (v_items v), m_basic_id = b_id (basicInfo v), player.m_x = p_x (position v),
     m_y = p_y (position v), m_has_client = (mw_client w e \<noteq> None), m_ground = [], m_sent = []\<rparr>"

definition deliver_inventory :: "env \<Rightarrow> entity \<Rightarrow> player \<Rightarrow> map_world \<Rightarrow> map_world" where
  "deliver_inventory env e p w = fold (\<lambda>(r, q). case r of
       Self \<Rightarrow> send_client e (W_INVENTORY q)
     | Everyone \<Rightarrow> world_send env (Some e) EVERYONE (W_INVENTORY q)) (m_sent p)
     (set_entity e (\<lambda>x. case x of PlayerE v \<Rightarrow> PlayerE (v\<lparr>v_items := (case m_items p of Some is \<Rightarrow> is | None \<Rightarrow> v_items v)\<rparr>) | _ \<Rightarrow> x) w)"

definition gm_item :: "env \<Rightarrow> stream \<Rightarrow> entity \<Rightarrow> map_world \<Rightarrow> map_world option" where
  "gm_item env st e w =
    (let (type, st1) = read_u16 st; (i, st2) = read_u16 st1 in
     case entity_at w e of
       Some (PlayerE v) \<Rightarrow>
         if type = 0 \<or> i = 0 then Some (gm_usage env e ''/item'' w)
         else if \<not> itemExists (env_db env) (ucast type) i then
           Some (whisper e '''' (decimal (unat type) @ [32] @ decimal (unat i) @ ascii '' doesn't exists'') w)
         else (case buildItem (env_db env) (env_scripts env) (ucast type) i 1000 True of
             None \<Rightarrow> None
           | Some None \<Rightarrow> Some (whisper e '''' (ascii ''Error while building the object, check the logs'') w)
           | Some (Some item) \<Rightarrow>
               (case addItem (env_lua env) item (player_of e v w) of
                  None \<Rightarrow> None
                | Some (False, p) \<Rightarrow> Some (whisper e '''' (ascii ''Inventory full'') w)
                | Some (True, p) \<Rightarrow> Some (whisper e ''''
                    (ascii ''Item '' @ decimal (unat type) @ ascii '':'' @ decimal (unat i) @ ascii '' added'')
                    (deliver_inventory env e p w))))
     | _ \<Rightarrow> None)"

definition gm_teleport :: "env \<Rightarrow> stream \<Rightarrow> entity \<Rightarrow> map_world \<Rightarrow> map_world option" where
  "gm_teleport env st e w =
    (let (map_id, st1) = read_u16 st; (x, st2) = read_float env st1; (y, st3) = read_float env st2 in
     if map_id = 0 \<or> f_zero env x \<or> f_zero env y then Some (gm_usage env e ''/tp'' w)
     else MapWorld.teleport env e map_id (f_mul env x 0x42C80000) (f_mul env y 0x42C80000) w)"

text \<open>\<open>executeGM\<close>: whether the text was a command. \<open>/load_npc\<close> runs the Lua scripts that queue commands to create
  and destroy entities, so it changes nothing at once.\<close>

definition executeGM :: "env \<Rightarrow> cstring \<Rightarrow> entity \<Rightarrow> map_world \<Rightarrow> (bool \<times> map_world) option" where
  "executeGM env message e w =
    (if message = [] \<or> hd message \<noteq> 47 then Some (False, w)
     else if message = ascii ''/help'' then Some (True, gm_usage env e '''' w)
     else
       let (command, st) = read_word (message, False) in
       if command = ascii ''/item'' then map_option (Pair True) (gm_item env st e w)
       else if command = ascii ''/load_npc'' then Some (True, w)
       else if command = ascii ''/tp'' then map_option (Pair True) (gm_teleport env st e w)
       else Some (False, w))"

section \<open>The chat system\<close>

text \<open>The handlers are called for an entity with a client.\<close>

definition sendMsg :: "entity \<Rightarrow> cstring \<Rightarrow> map_world \<Rightarrow> map_world" where
  "sendMsg e msg w =
    (if entity_at w e = None \<or> mw_client w e = None then w else whisper e ''server'' msg w)"

definition normalChat :: "env \<Rightarrow> entity \<Rightarrow> CliNormalChat \<Rightarrow> map_world \<Rightarrow> map_world option" where
  "normalChat env e P w =
    (case entity_at w e of
       None \<Rightarrow> Some w
     | Some x \<Rightarrow>
         (case executeGM env (CliNormalChat.m_message P) e w of
            None \<Rightarrow> None
          | Some (True, w1) \<Rightarrow> Some w1
          | Some (False, w1) \<Rightarrow> Some (world_send env (Some e) NEARBY
              (W_NORMAL_CHAT \<lparr>SrvNormalChat.m_charId = b_id (basic_of x), m_message = CliNormalChat.m_message P\<rparr>) w1)))"

definition whisperChat :: "entity \<Rightarrow> CliWhisperChat \<Rightarrow> map_world \<Rightarrow> map_world" where
  "whisperChat e P w =
    (case entity_at w e of
       None \<Rightarrow> w
     | Some x \<Rightarrow>
         (case mw_nameToEntity w (CliWhisperChat.m_targetId P) of
            Some target \<Rightarrow>
              if entity_at w target = None \<or> mw_client w target = None
              then whisper e '''' (ascii ''User cannot be found or is offline'') w
              else send_client target
                (W_WHISPER_CHAT \<lparr>m_senderId = b_name (basic_of x), m_message = CliWhisperChat.m_message P\<rparr>) w
          | None \<Rightarrow> whisper e '''' (ascii ''User cannot be found or is offline'') w))"

definition partyChat :: "entity \<Rightarrow> CliPartyChat \<Rightarrow> map_world \<Rightarrow> map_world option" where
  "partyChat e P w =
    (case entity_at w e of
       None \<Rightarrow> Some w
     | Some x \<Rightarrow>
         (case Option.bind (mw_party w e) party of
            None \<Rightarrow> Some w
          | Some k \<Rightarrow>
              if length (mw_parties w) \<le> k then None
              else Some (fold (\<lambda>m w. if mw_client w m = None then w else send_client m
                (W_PARTY_CHAT \<lparr>SrvPartyChat.m_charId = b_id (basic_of x), m_message = CliPartyChat.m_message P\<rparr>) w)
                (pb_members (mw_parties w ! k)) w)))"

section \<open>The map system\<close>

text \<open>The two loops over the entities: those with a \<open>BasicInfo\<close>, then the items.\<close>

fun show_entity :: "entity \<Rightarrow> entity \<times> world_entity \<Rightarrow> map_world \<Rightarrow> map_world option" where
  "show_entity me (e, NpcE n) w = Some (send_client me (W_NPC_CHAR e n) w)"
| "show_entity me (e, PlayerE v) w =
    Some (if e \<noteq> me \<and> b_isOnMap (basicInfo v) then send_client me (W_PLAYER_CHAR e v) w else w)"
| "show_entity me (e, ItemE b p i) w = (if e \<noteq> me \<and> b_isOnMap b then None else Some w)"
| "show_entity me (e, GateE b p d g) w = (if e \<noteq> me \<and> b_isOnMap b then None else Some w)"

fun show_item :: "entity \<Rightarrow> entity \<times> world_entity \<Rightarrow> map_world \<Rightarrow> map_world option" where
  "show_item me (e, ItemE b p i) w = Some (send_client me (W_DROP_ITEM b p i) w)"
| "show_item me _ w = Some w"

definition processChangeMapReq :: "env \<Rightarrow> entity \<Rightarrow> map_world \<Rightarrow> map_world option" where
  "processChangeMapReq env me w =
    (case entity_at w me of
       Some (PlayerE v) \<Rightarrow>
         let i = b_id (basicInfo v);
             w1 = send_client me (W_CHANGE_MAP_REPLY (SrvChangeMapReply_new i (ucast (a_hp (advancedInfo v)))
               (ucast (a_mp (advancedInfo v))) (ucast (b_xp (basicInfo v))) (ucast (c_penaltyXp (characterInfo v)))
               (ucast (now_time env)) 0)) w;
             w2 = sendMsg me (ascii ''You are client '' @ decimal (unat i)) w1;
             w3 = world_send env (Some me) EVERYONE_BUT_ME_ON_MAP (W_PLAYER_CHAR me v) w2
         in Option.bind (run_all (show_entity me) (mw_entities w) w3) (\<lambda>w4.
            Option.bind (run_all (show_item me) (mw_entities w) w4) (\<lambda>w5.
            Some (set_basic_at me (\<lambda>b. b\<lparr>b_isOnMap := True\<rparr>) w5)))
     | _ \<Rightarrow> None)"

section \<open>Items and parties\<close>

text \<open>The handlers of the inventory and the party system, on the world. An item that is dropped becomes an entity with
  the next identifier.\<close>

definition equip_item :: "env \<Rightarrow> entity \<Rightarrow> CliEquipItem \<Rightarrow> map_world \<Rightarrow> map_world option" where
  "equip_item env e P w =
    (case entity_at w e of
       Some (PlayerE v) \<Rightarrow> map_option (\<lambda>p. deliver_inventory env e p w) (processEquip (env_lua env) P (player_of e v w))
     | _ \<Rightarrow> None)"

definition drop_item :: "env \<Rightarrow> entity \<Rightarrow> CliDropItem \<Rightarrow> map_world \<Rightarrow> map_world option" where
  "drop_item env e P w =
    (case entity_at w e of
       Some (PlayerE v) \<Rightarrow>
         (case dropItem (env_lua env) (fst (take_id env w)) P (player_of e v w) of
            None \<Rightarrow> None
          | Some p \<Rightarrow>
              (case m_ground p of
                 [] \<Rightarrow> Some (deliver_inventory env e p w)
               | (i, item) # _ \<Rightarrow> map_option snd (build_item_entity env e item (deliver_inventory env e p w))))
     | _ \<Rightarrow> None)"

definition party_req :: "entity \<Rightarrow> CliPartyReq \<Rightarrow> map_world \<Rightarrow> map_world option" where
  "party_req e P w = map_option (\<lambda>p. party_back p w) (processPartyReq e P (party_view w))"

definition party_answer :: "entity \<Rightarrow> CliPartyReply \<Rightarrow> map_world \<Rightarrow> map_world option" where
  "party_answer e P w = map_option (\<lambda>p. party_back p w) (processPartyReply e P (party_view w))"

definition update_parties :: "map_world \<Rightarrow> map_world option" where
  "update_parties w = map_option (\<lambda>p. party_back p w) (PartySystem_update (map fst (mw_entities w)) (party_view w))"

section \<open>What an operation leaves alone\<close>

text \<open>The kind of every entity and whether it is on the map. Most operations change neither, nor the clients, and only
  add to what was sent: \<open>same_stage\<close>.\<close>

fun kind_of :: "world_entity \<Rightarrow> nat" where
  "kind_of (PlayerE v) = 0"
| "kind_of (NpcE n) = 1"
| "kind_of (ItemE b p i) = 2"
| "kind_of (GateE b p d g) = (if g = None then 3 else 4)"

definition tag :: "world_entity \<Rightarrow> nat \<times> bool" where
  "tag x = (kind_of x, b_isOnMap (basic_of x))"

definition tags :: "map_world \<Rightarrow> (entity \<times> nat \<times> bool) list" where
  "tags w = map (\<lambda>(e, x). (e, tag x)) (mw_entities w)"

definition same_stage :: "map_world \<Rightarrow> map_world \<Rightarrow> bool" where
  "same_stage w w' \<longleftrightarrow> tags w' = tags w \<and> mw_client w' = mw_client w \<and> mw_created w' = mw_created w
     \<and> set (mw_sent w) \<subseteq> set (mw_sent w')"

named_theorems stage_intros

lemma same_stage_refl [stage_intros]: "same_stage w w"
  by (simp add: same_stage_def)

lemma same_stage_trans: "same_stage u v \<Longrightarrow> same_stage v w \<Longrightarrow> same_stage u w"
  by (auto simp: same_stage_def)

lemma same_stage_sent [stage_intros]: "same_stage u w \<Longrightarrow> same_stage u (send_client e p w)"
  "same_stage u w \<Longrightarrow> same_stage u (world_send env src ty p w)"
  by (auto simp: same_stage_def send_client_def world_send_def tags_def)

lemma same_stage_fields [stage_intros]:
  "same_stage u w \<Longrightarrow> same_stage u (w\<lparr>mw_grid := g\<rparr>)"
  "same_stage u w \<Longrightarrow> same_stage u (w\<lparr>mw_saved := sv\<rparr>)"
  "same_stage u w \<Longrightarrow> same_stage u (w\<lparr>mw_switched := sw\<rparr>)"
  "same_stage u w \<Longrightarrow> same_stage u (w\<lparr>mw_party := p, mw_parties := ps\<rparr>)"
  "same_stage u w \<Longrightarrow> same_stage u (w\<lparr>mw_id_manager := m\<rparr>)"
  "same_stage u w \<Longrightarrow> same_stage u (w\<lparr>mw_itemToEntity := it\<rparr>)"
  "same_stage u w \<Longrightarrow> same_stage u (w\<lparr>mw_nameToEntity := nt, mw_idToEntity := idt\<rparr>)"
  "same_stage u w \<Longrightarrow> same_stage u (w\<lparr>mw_nameToEntity := nt, mw_idToEntity := idt, mw_id_manager := m\<rparr>)"
  by (auto simp: same_stage_def tags_def)

lemma same_stage_entity:
  assumes "\<And>x. tag (f x) = tag x" and "same_stage u w"
  shows "same_stage u (set_entity e f w)"
proof -
  have "tags (set_entity e f w) = tags w"
    using assms(1) by (auto simp: tags_def set_entity_def)
  then show ?thesis using assms(2) by (simp add: same_stage_def set_entity_def)
qed

lemma tag_setters [simp]:
  "tag (set_destination d x) = tag x" "tag (set_position q x) = tag x"
  "b_isOnMap b = b_isOnMap (basic_of x) \<Longrightarrow> tag (set_basic b x) = tag x"
  by (cases x; simp add: tag_def)+

lemma same_stage_setters [stage_intros]:
  "same_stage u w \<Longrightarrow> same_stage u (set_entity e (set_destination d) w)"
  "same_stage u w \<Longrightarrow> same_stage u (set_position_at e f w)"
  "same_stage u w \<Longrightarrow> (\<And>b. b_isOnMap (h b) = b_isOnMap b) \<Longrightarrow> same_stage u (set_basic_at e h w)"
  unfolding set_position_at_def set_basic_at_def by (auto intro: same_stage_entity)

lemma same_stage_moves [stage_intros]:
  "same_stage u w \<Longrightarrow> same_stage u (remove_destination env e w)"
  "same_stage u w \<Longrightarrow> same_stage u (updatePosition env e x y w)"
  "same_stage u w \<Longrightarrow> same_stage u (saveCharacter e w)"
  by (auto simp: remove_destination_def updatePosition_def saveCharacter_def Let_def
      split: option.splits world_entity.splits intro!: stage_intros)

lemma same_stage_teleport:
  "teleport env e m x y w = Some w' \<Longrightarrow> same_stage u w \<Longrightarrow> same_stage u w'"
  by (auto simp: teleport_def Let_def split: option.splits world_entity.splits if_splits intro!: stage_intros)

lemma same_stage_move_entity: "move_entity env e w = Some w' \<Longrightarrow> same_stage u w \<Longrightarrow> same_stage u w'"
  by (auto simp: move_entity_def Let_def split: option.splits if_splits
      elim!: same_stage_teleport intro!: stage_intros)

lemma same_stage_run_all:
  assumes "\<And>x w w'. f x w = Some w' \<Longrightarrow> same_stage w w'" and "run_all f xs w = Some w'"
  shows "same_stage w w'"
  using assms(2)
proof (induction xs arbitrary: w)
  case (Cons x xs)
  then obtain w1 where "f x w = Some w1" "run_all f xs w1 = Some w'" by (auto split: option.splits)
  then show ?case using Cons.IH assms(1) same_stage_trans by blast
qed (simp add: same_stage_refl)

lemma same_stage_fold:
  assumes "\<And>x w. same_stage w (f x w)"
  shows "same_stage w (fold f xs w)"
proof (induction xs arbitrary: w)
  case (Cons x xs)
  then show ?case using same_stage_trans [OF assms Cons.IH] by simp
qed (simp add: same_stage_refl)

lemma same_stage_whisper [stage_intros]: "same_stage u w \<Longrightarrow> same_stage u (whisper e f t w)"
  "same_stage u w \<Longrightarrow> same_stage u (sendMsg e m w)"
  by (auto simp: whisper_def sendMsg_def intro!: stage_intros)

lemma same_stage_usage [stage_intros]: "same_stage u w \<Longrightarrow> same_stage u (gm_usage env e c w)"
  by (auto simp: gm_usage_def Let_def intro!: stage_intros intro: same_stage_trans same_stage_fold)

lemma same_stage_inventory [stage_intros]:
  assumes "same_stage u w"
  shows "same_stage u (deliver_inventory env e p w)"
  unfolding deliver_inventory_def
proof (rule same_stage_trans [OF _ same_stage_fold])
  show "same_stage u (set_entity e (\<lambda>x. case x of PlayerE v \<Rightarrow>
      PlayerE (v\<lparr>v_items := (case m_items p of Some is \<Rightarrow> is | None \<Rightarrow> v_items v)\<rparr>) | _ \<Rightarrow> x) w)"
    by (rule same_stage_entity [OF _ assms]) (simp add: tag_def split: world_entity.splits)
qed (auto split: recipient.splits intro!: stage_intros)

lemma same_stage_party_back [stage_intros]:
  assumes "same_stage u w"
  shows "same_stage u (party_back p w)"
  unfolding party_back_def
proof (rule same_stage_trans [OF _ same_stage_fold])
  show "same_stage u (w\<lparr>mw_party := w_party p, mw_parties := w_parties p\<rparr>)" by (intro stage_intros assms)
qed (auto intro!: stage_intros)

lemma same_stage_party: "party_req e P w = Some w' \<Longrightarrow> same_stage w w'" "party_answer e Q w = Some w' \<Longrightarrow> same_stage w w'"
  "update_parties w = Some w' \<Longrightarrow> same_stage w w'"
  by (auto simp: party_req_def party_answer_def update_parties_def intro!: stage_intros)

lemma same_stage_equip: "equip_item env e P w = Some w' \<Longrightarrow> same_stage w w'"
  by (auto simp: equip_item_def split: option.splits world_entity.splits intro!: stage_intros)

lemma same_stage_gm: "executeGM env message e w = Some (b, w') \<Longrightarrow> same_stage w w'"
  by (auto simp: executeGM_def gm_item_def gm_teleport_def split: if_splits option.splits prod.splits world_entity.splits bool.splits
      intro!: stage_intros elim!: same_stage_teleport)

lemma same_stage_chats:
  "normalChat env e P w = Some w' \<Longrightarrow> same_stage w w'"
  "same_stage w (whisperChat e Q w)"
  "partyChat e R w = Some w' \<Longrightarrow> same_stage w w'"
  by (auto simp: normalChat_def whisperChat_def partyChat_def split: option.splits bool.splits if_splits
      dest: same_stage_gm intro!: stage_intros same_stage_fold)

lemma same_stage_walks [stage_intros]:
  "same_stage w (processMove env e P w)" "same_stage w (stopMoving env e Q w)"
  by (auto simp: processMove_def move_def stopMoving_def stop_def Let_def split: option.splits world_entity.splits intro!: stage_intros)

lemma same_stage_updates:
  "MovementSystem_update env w = Some w' \<Longrightarrow> same_stage w w'" "same_stage w (UpdateSystem_update env w)"
proof -
  show "same_stage w w'" if "MovementSystem_update env w = Some w'"
    using that unfolding MovementSystem_update_def
    by (rule same_stage_run_all [rotated]) (blast intro: same_stage_move_entity same_stage_refl)
  have "tag (set_basic (calculateCommand d (basic_of x)) x) = tag x" for d x
    by (rule tag_setters) (simp add: calculateCommand_def)
  moreover have "tag (case x of PlayerE v \<Rightarrow> PlayerE (calculateSpeed m v) | _ \<Rightarrow> x) = tag x" for m x
    by (cases x) (simp_all add: tag_def calculateSpeed_def Let_def)
  ultimately show "same_stage w (UpdateSystem_update env w)"
    by (auto simp: same_stage_def tags_def UpdateSystem_update_def Let_def)
qed

section \<open>What players see\<close>

fun shows_player :: "delivery \<Rightarrow> entity \<Rightarrow> entity \<Rightarrow> bool" where
  "shows_player (Sent a (W_PLAYER_CHAR b v)) x y = (a = x \<and> b = y)"
| "shows_player (Broadcast ty es (W_PLAYER_CHAR b v)) x y = (x \<in> set es \<and> b = y)"
| "shows_player _ x y = False"

fun shows_npc :: "delivery \<Rightarrow> entity \<Rightarrow> entity \<Rightarrow> bool" where
  "shows_npc (Sent a (W_NPC_CHAR b n)) x y = (a = x \<and> b = y)"
| "shows_npc (Broadcast ty es (W_NPC_CHAR b n)) x y = (x \<in> set es \<and> b = y)"
| "shows_npc _ x y = False"

text \<open>A player on the map with a client has been shown every other player on the map and every NPC.\<close>

definition seen :: "map_world \<Rightarrow> entity \<Rightarrow> bool" where
  "seen w a \<longleftrightarrow> (\<forall>b. b \<noteq> a \<longrightarrow> map_of (tags w) b = Some (0, True) \<longrightarrow> (\<exists>d \<in> set (mw_sent w). shows_player d a b))
     \<and> (\<forall>b flag. map_of (tags w) b = Some (1, flag) \<longrightarrow> (\<exists>d \<in> set (mw_sent w). shows_npc d a b))"

definition proper_tags :: "(entity \<times> nat \<times> bool) list \<Rightarrow> bool" where
  "proper_tags ts \<longleftrightarrow> (\<forall>(e, k, flag) \<in> set ts. (flag \<longrightarrow> k = 0) \<and> k \<noteq> 4)"

definition sight_inv :: "map_world \<Rightarrow> bool" where
  "sight_inv w \<longleftrightarrow> distinct (map fst (tags w)) \<and> (\<forall>e \<in> fst ` set (tags w). e < mw_created w)
     \<and> proper_tags (tags w)
     \<and> (\<forall>a. map_of (tags w) a = Some (0, True) \<longrightarrow> mw_client w a \<noteq> None \<longrightarrow> seen w a)
     \<and> (\<forall>a. mw_client w a \<noteq> None \<longrightarrow> a < mw_created w)"

lemma seen_mono:
  assumes "seen w a" and "set (mw_sent w) \<subseteq> set (mw_sent w')" and "tags w' = tags w"
  shows "seen w' a"
  using assms unfolding seen_def by (metis subsetD)

lemma sight_same_stage: "same_stage w w' \<Longrightarrow> sight_inv w \<Longrightarrow> sight_inv w'"
  unfolding same_stage_def sight_inv_def by (auto intro: seen_mono)

lemma isOnMap_tags: "isOnMap e w \<longleftrightarrow> (\<exists>k. map_of (tags w) e = Some (k, True))"
  by (auto simp: isOnMap_def tags_def map_of_map tag_def split: option.splits)

lemma entity_at_tags: "map_of (tags w) e = map_option tag (entity_at w e)"
  by (simp add: tags_def map_of_map)

lemma same_stage_ids: "take_id env w = (i, w') \<Longrightarrow> same_stage w w'"
  by (auto simp: take_id_def split: prod.splits intro!: stage_intros)

lemma same_stage_register [stage_intros]: "same_stage u w \<Longrightarrow> same_stage u (registerEntity e w)"
  by (auto simp: registerEntity_def Let_def split: option.splits intro!: stage_intros)

subsection \<open>Entities that come and go\<close>

lemma create_entity_tags:
  assumes "create_entity env x w = (e, w')"
  shows "e = mw_created w" "tags w' = take (entity_slot env) (tags w) @ [(e, tag x)] @ drop (entity_slot env) (tags w)"
    "mw_client w' = mw_client w" "mw_created w' = Suc (mw_created w)" "mw_sent w' = mw_sent w"
  using assms by (auto simp: create_entity_def Let_def tags_def take_map drop_map)

lemma map_of_insert:
  assumes "e \<notin> fst ` set xs"
  shows "map_of (take k xs @ [(e, t)] @ drop k xs) = (map_of xs)(e \<mapsto> t)"
proof -
  have "map_of (A @ [(e, t)] @ B) = (map_of (A @ B))(e \<mapsto> t)" if "e \<notin> fst ` set (A @ B)" for A B
    using that by (induction A) auto
  from this [of "take k xs" "drop k xs"] assms show ?thesis by simp
qed

lemma distinct_insert:
  assumes "e \<notin> fst ` set xs" and "distinct (map fst xs)"
  shows "distinct (map fst (take k xs @ [(e, t)] @ drop k xs))"
proof -
  have "distinct (map fst (A @ [(e, t)] @ B))" if "e \<notin> fst ` set (A @ B)" "distinct (map fst (A @ B))" for A B
    using that by auto
  from this [of "take k xs" "drop k xs"] assms show ?thesis by simp
qed

lemma sight_created:
  assumes "sight_inv w" and "create_entity env x w = (e, w')" and "\<not> b_isOnMap (basic_of x) \<and> kind_of x \<noteq> 4"
  shows "map_of (tags w') = (map_of (tags w))(e \<mapsto> tag x)" and "mw_client w e = None"
    and "distinct (map fst (tags w'))" and "\<forall>h \<in> fst ` set (tags w'). h < mw_created w'"
    and "proper_tags (tags w')"
proof -
  note t = create_entity_tags [OF assms(2)]
  have fresh: "e \<notin> fst ` set (tags w)" using assms(1) t(1) by (auto simp: sight_inv_def)
  then show "map_of (tags w') = (map_of (tags w))(e \<mapsto> tag x)" unfolding t(2) by (rule map_of_insert)
  show "mw_client w e = None" using assms(1) t(1) by (auto simp: sight_inv_def)
  have p: "set (tags w') = insert (e, tag x) (set (tags w))" unfolding t(2)
    using set_append [of "take (entity_slot env) (tags w)" "drop (entity_slot env) (tags w)"] by auto
  show "distinct (map fst (tags w'))"
    unfolding t(2) by (rule distinct_insert [OF fresh]) (use assms(1) in \<open>simp add: sight_inv_def\<close>)
  show "\<forall>h \<in> fst ` set (tags w'). h < mw_created w'"
    unfolding p using assms(1) t(1,4) by (auto simp: sight_inv_def less_SucI)
  show "proper_tags (tags w')"
    unfolding proper_tags_def p using assms(1,3) by (auto simp: sight_inv_def proper_tags_def tag_def)
qed

lemma sight_create:
  assumes "sight_inv w" and "create_entity env x w = (e, w')" and "\<not> b_isOnMap (basic_of x) \<and> kind_of x \<noteq> 4" and "kind_of x \<noteq> 1"
  shows "sight_inv w'"
proof -
  note t = create_entity_tags [OF assms(2)] and c = sight_created [OF assms(1-3)]
  have "seen w' a" if "seen w a" for a
    using that assms(3,4) t(5) unfolding seen_def c(1) by (auto simp: tag_def)
  moreover have "mw_client w' a = None" if "map_of (tags w') a = Some (0, True)" "map_of (tags w) a \<noteq> Some (0, True)" for a
    using that c(1,2) t(3) assms(3) by (auto simp: tag_def split: if_splits)
  ultimately show ?thesis
    using assms(1) c t(3,4) unfolding sight_inv_def by (metis less_SucI)
qed

lemma sight_create_npc:
  assumes "sight_inv w"
  shows "sight_inv (create_npc env fame npc dialog m x y z angle w)"
proof -
  obtain i w1 where i: "take_id env w = (i, w1)" by (cases "take_id env w")
  have inv1: "sight_inv w1" by (rule sight_same_stage [OF same_stage_ids [OF i] assms])
  define n where "n = \<lparr>n_basic = BasicInfo_new i, n_advanced = AdvancedInfo_new, n_info = CharacterInfo_new fame,
    n_position = (Position_new (f_mul env x 0x42C80000) (f_mul env y 0x42C80000) m 0)\<lparr>p_z := f_to_u16 env z, p_angle := angle\<rparr>,
    n_destination = None, n_npc_id = npc, n_quest_id = dialog\<rparr>"
  obtain e w2 where e: "create_entity env (NpcE n) w1 = (e, w2)" by (cases "create_entity env (NpcE n) w1")
  have flag: "\<not> b_isOnMap (basic_of (NpcE n)) \<and> kind_of (NpcE n) \<noteq> 4" by (simp add: n_def BasicInfo_new_def)
  note t = create_entity_tags [OF e] and c = sight_created [OF inv1 e flag]
  let ?w = "world_send env None EVERYONE (W_NPC_CHAR e n) w2"
  have same: "tags ?w = tags w2" "mw_client ?w = mw_client w2" "mw_created ?w = mw_created w2"
    by (simp_all add: world_send_def tags_def)
  have "seen ?w a" if "map_of (tags w2) a = Some (0, True)" "mw_client w2 a \<noteq> None" for a
  proof -
    have "a \<noteq> e" using that c(2) t(3) by auto
    then have a: "map_of (tags w1) a = Some (0, True)" using that(1) c(1) by simp
    then have "seen w1 a" using inv1 that(2) t(3) by (simp add: sight_inv_def)
    moreover have "a \<in> set (receivers env None EVERYONE w2)"
      using that by (force simp: receivers_def tags_def map_of_map dest: map_of_SomeD)
    ultimately show ?thesis
      using t(5) c(1) unfolding seen_def same by (auto simp: world_send_def tag_def split: if_splits)
  qed
  moreover have "create_npc env fame npc dialog m x y z angle w = ?w"
    using i e by (simp add: create_npc_def n_def)
  ultimately show ?thesis
    using inv1 c t(3,4) same unfolding sight_inv_def by (metis less_SucI)
qed

lemma map_of_filter_key: "map_of (filter (\<lambda>(h, _). h \<noteq> e) xs) = (map_of xs)(e := None)"
  by (induction xs) auto

lemma sight_erase:
  assumes "sight_inv w"
  shows "sight_inv (erase_entity e w)"
proof -
  have tf: "tags (erase_entity e w) = filter (\<lambda>(h, _). h \<noteq> e) (tags w)"
    by (simp add: erase_entity_def tags_def filter_map comp_def case_prod_unfold)
  have same: "mw_client (erase_entity e w) = (mw_client w)(e := None)" "mw_created (erase_entity e w) = mw_created w"
      "mw_sent (erase_entity e w) = mw_sent w"
    by (simp_all add: erase_entity_def)
  have "seen (erase_entity e w) a" if "seen w a" for a
    using that unfolding seen_def tf same map_of_filter_key by auto
  then show ?thesis
    using assms unfolding sight_inv_def tf same map_of_filter_key
    by (auto simp: distinct_map_filter proper_tags_def split: if_splits)
qed

lemma destroyed_erased:
  assumes "destroy_entity env e w = Some w'"
  obtains "w' = w" | u where "same_stage w u" and "w' = erase_entity e u"
proof (cases "entity_at w e")
  case (Some x)
  have ex: "\<exists>u. same_stage w u \<and> erase_entity e v = erase_entity e u" if "same_stage w v" for v
    using that by blast
  have "\<exists>u. same_stage w u \<and> w' = erase_entity e u"
    using assms Some
    by (auto simp: destroy_entity_def Let_def leave_grid_def split: if_splits option.splits intro!: ex stage_intros)
  then show thesis using that by blast
qed (use assms that in \<open>simp add: destroy_entity_def\<close>)

lemma sight_destroy: "destroy_entity env e w = Some w' \<Longrightarrow> sight_inv w \<Longrightarrow> sight_inv w'"
  by (erule destroyed_erased) (auto intro: sight_erase sight_same_stage)

lemma map_of_flags: "map_of (map (\<lambda>(h, k, flag). (h, k, P h flag)) xs) h = map_option (\<lambda>(k, flag). (k, P h flag)) (map_of xs h)"
  by (induction xs) auto

lemma sight_leave:
  assumes "sight_inv w"
  shows "sight_inv (leave_map e w)"
proof -
  have "tag (if h = e then set_basic ((basic_of x)\<lparr>b_isOnMap := False\<rparr>) x else x)
      = (kind_of x, b_isOnMap (basic_of x) \<and> h \<noteq> e)" for h x
    by (cases x) (simp_all add: tag_def)
  then have tm: "tags (leave_map e w) = map (\<lambda>(h, k, flag). (h, k, flag \<and> h \<noteq> e)) (tags w)"
    by (simp add: leave_map_def set_basic_at_def set_entity_def tags_def comp_def case_prod_unfold) (simp add: tag_def)
  have mo: "map_of (tags (leave_map e w)) h = map_option (\<lambda>(k, flag). (k, flag \<and> h \<noteq> e)) (map_of (tags w) h)" for h
    unfolding tm by (rule map_of_flags)
  have same: "mw_client (leave_map e w) = mw_client w" "mw_created (leave_map e w) = mw_created w"
      "mw_sent (leave_map e w) = mw_sent w"
    by (simp_all add: leave_map_def set_basic_at_def set_entity_def)
  have "seen (leave_map e w) a" if "seen w a" for a
    using that unfolding seen_def mo same by auto
  moreover have "map fst (tags (leave_map e w)) = map fst (tags w)" by (simp add: tm comp_def case_prod_unfold)
  moreover from this have "fst ` set (tags (leave_map e w)) = fst ` set (tags w)" by (metis list.set_map)
  moreover have "proper_tags (tags (leave_map e w))"
    using assms by (auto simp: tm sight_inv_def proper_tags_def)
  moreover have "map_of (tags w) a = Some (0, True)" if "map_of (tags (leave_map e w)) a = Some (0, True)" for a
    using that by (auto simp: mo)
  ultimately show ?thesis
    using assms same unfolding sight_inv_def by metis
qed

lemma destroy_command_cases:
  assumes "destroy_command env e save w = Some w'"
  obtains "w' = w" | u where "same_stage w u" and "destroy_entity env e u = Some w'"
proof (cases "entity_at w e")
  case (Some x)
  have ex: "destroy_entity env e v = Some w' \<Longrightarrow> \<exists>u. same_stage w u \<and> destroy_entity env e u = Some w'" if "same_stage w v" for v
    using that by blast
  have "\<exists>u. same_stage w u \<and> destroy_entity env e u = Some w'"
    using assms Some
    by (cases x) (auto simp: destroy_command_def Let_def split: if_splits elim!: ex [rotated] intro!: stage_intros)
  then show thesis using that by blast
qed (use assms that in \<open>simp add: destroy_command_def\<close>)

lemma sight_destroy_command: "destroy_command env e save w = Some w' \<Longrightarrow> sight_inv w \<Longrightarrow> sight_inv w'"
  by (erule destroy_command_cases) (auto intro: sight_destroy sight_same_stage)

lemma sight_bulk_destroy: "bulk_destroy env es w = Some w' \<Longrightarrow> sight_inv w \<Longrightarrow> sight_inv w'"
  unfolding bulk_destroy_def
proof (induction es arbitrary: w)
  case (Cons e es)
  have "sight_inv (world_send env None EVERYONE p w)" for p
    by (rule sight_same_stage [OF _ Cons.prems(2)]) (intro stage_intros)
  then show ?case
    using Cons by (auto split: option.splits if_splits intro: sight_destroy)
qed simp

subsection \<open>Entering the map\<close>

lemma show_entities:
  assumes "run_all (show_entity me) es w = Some w'"
  shows "same_stage w w'
    \<and> (\<forall>e v. (e, PlayerE v) \<in> set es \<and> e \<noteq> me \<and> b_isOnMap (basicInfo v) \<longrightarrow> Sent me (W_PLAYER_CHAR e v) \<in> set (mw_sent w'))
    \<and> (\<forall>e n. (e, NpcE n) \<in> set es \<longrightarrow> Sent me (W_NPC_CHAR e n) \<in> set (mw_sent w'))"
  using assms
proof (induction es arbitrary: w)
  case (Cons y es)
  obtain e x where y: "y = (e, x)" by (cases y)
  obtain w1 where w1: "show_entity me (e, x) w = Some w1" "run_all (show_entity me) es w1 = Some w'"
    using Cons.prems y by (auto split: option.splits)
  have "same_stage w w1" using w1(1) by (cases x) (auto split: if_splits intro!: stage_intros)
  moreover have "same_stage w1 w'" using Cons.IH [OF w1(2)] by simp
  moreover from this have "set (mw_sent w1) \<subseteq> set (mw_sent w')" by (simp add: same_stage_def)
  moreover have "x = PlayerE v \<Longrightarrow> e \<noteq> me \<Longrightarrow> b_isOnMap (basicInfo v) \<Longrightarrow> Sent me (W_PLAYER_CHAR e v) \<in> set (mw_sent w1)"
      "x = NpcE n \<Longrightarrow> Sent me (W_NPC_CHAR e n) \<in> set (mw_sent w1)" for v n
    using w1(1) by (auto simp: send_client_def)
  ultimately show ?case using Cons.IH [OF w1(2)] same_stage_trans y by auto
qed (simp add: same_stage_refl)

lemma show_items: "run_all (show_item me) es w = Some w' \<Longrightarrow> same_stage w w'"
proof (rule same_stage_run_all)
  show "same_stage w w'" if "show_item me x w = Some w'" for x w w'
    using that by (cases "(me, x, w)" rule: show_item.cases) (auto intro!: stage_intros)
qed

lemma entered:
  assumes "processChangeMapReq env me w = Some w'"
  obtains v u where "entity_at w me = Some (PlayerE v)" and "same_stage w u"
    and "w' = set_basic_at me (\<lambda>b. b\<lparr>b_isOnMap := True\<rparr>) u"
    and "Broadcast EVERYONE_BUT_ME_ON_MAP (receivers env (Some me) EVERYONE_BUT_ME_ON_MAP w) (W_PLAYER_CHAR me v) \<in> set (mw_sent u)"
    and "\<And>e v. (e, PlayerE v) \<in> set (mw_entities w) \<Longrightarrow> e \<noteq> me \<Longrightarrow> b_isOnMap (basicInfo v) \<Longrightarrow> Sent me (W_PLAYER_CHAR e v) \<in> set (mw_sent u)"
    and "\<And>e n. (e, NpcE n) \<in> set (mw_entities w) \<Longrightarrow> Sent me (W_NPC_CHAR e n) \<in> set (mw_sent u)"
proof -
  obtain v where v: "entity_at w me = Some (PlayerE v)"
    using assms by (auto simp: processChangeMapReq_def split: option.splits world_entity.splits)
  define w1 where "w1 = send_client me (W_CHANGE_MAP_REPLY (SrvChangeMapReply_new (b_id (basicInfo v)) (ucast (a_hp (advancedInfo v)))
      (ucast (a_mp (advancedInfo v))) (ucast (b_xp (basicInfo v))) (ucast (c_penaltyXp (characterInfo v))) (ucast (now_time env)) 0)) w"
  define w2 where "w2 = sendMsg me (ascii ''You are client '' @ decimal (unat (b_id (basicInfo v)))) w1"
  define w3 where "w3 = world_send env (Some me) EVERYONE_BUT_ME_ON_MAP (W_PLAYER_CHAR me v) w2"
  obtain w4 u where u: "run_all (show_entity me) (mw_entities w) w3 = Some w4" "run_all (show_item me) (mw_entities w) w4 = Some u"
      "w' = set_basic_at me (\<lambda>b. b\<lparr>b_isOnMap := True\<rparr>) u"
    using assms v by (auto simp: processChangeMapReq_def Let_def w1_def w2_def w3_def bind_eq_Some_conv)
  have rec: "receivers env (Some me) EVERYONE_BUT_ME_ON_MAP w2 = receivers env (Some me) EVERYONE_BUT_ME_ON_MAP w"
    by (simp add: receivers_def w2_def w1_def sendMsg_def whisper_def send_client_def isOnMap_def)
  have "same_stage w w3" unfolding w3_def w2_def w1_def by (intro stage_intros)
  moreover note e = show_entities [OF u(1)] and i = show_items [OF u(2)]
  ultimately have st: "same_stage w u" using same_stage_trans by blast
  have sub: "set (mw_sent w3) \<subseteq> set (mw_sent u)" "set (mw_sent w4) \<subseteq> set (mw_sent u)"
    using e i by (auto simp: same_stage_def)
  have "Broadcast EVERYONE_BUT_ME_ON_MAP (receivers env (Some me) EVERYONE_BUT_ME_ON_MAP w) (W_PLAYER_CHAR me v) \<in> set (mw_sent w3)"
    by (simp add: w3_def world_send_def rec)
  then show thesis using that v st u(3) sub e by blast
qed

lemma sight_enter:
  assumes "processChangeMapReq env me w = Some w'" and "sight_inv w"
  shows "sight_inv w'"
proof -
  obtain v u where u: "entity_at w me = Some (PlayerE v)" "same_stage w u" "w' = set_basic_at me (\<lambda>b. b\<lparr>b_isOnMap := True\<rparr>) u"
    and bc: "Broadcast EVERYONE_BUT_ME_ON_MAP (receivers env (Some me) EVERYONE_BUT_ME_ON_MAP w) (W_PLAYER_CHAR me v) \<in> set (mw_sent u)"
    and pl: "\<And>e v. (e, PlayerE v) \<in> set (mw_entities w) \<Longrightarrow> e \<noteq> me \<Longrightarrow> b_isOnMap (basicInfo v) \<Longrightarrow> Sent me (W_PLAYER_CHAR e v) \<in> set (mw_sent u)"
    and np: "\<And>e n. (e, NpcE n) \<in> set (mw_entities w) \<Longrightarrow> Sent me (W_NPC_CHAR e n) \<in> set (mw_sent u)"
    using entered [OF assms(1)] by metis
  have inv: "sight_inv u" by (rule sight_same_stage [OF u(2) assms(2)])
  have tu: "tags u = tags w" "mw_client u = mw_client w" "mw_created u = mw_created w" using u(2) by (simp_all add: same_stage_def)
  have me: "map_of (tags w) me = Some (0, b_isOnMap (basicInfo v))" using u(1) by (simp add: entity_at_tags tag_def)
  have "tag (if h = me then set_basic ((basic_of x)\<lparr>b_isOnMap := True\<rparr>) x else x) = (kind_of x, b_isOnMap (basic_of x) \<or> h = me)" for h x
    by (cases x) (simp_all add: tag_def)
  then have tm: "tags w' = map (\<lambda>(h, k, flag). (h, k, flag \<or> h = me)) (tags w)"
    unfolding u(3) tu(1) [symmetric]
    by (simp add: set_basic_at_def set_entity_def tags_def comp_def case_prod_unfold) (simp add: tag_def)
  have mo: "map_of (tags w') h = map_option (\<lambda>(k, flag). (k, flag \<or> h = me)) (map_of (tags w) h)" for h
    unfolding tm by (rule map_of_flags)
  have same: "mw_client w' = mw_client w" "mw_created w' = mw_created w" "mw_sent w' = mw_sent u"
    using tu by (simp_all add: u(3) set_basic_at_def set_entity_def)
  have "seen w' a" if a: "map_of (tags w') a = Some (0, True)" "mw_client w a \<noteq> None" for a
  proof (cases "a = me")
    case True
    have "\<exists>d \<in> set (mw_sent u). shows_player d me b" if b: "b \<noteq> me" "map_of (tags w) b = Some (0, True)" for b
    proof -
      obtain x where x: "entity_at w b = Some x" "tag x = (0, True)" using b(2) by (auto simp: entity_at_tags)
      then obtain vb where "x = PlayerE vb" "b_isOnMap (basicInfo vb)" by (cases x) (auto simp: tag_def split: if_splits)
      then have "Sent me (W_PLAYER_CHAR b vb) \<in> set (mw_sent u)" using pl [OF map_of_SomeD] x(1) b(1) by blast
      then show ?thesis by force
    qed
    moreover have "\<exists>d \<in> set (mw_sent u). shows_npc d me b" if b: "map_of (tags w) b = Some (1, flag)" for b flag
    proof -
      obtain x where x: "entity_at w b = Some x" "tag x = (1, flag)" using b by (auto simp: entity_at_tags)
      then obtain n where "x = NpcE n" by (cases x) (auto simp: tag_def split: if_splits)
      then have "Sent me (W_NPC_CHAR b n) \<in> set (mw_sent u)" using np [OF map_of_SomeD] x(1) by blast
      then show ?thesis by force
    qed
    ultimately show ?thesis unfolding seen_def mo same True by auto
  next
    case False
    then have on: "map_of (tags w) a = Some (0, True)" using a(1) by (auto simp: mo)
    then have "seen u a" using inv a(2) tu by (simp add: sight_inv_def)
    moreover have "a \<in> fst ` set (mw_entities w)"
      using on by (auto simp: entity_at_tags dest!: map_of_SomeD intro: rev_image_eqI)
    then have "a \<in> set (receivers env (Some me) EVERYONE_BUT_ME_ON_MAP w)"
      using on a(2) False by (simp add: receivers_def isOnMap_tags)
    then have "\<exists>d \<in> set (mw_sent u). shows_player d a me" using bc by force
    ultimately show ?thesis using me unfolding seen_def mo same tu by auto
  qed
  moreover have "fst ` set (tags w') = fst ` set (tags w)" "map fst (tags w') = map fst (tags w)"
    by (force simp: tm comp_def case_prod_unfold)+
  moreover have "k = 0" if "(me, k, flag) \<in> set (tags w)" for k flag
    using map_of_is_SomeI [OF _ that] assms(2) me by (simp add: sight_inv_def)
  then have "proper_tags (tags w')"
    using assms(2) by (auto simp: tm sight_inv_def proper_tags_def)
  ultimately show ?thesis using assms(2) same unfolding sight_inv_def by metis
qed

lemma loaded_not_on_map: "loadCharacter db load m i cid pl t = Some (Some v) \<Longrightarrow> \<not> b_isOnMap (basicInfo v)"
  by (auto simp: loadCharacter_def calculateSpeed_def Let_def character.defs load_components_def BasicInfo_of_row_def
      BasicInfo_new_def split: list.splits option.splits)

lemma sight_join:
  assumes "load_player env cid pl t w = Some (Some e, w')" and "sight_inv w"
  shows "sight_inv (assign_client e session w')"
proof -
  obtain i w1 where i: "take_id env w = (i, w1)" by (cases "take_id env w")
  obtain v where v: "loadCharacter (env_db env) (env_scripts env) (speed_mod env (mw_created w)) i cid pl t = Some (Some v)"
    using assms(1) i by (auto simp: load_player_def split: option.splits prod.splits)
  obtain w2 where w2: "create_entity env (PlayerE v) w1 = (e, w2)" "w' = registerEntity e w2"
    using assms(1) i v by (auto simp: load_player_def split: prod.splits)
  have inv1: "sight_inv w1" by (rule sight_same_stage [OF same_stage_ids [OF i] assms(2)])
  have off: "\<not> b_isOnMap (basic_of (PlayerE v)) \<and> kind_of (PlayerE v) \<noteq> 4" using loaded_not_on_map [OF v] by simp
  have st: "same_stage w2 w'" unfolding w2(2) by (intro stage_intros)
  have inv: "sight_inv w'" by (rule sight_same_stage [OF st sight_create [OF inv1 w2(1) off]]) simp
  have e: "map_of (tags w') e = Some (tag (PlayerE v))" "e < mw_created w'"
    using st sight_created(1) [OF inv1 w2(1) off] create_entity_tags [OF w2(1)] by (simp_all add: same_stage_def)
  have same: "tags (assign_client e session w') = tags w'" "mw_sent (assign_client e session w') = mw_sent w'"
      "mw_created (assign_client e session w') = mw_created w'" "mw_client (assign_client e session w') = (mw_client w')(e := Some session)"
    by (simp_all add: assign_client_def tags_def)
  have "seen (assign_client e session w') a = seen w' a" for a by (simp add: seen_def same)
  moreover have "map_of (tags w') e \<noteq> Some (0, True)" using off e(1) by (simp add: tag_def)
  moreover have "a \<noteq> e" if "map_of (tags w') a = Some (0, True)" for a using that calculation(2) by blast
  moreover have "a < mw_created w'" if "((mw_client w')(e := Some session)) a \<noteq> None" for a
    using that inv e(2) by (auto simp: sight_inv_def split: if_splits)
  ultimately show ?thesis
    using inv unfolding sight_inv_def same by simp
qed

section \<open>The life of a map\<close>

definition world_new :: map_world where
  "world_new = \<lparr>mw_entities = [], mw_created = 0, mw_client = (\<lambda>_. None), mw_switched = [], mw_nameToEntity = (\<lambda>_. None),
     mw_idToEntity = (\<lambda>_. None), mw_itemToEntity = (\<lambda>_. None), mw_id_manager = IdManager_new, mw_grid = (\<lambda>_. []),
     mw_party = (\<lambda>_. None), mw_parties = [], mw_saved = [], mw_sent = []\<rparr>"

inductive world_reachable :: "map_world \<Rightarrow> bool" where
  start: "world_reachable world_new"
| join: "world_reachable w \<Longrightarrow> load_player env cid pl t w = Some (Some e, w') \<Longrightarrow> world_reachable (assign_client e session w')"
| enter: "world_reachable w \<Longrightarrow> processChangeMapReq env e w = Some w' \<Longrightarrow> world_reachable w'"
| walk: "world_reachable w \<Longrightarrow> world_reachable (processMove env e M w)"
| halt: "world_reachable w \<Longrightarrow> world_reachable (stopMoving env e S w)"
| chat: "world_reachable w \<Longrightarrow> normalChat env e P w = Some w' \<Longrightarrow> world_reachable w'"
| whisper: "world_reachable w \<Longrightarrow> world_reachable (whisperChat e Q w)"
| party_chat: "world_reachable w \<Longrightarrow> partyChat e R w = Some w' \<Longrightarrow> world_reachable w'"
| equip: "world_reachable w \<Longrightarrow> equip_item env e E w = Some w' \<Longrightarrow> world_reachable w'"
| drop: "world_reachable w \<Longrightarrow> drop_item env e D w = Some w' \<Longrightarrow> world_reachable w'"
| party_req: "world_reachable w \<Longrightarrow> party_req e PR w = Some w' \<Longrightarrow> world_reachable w'"
| party_answer: "world_reachable w \<Longrightarrow> party_answer e PA w = Some w' \<Longrightarrow> world_reachable w'"
| parties: "world_reachable w \<Longrightarrow> update_parties w = Some w' \<Longrightarrow> world_reachable w'"
| moves: "world_reachable w \<Longrightarrow> MovementSystem_update env w = Some w' \<Longrightarrow> world_reachable w'"
| updates: "world_reachable w \<Longrightarrow> world_reachable (UpdateSystem_update env w)"
| gate: "world_reachable w \<Longrightarrow> world_reachable (create_warpgate env dm dx dy dz m x y z angle w)"
| npc: "world_reachable w \<Longrightarrow> world_reachable (create_npc env fame npc dialog m x y z angle w)"
| leave: "world_reachable w \<Longrightarrow> world_reachable (leave_map e w)"
| destroyed: "world_reachable w \<Longrightarrow> destroy_command env e save w = Some w' \<Longrightarrow> world_reachable w'"
| bulk: "world_reachable w \<Longrightarrow> bulk_destroy env es w = Some w' \<Longrightarrow> world_reachable w'"
| disconnect: "world_reachable w \<Longrightarrow> world_reachable (w\<lparr>mw_client := (mw_client w)(e := None)\<rparr>)"

lemma sight_take_create:
  assumes "sight_inv w" and "take_id env w = (i, w1)" and "create_entity env x w1 = (e, w2)"
    and "\<not> b_isOnMap (basic_of x) \<and> kind_of x \<noteq> 4" and "kind_of x \<noteq> 1"
  shows "sight_inv w2"
  by (rule sight_create [OF sight_same_stage [OF same_stage_ids [OF assms(2)] assms(1)] assms(3-)])

lemma sight_create_warpgate:
  assumes "sight_inv w"
  shows "sight_inv (create_warpgate env dm dx dy dz m x y z angle w)"
proof -
  obtain i w1 where i: "take_id env w = (i, w1)" by (cases "take_id env w")
  have "sight_inv (snd (create_entity env (GateE (BasicInfo_new i) p d None) w1))" for p d
    using sight_take_create [OF assms i, of "GateE (BasicInfo_new i) p d None"]
    by (cases "create_entity env (GateE (BasicInfo_new i) p d None) w1") (simp add: BasicInfo_new_def)
  then show ?thesis by (simp add: create_warpgate_def i)
qed

lemma sight_build_item:
  assumes "build_item_entity env c it w = Some (e, w')" and "sight_inv w"
  shows "sight_inv w'"
proof -
  obtain i w1 where i: "take_id env w = (i, w1)" by (cases "take_id env w")
  obtain b p w2 where w2: "create_entity env (ItemE b p it) w1 = (e, w2)" "\<not> b_isOnMap b"
      "w' = w2\<lparr>mw_itemToEntity := (mw_itemToEntity w2)(ucast i := Some e)\<rparr>"
    using assms(1) i by (auto simp: build_item_entity_def Let_def BasicInfo_new_def split: prod.splits option.splits)
  have "sight_inv w2" by (rule sight_take_create [OF assms(2) i w2(1)]) (simp_all add: w2(2))
  then show ?thesis unfolding w2(3) by (rule sight_same_stage [rotated]) (intro stage_intros)
qed

lemma sight_drop_item:
  assumes "drop_item env e P w = Some w'" and "sight_inv w"
  shows "sight_inv w'"
proof -
  have "sight_inv (deliver_inventory env e p w)" for p
    by (rule sight_same_stage [OF _ assms(2)]) (intro stage_intros)
  then show ?thesis
    using assms(1) by (auto simp: drop_item_def split: option.splits world_entity.splits list.splits intro: sight_build_item)
qed

lemma sight_disconnect: "sight_inv w \<Longrightarrow> sight_inv (w\<lparr>mw_client := (mw_client w)(e := None)\<rparr>)"
  by (simp add: sight_inv_def seen_def tags_def)

lemma world_reachable_sight: "world_reachable w \<Longrightarrow> sight_inv w"
proof (induction rule: world_reachable.induct)
  case start
  show ?case by (simp add: sight_inv_def tags_def world_new_def proper_tags_def)
qed (blast intro: sight_join sight_enter sight_same_stage stage_intros same_stage_chats same_stage_updates
    same_stage_party same_stage_equip sight_create_warpgate sight_create_npc sight_drop_item sight_leave sight_destroy_command sight_bulk_destroy
    sight_disconnect)+

lemma run_all_total: "(\<And>x w. x \<in> set xs \<Longrightarrow> \<exists>w'. f x w = Some w') \<Longrightarrow> \<exists>w'. run_all f xs w = Some w'"
proof (induction xs arbitrary: w)
  case (Cons x xs)
  obtain w1 where "f x w = Some w1" using Cons.prems [of x] by auto
  moreover obtain w' where "run_all f xs w1 = Some w'" using Cons.IH [of w1] Cons.prems by auto
  ultimately show ?case by simp
qed simp

text \<open>A player can always enter the map.\<close>

lemma enter_total:
  assumes "sight_inv w" and "entity_at w me = Some (PlayerE v)"
  shows "\<exists>w'. processChangeMapReq env me w = Some w' \<and> mw_client w' = mw_client w
    \<and> (\<forall>b. map_of (tags w') b = map_option (\<lambda>(k, flag). (k, flag \<or> b = me)) (map_of (tags w) b))"
proof -
  have off: "\<not> b_isOnMap (basic_of x)" if "(e, x) \<in> set (mw_entities w)" "kind_of x \<noteq> 0" for e x
  proof -
    have "(e, tag x) \<in> set (tags w)" using that(1) by (force simp: tags_def)
    then show ?thesis using assms(1) that(2) by (auto simp: sight_inv_def proper_tags_def tag_def)
  qed
  have "\<exists>w'. show_entity me y u = Some w'" if y: "y \<in> set (mw_entities w)" for y u
  proof -
    obtain e x where "y = (e, x)" by (cases y)
    then show ?thesis using off [of e x] y by (cases x) auto
  qed
  note shown = run_all_total [of "mw_entities w" "show_entity me", OF this]
  have "\<exists>w'. show_item me y u = Some w'" for y u
    by (cases "(me, y, u)" rule: show_item.cases) auto
  note items = run_all_total [of "mw_entities w" "show_item me", OF this]
  have loops: "\<exists>w'. Option.bind (run_all (show_entity me) (mw_entities w) u) (\<lambda>w4. Option.bind (run_all (show_item me) (mw_entities w) w4)
      (\<lambda>w5. Some (g w5))) = Some w'" for u g
  proof -
    obtain w4 w5 where "run_all (show_entity me) (mw_entities w) u = Some w4" "run_all (show_item me) (mw_entities w) w4 = Some w5"
      using shown items by blast
    then show ?thesis by simp
  qed
  have "\<exists>w'. processChangeMapReq env me w = Some w'"
    unfolding processChangeMapReq_def assms(2) option.case world_entity.case Let_def by (rule loops)
  then obtain w' where w': "processChangeMapReq env me w = Some w'" by blast
  then obtain u where u: "same_stage w u" "w' = set_basic_at me (\<lambda>b. b\<lparr>b_isOnMap := True\<rparr>) u"
    using entered [OF w'] by metis
  have "tag (if h = me then set_basic ((basic_of x)\<lparr>b_isOnMap := True\<rparr>) x else x) = (kind_of x, b_isOnMap (basic_of x) \<or> h = me)" for h x
    by (cases x) (simp_all add: tag_def)
  then have "tags w' = map (\<lambda>(h, k, flag). (h, k, flag \<or> h = me)) (tags u)"
    unfolding u(2) by (simp add: set_basic_at_def set_entity_def tags_def comp_def case_prod_unfold) (simp add: tag_def)
  moreover have "mw_client w' = mw_client w" "tags u = tags w"
    using u by (simp_all add: same_stage_def set_basic_at_def set_entity_def)
  ultimately show ?thesis using w' by (simp add: map_of_flags [of "\<lambda>h flag. flag \<or> h = me"])
qed

lemma join_total:
  assumes "sight_inv w" and "take_id env w = (i, w1)"
    and "loadCharacter (env_db env) (env_scripts env) (speed_mod env (mw_created w)) i cid pl t = Some (Some v)"
  shows "\<exists>w'. load_player env cid pl t w = Some (Some (mw_created w), w') \<and> mw_client w' = mw_client w
    \<and> mw_created w' = Suc (mw_created w) \<and> map_of (tags w') = (map_of (tags w))(mw_created w \<mapsto> (0, False))"
proof -
  obtain e w2 where e: "create_entity env (PlayerE v) w1 = (e, w2)" by (cases "create_entity env (PlayerE v) w1")
  have st1: "same_stage w w1" by (rule same_stage_ids [OF assms(2)])
  have off: "\<not> b_isOnMap (basic_of (PlayerE v)) \<and> kind_of (PlayerE v) \<noteq> 4" using loaded_not_on_map [OF assms(3)] by simp
  note t = create_entity_tags [OF e] and c = sight_created(1) [OF sight_same_stage [OF st1 assms(1)] e off]
  have "same_stage w2 (registerEntity e w2)" by (intro stage_intros)
  moreover have "load_player env cid pl t w = Some (Some e, registerEntity e w2)"
    using assms(2,3) e by (simp add: load_player_def)
  ultimately show ?thesis using st1 t c off by (auto simp: same_stage_def tag_def)
qed

lemma no_gates:
  assumes "sight_inv w"
  shows "is_on_warpgate env e w = None"
proof -
  have "warpgate_of g = None" if h: "entity_at w h = Some g" for h g
  proof -
    have "(h, tag g) \<in> set (tags w)" using map_of_SomeD [OF h] by (force simp: tags_def)
    then have "kind_of g \<noteq> 4" using assms by (auto simp: sight_inv_def proper_tags_def tag_def)
    then show ?thesis by (cases g) (auto split: if_splits)
  qed
  then show ?thesis by (auto simp: is_on_warpgate_def find_None_iff split: option.splits)
qed

section \<open>Properties\<close>

text \<open>What players see. Whatever happens on a map, a connected player on the map has been sent the appearance of every
  other player who is on the map and of every NPC.\<close>

lemma world_sees:
  assumes "world_reachable w" and "isOnMap a w" and "mw_client w a \<noteq> None"
  shows "(b \<noteq> a \<and> isOnMap b w \<longrightarrow> (\<exists>d \<in> set (mw_sent w). shows_player d a b))
    \<and> (\<forall>n. entity_at w b = Some (NpcE n) \<longrightarrow> (\<exists>d \<in> set (mw_sent w). shows_npc d a b))"
proof -
  have inv: "sight_inv w" by (rule world_reachable_sight [OF assms(1)])
  have zero: "map_of (tags w) e = Some (0, True)" if e: "isOnMap e w" for e
  proof -
    obtain k where "map_of (tags w) e = Some (k, True)" using e by (auto simp: isOnMap_tags)
    moreover from this have "k = 0" using inv by (auto simp: sight_inv_def proper_tags_def dest: map_of_SomeD)
    ultimately show ?thesis by simp
  qed
  have "seen w a" using inv zero [OF assms(2)] assms(3) by (simp add: sight_inv_def)
  moreover have "map_of (tags w) b = Some (1, b_isOnMap (n_basic n))" if "entity_at w b = Some (NpcE n)" for n
    using that by (simp add: entity_at_tags tag_def)
  ultimately show ?thesis using zero unfolding seen_def by blast
qed

definition sample_env :: env where
  "sample_env = \<lparr>f_add = (+), f_sub = (-), f_mul = (*), f_div = (\<lambda>x y. x div 1000), f_sqrt = id, f_lt = (<), f_zero = (\<lambda>x. x = 0),
     f_to_u16 = ucast, f_of_u16 = ucast, f_of_int = word_of_int, f_arrives = (\<lambda>_. False), f_advance = (\<lambda>x dx t. x + 1),
     removal_without = False, destroy_notifies = True, cfg_mapPort = 29200, cfg_serverIp = [], now_time = 0, id_begin = (\<lambda>_. 0), speed_mod = (\<lambda>_. 0),
     entity_slot = 0, env_db = (\<lambda>_. None), env_scripts = (\<lambda>_. None), env_lua = (\<lambda>_ _. None), f_parse = (\<lambda>_. None),
     gm_order = [0, 1, 2]\<rparr>"

lemma sample_join:
  assumes "world_reachable w"
  shows "\<exists>w'. world_reachable w' \<and> mw_client w' = (mw_client w)(mw_created w := Some 5) \<and> mw_created w' = Suc (mw_created w)
    \<and> map_of (tags w') = (map_of (tags w))(mw_created w \<mapsto> (0, False))"
proof -
  obtain i w1 where i: "take_id sample_env w = (i, w1)" by (cases "take_id sample_env w")
  obtain v where "loadCharacter (env_db sample_env) (env_scripts sample_env) (speed_mod sample_env (mw_created w)) i 40 False sample_tables
      = Some (Some v)"
    using sample_loads [of i 40] by (auto simp: sample_env_def)
  from join_total [OF world_reachable_sight [OF assms] i this]
  obtain w' where w': "load_player sample_env 40 False sample_tables w = Some (Some (mw_created w), w')" "mw_client w' = mw_client w"
      "mw_created w' = Suc (mw_created w)" "map_of (tags w') = (map_of (tags w))(mw_created w \<mapsto> (0, False))"
    by blast
  have "tags (assign_client (mw_created w) 5 w') = tags w'" by (simp add: tags_def assign_client_def)
  then show ?thesis
    using world_reachable.join [OF assms w'(1), of 5] w'(2-) by (intro exI [of _ "assign_client (mw_created w) 5 w'"]) (simp add: assign_client_def)
qed

lemma sample_enter:
  assumes "world_reachable w" and "map_of (tags w) e = Some (0, flag)"
  shows "\<exists>w'. world_reachable w' \<and> mw_client w' = mw_client w
    \<and> (\<forall>b. map_of (tags w') b = map_option (\<lambda>(k, flag). (k, flag \<or> b = e)) (map_of (tags w) b))"
proof -
  obtain x where "entity_at w e = Some x" "kind_of x = 0" using assms(2) by (auto simp: entity_at_tags tag_def)
  then obtain v where "entity_at w e = Some (PlayerE v)" by (cases x) (auto split: if_splits)
  from enter_total [OF world_reachable_sight [OF assms(1)] this, of sample_env] world_reachable.enter [OF assms(1)]
  show ?thesis by blast
qed

lemma sample_two: "\<exists>w. world_reachable w \<and> isOnMap 0 w \<and> isOnMap 1 w \<and> mw_client w 0 \<noteq> None"
proof -
  obtain w1 where w1: "world_reachable w1" "mw_client w1 = (\<lambda>_. None)(0 := Some 5)" "mw_created w1 = 1"
      "map_of (tags w1) = [0 \<mapsto> (0, False)]"
    using sample_join [OF world_reachable.start] by (auto simp: world_new_def tags_def)
  obtain w2 where w2: "world_reachable w2" "mw_client w2 0 = Some 5" "map_of (tags w2) = [0 \<mapsto> (0, False), 1 \<mapsto> (0, False)]"
    using sample_join [OF w1(1)] w1(2-4) by auto
  obtain w3 where w3: "world_reachable w3" "mw_client w3 0 = Some 5" "map_of (tags w3) 0 = Some (0, True)" "map_of (tags w3) 1 = Some (0, False)"
    using sample_enter [OF w2(1), of 0 False] w2(2,3) by auto
  obtain w4 where "world_reachable w4" "mw_client w4 0 = Some 5" "map_of (tags w4) 0 = Some (0, True)" "map_of (tags w4) 1 = Some (0, True)"
    using sample_enter [OF w3(1), of 1 False] w3(2-) by auto
  then show ?thesis by (auto simp: isOnMap_tags)
qed

text \<open>Warp gates do nothing: \<open>create_warpgate\<close> does not assign the component that \<open>is_on_warpgate\<close> looks for, so no
  player ever stands on a gate.\<close>

theorem warpgates_never_work:
  assumes "world_reachable w"
  shows "is_on_warpgate env e w = None"
  by (rule no_gates [OF world_reachable_sight [OF assms]])

theorem warpgates_never_work_witness:
  "is_on_warpgate sample_env 0 (create_warpgate sample_env 2 0 0 0 1 0 0 0 0 world_new) = None
   \<and> mw_grid (create_warpgate sample_env 2 0 0 0 1 0 0 0 0 world_new) (0, 0) = [0]"
proof
  show "is_on_warpgate sample_env 0 (create_warpgate sample_env 2 0 0 0 1 0 0 0 0 world_new) = None"
    by (rule warpgates_never_work) (rule world_reachable.gate [OF world_reachable.start])
qed (simp add: create_warpgate_def take_id_def create_entity_def world_new_def IdManager_new_def get_free_id_def sample_env_def
    get_grid_position_def grid_position_at_def Position_new_def)

text \<open>Talking is mutual: a message that is no command goes to the connected players on the map in the nine cells around
  the speaker; and of two such players each hears the other or neither does.\<close>

theorem chat_reaches_neighbours:
  assumes "entity_at w e = Some x" and "CliNormalChat.m_message P = [] \<or> hd (CliNormalChat.m_message P) \<noteq> 47"
    and "isOnMap e w" and "mw_client w e \<noteq> None"
  shows "normalChat env e P w = Some (w\<lparr>mw_sent := mw_sent w @ [Broadcast NEARBY (receivers env (Some e) NEARBY w)
      (W_NORMAL_CHAT \<lparr>SrvNormalChat.m_charId = b_id (basic_of x), m_message = CliNormalChat.m_message P\<rparr>)]\<rparr>)
    \<and> (h \<in> set (receivers env (Some e) NEARBY w) \<longleftrightarrow> mw_client w h \<noteq> None \<and> isOnMap h w \<and> is_nearby env h e w)
    \<and> (mw_client w h \<noteq> None \<and> isOnMap h w \<longrightarrow>
        (h \<in> set (receivers env (Some e) NEARBY w) \<longleftrightarrow> e \<in> set (receivers env (Some h) NEARBY w)))"
proof -
  have iff: "a \<in> set (receivers env (Some b) NEARBY w) \<longleftrightarrow> mw_client w a \<noteq> None \<and> isOnMap a w \<and> is_nearby env a b w" for a b
    by (auto simp: receivers_def isOnMap_def split: option.splits dest: map_of_SomeD intro: rev_image_eqI)
  have "is_nearby env a b w = is_nearby env b a w" for a b
    by (auto simp: is_nearby_def split: option.splits prod.splits)
  then show ?thesis
    using assms iff [of h e] iff [of e h] by (auto simp: normalChat_def executeGM_def world_send_def)
qed

theorem chat_reaches_neighbours_witness:
  "\<exists>w w'. world_reachable w \<and> normalChat sample_env 0 \<lparr>CliNormalChat.m_message = [65]\<rparr> w = Some w' \<and> 0 \<in> set (receivers sample_env (Some 0) NEARBY w)"
proof -
  obtain w where w: "world_reachable w" "isOnMap 0 w" "mw_client w 0 \<noteq> None" using sample_two by blast
  then obtain x where x: "entity_at w 0 = Some x" by (auto simp: isOnMap_def split: option.splits)
  then have "is_nearby sample_env 0 0 w" by (simp add: is_nearby_def split: prod.splits)
  with chat_reaches_neighbours [OF x _ w(2,3), of "\<lparr>CliNormalChat.m_message = [65]\<rparr>" sample_env 0] w show ?thesis by auto
qed

text \<open>The grid leaks: \<open>std::remove\<close> without \<open>erase\<close> leaves every cell as long as it was, so each step of an entity
  makes the grid larger by one, and an entity that was the last of its old cell is still listed there.\<close>

theorem grid_only_grows:
  assumes "entity_at w e = Some x"
  shows "length (mw_grid (updatePosition env e old_x old_y w) c) = length (mw_grid w c) + (if c = get_grid_position env x then 1 else 0)
    \<and> (mw_grid w (grid_position_at env old_x old_y) = es @ [e] \<and> e \<notin> set es \<longrightarrow>
        e \<in> set (mw_grid (updatePosition env e old_x old_y w) (grid_position_at env old_x old_y)))"
proof -
  have len: "length (std_remove e ys) = length ys" for ys :: "entity list"
    using length_filter_le [of "\<lambda>y. y \<noteq> e" ys] by (simp add: std_remove_def Let_def)
  have "filter (\<lambda>y. y \<noteq> e) es = es" if "e \<notin> set es" using that by (induction es) auto
  then have "std_remove e (es @ [e]) = es @ [e]" if "e \<notin> set es" using that by (simp add: std_remove_def Let_def)
  with len show ?thesis using assms by (auto simp: updatePosition_def Let_def)
qed

theorem grid_only_grows_witness:
  "length (mw_grid (updatePosition sample_env 0 5 5 (create_warpgate sample_env 2 0 0 0 1 0 0 0 0 world_new)) (0, 0)) = 2"
proof -
  let ?w = "create_warpgate sample_env 2 0 0 0 1 0 0 0 0 world_new"
  have w: "\<exists>x. entity_at ?w 0 = Some x \<and> get_grid_position sample_env x = (0, 0)" "mw_grid ?w (0, 0) = [0]"
    by (simp_all add: create_warpgate_def take_id_def create_entity_def world_new_def IdManager_new_def get_free_id_def
        sample_env_def get_grid_position_def grid_position_at_def Position_new_def)
  then obtain x where "entity_at ?w 0 = Some x" "get_grid_position sample_env x = (0, 0)" by blast
  from grid_only_grows [OF this(1), of sample_env 5 5 "(0, 0)"] this(2) w(2) show ?thesis by simp
qed

end
