(* ===== verification/MapServer.thy ===== *)
theory MapServer
  imports WorldSystems SystemManager
begin

text \<open>
  The running map server: the queues of \<open>SystemManager\<close> with the entities and systems of \<open>WorldSystems\<close>
  (\<open>map/src/cmapserver.cpp\<close>, \<open>map/src/entitysystem.cpp\<close>). Threads of clients put packets and commands into the
  queues; the thread of the map calls \<open>update\<close> again and again. Every state of the server is a state of the world
  that \<open>world_reachable\<close> describes, so what holds of the world holds of the server. \<open>serve\<close> says what an update makes
  of the queue.

  \<open>envs\<close> gives the environment of each operation, which may depend on all that happened before.
\<close>

section \<open>The server\<close>

type_synonym map_server = "(map_world, rose_packet) EntitySystem"

definition living :: "map_world \<Rightarrow> entity \<Rightarrow> bool" where
  "living w e \<longleftrightarrow> entity_at w e \<noteq> None"

definition connected :: "map_world \<Rightarrow> entity \<Rightarrow> bool" where
  "connected w e \<longleftrightarrow> mw_client w e \<noteq> None"

text \<open>The handlers of the systems; \<open>registerDispatcher\<close> casts the packet to its class, which throws when it is another.\<close>

definition world_handler :: "env \<Rightarrow> system \<Rightarrow> entity \<Rightarrow> rose_packet \<Rightarrow> map_world \<Rightarrow> map_world option" where
  "world_handler env sys e p w =
    (case sys of
       MovementSystem \<Rightarrow> (case p of
         P_CliMouseCmd P \<Rightarrow> Some (processMove env e P w)
       | P_CliStopMoving P \<Rightarrow> Some (stopMoving env e P w)
       | _ \<Rightarrow> None)
     | ChatSystem \<Rightarrow> (case p of
         P_CliNormalChat P \<Rightarrow> normalChat env e P w
       | P_CliWhisperChat P \<Rightarrow> Some (whisperChat e P w)
       | P_CliPartyChat P \<Rightarrow> partyChat e P w
       | _ \<Rightarrow> None)
     | InventorySystem \<Rightarrow> (case p of
         P_CliEquipItem P \<Rightarrow> equip_item env e P w
       | P_CliDropItem P \<Rightarrow> drop_item env e P w
       | _ \<Rightarrow> None)
     | PartySystem \<Rightarrow> (case p of
         P_CliPartyReq P \<Rightarrow> party_req e P w
       | P_CliPartyReply P \<Rightarrow> party_answer e P w
       | _ \<Rightarrow> None)
     | MapSystem \<Rightarrow> (case p of
         P_CliChangeMapReq P \<Rightarrow> processChangeMapReq env e w
       | _ \<Rightarrow> None)
     | _ \<Rightarrow> None)"

fun world_updater :: "env \<Rightarrow> system \<Rightarrow> map_world \<Rightarrow> map_world option" where
  "world_updater env MovementSystem w = MovementSystem_update env w"
| "world_updater env UpdateSystem w = Some (UpdateSystem_update env w)"
| "world_updater env PartySystem w = update_parties w"
| "world_updater env _ w = Some w"

definition server_new :: map_server where
  "server_new = EntitySystem_new world_new"

definition server_dispatch :: "entity \<Rightarrow> rose_packet \<Rightarrow> map_server \<Rightarrow> bool \<times> map_server" where
  "server_dispatch e p es = EntitySystem_dispatch living e (packet_id p) p es"

definition server_update :: "(map_world \<Rightarrow> env) \<Rightarrow> (system list \<Rightarrow> system list) \<Rightarrow> map_server \<Rightarrow> map_server option" where
  "server_update envs order es = EntitySystem_update living connected (\<lambda>sys e p w. world_handler (envs w) sys e p w)
     (\<lambda>sys w. world_updater (envs w) sys w) order es"

definition server_destroy :: "(map_world \<Rightarrow> env) \<Rightarrow> entity \<Rightarrow> bool \<Rightarrow> map_server \<Rightarrow> map_server" where
  "server_destroy envs e save es = EntitySystem_destroy living (\<lambda>w e. isOnMap e w) leave_map
     (\<lambda>e save w. destroy_command (envs w) e save w) e save es"

definition server_create_warpgate :: "(map_world \<Rightarrow> env) \<Rightarrow> u16 \<Rightarrow> f32 \<Rightarrow> f32 \<Rightarrow> f32 \<Rightarrow> u16 \<Rightarrow> f32 \<Rightarrow> f32 \<Rightarrow> f32 \<Rightarrow> f32
    \<Rightarrow> map_server \<Rightarrow> map_server" where
  "server_create_warpgate envs dm dx dy dz m x y z angle es =
    es\<lparr>m_create_commands := m_create_commands es @ [\<lambda>w. Some (create_warpgate (envs w) dm dx dy dz m x y z angle w)]\<rparr>"

definition server_create_npc :: "(map_world \<Rightarrow> env) \<Rightarrow> u8 \<Rightarrow> u16 \<Rightarrow> u16 \<Rightarrow> u16 \<Rightarrow> f32 \<Rightarrow> f32 \<Rightarrow> f32 \<Rightarrow> f32
    \<Rightarrow> map_server \<Rightarrow> map_server" where
  "server_create_npc envs fame npc dialog m x y z angle es =
    es\<lparr>m_create_commands := m_create_commands es @ [\<lambda>w. Some (create_npc (envs w) fame npc dialog m x y z angle w)]\<rparr>"

definition server_bulk_destroy :: "(map_world \<Rightarrow> env) \<Rightarrow> entity list \<Rightarrow> map_server \<Rightarrow> map_server" where
  "server_bulk_destroy envs hs es = es\<lparr>m_delete_commands := m_delete_commands es @ [\<lambda>w. bulk_destroy (envs w) hs w]\<rparr>"

text \<open>\<open>loadCharacter\<close> and the client's \<open>SocketConnector\<close>, and a client that goes away.\<close>

definition server_join :: "env \<Rightarrow> u32 \<Rightarrow> bool \<Rightarrow> character_tables \<Rightarrow> u32 \<Rightarrow> map_server \<Rightarrow> map_server option" where
  "server_join env cid pl t session es =
    (case load_player env cid pl t (m_store es) of
       Some (Some e, w) \<Rightarrow> Some (es\<lparr>m_store := assign_client e session w\<rparr>)
     | _ \<Rightarrow> None)"

definition server_disconnect :: "entity \<Rightarrow> map_server \<Rightarrow> map_server" where
  "server_disconnect e es = es\<lparr>m_store := (m_store es)\<lparr>mw_client := (mw_client (m_store es))(e := None)\<rparr>\<rparr>"

inductive server_reachable :: "map_server \<Rightarrow> bool" where
  start: "server_reachable server_new"
| dispatch: "server_reachable es \<Longrightarrow> server_reachable (snd (server_dispatch e p es))"
| update: "server_reachable es \<Longrightarrow> server_update envs order es = Some es' \<Longrightarrow> server_reachable es'"
| destroy: "server_reachable es \<Longrightarrow> server_reachable (server_destroy envs e save es)"
| gate: "server_reachable es \<Longrightarrow> server_reachable (server_create_warpgate envs dm dx dy dz m x y z angle es)"
| npc: "server_reachable es \<Longrightarrow> server_reachable (server_create_npc envs fame npc dialog m x y z angle es)"
| bulk: "server_reachable es \<Longrightarrow> server_reachable (server_bulk_destroy envs hs es)"
| join: "server_reachable es \<Longrightarrow> server_join env cid pl t session es = Some es' \<Longrightarrow> server_reachable es'"
| disconnect: "server_reachable es \<Longrightarrow> server_reachable (server_disconnect e es)"

section \<open>The server stays within the world\<close>

definition world_step :: "(map_world \<Rightarrow> map_world option) \<Rightarrow> bool" where
  "world_step c \<longleftrightarrow> (\<forall>w w'. world_reachable w \<longrightarrow> c w = Some w' \<longrightarrow> world_reachable w')"

lemma world_stepD: "world_step c \<Longrightarrow> c w = Some w' \<Longrightarrow> world_reachable w \<Longrightarrow> world_reachable w'"
  by (simp add: world_step_def)

lemma handler_step: "world_step (\<lambda>w. world_handler (envs w) sys e p w)"
  unfolding world_step_def
proof (intro allI impI)
  fix w w' assume "world_reachable w" "world_handler (envs w) sys e p w = Some w'"
  then show "world_reachable w'"
    by (auto simp: world_handler_def split: system.splits rose_packet.splits intro: world_reachable.intros)
qed

lemma updater_step: "world_step (\<lambda>w. world_updater (envs w) sys w)"
  unfolding world_step_def by (cases sys) (auto intro: world_reachable.intros)

lemma run_all_step:
  assumes "\<And>x. x \<in> set xs \<Longrightarrow> world_step (f x)" and "run_all f xs w = Some w'" and "world_reachable w"
  shows "world_reachable w'"
  using assms
proof (induction xs arbitrary: w)
  case (Cons x xs)
  then obtain w1 where "f x w = Some w1" "run_all f xs w1 = Some w'" by (auto split: option.splits)
  moreover from this(1) have "world_reachable w1" using Cons.prems world_stepD [of "f x" w w1] by simp
  ultimately show ?case using Cons by simp
qed simp

lemma dispatch_entries_step:
  assumes "\<And>sys. world_step (handler sys e p)"
  shows "dispatch_entries valid client handler systems ty e p d w = Some (d', w') \<Longrightarrow> world_reachable w \<Longrightarrow> world_reachable w'"
proof (induction d arbitrary: d' w)
  case (Cons x d)
  obtain t sys where "x = (t, sys)" by (cases x)
  then show ?case using Cons world_stepD [OF assms] by (auto split: if_splits option.splits)
qed simp

lemma dispatch_queue_step:
  assumes "\<And>sys e p. world_step (handler sys e p)"
  shows "dispatch_queue valid client handler q m w = Some (m', w') \<Longrightarrow> world_reachable w \<Longrightarrow> world_reachable w'"
proof (induction q arbitrary: m w)
  case (Cons x q)
  obtain e ty p where "x = (e, ty, p)" by (cases x)
  then show ?case
    using Cons by (auto simp: SystemManager_dispatch_def dest: dispatch_entries_step [OF assms] split: option.splits)
qed simp

definition queues_ok :: "map_server \<Rightarrow> bool" where
  "queues_ok es \<longleftrightarrow> world_reachable (m_store es) \<and> (\<forall>c \<in> set (m_create_commands es @ m_delete_commands es). world_step c)"

lemma update_ok:
  assumes "server_update envs order es = Some es'" and "queues_ok es"
  shows "queues_ok es'"
proof -
  let ?handler = "\<lambda>sys e p w. world_handler (envs w) sys e p w" and ?updater = "\<lambda>sys w. world_updater (envs w) sys w"
  obtain s1 m2 s2 s3 s4 where s: "run_all (\<lambda>c. c) (m_create_commands es) (m_store es) = Some s1"
      "dispatch_queue living connected ?handler (m_toDispatch es) (m_manager es) s1 = Some (m2, s2)"
      "run_all ?updater (order (m_systems m2)) s2 = Some s3" "run_all (\<lambda>c. c) (m_delete_commands es) s3 = Some s4"
      "es' = es\<lparr>m_store := s4, m_manager := m2, m_create_commands := [], m_toDispatch := [], m_delete_commands := []\<rparr>"
    using assms(1) by (auto simp: server_update_def EntitySystem_update_def SystemManager_update_def split: option.splits)
  have "world_reachable s1" using run_all_step [OF _ s(1)] assms(2) by (simp add: queues_ok_def)
  then have "world_reachable s2" using dispatch_queue_step [OF handler_step s(2)] by simp
  then have "world_reachable s3" using run_all_step [OF updater_step s(3)] by simp
  then have "world_reachable s4" using run_all_step [OF _ s(4)] assms(2) by (simp add: queues_ok_def)
  then show ?thesis by (simp add: s(5) queues_ok_def)
qed

lemma command_steps:
  "world_step (\<lambda>w. destroy_command (envs w) e save w)" "world_step (\<lambda>w. bulk_destroy (envs w) hs w)"
  "world_step (\<lambda>w. Some (create_warpgate (envs w) dm dx dy dz m x y z angle w))"
  "world_step (\<lambda>w. Some (create_npc (envs w) fame npc dialog m x y z angle w))"
  by (auto simp: world_step_def intro: world_reachable.intros)

lemma server_queues_ok: "server_reachable es \<Longrightarrow> queues_ok es"
proof (induction rule: server_reachable.induct)
  case start
  show ?case by (simp add: queues_ok_def server_new_def EntitySystem_new_def world_reachable.start)
next
  case (update es envs order es')
  then show ?case by (blast intro: update_ok)
next
  case (join es env cid pl t session es')
  then obtain e w where "load_player env cid pl t (m_store es) = Some (Some e, w)" "es' = es\<lparr>m_store := assign_client e session w\<rparr>"
    by (auto simp: server_join_def split: option.splits)
  then show ?case using join.IH by (auto simp: queues_ok_def intro: world_reachable.join [of "m_store es"])
qed (auto simp: queues_ok_def server_dispatch_def EntitySystem_dispatch_def server_destroy_def EntitySystem_destroy_def
    server_create_warpgate_def server_create_npc_def server_bulk_destroy_def server_disconnect_def
    intro: world_reachable.intros command_steps)

section \<open>An update that cannot fail\<close>

text \<open>Nothing changes the parties while entities move; without a \<open>Party\<close> component there is nothing to do for parties.\<close>

lemma party_kept:
  "mw_party (remove_destination env e w) = mw_party w" "mw_party (updatePosition env e x y w) = mw_party w"
  "mw_party (set_entity e f w) = mw_party w" "mw_party (set_position_at e h w) = mw_party w"
  by (auto simp: remove_destination_def updatePosition_def set_entity_def set_position_at_def world_send_def Let_def
      split: option.splits world_entity.splits)

lemma move_total:
  assumes "sight_inv w"
  shows "\<exists>w'. move_entity env e w = Some w' \<and> mw_party w' = mw_party w"
proof -
  have none: "is_on_warpgate env e u = None" if "same_stage w u" for u
    by (rule no_gates [OF sight_same_stage [OF that assms]])
  show ?thesis
    by (auto simp: move_entity_def Let_def party_kept intro!: none stage_intros split: option.splits)
      (simp_all add: none stage_intros)
qed

lemma movement_total:
  assumes "sight_inv w"
  shows "\<exists>w'. MovementSystem_update env w = Some w' \<and> mw_party w' = mw_party w"
proof -
  have "\<exists>w'. run_all (move_entity env) es u = Some w' \<and> mw_party w' = mw_party u" if "sight_inv u" for es u
    using that
  proof (induction es arbitrary: u)
    case (Cons e es)
    obtain u1 where u1: "move_entity env e u = Some u1" "mw_party u1 = mw_party u" using move_total [OF Cons.prems] by blast
    have "sight_inv u1" by (rule sight_same_stage [OF same_stage_move_entity [OF u1(1) same_stage_refl] Cons.prems])
    from Cons.IH [OF this] show ?case using u1 by auto
  qed simp
  then show ?thesis using assms by (simp add: MovementSystem_update_def)
qed

lemma parties_total:
  assumes "mw_party w = (\<lambda>_. None)"
  shows "\<exists>w'. update_parties w = Some w' \<and> mw_party w' = mw_party w"
proof -
  have "PartySystem_update es (party_view w) = Some (party_view w)" for es
    unfolding PartySystem_update_def using assms by (induction es) (simp_all add: party_view_def)
  then show ?thesis by (simp add: update_parties_def party_back_def party_view_def)
qed

lemma updates_total:
  assumes "sight_inv w" and "mw_party w = (\<lambda>_. None)"
  shows "\<exists>w'. run_all (\<lambda>sys w. world_updater (envs w) sys w) order w = Some w' \<and> same_stage w w' \<and> mw_party w' = (\<lambda>_. None)"
  using assms
proof (induction order arbitrary: w)
  case (Cons sys order)
  have "\<exists>w1. world_updater (envs w) sys w = Some w1 \<and> mw_party w1 = mw_party w \<and> same_stage w w1"
    using movement_total [OF Cons.prems(1), of "envs w"] parties_total [OF Cons.prems(2)] same_stage_updates same_stage_party(3) same_stage_refl
    by (cases sys) (auto simp: UpdateSystem_update_def Let_def)
  then obtain w1 where w1: "world_updater (envs w) sys w = Some w1" "mw_party w1 = mw_party w" "same_stage w w1" by blast
  have "sight_inv w1" by (rule sight_same_stage [OF w1(3) Cons.prems(1)])
  with Cons.IH [of w1] w1 Cons.prems(2) show ?case using same_stage_trans by fastforce
qed (simp add: same_stage_refl)

lemma registered: "(ty, sys) \<in> set (m_dispatch all_systems) \<Longrightarrow> map_of (m_dispatch all_systems) ty = Some sys"
  using all_systems_distinct by (simp add: map_of_eq_Some_iff)

text \<open>A server with empty queues that gets one packet and updates.\<close>

lemma update_one:
  assumes "map_of (m_dispatch all_systems) (packet_id p) = Some sys" and "living w e" and "connected w e"
    and "world_handler (envs w) sys e p w = Some w1" and "sight_inv w1" and "mw_party w1 = (\<lambda>_. None)"
  shows "\<exists>w2. server_update envs order (snd (server_dispatch e p (EntitySystem_new w))) = Some (EntitySystem_new w2)
    \<and> same_stage w1 w2 \<and> mw_party w2 = (\<lambda>_. None)"
proof -
  let ?handler = "\<lambda>sys e p w. world_handler (envs w) sys e p w"
  have entry: "(packet_id p, sys) \<in> set (m_dispatch all_systems)" by (rule map_of_SomeD [OF assms(1)])
  then have would: "wouldDispatch (packet_id p) all_systems" by (auto simp: wouldDispatch_def list_ex_iff)
  have es: "snd (server_dispatch e p (EntitySystem_new w)) = (EntitySystem_new w)\<lparr>m_toDispatch := [(e, packet_id p, p)]\<rparr>"
    using assms(2) would by (simp add: server_dispatch_def EntitySystem_dispatch_def EntitySystem_new_def)
  have d: "dispatch_queue living connected ?handler [(e, packet_id p, p)] all_systems w = Some (all_systems, w1)"
    using dispatch_entries_one [OF all_systems_distinct entry all_systems_there, of living w e connected ?handler p] assms(2-4)
    by (simp add: SystemManager_dispatch_def)
  obtain w2 where "run_all (\<lambda>sys w. world_updater (envs w) sys w) (order (m_systems all_systems)) w1 = Some w2" "same_stage w1 w2"
      "mw_party w2 = (\<lambda>_. None)"
    using updates_total [OF assms(5,6)] by blast
  then show ?thesis
    unfolding es using d by (simp add: server_update_def EntitySystem_update_def SystemManager_update_def EntitySystem_new_def)
qed

section \<open>The queue and the table\<close>

text \<open>In every state the table is the original one without some types, and queued packets have the type of their class.\<close>

definition queue_ok :: "map_server \<Rightarrow> bool" where
  "queue_ok es \<longleftrightarrow> (\<exists>T. m_manager es = kept T) \<and> (\<forall>(e, ty, p) \<in> set (m_toDispatch es). ty = packet_id p \<and> system_of ty \<noteq> None)"

lemma wouldDispatch_kept: "wouldDispatch ty (kept T) \<Longrightarrow> system_of ty \<noteq> None"
  using kept_types [of ty T] by (force simp: wouldDispatch_def list_ex_iff)

lemma update_queue_ok:
  assumes "server_update envs order es = Some es'" and "queue_ok es"
  shows "queue_ok es'"
proof -
  obtain T where "m_manager es = kept T" using assms(2) by (auto simp: queue_ok_def)
  with assms(1) show ?thesis
    by (auto simp: server_update_def update_serves queue_ok_def bind_eq_Some_conv split: prod.splits)
qed

lemma reachable_queue: "server_reachable es \<Longrightarrow> queue_ok es"
proof (induction rule: server_reachable.induct)
  case start
  show ?case using kept_UNIV by (metis EntitySystem.select_convs(2,5) EntitySystem_new_def empty_iff list.set(1) queue_ok_def server_new_def)
next
  case (dispatch es e p)
  then show ?case
    using wouldDispatch_kept by (fastforce simp: queue_ok_def server_dispatch_def EntitySystem_dispatch_def)
next
  case (update es envs order es')
  then show ?case by (blast intro: update_queue_ok)
next
  case (join es env cid pl t session es')
  then obtain w where "es' = es\<lparr>m_store := w\<rparr>" by (auto simp: server_join_def split: option.splits)
  then show ?case using join.IH by (simp add: queue_ok_def)
qed (auto simp: queue_ok_def server_destroy_def EntitySystem_destroy_def server_create_warpgate_def server_create_npc_def
    server_bulk_destroy_def server_disconnect_def)

text \<open>Packets whose handlers always return: messages that are no commands, movements and stops.\<close>

fun harmless :: "rose_packet \<Rightarrow> bool" where
  "harmless (P_CliNormalChat P) = (CliNormalChat.m_message P = [] \<or> hd (CliNormalChat.m_message P) \<noteq> 47)"
| "harmless (P_CliWhisperChat P) = True"
| "harmless (P_CliPartyChat P) = True"
| "harmless (P_CliMouseCmd P) = True"
| "harmless (P_CliStopMoving P) = True"
| "harmless _ = False"

lemma sent_party [simp]: "mw_party (send_client e p w) = mw_party w" "mw_party (world_send env src ty p w) = mw_party w"
  by (simp_all add: send_client_def world_send_def)

lemma moves_party: "mw_party (processMove env e P w) = mw_party w" "mw_party (stopMoving env e Q w) = mw_party w"
  by (auto simp: processMove_def move_def stopMoving_def stop_def party_kept set_basic_at_def Let_def
      split: option.splits world_entity.splits)

lemma harmless_handled:
  assumes "harmless p" and "same_stage w0 w" and "mw_party w = (\<lambda>_. None)"
  shows "\<exists>sys w'. system_of (packet_id p) = Some sys \<and> world_handler env sys e p w = Some w' \<and> same_stage w0 w' \<and> mw_party w' = (\<lambda>_. None)"
proof -
  have own: "system_of (packet_id p) = Some sys" if "(packet_id p, sys) \<in> set (m_dispatch all_systems)" for sys
    using registered [OF that] by (simp add: system_of_entry)
  show ?thesis
  proof (cases p)
    case (P_CliNormalChat P)
    have "system_of (packet_id p) = Some ChatSystem" by (rule own) (simp add: P_CliNormalChat all_systems_dispatch)
    then show ?thesis using assms P_CliNormalChat
      by (auto simp: world_handler_def normalChat_def executeGM_def intro!: stage_intros split: option.splits)
  next
    case (P_CliWhisperChat P)
    have "system_of (packet_id p) = Some ChatSystem" by (rule own) (simp add: P_CliWhisperChat all_systems_dispatch)
    then show ?thesis using assms P_CliWhisperChat
      by (auto simp: world_handler_def whisperChat_def whisper_def intro!: stage_intros split: option.splits)
  next
    case (P_CliPartyChat P)
    have "system_of (packet_id p) = Some ChatSystem" by (rule own) (simp add: P_CliPartyChat all_systems_dispatch)
    then show ?thesis using assms P_CliPartyChat by (auto simp: world_handler_def partyChat_def split: option.splits)
  next
    case (P_CliMouseCmd P)
    have "system_of (packet_id p) = Some MovementSystem" by (rule own) (simp add: P_CliMouseCmd all_systems_dispatch)
    then show ?thesis using assms P_CliMouseCmd same_stage_trans [OF assms(2)] same_stage_walks
      by (simp add: world_handler_def moves_party)
  next
    case (P_CliStopMoving P)
    have "system_of (packet_id p) = Some MovementSystem" by (rule own) (simp add: P_CliStopMoving all_systems_dispatch)
    then show ?thesis using assms P_CliStopMoving same_stage_trans [OF assms(2)] same_stage_walks
      by (simp add: world_handler_def moves_party)
  qed (use assms(1) in simp_all)
qed

lemma same_stage_here: "same_stage w0 w \<Longrightarrow> living w e = living w0 e \<and> connected w e = connected w0 e"
  using entity_at_tags [of w e] entity_at_tags [of w0 e]
  by (cases "entity_at w e"; cases "entity_at w0 e") (auto simp: same_stage_def living_def connected_def)

lemma harmless_served:
  assumes "mw_party w0 = (\<lambda>_. None)" and "\<forall>(e, ty, p) \<in> set q. harmless p \<and> living w0 e \<and> connected w0 e"
    and "\<forall>(e, ty, p) \<in> set q. ty = packet_id p"
  shows "\<exists>w1. run_all (\<lambda>(e, ty, p) w. world_handler (envs w) (the (system_of ty)) e p w) q w0 = Some w1
    \<and> (same_stage w0 w1 \<and> mw_party w1 = (\<lambda>_. None))
    \<and> serve living connected (\<lambda>sys e p w. world_handler (envs w) sys e p w) UNIV q w0 = Some (UNIV, w1)"
proof (rule serve_all [where good = "\<lambda>w. same_stage w0 w \<and> mw_party w = (\<lambda>_. None)"])
  show "same_stage w0 w0 \<and> mw_party w0 = (\<lambda>_. None)" using assms(1) same_stage_refl by blast
  fix e ty p w assume "(e, ty, p) \<in> set q" and g: "same_stage w0 w \<and> mw_party w = (\<lambda>_. None)"
  then have "harmless p" "living w e" "connected w e" "ty = packet_id p"
    using assms(2,3) same_stage_here [of w0 w e] by auto
  then show "ty \<in> UNIV \<and> living w e \<and> connected w e \<and> (\<exists>sys w'. system_of ty = Some sys \<and> world_handler (envs w) sys e p w = Some w'
      \<and> same_stage w0 w' \<and> mw_party w' = (\<lambda>_. None))"
    using harmless_handled [of p w0 w "envs w" e] g by auto
qed

lemma run_all_cong:
  assumes "\<forall>(e, ty, p) \<in> set q. ty = packet_id p"
  shows "run_all (\<lambda>(e, ty, p) w. f ty e p w) q w = run_all (\<lambda>(e, ty, p) w. f (packet_id p) e p w) q w"
  using assms by (induction q arbitrary: w) (auto split: option.splits)

section \<open>Properties\<close>


text \<open>C22. Packets that cannot fail are handled. Take a map server that has lost no handler, on which the commands that create
  entities run and on which there are no parties then, with a queue of messages (to all who are near, to one player or to a
  party, but no commands of game masters), of movements and of stops, in any number and order, whose senders are alive and
  connected. Its update has the system of each packet's type handle it, every packet once and in the order of arrival, then
  has every system update, and no step of this raises an exception; then only the commands that destroy are left.\<close>

theorem update_handles_queue:
  assumes "server_reachable es" and "m_manager es = all_systems"
    and "run_all (\<lambda>c. c) (m_create_commands es) (m_store es) = Some w0" and "mw_party w0 = (\<lambda>_. None)"
    and "\<forall>(e, ty, p) \<in> set (m_toDispatch es). harmless p \<and> living w0 e \<and> connected w0 e"
  shows "\<exists>w1 w2. run_all (\<lambda>(e, ty, p) w. world_handler (envs w) (the (system_of (packet_id p))) e p w) (m_toDispatch es) w0 = Some w1
    \<and> run_all (\<lambda>sys w. world_updater (envs w) sys w) (order (m_systems all_systems)) w1 = Some w2
    \<and> tags w2 = tags w0 \<and> mw_client w2 = mw_client w0
    \<and> server_update envs order es = map_option EntitySystem_new (run_all (\<lambda>c. c) (m_delete_commands es) w2)"
proof -
  have inv: "sight_inv w0"
    using run_all_step [OF _ assms(3)] server_queues_ok [OF assms(1)] world_reachable_sight by (auto simp: queues_ok_def)
  have tagged: "\<forall>(e, ty, p) \<in> set (m_toDispatch es). ty = packet_id p"
    using reachable_queue [OF assms(1)] by (auto simp: queue_ok_def)
  obtain w1 where w1: "run_all (\<lambda>(e, ty, p) w. world_handler (envs w) (the (system_of ty)) e p w) (m_toDispatch es) w0 = Some w1"
      "same_stage w0 w1 \<and> mw_party w1 = (\<lambda>_. None)"
      "serve living connected (\<lambda>sys e p w. world_handler (envs w) sys e p w) UNIV (m_toDispatch es) w0 = Some (UNIV, w1)"
    using harmless_served [OF assms(4,5) tagged, of envs] by blast
  obtain w2 where w2: "run_all (\<lambda>sys w. world_updater (envs w) sys w) (order (m_systems all_systems)) w1 = Some w2" "same_stage w1 w2"
    using updates_total [of w1 envs "order (m_systems all_systems)"] w1(2) sight_same_stage [OF _ inv] by blast
  have "run_all (\<lambda>(e, ty, p) w. world_handler (envs w) (the (system_of (packet_id p))) e p w) (m_toDispatch es) w0 = Some w1"
    using w1(1) run_all_cong [OF tagged, of "\<lambda>ty e p w. world_handler (envs w) (the (system_of ty)) e p w"] by simp
  moreover have "server_update envs order es = map_option EntitySystem_new (run_all (\<lambda>c. c) (m_delete_commands es) w2)"
    unfolding server_update_def using assms(2,3) w1(3) w2(1) update_serves [of es UNIV]
    by (cases "run_all (\<lambda>c. c) (m_delete_commands es) w2") (simp_all add: EntitySystem_new_def)
  ultimately show ?thesis using w1(2) w2 by (auto simp: same_stage_def)
qed

text \<open>C16. What players see: in every state of the map server, a connected player on the map has been sent the appearance of
  every other player who is on the map and of every NPC.\<close>

theorem players_see_each_other:
  assumes "server_reachable es" and "isOnMap a (m_store es)" and "mw_client (m_store es) a \<noteq> None"
  shows "(b \<noteq> a \<and> isOnMap b (m_store es) \<longrightarrow> (\<exists>d \<in> set (mw_sent (m_store es)). shows_player d a b))
    \<and> (\<forall>n. entity_at (m_store es) b = Some (NpcE n) \<longrightarrow> (\<exists>d \<in> set (mw_sent (m_store es)). shows_npc d a b))"
proof (rule world_sees [OF _ assms(2,3)])
  show "world_reachable (m_store es)" using server_queues_ok [OF assms(1)] by (simp add: queues_ok_def)
qed

text \<open>C17. A chat message is delivered by the next update: dispatched for a connected player on the map to a server with empty
  queues and no parties, the update succeeds and broadcasts it to the neighbours the player had, and the queues are
  empty again.\<close>

theorem chat_delivered_by_update:
  assumes "server_reachable es" and "es = EntitySystem_new w" and "entity_at w e = Some x" and "mw_client w e \<noteq> None"
    and "mw_party w = (\<lambda>_. None)" and "CliNormalChat.m_message P = [] \<or> hd (CliNormalChat.m_message P) \<noteq> 47"
  shows "\<exists>w'. server_update envs order (snd (server_dispatch e (P_CliNormalChat P) es)) = Some (EntitySystem_new w')
    \<and> Broadcast NEARBY (receivers (envs w) (Some e) NEARBY w)
        (W_NORMAL_CHAT \<lparr>SrvNormalChat.m_charId = b_id (basic_of x), m_message = CliNormalChat.m_message P\<rparr>) \<in> set (mw_sent w')"
proof -
  let ?p = "W_NORMAL_CHAT \<lparr>SrvNormalChat.m_charId = b_id (basic_of x), m_message = CliNormalChat.m_message P\<rparr>"
  let ?w = "world_send (envs w) (Some e) NEARBY ?p w"
  have "world_reachable w" using server_queues_ok [OF assms(1)] assms(2) by (simp add: queues_ok_def EntitySystem_new_def)
  then have inv: "sight_inv ?w" using world_reachable_sight sight_same_stage same_stage_sent(2) same_stage_refl by blast
  have entry: "map_of (m_dispatch all_systems) (packet_id (P_CliNormalChat P)) = Some ChatSystem"
    by (rule registered) (simp add: all_systems_dispatch)
  have "normalChat (envs w) e P w = Some ?w"
    using assms(3,6) by (auto simp: normalChat_def executeGM_def)
  then have h: "world_handler (envs w) ChatSystem e (P_CliNormalChat P) w = Some ?w" by (simp add: world_handler_def)
  have "mw_party ?w = (\<lambda>_. None)" using assms(5) by (simp add: world_send_def)
  from update_one [where envs = envs, OF entry _ _ h inv this, of order] assms(3,4)
  obtain w' where "server_update envs order (snd (server_dispatch e (P_CliNormalChat P) (EntitySystem_new w))) = Some (EntitySystem_new w')"
      "same_stage ?w w'"
    by (auto simp: living_def connected_def)
  then show ?thesis using assms(2) by (auto simp: same_stage_def world_send_def)
qed

subsection \<open>Witnesses\<close>

definition quiet :: "map_world \<Rightarrow> bool" where
  "quiet w \<longleftrightarrow> server_reachable (EntitySystem_new w) \<and> mw_party w = (\<lambda>_. None)"

lemma quiet_world: "quiet w \<Longrightarrow> world_reachable w"
  using server_queues_ok by (fastforce simp: quiet_def queues_ok_def EntitySystem_new_def)

lemma quiet_join:
  assumes "quiet w"
  shows "\<exists>w'. quiet w' \<and> mw_client w' = (mw_client w)(mw_created w := Some 5) \<and> mw_created w' = Suc (mw_created w)
    \<and> map_of (tags w') = (map_of (tags w))(mw_created w \<mapsto> (0, False))"
proof -
  obtain i w1 where i: "take_id sample_env w = (i, w1)" by (cases "take_id sample_env w")
  obtain v where v: "loadCharacter (env_db sample_env) (env_scripts sample_env) (speed_mod sample_env (mw_created w)) i 40 False sample_tables
      = Some (Some v)"
    using sample_loads [of i 40] by (auto simp: sample_env_def)
  from join_total [OF world_reachable_sight [OF quiet_world [OF assms]] i v]
  obtain w' where w': "load_player sample_env 40 False sample_tables w = Some (Some (mw_created w), w')" "mw_client w' = mw_client w"
      "mw_created w' = Suc (mw_created w)" "map_of (tags w') = (map_of (tags w))(mw_created w \<mapsto> (0, False))"
    by blast
  have "mw_party w' = mw_party w"
    using w'(1) by (auto simp: load_player_def take_id_def create_entity_def registerEntity_def Let_def split: prod.splits option.splits if_splits)
  moreover have "server_join sample_env 40 False sample_tables 5 (EntitySystem_new w) = Some (EntitySystem_new (assign_client (mw_created w) 5 w'))"
    using w'(1) by (simp add: server_join_def EntitySystem_new_def)
  moreover have "tags (assign_client (mw_created w) 5 w') = tags w'" by (simp add: tags_def assign_client_def)
  ultimately show ?thesis
    using assms w' by (intro exI [of _ "assign_client (mw_created w) 5 w'"]) (auto simp: quiet_def assign_client_def intro: server_reachable.join)
qed

lemma enter_party:
  assumes "processChangeMapReq env e w = Some w'"
  shows "mw_party w' = mw_party w"
proof -
  have shown: "mw_party u' = mw_party u" if "show_entity e y u = Some u'" for y u u'
    using that by (cases "(e, y, u)" rule: show_entity.cases) (auto simp: send_client_def split: if_splits)
  have item: "mw_party u' = mw_party u" if "show_item e y u = Some u'" for y u u'
    using that by (cases "(e, y, u)" rule: show_item.cases) (auto simp: send_client_def)
  have run: "mw_party u' = mw_party u" if "\<And>y u u'. f y u = Some u' \<Longrightarrow> mw_party u' = mw_party u" "run_all f ys u = Some u'" for f ys u u'
    using that(2) by (induction ys arbitrary: u) (auto split: option.splits dest: that(1))
  obtain v where v: "entity_at w e = Some (PlayerE v)"
    using assms by (auto simp: processChangeMapReq_def split: option.splits world_entity.splits)
  define w3 where "w3 = world_send env (Some e) EVERYONE_BUT_ME_ON_MAP (W_PLAYER_CHAR e v)
    (sendMsg e (ascii ''You are client '' @ decimal (unat (b_id (basicInfo v)))) (send_client e (W_CHANGE_MAP_REPLY
      (SrvChangeMapReply_new (b_id (basicInfo v)) (ucast (a_hp (advancedInfo v))) (ucast (a_mp (advancedInfo v)))
      (ucast (b_xp (basicInfo v))) (ucast (c_penaltyXp (characterInfo v))) (ucast (now_time env)) 0)) w))"
  obtain w4 u where u: "run_all (show_entity e) (mw_entities w) w3 = Some w4" "run_all (show_item e) (mw_entities w) w4 = Some u"
      "w' = set_basic_at e (\<lambda>b. b\<lparr>b_isOnMap := True\<rparr>) u"
    using assms v by (auto simp: processChangeMapReq_def Let_def w3_def bind_eq_Some_conv)
  have "mw_party w3 = mw_party w" by (simp add: w3_def sendMsg_def whisper_def send_client_def world_send_def)
  then show ?thesis
    using run [OF shown u(1)] run [OF item u(2)] u(3) by (simp add: set_basic_at_def party_kept)
qed

lemma quiet_enter:
  assumes "quiet w" and "map_of (tags w) e = Some (0, flag)" and "mw_client w e \<noteq> None"
  shows "\<exists>w'. quiet w' \<and> mw_client w' = mw_client w
    \<and> (\<forall>b. map_of (tags w') b = map_option (\<lambda>(k, flag). (k, flag \<or> b = e)) (map_of (tags w) b))"
proof -
  obtain x where x: "entity_at w e = Some x" "kind_of x = 0" using assms(2) by (auto simp: entity_at_tags tag_def)
  then obtain v where v: "entity_at w e = Some (PlayerE v)" by (cases x) (auto split: if_splits)
  have inv: "sight_inv w" by (rule world_reachable_sight [OF quiet_world [OF assms(1)]])
  obtain w1 where w1: "processChangeMapReq sample_env e w = Some w1" "mw_client w1 = mw_client w"
      "\<forall>b. map_of (tags w1) b = map_option (\<lambda>(k, flag). (k, flag \<or> b = e)) (map_of (tags w) b)"
    using enter_total [OF inv v] by blast
  let ?p = "P_CliChangeMapReq \<lparr>CliChangeMapReq.m_weightRate = 0, m_z = 0\<rparr>"
  have entry: "map_of (m_dispatch all_systems) (packet_id ?p) = Some MapSystem"
    by (rule registered) (simp add: all_systems_dispatch)
  have h: "world_handler sample_env MapSystem e ?p w = Some w1" using w1(1) by (simp add: world_handler_def)
  have "mw_party w1 = (\<lambda>_. None)" using enter_party [OF w1(1)] assms(1) by (simp add: quiet_def)
  from update_one [where envs = "\<lambda>_. sample_env", OF entry _ _ h sight_enter [OF w1(1) inv] this, of "\<lambda>l. l"] x(1) assms(3)
  obtain w2 where w2: "server_update (\<lambda>_. sample_env) (\<lambda>l. l) (snd (server_dispatch e ?p (EntitySystem_new w))) = Some (EntitySystem_new w2)"
      "same_stage w1 w2" "mw_party w2 = (\<lambda>_. None)"
    by (auto simp: living_def connected_def)
  have "quiet w2"
    using assms(1) w2(1,3) server_reachable.update [OF server_reachable.dispatch] unfolding quiet_def by blast
  then show ?thesis using w1(2,3) w2(2) by (auto simp: same_stage_def)
qed

lemma quiet_two: "\<exists>w. quiet w \<and> isOnMap 0 w \<and> isOnMap 1 w \<and> mw_client w 0 \<noteq> None"
proof -
  have "quiet world_new" using server_reachable.start by (simp add: quiet_def server_new_def world_new_def)
  then obtain w1 where w1: "quiet w1" "mw_client w1 = (\<lambda>_. None)(0 := Some 5)" "mw_created w1 = 1" "map_of (tags w1) = [0 \<mapsto> (0, False)]"
    using quiet_join [of world_new] by (auto simp: world_new_def tags_def)
  obtain w2 where w2: "quiet w2" "mw_client w2 0 = Some 5" "mw_client w2 1 = Some 5" "map_of (tags w2) = [0 \<mapsto> (0, False), 1 \<mapsto> (0, False)]"
    using quiet_join [OF w1(1)] w1(2-4) by auto
  obtain w3 where w3: "quiet w3" "mw_client w3 0 = Some 5" "mw_client w3 1 = Some 5" "map_of (tags w3) 0 = Some (0, True)" "map_of (tags w3) 1 = Some (0, False)"
    using quiet_enter [OF w2(1), of 0 False] w2(2-) by auto
  obtain w4 where "quiet w4" "mw_client w4 0 = Some 5" "map_of (tags w4) 0 = Some (0, True)" "map_of (tags w4) 1 = Some (0, True)"
    using quiet_enter [OF w3(1), of 1 False] w3(2-) by auto
  then show ?thesis by (auto simp: isOnMap_tags)
qed

text \<open>A message of a player waits in the queue.\<close>

lemma quiet_chat:
  assumes "quiet w" and "isOnMap 0 w"
  shows "server_reachable (snd (server_dispatch 0 (P_CliNormalChat P) (EntitySystem_new w)))"
    and "snd (server_dispatch 0 (P_CliNormalChat P) (EntitySystem_new w))
      = (EntitySystem_new w)\<lparr>m_toDispatch := [(0, PAKCS_NORMAL_CHAT, P_CliNormalChat P)]\<rparr>"
proof -
  show "server_reachable (snd (server_dispatch 0 (P_CliNormalChat P) (EntitySystem_new w)))"
    using assms(1) by (auto simp: quiet_def intro: server_reachable.dispatch)
  have "wouldDispatch PAKCS_NORMAL_CHAT all_systems" by (simp add: wouldDispatch_def all_systems_dispatch)
  moreover have "living w 0" using assms(2) by (auto simp: living_def isOnMap_def split: option.splits)
  ultimately show "snd (server_dispatch 0 (P_CliNormalChat P) (EntitySystem_new w))
      = (EntitySystem_new w)\<lparr>m_toDispatch := [(0, PAKCS_NORMAL_CHAT, P_CliNormalChat P)]\<rparr>"
    by (simp add: server_dispatch_def EntitySystem_dispatch_def EntitySystem_new_def)
qed


theorem update_handles_queue_witness:
  "\<exists>w w2. isOnMap 0 w \<and> tags w2 = tags w
    \<and> server_update (\<lambda>_. sample_env) (\<lambda>l. l)
        ((EntitySystem_new w)\<lparr>m_toDispatch := [(0, PAKCS_NORMAL_CHAT, P_CliNormalChat \<lparr>CliNormalChat.m_message = [65]\<rparr>)]\<rparr>)
      = Some (EntitySystem_new w2)"
proof -
  obtain w where w: "quiet w" "isOnMap 0 w" "mw_client w 0 \<noteq> None" using quiet_two by blast
  let ?es = "(EntitySystem_new w)\<lparr>m_toDispatch := [(0, PAKCS_NORMAL_CHAT, P_CliNormalChat \<lparr>CliNormalChat.m_message = [65]\<rparr>)]\<rparr>"
  have r: "server_reachable ?es" using quiet_chat [OF w(1,2)] by metis
  have "living w 0" "connected w 0" using w(2,3) by (auto simp: living_def connected_def isOnMap_def split: option.splits)
  then show ?thesis
    using update_handles_queue [OF r, of w "\<lambda>_. sample_env" "\<lambda>l. l"] w(1,2) by (auto simp: quiet_def EntitySystem_new_def)
qed

theorem players_see_each_other_witness:
  "\<exists>es. server_reachable es \<and> isOnMap 0 (m_store es) \<and> isOnMap 1 (m_store es) \<and> (\<exists>d \<in> set (mw_sent (m_store es)). shows_player d 0 1)"
proof -
  obtain w where "quiet w" "isOnMap 0 w" "isOnMap 1 w" "mw_client w 0 \<noteq> None" using quiet_two by blast
  with players_see_each_other [of "EntitySystem_new w" 0 1] show ?thesis
    by (intro exI [of _ "EntitySystem_new w"]) (simp add: quiet_def EntitySystem_new_def)
qed

theorem chat_delivered_by_update_witness:
  "\<exists>w w'. isOnMap 0 w \<and> server_update (\<lambda>_. sample_env) (\<lambda>l. l)
     (snd (server_dispatch 0 (P_CliNormalChat \<lparr>CliNormalChat.m_message = [65]\<rparr>) (EntitySystem_new w))) = Some (EntitySystem_new w')"
proof -
  obtain w where w: "quiet w" "isOnMap 0 w" "mw_client w 0 \<noteq> None" using quiet_two by blast
  then obtain x where "entity_at w 0 = Some x" by (auto simp: isOnMap_def split: option.splits)
  with chat_delivered_by_update [OF _ refl this w(3), of "\<lparr>CliNormalChat.m_message = [65]\<rparr>" "\<lambda>_. sample_env" "\<lambda>l. l"] w
  show ?thesis by (auto simp: quiet_def)
qed

end
