(* ===== verification/FuzzyMatching.thy ===== *)
theory FuzzyMatching
  imports Prelude "HOL-Library.Sublist" "HOL-Library.Multiset"
begin

text \<open>
  Fuzzy matching of file names: \<open>core/include/fts.h\<close> and \<open>core/src/fuzzy_matching.cpp\<close>. A pattern matches a string
  if its characters occur in it in order, whatever their case; a match has a score. \<open>fuzzy_match_recursive\<close> looks
  for the best match by leaving out some occurrences, with a limit on the number of recursive calls.

  A pointer into a string is the rest of the string, \<open>strBegin\<close> the whole of it. The score is an \<open>int\<close> that stays
  far from its bounds for strings of any length that fits into memory next to 256 matches, so it is a mathematical
  integer here. \<open>g\<close> is what an uninitialised buffer holds. The functions of \<open>ctype.h\<close> are those of the C locale.
\<close>

section \<open>Matching\<close>

definition tolower :: "byte \<Rightarrow> byte" where
  "tolower c = (if 65 \<le> c \<and> c \<le> 90 then c + 32 else c)"

definition islower :: "byte \<Rightarrow> bool" where
  "islower c \<longleftrightarrow> 97 \<le> c \<and> c \<le> 122"

definition isupper :: "byte \<Rightarrow> bool" where
  "isupper c \<longleftrightarrow> 65 \<le> c \<and> c \<le> 90"

fun fuzzy_match_simple :: "byte list \<Rightarrow> byte list \<Rightarrow> bool" where
  "fuzzy_match_simple [] str = True"
| "fuzzy_match_simple (p # ps) [] = False"
| "fuzzy_match_simple (p # ps) (c # cs) =
    (if tolower p = tolower c then fuzzy_match_simple ps cs else fuzzy_match_simple (p # ps) cs)"

text \<open>The score of the first \<open>nextMatch\<close> entries of \<open>matches\<close>: the bonuses of one entry, and the whole.\<close>

definition match_bonus :: "byte list \<Rightarrow> u8 list \<Rightarrow> nat \<Rightarrow> int" where
  "match_bonus strBegin matches i =
    (let currIdx = unat (matches ! i) in
     (if 0 < i \<and> currIdx = unat (matches ! (i - 1)) + 1 then 15 else 0)
     + (if 0 < currIdx then
          (let neighbor = strBegin ! (currIdx - 1); curr = strBegin ! currIdx in
           (if islower neighbor \<and> isupper curr then 30 else 0)
           + (if neighbor = 95 \<or> neighbor = 32 then 30 else 0))
        else 15))"

definition match_score :: "byte list \<Rightarrow> u8 list \<Rightarrow> nat \<Rightarrow> int" where
  "match_score strBegin matches nextMatch =
    100 + max (-15) (-5 * int (unat (matches ! 0))) - (int (length strBegin) - int nextMatch)
    + (\<Sum>i \<leftarrow> [0..<nextMatch]. match_bonus strBegin matches i)"

text \<open>The end of a call: \<open>best\<close> is the best result of the recursive calls, if one matched.\<close>

definition best_result :: "byte list \<Rightarrow> byte list \<Rightarrow> u8 list \<Rightarrow> nat \<Rightarrow> nat \<Rightarrow> (int \<times> u8 list) option \<Rightarrow> (int \<times> u8 list) option" where
  "best_result strBegin pattern matches maxMatches nextMatch best =
    (let matched = (pattern = []); score = match_score strBegin matches nextMatch in
     case best of
       Some (bestScore, bestMatches) \<Rightarrow>
         if \<not> matched \<or> score < bestScore then Some (bestScore, take maxMatches bestMatches @ drop maxMatches matches)
         else Some (score, matches)
     | None \<Rightarrow> if matched then Some (score, matches) else None)"

definition pick_best :: "(int \<times> u8 list) option \<Rightarrow> (int \<times> u8 list) option \<Rightarrow> (int \<times> u8 list) option" where
  "pick_best best r =
    (case (best, r) of
       (_, None) \<Rightarrow> best
     | (None, Some _) \<Rightarrow> r
     | (Some (bestScore, _), Some (score, _)) \<Rightarrow> if bestScore < score then r else best)"

text \<open>A call and the loop in it. They yield the score and the matches, or \<open>None\<close> for false, and the recursion count.\<close>

fun fuzzy_match_recursive :: "u8 list \<Rightarrow> byte list \<Rightarrow> byte list \<Rightarrow> byte list \<Rightarrow> u8 list option \<Rightarrow> u8 list \<Rightarrow> nat \<Rightarrow> nat
    \<Rightarrow> nat \<Rightarrow> nat \<Rightarrow> (int \<times> u8 list) option \<times> nat"
and fuzzy_loop :: "u8 list \<Rightarrow> byte list \<Rightarrow> byte list \<Rightarrow> byte list \<Rightarrow> u8 list option \<Rightarrow> u8 list \<Rightarrow> nat \<Rightarrow> nat
    \<Rightarrow> bool \<Rightarrow> (int \<times> u8 list) option \<Rightarrow> nat \<Rightarrow> nat \<Rightarrow> (int \<times> u8 list) option \<times> nat" where
  "fuzzy_match_recursive g pattern str strBegin srcMatches matches maxMatches nextMatch calls limit =
    (if limit \<le> Suc calls then (None, Suc calls)
     else if pattern = [] \<or> str = [] then (None, Suc calls)
     else fuzzy_loop g pattern str strBegin srcMatches matches maxMatches nextMatch True None (Suc calls) limit)"
| "fuzzy_loop g (p # ps) (c # cs) strBegin srcMatches matches maxMatches nextMatch first best calls limit =
    (if tolower p = tolower c then
       if maxMatches \<le> nextMatch then (None, calls)
       else
         let (matches1, first1) = (case srcMatches of
               Some src \<Rightarrow> if first then (take nextMatch src @ drop nextMatch matches, False) else (matches, first)
             | None \<Rightarrow> (matches, first));
             (r, calls1) = fuzzy_match_recursive g (p # ps) cs strBegin (Some matches1) g 256 nextMatch calls limit
         in fuzzy_loop g ps cs strBegin srcMatches (matches1[nextMatch := of_nat (length strBegin - Suc (length cs))])
              maxMatches (Suc nextMatch) first1 (pick_best best r) calls1 limit
     else fuzzy_loop g (p # ps) cs strBegin srcMatches matches maxMatches nextMatch first best calls limit)"
| "fuzzy_loop g pattern str strBegin srcMatches matches maxMatches nextMatch first best calls limit =
    (best_result strBegin pattern matches maxMatches nextMatch best, calls)"

text \<open>\<open>fts::fuzzy_match\<close> with its buffer of 256 matches and its limit of 10.\<close>

definition fts_fuzzy_match :: "u8 list \<Rightarrow> byte list \<Rightarrow> byte list \<Rightarrow> (int \<times> u8 list) option" where
  "fts_fuzzy_match g pattern str = fst (fuzzy_match_recursive g pattern str str None g 256 0 0 10)"

text \<open>\<open>Core::fuzzy_match\<close>: \<open>c_str()\<close> ends at the first zero byte. \<open>arrange\<close> is \<open>std::sort\<close> with the comparison of
  scores, which may put equal scores in any order.\<close>

record FuzzyMatch =
  fm_index :: nat
  fm_score :: int

definition c_str :: "byte list \<Rightarrow> byte list" where
  "c_str s = takeWhile (\<lambda>c. c \<noteq> 0) s"

definition fuzzy_match :: "(FuzzyMatch list \<Rightarrow> FuzzyMatch list) \<Rightarrow> u8 list \<Rightarrow> byte list list \<Rightarrow> byte list \<Rightarrow> FuzzyMatch list" where
  "fuzzy_match arrange g strings pattern =
    arrange (List.map_filter (\<lambda>i. map_option (\<lambda>(score, m). \<lparr>fm_index = i, fm_score = score\<rparr>)
      (fts_fuzzy_match g (c_str pattern) (c_str (strings ! i)))) [0..<length strings])"

definition sorts_descending :: "(FuzzyMatch list \<Rightarrow> FuzzyMatch list) \<Rightarrow> bool" where
  "sorts_descending arrange \<longleftrightarrow> (\<forall>xs. mset (arrange xs) = mset xs \<and> sorted_wrt (\<lambda>a b. fm_score b \<le> fm_score a) (arrange xs))"

section \<open>The simple matcher\<close>

lemma fuzzy_match_simple_subseq: "fuzzy_match_simple pattern str \<longleftrightarrow> subseq (map tolower pattern) (map tolower str)"
  by (induction pattern str rule: fuzzy_match_simple.induct) auto

lemma fuzzy_match_simple_tl: "fuzzy_match_simple (p # ps) str \<Longrightarrow> fuzzy_match_simple ps str"
  unfolding fuzzy_match_simple_subseq by (auto dest: subseq_Cons')

section \<open>How often it recurses\<close>

text \<open>Of the calls that are counted, only those numbered below the limit go into the loop, and each of these makes one
  call for every character of the pattern at most.\<close>

lemma calls_bounded:
  "length pattern \<le> P \<Longrightarrow> snd (fuzzy_match_recursive g pattern str b src m mx n calls limit) = c
    \<Longrightarrow> calls < c \<and> c + P * min calls (limit - 1) \<le> calls + 1 + P * min c (limit - 1)"
  "length pattern \<le> P \<Longrightarrow> snd (fuzzy_loop g pattern str b src m mx n first best calls limit) = c
    \<Longrightarrow> calls \<le> c \<and> c + P * min calls (limit - 1) \<le> calls + length pattern + P * min c (limit - 1)"
proof (induction g pattern str b src m mx n calls limit and g pattern str b src m mx n first best calls limit
    arbitrary: c and c rule: fuzzy_match_recursive_fuzzy_loop.induct)
  case (1 g pattern str b src m mx n calls limit)
  show ?case
  proof (cases "limit \<le> Suc calls \<or> pattern = [] \<or> str = []")
    case True
    then have "c = Suc calls" using "1.prems"(2) by (auto split: if_splits)
    then show ?thesis by (simp add: min_def)
  next
    case False
    then have IH: "Suc calls \<le> c \<and> c + P * min (Suc calls) (limit - 1) \<le> Suc calls + length pattern + P * min c (limit - 1)"
      using "1.IH" "1.prems" by auto
    have "min (Suc calls) (limit - 1) = Suc (min calls (limit - 1))" using False by linarith
    then show ?thesis using IH "1.prems"(1) by simp
  qed
next
  case (2 g p ps d cs b src m mx n first best calls limit)
  show ?case
  proof (cases "tolower p = tolower d \<and> \<not> mx \<le> n")
    case True
    obtain m1 first1 where m1: "(case src of Some s \<Rightarrow> if first then (take n s @ drop n m, False) else (m, first)
        | None \<Rightarrow> (m, first)) = (m1, first1)" by (meson surj_pair)
    obtain r calls1 where r: "fuzzy_match_recursive g (p # ps) cs b (Some m1) g 256 n calls limit = (r, calls1)"
      by (meson surj_pair)
    have "calls < calls1 \<and> calls1 + P * min calls (limit - 1) \<le> calls + 1 + P * min calls1 (limit - 1)"
      using "2.IH"(1) [of "(m1, first1)" m1 first1 calls1] True m1 r "2.prems"(1) by simp
    moreover have "calls1 \<le> c \<and> c + P * min calls1 (limit - 1) \<le> calls1 + length ps + P * min c (limit - 1)"
      using "2.IH"(2) [of "(m1, first1)" m1 first1 "(r, calls1)" r calls1 c] True m1 r "2.prems" by simp
    ultimately show ?thesis by simp
  next
    case False
    show ?thesis
    proof (cases "tolower p = tolower d")
      case True
      then have "c = calls" using False "2.prems"(2) by simp
      then show ?thesis by simp
    next
      case False
      then show ?thesis using "2.IH"(3) [of c] "2.prems" by simp
    qed
  qed
qed auto

section \<open>When it matches\<close>

lemma pick_best_None [simp]: "pick_best best r = None \<longleftrightarrow> best = None \<and> r = None"
  by (auto simp: pick_best_def split: option.splits)

lemma best_result_None [simp]: "best_result b pattern m mx n best = None \<longleftrightarrow> pattern \<noteq> [] \<and> best = None"
  by (auto simp: best_result_def Let_def split: option.splits)

lemma match_sound:
  "fst (fuzzy_match_recursive g pattern str b src m mx n calls limit) \<noteq> None \<Longrightarrow> fuzzy_match_simple pattern str"
  "fst (fuzzy_loop g pattern str b src m mx n first best calls limit) \<noteq> None \<Longrightarrow> fuzzy_match_simple pattern str \<or> best \<noteq> None"
proof (induction g pattern str b src m mx n calls limit and g pattern str b src m mx n first best calls limit
    rule: fuzzy_match_recursive_fuzzy_loop.induct)
  case (1 g pattern str b src m mx n calls limit)
  then show ?case by (auto split: if_splits)
next
  case (2 g p ps d cs b src m mx n first best calls limit)
  show ?case
  proof (cases "tolower p = tolower d \<and> \<not> mx \<le> n")
    case True
    obtain m1 first1 where m1: "(case src of Some s \<Rightarrow> if first then (take n s @ drop n m, False) else (m, first)
        | None \<Rightarrow> (m, first)) = (m1, first1)" by (meson surj_pair)
    obtain r calls1 where r: "fuzzy_match_recursive g (p # ps) cs b (Some m1) g 256 n calls limit = (r, calls1)"
      by (meson surj_pair)
    have "r \<noteq> None \<Longrightarrow> fuzzy_match_simple ps cs"
      using "2.IH"(1) [of "(m1, first1)" m1 first1] True m1 r fuzzy_match_simple_tl by auto
    moreover have "fuzzy_match_simple ps cs \<or> pick_best best r \<noteq> None"
      using "2.IH"(2) [of "(m1, first1)" m1 first1 "(r, calls1)" r calls1] True m1 r "2.prems" by simp
    ultimately show ?thesis using True by auto
  next
    case False
    then show ?thesis using "2.IH"(3) "2.prems" by (cases "tolower p = tolower d") simp_all
  qed
qed auto

lemma match_complete:
  assumes "fuzzy_match_simple pattern str" and "n + length pattern \<le> mx"
  shows "fst (fuzzy_loop g pattern str b src m mx n first best calls limit) \<noteq> None"
  using assms
proof (induction pattern str arbitrary: m n first best calls rule: fuzzy_match_simple.induct)
  case (3 p ps d cs)
  then show ?case by (auto split: prod.splits simp del: fuzzy_match_recursive.simps)
qed auto

text \<open>A match has a place in the buffer for every character of the pattern.\<close>

lemma match_fits:
  "fst (fuzzy_match_recursive g pattern str b src m mx n calls limit) \<noteq> None \<Longrightarrow> mx = 256 \<Longrightarrow> n \<le> 256 \<Longrightarrow> n + length pattern \<le> 256"
  "fst (fuzzy_loop g pattern str b src m mx n first best calls limit) \<noteq> None \<Longrightarrow> mx = 256 \<Longrightarrow> n \<le> 256
    \<Longrightarrow> (best \<noteq> None \<longrightarrow> n + length pattern \<le> 256) \<Longrightarrow> n + length pattern \<le> 256"
proof (induction g pattern str b src m mx n calls limit and g pattern str b src m mx n first best calls limit
    rule: fuzzy_match_recursive_fuzzy_loop.induct)
  case (1 g pattern str b src m mx n calls limit)
  then show ?case by (auto split: if_splits)
next
  case (2 g p ps d cs b src m mx n first best calls limit)
  show ?case
  proof (cases "tolower p = tolower d \<and> \<not> mx \<le> n")
    case True
    obtain m1 first1 where m1: "(case src of Some s \<Rightarrow> if first then (take n s @ drop n m, False) else (m, first)
        | None \<Rightarrow> (m, first)) = (m1, first1)" by (meson surj_pair)
    obtain r calls1 where r: "fuzzy_match_recursive g (p # ps) cs b (Some m1) g 256 n calls limit = (r, calls1)"
      by (meson surj_pair)
    have "r \<noteq> None \<Longrightarrow> n + length (p # ps) \<le> 256"
      using "2.IH"(1) [of "(m1, first1)" m1 first1] True m1 r "2.prems"(3) by simp
    then have "pick_best best r \<noteq> None \<longrightarrow> Suc n + length ps \<le> 256" using "2.prems"(4) by auto
    then show ?thesis
      using "2.IH"(2) [of "(m1, first1)" m1 first1 "(r, calls1)" r calls1] True m1 r "2.prems"(1-3) by simp
  next
    case False
    then show ?thesis using "2.IH"(3) "2.prems" by (cases "tolower p = tolower d") simp_all
  qed
qed auto

lemma fts_fuzzy_match_iff:
  "fts_fuzzy_match g pattern str \<noteq> None \<longleftrightarrow> pattern \<noteq> [] \<and> length pattern \<le> 256 \<and> fuzzy_match_simple pattern str"
proof
  assume found: "fts_fuzzy_match g pattern str \<noteq> None"
  then have "fuzzy_match_simple pattern str" unfolding fts_fuzzy_match_def by (rule match_sound)
  moreover have "0 + length pattern \<le> 256"
    by (rule match_fits(1) [OF found [unfolded fts_fuzzy_match_def] refl]) simp
  moreover have "pattern \<noteq> []" using found by (auto simp: fts_fuzzy_match_def)
  ultimately show "pattern \<noteq> [] \<and> length pattern \<le> 256 \<and> fuzzy_match_simple pattern str" by simp
next
  assume ok: "pattern \<noteq> [] \<and> length pattern \<le> 256 \<and> fuzzy_match_simple pattern str"
  then have "str \<noteq> []" by (cases pattern) auto
  moreover have "fst (fuzzy_loop g pattern str str None g 256 0 True None 1 10) \<noteq> None"
    by (rule match_complete) (use ok in simp_all)
  ultimately show "fts_fuzzy_match g pattern str \<noteq> None"
    using ok by (simp add: fts_fuzzy_match_def)
qed

section \<open>What it returns\<close>

text \<open>The first \<open>n\<close> entries are increasing positions below \<open>k\<close> of the first \<open>n\<close> characters of the pattern.\<close>

definition matches_at :: "byte list \<Rightarrow> byte list \<Rightarrow> u8 list \<Rightarrow> nat \<Rightarrow> nat \<Rightarrow> bool" where
  "matches_at b pattern m n k \<longleftrightarrow>
    (\<forall>i < n. unat (m ! i) < k \<and> tolower (b ! unat (m ! i)) = tolower (pattern ! i)) \<and> (\<forall>j < n. \<forall>i < j. m ! i < m ! j)"

definition good_match :: "byte list \<Rightarrow> byte list \<Rightarrow> (int \<times> u8 list) option \<Rightarrow> bool" where
  "good_match b pattern r \<longleftrightarrow> (\<forall>score m. r = Some (score, m) \<longrightarrow> length m = 256
     \<and> matches_at b pattern m (length pattern) (length b) \<and> score = match_score b m (length pattern))"

lemma good_match_simps [simp]: "good_match b pattern None"
  "good_match b pattern (Some (score, m)) \<longleftrightarrow> length m = 256
     \<and> matches_at b pattern m (length pattern) (length b) \<and> score = match_score b m (length pattern)"
  by (auto simp: good_match_def)

lemma good_pick_best: "good_match b pattern best \<Longrightarrow> good_match b pattern r \<Longrightarrow> good_match b pattern (pick_best best r)"
  by (auto simp: pick_best_def split: option.splits)

lemma matches_at_mono: "matches_at b pattern m n k \<Longrightarrow> k \<le> k' \<Longrightarrow> matches_at b pattern m n k'"
  by (fastforce simp: matches_at_def)

lemma matches_at_prefix:
  assumes "matches_at b pattern m n k" and "n \<le> length m"
  shows "matches_at b pattern (take n m @ xs) n k"
  using assms by (auto simp: matches_at_def nth_append)

lemma matches_at_step:
  assumes "matches_at b pattern m n k" and "k < 256" and "n < length m" and "tolower (b ! k) = tolower (pattern ! n)"
  shows "matches_at b pattern (m[n := of_nat k]) (Suc n) (Suc k)"
proof -
  have k: "unat (of_nat k :: u8) = k" using assms(2) by (simp add: unat_of_nat)
  have "m ! i < of_nat k" if "i < n" for i
    using assms(1) that k by (simp add: matches_at_def word_less_nat_alt)
  then show ?thesis
    using assms k by (auto simp: matches_at_def nth_list_update less_Suc_eq)
qed

text \<open>The buffer that a call will use: its own once it copied the entries of its caller.\<close>

definition buffer_ok :: "byte list \<Rightarrow> byte list \<Rightarrow> u8 list option \<Rightarrow> u8 list \<Rightarrow> bool \<Rightarrow> nat \<Rightarrow> nat \<Rightarrow> bool" where
  "buffer_ok b pattern src m first n k \<longleftrightarrow> length m = 256 \<and>
     (case src of
        Some s \<Rightarrow> length s = 256 \<and> matches_at b pattern (if first then s else m) n k
      | None \<Rightarrow> matches_at b pattern m n k)"

lemma buffer_copied:
  assumes "buffer_ok b pattern src m first n k" and "n < 256"
    and "(case src of Some s \<Rightarrow> if first then (take n s @ drop n m, False) else (m, first) | None \<Rightarrow> (m, first)) = (m1, first1)"
  shows "length m1 = 256" "matches_at b pattern m1 n k" "src \<noteq> None \<Longrightarrow> \<not> first1"
  using assms by (auto simp: buffer_ok_def intro: matches_at_prefix split: option.splits if_splits)

lemma suffix_step:
  assumes "drop (length b - Suc (length cs)) b = d # cs" and "Suc (length cs) \<le> length b"
  shows "drop (length b - length cs) b = cs" and "b ! (length b - Suc (length cs)) = d"
proof -
  let ?k = "length b - Suc (length cs)"
  have "length b - length cs = Suc ?k" using assms(2) by simp
  then show "drop (length b - length cs) b = cs" by (metis assms(1) drop_Suc list.sel(3) tl_drop)
  show "b ! ?k = d" using assms hd_drop_conv_nth [of ?k b] by simp
qed

lemma good_best_result:
  assumes "pattern = drop n pat" and "n \<le> length pat" and "buffer_ok b pat src m first n k" and "k \<le> length b"
    and "pattern \<noteq> [] \<or> src = None \<or> \<not> first" and "good_match b pat best"
  shows "good_match b pat (best_result b pattern m 256 n best)"
proof (cases "pattern = []")
  case True
  then have "n = length pat" using assms(1,2) by simp
  moreover have "matches_at b pat m n (length b)" "length m = 256"
    using assms(3-5) True by (auto simp: buffer_ok_def intro: matches_at_mono split: option.splits)
  ultimately show ?thesis using assms(6) True by (auto simp: best_result_def Let_def split: option.splits)
next
  case False
  moreover have "length m = 256" using assms(3) by (simp add: buffer_ok_def)
  ultimately show ?thesis using assms(1,6) by (auto simp: best_result_def Let_def split: option.splits)
qed

lemma match_positions:
  assumes "length b \<le> 256" and "length g = 256"
  shows "pattern = drop n pat \<Longrightarrow> str = drop (length b - length str) b \<Longrightarrow> length str \<le> length b \<Longrightarrow> mx = 256
      \<Longrightarrow> buffer_ok b pat src m True n (length b - length str)
      \<Longrightarrow> good_match b pat (fst (fuzzy_match_recursive g pattern str b src m mx n calls limit))"
    and "pattern = drop n pat \<Longrightarrow> n \<le> length pat \<Longrightarrow> str = drop (length b - length str) b \<Longrightarrow> length str \<le> length b \<Longrightarrow> mx = 256
      \<Longrightarrow> buffer_ok b pat src m first n (length b - length str) \<Longrightarrow> pattern \<noteq> [] \<or> src = None \<or> \<not> first \<Longrightarrow> good_match b pat best
      \<Longrightarrow> good_match b pat (fst (fuzzy_loop g pattern str b src m mx n first best calls limit))"
  using assms
proof (induction g pattern str b src m mx n calls limit and g pattern str b src m mx n first best calls limit
    rule: fuzzy_match_recursive_fuzzy_loop.induct)
  case (1 g pattern str b src m mx n calls limit)
  show ?case
  proof (cases "limit \<le> Suc calls \<or> pattern = [] \<or> str = []")
    case False
    then have "n \<le> length pat" using "1.prems"(1) by (metis drop_eq_Nil linear)
    then show ?thesis using False "1.IH" "1.prems" by simp
  qed auto
next
  case (2 g p ps d cs b src m mx n first best calls limit)
  let ?k = "length b - Suc (length cs)"
  have k: "?k < length b" "length b - length cs = Suc ?k" "length cs \<le> length b" using "2.prems"(4) by auto
  have str: "drop ?k b = d # cs" using "2.prems"(3) by simp
  have "Suc (length cs) \<le> length b" using "2.prems"(4) by simp
  note cs = suffix_step [OF str this]
  have ps: "ps = drop (Suc n) pat" "n < length pat" "pat ! n = p"
    using "2.prems"(1) by (metis drop_Suc list.sel(3) tl_drop, metis drop_all list.discI not_less,
      metis drop_all hd_drop_conv_nth list.discI list.sel(1) not_less)
  show ?case
  proof (cases "tolower p = tolower d \<and> \<not> mx \<le> n")
    case True
    obtain m1 first1 where m1: "(case src of Some s \<Rightarrow> if first then (take n s @ drop n m, False) else (m, first)
        | None \<Rightarrow> (m, first)) = (m1, first1)" by (meson surj_pair)
    obtain r calls1 where r: "fuzzy_match_recursive g (p # ps) cs b (Some m1) g 256 n calls limit = (r, calls1)"
      by (meson surj_pair)
    have n: "n < 256" using True "2.prems"(5) by simp
    have ok: "buffer_ok b pat src m first n ?k" using "2.prems"(6) by simp
    note copied = buffer_copied [OF ok n m1]
    have "buffer_ok b pat (Some m1) g True n (length b - length cs)"
      using copied(1,2) "2.prems"(10) k(2) by (auto simp: buffer_ok_def intro: matches_at_mono)
    then have "good_match b pat r"
      using "2.IH"(1) [of "(m1, first1)" m1 first1] True m1 r "2.prems"(1,9,10) cs(1) k(3) by simp
    then have best: "good_match b pat (pick_best best r)" using "2.prems"(8) by (intro good_pick_best)
    have "matches_at b pat (m1[n := of_nat ?k]) (Suc n) (Suc ?k)"
      using copied(1,2) n k(1) "2.prems"(9) True ps(3) cs(2) by (intro matches_at_step) auto
    then have "buffer_ok b pat src (m1[n := of_nat ?k]) first1 (Suc n) (length b - length cs)"
      using copied(1,3) ok k(2) by (auto simp: buffer_ok_def split: option.splits)
    moreover have "src = None \<or> \<not> first1" using copied(3) by blast
    ultimately show ?thesis
      using "2.IH"(2) [of "(m1, first1)" m1 first1 "(r, calls1)" r calls1] True m1 r best "2.prems"(5,9,10) cs(1) k(3) ps
      by (auto simp: Suc_le_eq)
  next
    case False
    have ok: "buffer_ok b pat src m first n (length b - length cs)"
      using "2.prems"(6) k(2) by (auto simp: buffer_ok_def intro: matches_at_mono split: option.splits)
    show ?thesis
    proof (cases "tolower p = tolower d")
      case neq: False
      have "good_match b pat (fst (fuzzy_loop g (p # ps) cs b src m mx n first best calls limit))"
        by (rule "2.IH"(3) [OF neq "2.prems"(1,2) cs(1) [symmetric] k(3) "2.prems"(5) ok "2.prems"(7-10)])
      then show ?thesis using neq by simp
    qed (use False in simp)
  qed
qed (simp_all add: good_best_result)

section \<open>Properties\<close>

text \<open>C26. The scored search finds what the plain one finds, as long as the pattern has from 1 to 256 characters up to its
  first zero byte: among any files it then lists exactly those in whose names the pattern occurs as a subsequence, whatever
  the case, each once and the best scores first; the limit on the recursion loses none. For the empty pattern, which the
  plain search finds everywhere, and for a longer one, for which the buffer has no place, it lists no file at all.\<close>

theorem fuzzy_match_complete:
  assumes "sorts_descending arrange"
  shows "distinct (map fm_index (fuzzy_match arrange g strings pattern))
    \<and> sorted_wrt (\<lambda>a b. fm_score b \<le> fm_score a) (fuzzy_match arrange g strings pattern)
    \<and> (i \<in> fm_index ` set (fuzzy_match arrange g strings pattern)
        \<longleftrightarrow> i < length strings \<and> c_str pattern \<noteq> [] \<and> length (c_str pattern) \<le> 256
          \<and> fuzzy_match_simple (c_str pattern) (c_str (strings ! i)))
    \<and> (fuzzy_match_simple (c_str pattern) str \<longleftrightarrow> subseq (map tolower (c_str pattern)) (map tolower str))"
proof -
  define f where "f = (\<lambda>i. map_option (\<lambda>(score, m). \<lparr>fm_index = i, fm_score = score\<rparr>)
      (fts_fuzzy_match g (c_str pattern) (c_str (strings ! i))))"
  let ?found = "List.map_filter f [0..<length strings]"
  have found: "fuzzy_match arrange g strings pattern = arrange ?found" by (simp add: fuzzy_match_def f_def)
  have index: "fm_index x = i" if "f i = Some x" for i x using that by (auto simp: f_def)
  have some: "f i \<noteq> None \<longleftrightarrow> c_str pattern \<noteq> [] \<and> length (c_str pattern) \<le> 256
      \<and> fuzzy_match_simple (c_str pattern) (c_str (strings ! i))" for i
    using fts_fuzzy_match_iff by (simp add: f_def)
  have "map fm_index (List.map_filter f xs) = filter (\<lambda>i. f i \<noteq> None) xs" for xs
    by (induction xs) (auto simp: List.map_filter_simps index split: option.splits)
  then have idx: "map fm_index ?found = filter (\<lambda>i. f i \<noteq> None) [0..<length strings]" .
  have perm: "mset (arrange ?found) = mset ?found" "sorted_wrt (\<lambda>a b. fm_score b \<le> fm_score a) (arrange ?found)"
    using assms by (simp_all add: sorts_descending_def)
  have "mset (map fm_index (arrange ?found)) = mset (map fm_index ?found)" using perm(1) by (simp add: mset_map)
  then have "distinct (map fm_index (arrange ?found))" "fm_index ` set (arrange ?found) = set (map fm_index ?found)"
    unfolding idx by (metis distinct_filter distinct_upt mset_eq_imp_distinct_iff, metis list.set_map mset_eq_setD)
  then show ?thesis using perm(2) idx some unfolding found by (auto simp: fuzzy_match_simple_subseq)
qed

text \<open>The search ends soon: with a limit of 10 the number of calls, which \<open>recursionCount\<close> counts, is at most nine times
  the length of the pattern, plus one. When it finds a match in a string of at most 256 characters, the buffer holds
  increasing positions of the characters of the pattern, and the score is the score of these positions.\<close>

theorem fuzzy_match_bounded:
  "snd (fuzzy_match_recursive g pattern str str None g 256 0 0 10) \<le> 9 * length pattern + 1
   \<and> (length str \<le> 256 \<and> length g = 256 \<longrightarrow> good_match str pattern (fts_fuzzy_match g pattern str))"
proof -
  have "buffer_ok str pattern None g True 0 0" if "length g = 256"
    using that by (simp add: buffer_ok_def matches_at_def)
  then have "good_match str pattern (fts_fuzzy_match g pattern str)" if "length str \<le> 256" "length g = 256"
    unfolding fts_fuzzy_match_def using that by (intro match_positions(1)) simp_all
  moreover have "snd (fuzzy_match_recursive g pattern str str None g 256 0 0 10) \<le> 1 + length pattern * 9"
  proof -
    obtain c where c: "snd (fuzzy_match_recursive g pattern str str None g 256 0 0 10) = c" by blast
    have "c \<le> 1 + length pattern * min c 9" using calls_bounded(1) [OF order.refl c] by simp
    also have "\<dots> \<le> 1 + length pattern * 9" by simp
    finally show ?thesis using c by simp
  qed
  ultimately show ?thesis by (simp add: mult.commute)
qed

definition sample_sort :: "FuzzyMatch list \<Rightarrow> FuzzyMatch list" where
  "sample_sort = sort_key (\<lambda>m. - fm_score m)"

lemma sample_sorts: "sorts_descending sample_sort"
proof -
  have "sorted_wrt (\<lambda>a b. fm_score b \<le> fm_score a) (sort_key (\<lambda>m. - fm_score m) xs)" for xs :: "FuzzyMatch list"
    using sorted_sort_key [of "\<lambda>m. - fm_score m" xs] by (simp add: sorted_map)
  then show ?thesis by (simp add: sorts_descending_def sample_sort_def)
qed

theorem fuzzy_match_complete_witness:
  "2 \<in> fm_index ` set (fuzzy_match sample_sort (replicate 256 0) [[], [65], [97, 66, 99]] [65, 99])
   \<and> 1 \<notin> fm_index ` set (fuzzy_match sample_sort (replicate 256 0) [[], [65], [97, 66, 99]] [65, 99])
   \<and> 1 \<notin> fm_index ` set (fuzzy_match sample_sort (replicate 256 0) [[], [65], [97, 66, 99]] [])"
proof -
  note iff = fuzzy_match_complete [OF sample_sorts, THEN conjunct2, THEN conjunct2, THEN conjunct1]
  show ?thesis
    unfolding iff by (simp add: c_str_def tolower_def)
qed

theorem fuzzy_match_bounded_witness:
  "good_match [97, 66, 99] [65, 99] (fts_fuzzy_match (replicate 256 0) [65, 99] [97, 66, 99])
   \<and> fts_fuzzy_match (replicate 256 0) [65, 99] [97, 66, 99] \<noteq> None"
proof
  show "good_match [97, 66, 99] [65, 99] (fts_fuzzy_match (replicate 256 0) [65, 99] [97, 66, 99])"
    using fuzzy_match_bounded [of "replicate 256 0" "[65, 99]" "[97, 66, 99]"] by simp
  show "fts_fuzzy_match (replicate 256 0) [65, 99] [97, 66, 99] \<noteq> None"
    by (subst fts_fuzzy_match_iff) (simp_all add: tolower_def)
qed

end
