(* ===== verification/ScriptLoader.thy ===== *)
theory ScriptLoader
  imports FuzzyMatching SystemManager "HOL-Library.AList"
begin

text \<open>
  The loader of the map server's Lua scripts: \<open>map/src/script_loader.cpp\<close>. A script creates the NPCs, warp gates and
  spawners of a map by calling functions that \<open>load_script\<close> registers; the loader remembers the entities of each
  file, to destroy them before the file is loaded again.

  What Lua does with a file is an argument: the calls that running it makes, and whether it then raises an error.
  What the loader asks of the entity system is collected in \<open>sl_commands\<close>; a handle of an entity is a number,
  \<open>None\<close> is an invalid handle. A vector that was moved from is empty.

  A file can include others, itself too: each run of a script is a call into Lua inside the run that includes it. Lua
  refuses such calls beyond a fixed depth (200 in Lua 5.3) with an error, which \<open>load_script\<close> catches as it catches an
  error of the script. How many nested runs Lua still allows is an argument; a script that is refused is not run at all.
  \<open>loads\<close> is the recursion of the code without that limit.
\<close>

section \<open>The loader\<close>

text \<open>The functions a script can call, with their arguments in the order of the source.\<close>

datatype lua_call =
    Warp_gate cstring int f32 f32 f32 int f32 f32 f32 f32 f32 f32 f32
  | Npc cstring int int f32 f32 f32 f32
  | Mob cstring int int int int int int f32 f32 f32
  | Include cstring

type_synonym scripts = "cstring \<Rightarrow> lua_call list \<times> bool"

datatype es_command =
    CreateWarpgate entity lua_call
  | CreateNpc entity lua_call
  | BulkDestroy "entity option list"

record ScriptLoader =
  sl_path :: cstring
  sl_base :: cstring
  sl_map_id :: u16
  sl_files :: "cstring list"
  sl_npc_files :: "(cstring \<times> entity option list) list"
  sl_warpgate_files :: "(cstring \<times> entity option list) list"
  sl_spawner_files :: "(cstring \<times> entity option list) list"
  sl_created :: nat
  sl_commands :: "es_command list"

text \<open>The constructor; \<open>n\<close> entities were created before.\<close>

definition ScriptLoader_new :: "nat \<Rightarrow> u16 \<Rightarrow> cstring \<Rightarrow> ScriptLoader option" where
  "ScriptLoader_new n map_id path =
    (if 47 \<notin> set path then None
     else Some \<lparr>sl_path = path, sl_base = rev (dropWhile (\<lambda>c. c \<noteq> 47) (rev path)), sl_map_id = map_id, sl_files = [],
       sl_npc_files = [], sl_warpgate_files = [], sl_spawner_files = [], sl_created = n, sl_commands = []\<rparr>)"

definition moved :: "'a list \<Rightarrow> 'a list" where
  "moved xs = []"

definition entities_of :: "cstring \<Rightarrow> (cstring \<times> 'a list) list \<Rightarrow> 'a list" where
  "entities_of path files = (case map_of files path of Some es \<Rightarrow> es | None \<Rightarrow> [])"

definition take_entities :: "cstring \<Rightarrow> (cstring \<times> 'a list) list \<Rightarrow> (cstring \<times> 'a list) list" where
  "take_entities path files = (case map_of files path of Some es \<Rightarrow> AList.update path (moved es) files | None \<Rightarrow> files)"

definition insert_files :: "cstring \<Rightarrow> 'a list \<Rightarrow> (cstring \<times> 'a list) list \<Rightarrow> (cstring \<times> 'a list) list" where
  "insert_files path es files = (if es \<noteq> [] then AList.update path es files else files)"

definition on_map :: "int \<Rightarrow> ScriptLoader \<Rightarrow> bool" where
  "on_map map_id s \<longleftrightarrow> map_id = int (unat (sl_map_id s))"

text \<open>The end of \<open>load_script\<close>: the vectors are tested after they were moved into the tables.\<close>

definition finish_load :: "cstring \<Rightarrow> entity option list \<Rightarrow> entity option list \<Rightarrow> entity option list \<Rightarrow> ScriptLoader \<Rightarrow> ScriptLoader" where
  "finish_load path gates npcs spawners s =
    (let s1 = s\<lparr>sl_warpgate_files := insert_files path gates (sl_warpgate_files s),
            sl_npc_files := insert_files path npcs (sl_npc_files s),
            sl_spawner_files := insert_files path spawners (sl_spawner_files s)\<rparr>;
         gates1 = (if gates \<noteq> [] then moved gates else gates);
         npcs1 = (if npcs \<noteq> [] then moved npcs else npcs);
         spawners1 = (if spawners \<noteq> [] then moved spawners else spawners)
     in if gates1 \<noteq> [] \<or> npcs1 \<noteq> [] \<or> spawners1 \<noteq> []
        then (if path \<in> set (sl_files s1) then s1 else s1\<lparr>sl_files := sl_files s1 @ [path]\<rparr>)
        else s1)"

text \<open>The functions \<open>warp_gate\<close>, \<open>npc\<close> and \<open>mob\<close>, on the three vectors and the loader. \<open>create_spawner\<close> yields an
  invalid handle.\<close>

type_synonym vectors = "entity option list \<times> entity option list \<times> entity option list"

fun create_call :: "lua_call \<Rightarrow> vectors \<Rightarrow> ScriptLoader \<Rightarrow> vectors \<times> ScriptLoader" where
  "create_call (Warp_gate alias dm dx dy dz m x y z angle sx sy sz) (gates, npcs, spawners) s =
    (if \<not> on_map m s then ((gates, npcs, spawners), s)
     else ((gates @ [Some (sl_created s)], npcs, spawners), s\<lparr>sl_created := Suc (sl_created s),
       sl_commands := sl_commands s @ [CreateWarpgate (sl_created s) (Warp_gate alias dm dx dy dz m x y z angle sx sy sz)]\<rparr>))"
| "create_call (Npc lua npc_id m x y z angle) (gates, npcs, spawners) s =
    (if \<not> on_map m s then ((gates, npcs, spawners), s)
     else ((gates, npcs @ [Some (sl_created s)], spawners), s\<lparr>sl_created := Suc (sl_created s),
       sl_commands := sl_commands s @ [CreateNpc (sl_created s) (Npc lua npc_id m x y z angle)]\<rparr>))"
| "create_call (Mob alias mob_id mob_count limit interval reach m x y z) (gates, npcs, spawners) s =
    (if \<not> on_map m s then ((gates, npcs, spawners), s) else ((gates, npcs, spawners @ [None]), s))"
| "create_call (Include q) v s = (v, s)"

text \<open>The start of \<open>load_script\<close>: the vectors of the file are moved out of the tables.\<close>

definition take_vectors :: "cstring \<Rightarrow> ScriptLoader \<Rightarrow> vectors" where
  "take_vectors path s =
    (entities_of path (sl_warpgate_files s), entities_of path (sl_npc_files s), entities_of path (sl_spawner_files s))"

definition take_tables :: "cstring \<Rightarrow> ScriptLoader \<Rightarrow> ScriptLoader" where
  "take_tables path s = s\<lparr>sl_warpgate_files := take_entities path (sl_warpgate_files s),
     sl_npc_files := take_entities path (sl_npc_files s), sl_spawner_files := take_entities path (sl_spawner_files s)\<rparr>"

text \<open>After the script has run; an error skips the end, and the vectors are lost.\<close>

fun end_load :: "scripts \<Rightarrow> cstring \<Rightarrow> vectors \<times> ScriptLoader \<Rightarrow> ScriptLoader" where
  "end_load scripts path ((gates, npcs, spawners), s) =
    (if snd (scripts path) then s else finish_load path gates npcs spawners s)"

fun load_script :: "nat \<Rightarrow> scripts \<Rightarrow> cstring \<Rightarrow> ScriptLoader \<Rightarrow> ScriptLoader"
and run_calls :: "nat \<Rightarrow> scripts \<Rightarrow> lua_call list \<Rightarrow> vectors \<Rightarrow> ScriptLoader \<Rightarrow> vectors \<times> ScriptLoader" where
  "load_script 0 scripts path s = take_tables path s"
| "load_script (Suc n) scripts path s =
    end_load scripts path (run_calls n scripts (fst (scripts path)) (take_vectors path s) (take_tables path s))"
| "run_calls n scripts [] v s = (v, s)"
| "run_calls n scripts (Include q # cs) v s = run_calls n scripts cs v (load_script n scripts (sl_base s @ q) s)"
| "run_calls n scripts (c # cs) v s = (let (v1, s1) = create_call c v s in run_calls n scripts cs v1 s1)"

text \<open>The same recursion without a limit: a relation, which holds when the load returns.\<close>

inductive loads :: "scripts \<Rightarrow> cstring \<Rightarrow> ScriptLoader \<Rightarrow> ScriptLoader \<Rightarrow> bool"
  and runs :: "scripts \<Rightarrow> lua_call list \<Rightarrow> vectors \<Rightarrow> ScriptLoader \<Rightarrow> vectors \<times> ScriptLoader \<Rightarrow> bool" for scripts where
  load: "runs scripts (fst (scripts path)) (take_vectors path s) (take_tables path s) r \<Longrightarrow> loads scripts path s (end_load scripts path r)"
| finished: "runs scripts [] v s (v, s)"
| incl: "loads scripts (sl_base s @ q) s s1 \<Longrightarrow> runs scripts cs v s1 r \<Longrightarrow> runs scripts (Include q # cs) v s r"
| create: "(\<And>q. c \<noteq> Include q) \<Longrightarrow> create_call c v s = (v1, s1) \<Longrightarrow> runs scripts cs v1 s1 r \<Longrightarrow> runs scripts (c # cs) v s r"

inductive_cases loadsE: "loads scripts path s s'"
inductive_cases runs_inclE: "runs scripts (Include q # cs) v s r"
inductive_cases runs_ConsE: "runs scripts (c # cs) v s r"

definition load_main :: "nat \<Rightarrow> scripts \<Rightarrow> ScriptLoader \<Rightarrow> ScriptLoader" where
  "load_main n scripts s = load_script n scripts (sl_path s) s"

text \<open>The loops of \<open>load_npcs\<close>, \<open>load_warpgates\<close> and \<open>load_spawners\<close> over a hash map, in the order \<open>order\<close> of its
  iteration. A key that is added meanwhile may invalidate the iterator: \<open>None\<close>.\<close>

fun reload_files :: "(ScriptLoader \<Rightarrow> (cstring \<times> entity option list) list)
    \<Rightarrow> (((cstring \<times> entity option list) list \<Rightarrow> (cstring \<times> entity option list) list) \<Rightarrow> ScriptLoader \<Rightarrow> ScriptLoader)
    \<Rightarrow> nat \<Rightarrow> scripts \<Rightarrow> cstring list \<Rightarrow> ScriptLoader \<Rightarrow> ScriptLoader option" where
  "reload_files files upd n scripts [] s = Some s"
| "reload_files files upd n scripts (path # order) s =
    (let s1 = load_script n scripts path (upd (AList.update path [])
        (s\<lparr>sl_commands := sl_commands s @ [BulkDestroy (entities_of path (files s))]\<rparr>))
     in if length (files s1) \<noteq> length (files s) then None else reload_files files upd n scripts order s1)"

definition load_npcs :: "nat \<Rightarrow> scripts \<Rightarrow> cstring list \<Rightarrow> ScriptLoader \<Rightarrow> ScriptLoader option" where
  "load_npcs = reload_files sl_npc_files sl_npc_files_update"

definition load_warpgates :: "nat \<Rightarrow> scripts \<Rightarrow> cstring list \<Rightarrow> ScriptLoader \<Rightarrow> ScriptLoader option" where
  "load_warpgates = reload_files sl_warpgate_files sl_warpgate_files_update"

definition load_spawners :: "nat \<Rightarrow> scripts \<Rightarrow> cstring list \<Rightarrow> ScriptLoader \<Rightarrow> ScriptLoader option" where
  "load_spawners = reload_files sl_spawner_files sl_spawner_files_update"

text \<open>\<open>get_fuzzy_files\<close>: the vector starts with \<open>max_res\<close> empty strings; \<open>None\<close> is a read past the results.\<close>

definition get_fuzzy_files :: "(FuzzyMatch list \<Rightarrow> FuzzyMatch list) \<Rightarrow> u8 list \<Rightarrow> cstring \<Rightarrow> nat \<Rightarrow> ScriptLoader \<Rightarrow> cstring list option" where
  "get_fuzzy_files arrange g pattern max_res s =
    (let res = fuzzy_match arrange g (sl_files s) pattern in
     if max_res \<le> length res
     then Some (replicate max_res [] @ map (\<lambda>i. sl_files s ! fm_index (res ! i)) [0..<max_res])
     else None)"

section \<open>Loading comes to an end\<close>

text \<open>A set of files that include only each other, in a way that \<open>rank\<close> shows to be without cycles, and run without
  errors.\<close>

definition loads_well :: "cstring \<Rightarrow> scripts \<Rightarrow> (cstring \<Rightarrow> nat) \<Rightarrow> cstring set \<Rightarrow> bool" where
  "loads_well base scripts rank R \<longleftrightarrow> (\<forall>p \<in> R. \<not> snd (scripts p)
     \<and> (\<forall>q. Include q \<in> set (fst (scripts p)) \<longrightarrow> base @ q \<in> R \<and> rank (base @ q) < rank p))"

definition includes_below :: "cstring \<Rightarrow> (cstring \<Rightarrow> nat) \<Rightarrow> cstring set \<Rightarrow> nat \<Rightarrow> lua_call list \<Rightarrow> bool" where
  "includes_below base rank R r cs \<longleftrightarrow> (\<forall>q. Include q \<in> set cs \<longrightarrow> base @ q \<in> R \<and> rank (base @ q) < r)"

lemma includes_below_script: "loads_well base scripts rank R \<Longrightarrow> p \<in> R \<Longrightarrow> includes_below base rank R (rank p) (fst (scripts p))"
  by (simp add: loads_well_def includes_below_def)

lemma includes_below_Cons: "includes_below base rank R r (c # cs) \<Longrightarrow> includes_below base rank R r cs"
  by (simp add: includes_below_def)

lemma finish_load_fields [simp]:
  "sl_base (finish_load path g ns sp s) = sl_base s" "sl_map_id (finish_load path g ns sp s) = sl_map_id s"
  "sl_files (finish_load path g ns sp s) = sl_files s" "sl_created (finish_load path g ns sp s) = sl_created s"
  "sl_commands (finish_load path g ns sp s) = sl_commands s"
  "sl_warpgate_files (finish_load path g ns sp s) = insert_files path g (sl_warpgate_files s)"
  "sl_npc_files (finish_load path g ns sp s) = insert_files path ns (sl_npc_files s)"
  "sl_spawner_files (finish_load path g ns sp s) = insert_files path sp (sl_spawner_files s)"
  by (simp_all add: finish_load_def Let_def moved_def)

definition same_loader :: "ScriptLoader \<Rightarrow> ScriptLoader \<Rightarrow> bool" where
  "same_loader s s' \<longleftrightarrow> sl_base s' = sl_base s \<and> sl_map_id s' = sl_map_id s \<and> sl_files s' = sl_files s \<and> sl_created s \<le> sl_created s'"

lemma create_call_same: "create_call c v s = (v', s') \<Longrightarrow> same_loader s s'"
  by (induction c v s rule: create_call.induct) (auto simp: same_loader_def split: if_splits)

lemma same_loader_trans: "same_loader s s1 \<Longrightarrow> same_loader s1 s2 \<Longrightarrow> same_loader s s2"
  by (simp add: same_loader_def)

text \<open>The rule for the calls of a script: what every call keeps, creating or including, the script keeps.\<close>

lemma run_calls_create: "(\<And>q. c \<noteq> Include q) \<Longrightarrow> run_calls n scripts (c # cs) v s = (let (v1, s1) = create_call c v s in run_calls n scripts cs v1 s1)"
  by (cases c) auto

lemma run_calls_inv:
  assumes "run_calls n scripts cs v s = (v', s')" and "Q v s"
    and "\<And>c v s v' s'. create_call c v s = (v', s') \<Longrightarrow> Q v s \<Longrightarrow> Q v' s'"
    and "\<And>q v s. Include q \<in> set cs \<Longrightarrow> Q v s \<Longrightarrow> Q v (load_script n scripts (sl_base s @ q) s)"
  shows "Q v' s'"
  using assms(1,2,4)
proof (induction cs arbitrary: v s)
  case (Cons c cs)
  have rest: "Q v' s'" if r: "run_calls n scripts cs v1 s1 = (v', s')" and q: "Q v1 s1" for v1 s1
    by (rule Cons.IH [OF r q]) (simp add: Cons.prems(3))
  show ?case
  proof (cases "\<exists>q. c = Include q")
    case True
    then obtain q where q: "c = Include q" by blast
    then have "Q v (load_script n scripts (sl_base s @ q) s)" using Cons.prems(2,3) by simp
    then show ?thesis using rest Cons.prems(1) q by simp
  next
    case False
    obtain v1 s1 where "create_call c v s = (v1, s1)" by (cases "create_call c v s")
    then show ?thesis using rest assms(3) Cons.prems(1,2) False by (auto simp: run_calls_create)
  qed
qed simp

lemma end_load_cases: "end_load scripts path (v, s) = s \<or> (\<exists>g ns sp. v = (g, ns, sp) \<and> end_load scripts path (v, s) = finish_load path g ns sp s)"
  by (cases v) auto

lemma take_tables_fields [simp]: "sl_base (take_tables path s) = sl_base s" "sl_map_id (take_tables path s) = sl_map_id s"
  "sl_files (take_tables path s) = sl_files s" "sl_created (take_tables path s) = sl_created s"
  "sl_commands (take_tables path s) = sl_commands s"
  by (simp_all add: take_tables_def)

lemma same_loader_end: "same_loader s s1 \<Longrightarrow> same_loader s (end_load scripts path (v, s1))"
  using end_load_cases [of scripts path v s1] by (auto simp: same_loader_def)

lemma load_same: "same_loader s (load_script n scripts path s)"
proof (induction n arbitrary: path s)
  case 0
  show ?case by (simp add: same_loader_def)
next
  case (Suc n)
  obtain v s1 where r: "run_calls n scripts (fst (scripts path)) (take_vectors path s) (take_tables path s) = (v, s1)" by fastforce
  have "same_loader s s1"
  proof (rule run_calls_inv [OF r, where Q = "\<lambda>v. same_loader s"])
    show "same_loader s u'" if "create_call c v u = (v', u')" "same_loader s u" for c v u v' u'
      using that create_call_same same_loader_trans by blast
    show "same_loader s (load_script n scripts (sl_base u @ q) u)" if "same_loader s u" for q u
      using that Suc.IH same_loader_trans by blast
  qed (simp add: same_loader_def)
  then show ?case by (simp add: r same_loader_end)
qed

lemma load_base [simp]: "sl_base (load_script n scripts path s) = sl_base s"
  using load_same [of s n scripts path] by (simp add: same_loader_def)

lemma load_returns:
  assumes "loads_well base scripts rank R"
  shows "sl_base s = base \<Longrightarrow> path \<in> R \<Longrightarrow> rank path < n \<Longrightarrow> loads scripts path s (load_script n scripts path s)"
proof (induction n arbitrary: path s)
  case (Suc n)
  have run: "runs scripts cs v u (run_calls n scripts cs v u)" if "includes_below base rank R n cs" "sl_base u = base" for cs v u
    using that
  proof (induction cs arbitrary: v u)
    case Nil
    show ?case by (simp add: loads_runs.finished)
  next
    case (Cons c cs)
    note below = includes_below_Cons [OF Cons.prems(1)]
    show ?case
    proof (cases "\<exists>q. c = Include q")
      case True
      then obtain q where q: "c = Include q" "base @ q \<in> R" "rank (base @ q) < n"
        using Cons.prems(1) by (auto simp: includes_below_def)
      have "runs scripts cs v (load_script n scripts (base @ q) u) (run_calls n scripts cs v (load_script n scripts (base @ q) u))"
        using Cons.IH [OF below] Cons.prems(2) by simp
      then show ?thesis
        using loads_runs.incl [of scripts u q] Suc.IH [OF Cons.prems(2) q(2,3)] Cons.prems(2) q(1) by simp
    next
      case False
      obtain v1 s1 where c: "create_call c v u = (v1, s1)" by (cases "create_call c v u")
      then have "sl_base s1 = base" using create_call_same Cons.prems(2) by (auto simp: same_loader_def)
      then have "runs scripts cs v1 s1 (run_calls n scripts cs v1 s1)" by (rule Cons.IH [OF below])
      then show ?thesis using loads_runs.create [OF _ c] False c by (simp add: run_calls_create)
    qed
  qed
  have "includes_below base rank R n (fst (scripts path))"
    using includes_below_script [OF assms Suc.prems(2)] Suc.prems(3) by (auto simp: includes_below_def)
  then show ?case using run Suc.prems(1) by (simp add: loads_runs.load)
qed simp

lemma loads_det: "loads scripts path s s' \<Longrightarrow> loads scripts path s s'' \<Longrightarrow> s'' = s'"
  and runs_det: "runs scripts cs v s r \<Longrightarrow> runs scripts cs v s r' \<Longrightarrow> r' = r"
proof (induction arbitrary: s'' and r' rule: loads_runs.inducts)
  case (load path s r)
  then show ?case by (blast elim: loadsE)
next
  case (finished v s)
  then show ?case by (auto elim: runs.cases)
next
  case (incl s q s1 cs v r)
  from incl.prems show ?case by (rule runs_inclE) (use incl in blast)+
next
  case (create c v s v1 s1 cs r)
  from create.prems show ?case
  proof (rule runs_ConsE)
    fix v2 s2 assume "create_call c v s = (v2, s2)" "runs scripts cs v2 s2 r'"
    then show ?thesis using create(2) create.IH by simp
  qed (use create(1) in blast)
qed

text \<open>A file that includes itself has no load of its own: a load of it would contain a smaller one.\<close>

lemma loads_same: "loads scripts path s s' \<Longrightarrow> same_loader s s'" and runs_same: "runs scripts cs v s r \<Longrightarrow> same_loader s (snd r)"
proof (induction rule: loads_runs.inducts)
  case (load path s r)
  have "same_loader s (snd r)" using load.IH by (simp add: same_loader_def)
  then show ?case using same_loader_end [of s "snd r" scripts path "fst r"] by simp
next
  case (create c v s v1 s1 cs r)
  then show ?case using create_call_same same_loader_trans by blast
qed (auto simp: same_loader_def)

lemma self_include_never_returns:
  "loads scripts path s s' \<Longrightarrow> Include q \<in> set (fst (scripts path)) \<Longrightarrow> sl_base s @ q \<noteq> path"
  and "runs scripts cs v s r \<Longrightarrow> Include q \<in> set cs \<Longrightarrow> Include q \<in> set (fst (scripts (sl_base s @ q))) \<Longrightarrow> False"
proof (induction rule: loads_runs.inducts)
  case (load path s r)
  then show ?case by auto
next
  case (incl s p s1 cs v r)
  have "sl_base s1 = sl_base s" using loads_same [OF incl(1)] by (simp add: same_loader_def)
  then show ?case using incl by auto
next
  case (create c v s v1 s1 cs r)
  have "sl_base s1 = sl_base s" using create_call_same [OF create(2)] by (simp add: same_loader_def)
  then show ?case using create by auto
qed simp

section \<open>Who owns an entity\<close>

text \<open>The handles in a vector and in a table, those the loader lists, and those that were created and not destroyed.\<close>

fun held :: "entity option list \<Rightarrow> entity multiset" where
  "held [] = {#}"
| "held (Some e # es) = add_mset e (held es)"
| "held (None # es) = held es"

fun held_files :: "(cstring \<times> entity option list) list \<Rightarrow> entity multiset" where
  "held_files [] = {#}"
| "held_files ((path, es) # files) = held es + held_files files"

definition listed :: "ScriptLoader \<Rightarrow> entity multiset" where
  "listed s = held_files (sl_npc_files s) + held_files (sl_warpgate_files s) + held_files (sl_spawner_files s)"

fun live_step :: "es_command \<Rightarrow> entity multiset \<Rightarrow> entity multiset" where
  "live_step (CreateWarpgate e c) M = add_mset e M"
| "live_step (CreateNpc e c) M = add_mset e M"
| "live_step (BulkDestroy es) M = M - held es"

definition live :: "ScriptLoader \<Rightarrow> entity multiset" where
  "live s = fold live_step (sl_commands s) {#}"

text \<open>Everything alive is listed once or pending in a vector of \<open>load_script\<close>, and handles are not used twice.\<close>

definition fresh_handles :: "entity multiset \<Rightarrow> nat \<Rightarrow> bool" where
  "fresh_handles M n \<longleftrightarrow> (\<forall>e \<in># M. e < n) \<and> (\<forall>e. count M e \<le> 1)"

definition balanced :: "entity multiset \<Rightarrow> ScriptLoader \<Rightarrow> bool" where
  "balanced pending s \<longleftrightarrow> listed s + pending = live s \<and> fresh_handles (live s) (sl_created s)"

lemma fresh_handles_add: "fresh_handles M n \<Longrightarrow> fresh_handles (add_mset n M) (Suc n)"
  by (auto simp: fresh_handles_def less_Suc_eq not_in_iff [symmetric])

lemma fresh_handles_mono: "fresh_handles M n \<Longrightarrow> n \<le> n' \<Longrightarrow> fresh_handles M n'"
  by (auto simp: fresh_handles_def)

lemma fresh_handles_diff: "fresh_handles M n \<Longrightarrow> fresh_handles (M - N) n"
  by (auto simp: fresh_handles_def dest: in_diffD intro: order_trans [OF diff_le_self])

lemma live_snoc: "live (s\<lparr>sl_created := n, sl_commands := sl_commands s @ [c]\<rparr>) = live_step c (live s)"
  "live (s\<lparr>sl_commands := sl_commands s @ [c]\<rparr>) = live_step c (live s)"
  by (simp_all add: live_def)

lemma held_append [simp]: "held (xs @ ys) = held xs + held ys"
  by (induction xs rule: held.induct) auto

lemma held_files_update: "held_files (AList.update path es files) + held (entities_of path files) = held_files files + held es"
  by (induction files) (auto simp: entities_of_def)

lemma held_take: "held_files (take_entities path files) + held (entities_of path files) = held_files files"
  using held_files_update [of path "[]" files] by (auto simp: take_entities_def moved_def entities_of_def split: option.splits)

lemma held_insert: "entities_of path files = [] \<Longrightarrow> held_files (insert_files path es files) = held_files files + held es"
  using held_files_update [of path es files] by (simp add: insert_files_def)

lemma entities_of_update [simp]: "entities_of q (AList.update path es files) = (if q = path then es else entities_of q files)"
  by (simp add: entities_of_def update_conv')

lemma entities_of_take: "entities_of q (take_entities path files) = (if q = path then [] else entities_of q files)"
proof (cases "map_of files path")
  case None
  then show ?thesis by (simp add: take_entities_def entities_of_def)
next
  case (Some es)
  then show ?thesis by (simp add: take_entities_def moved_def)
qed

lemma entities_of_insert: "q \<noteq> path \<Longrightarrow> entities_of q (insert_files path es files) = entities_of q files"
  by (simp add: insert_files_def)

lemma create_call_tables: "create_call c v s = (v', s') \<Longrightarrow> sl_npc_files s' = sl_npc_files s
    \<and> sl_warpgate_files s' = sl_warpgate_files s \<and> sl_spawner_files s' = sl_spawner_files s"
  by (induction c v s rule: create_call.induct) (auto split: if_splits)

fun held_vectors :: "vectors \<Rightarrow> entity multiset" where
  "held_vectors (gates, npcs, spawners) = held gates + held npcs + held spawners"

lemma create_call_balanced:
  "create_call c v s = (v', s') \<Longrightarrow> balanced (pending + held_vectors v) s \<Longrightarrow> balanced (pending + held_vectors v') s'"
  by (induction c v s rule: create_call.induct)
    (auto simp: balanced_def listed_def live_snoc fresh_handles_add split: if_splits)

definition same_tables :: "cstring \<Rightarrow> ScriptLoader \<Rightarrow> ScriptLoader \<Rightarrow> bool" where
  "same_tables q s s' \<longleftrightarrow> entities_of q (sl_npc_files s') = entities_of q (sl_npc_files s)
     \<and> entities_of q (sl_warpgate_files s') = entities_of q (sl_warpgate_files s)
     \<and> entities_of q (sl_spawner_files s') = entities_of q (sl_spawner_files s)"

lemma same_tables_trans: "same_tables q s s1 \<Longrightarrow> same_tables q s1 s2 \<Longrightarrow> same_tables q s s2"
  by (simp add: same_tables_def)

lemma balanced_take:
  assumes "balanced pending s"
  shows "balanced (pending + held_vectors (take_vectors path s)) (take_tables path s)"
proof -
  have "listed (take_tables path s) + held_vectors (take_vectors path s) = listed s"
    unfolding listed_def held_take [symmetric, of "sl_npc_files s" path] held_take [symmetric, of "sl_warpgate_files s" path]
      held_take [symmetric, of "sl_spawner_files s" path] by (simp add: take_tables_def take_vectors_def ac_simps)
  moreover have "X + (pending + V) = M" if "X + V = L" "L + pending = M" for X V L M :: "entity multiset"
    using that by (simp add: ac_simps flip: that)
  ultimately show ?thesis
    using assms unfolding balanced_def by (simp add: live_def)
qed

lemma balanced_finish:
  assumes "balanced (pending + held_vectors (g, ns, sp)) s" and "entities_of path (sl_npc_files s) = []"
    and "entities_of path (sl_warpgate_files s) = []" and "entities_of path (sl_spawner_files s) = []"
  shows "balanced pending (finish_load path g ns sp s)"
  using assms by (simp add: balanced_def listed_def live_def held_insert ac_simps)

text \<open>A file that loads well keeps the balance and the tables of the files above it.\<close>

lemma load_balanced:
  assumes "loads_well base scripts rank R"
  shows "sl_base s = base \<Longrightarrow> path \<in> R \<Longrightarrow> rank path < n \<Longrightarrow>
    (balanced pending s \<longrightarrow> balanced pending (load_script n scripts path s))
    \<and> (\<forall>q. rank path < rank q \<longrightarrow> same_tables q s (load_script n scripts path s))"
proof (induction n arbitrary: path s pending)
  case (Suc n)
  let ?s = "take_tables path s"
  let ?Q = "\<lambda>v u. sl_base u = base \<and> (balanced pending s \<longrightarrow> balanced (pending + held_vectors v) u)
    \<and> (\<forall>q. rank path \<le> rank q \<longrightarrow> same_tables q ?s u)"
  obtain g ns sp s1 where r: "run_calls n scripts (fst (scripts path)) (take_vectors path s) ?s = ((g, ns, sp), s1)"
    by (metis prod_cases3 surj_pair)
  have "?Q (g, ns, sp) s1"
  proof (rule run_calls_inv [OF r, where Q = ?Q])
    show "?Q (take_vectors path s) ?s"
      using balanced_take Suc.prems(1) by (simp add: same_tables_def)
    show "?Q v' u'" if "create_call c v u = (v', u')" "?Q v u" for c v u v' u'
      using that create_call_balanced [OF that(1)] create_call_tables [OF that(1)] create_call_same [OF that(1)]
      by (simp add: same_tables_def same_loader_def)
    show "?Q v (load_script n scripts (sl_base u @ q) u)" if "Include q \<in> set (fst (scripts path))" "?Q v u" for q v u
    proof -
      have q: "base @ q \<in> R" "rank (base @ q) < rank path"
        using includes_below_script [OF assms Suc.prems(2)] that(1) by (auto simp: includes_below_def)
      then have "rank (base @ q) < n" using Suc.prems(3) by simp
      note IH = Suc.IH [OF conjunct1 [OF that(2)] q(1) this, of "pending + held_vectors v"]
      have "same_tables r ?s (load_script n scripts (base @ q) u)" if "rank path \<le> rank r" for r
        using IH \<open>?Q v u\<close> q(2) that by (auto intro: same_tables_trans)
      then show ?thesis using IH that(2) by simp
    qed
  qed
  moreover from this have "same_tables path ?s s1" by simp
  ultimately have Q: "?Q (g, ns, sp) s1" and empty: "entities_of path (sl_npc_files s1) = []"
      "entities_of path (sl_warpgate_files s1) = []" "entities_of path (sl_spawner_files s1) = []"
    by (simp_all add: same_tables_def entities_of_take take_tables_def)
  have s': "load_script (Suc n) scripts path s = finish_load path g ns sp s1"
    using r assms Suc.prems(2) by (simp add: loads_well_def)
  have "balanced pending (finish_load path g ns sp s1)" if "balanced pending s"
    using Q that empty by (intro balanced_finish) auto
  moreover have "same_tables q s (finish_load path g ns sp s1)" if "rank path < rank q" for q
  proof -
    have "q \<noteq> path" using that by auto
    moreover have "same_tables q ?s s1" using Q that by simp
    ultimately show ?thesis by (simp add: same_tables_def entities_of_insert entities_of_take take_tables_def)
  qed
  ultimately show ?case unfolding s' by blast
qed simp

section \<open>Reloading\<close>

text \<open>What the loops over the three tables need to know of their table.\<close>

locale file_table =
  fixes files :: "ScriptLoader \<Rightarrow> (cstring \<times> entity option list) list"
    and upd :: "((cstring \<times> entity option list) list \<Rightarrow> (cstring \<times> entity option list) list) \<Rightarrow> ScriptLoader \<Rightarrow> ScriptLoader"
  assumes upd_base: "sl_base (upd f s) = sl_base s"
    and upd_commands: "sl_commands (upd f s) = sl_commands s"
    and upd_created: "sl_created (upd f s) = sl_created s"
    and upd_files: "sl_files (upd f s) = sl_files s"
    and upd_listed: "listed (upd (AList.update path []) s) + held (entities_of path (files s)) = listed s"
    and files_commands: "files (s\<lparr>sl_commands := cs\<rparr>) = files s"
begin

lemma clear_balanced:
  assumes "balanced {#} s"
  shows "balanced {#} (upd (AList.update path []) (s\<lparr>sl_commands := sl_commands s @ [BulkDestroy (entities_of path (files s))]\<rparr>))"
proof -
  let ?s = "s\<lparr>sl_commands := sl_commands s @ [BulkDestroy (entities_of path (files s))]\<rparr>"
  let ?u = "upd (AList.update path []) ?s"
  have "listed ?u + held (entities_of path (files s)) = listed s"
    using upd_listed [of path ?s] files_commands by (simp add: listed_def)
  then have "listed ?u = live s - held (entities_of path (files s))"
    using assms by (metis add_diff_cancel_right' balanced_def empty_neutral(2))
  moreover have "live ?u = live s - held (entities_of path (files s))"
    using live_snoc(2) [of s "BulkDestroy (entities_of path (files s))"] by (simp add: live_def upd_commands)
  ultimately show ?thesis
    using assms by (simp add: balanced_def fresh_handles_diff upd_created)
qed

lemma reload_balanced:
  assumes "loads_well base scripts rank R"
  shows "reload_files files upd n scripts order s = Some s' \<Longrightarrow> sl_base s = base \<Longrightarrow> set order \<subseteq> {p \<in> R. rank p < n} \<Longrightarrow> balanced {#} s
    \<Longrightarrow> balanced {#} s' \<and> sl_base s' = base \<and> sl_files s' = sl_files s"
proof (induction order arbitrary: s)
  case (Cons path order)
  let ?u = "upd (AList.update path []) (s\<lparr>sl_commands := sl_commands s @ [BulkDestroy (entities_of path (files s))]\<rparr>)"
  let ?s1 = "load_script n scripts path ?u"
  have s1: "reload_files files upd n scripts order ?s1 = Some s'"
    using Cons.prems(1) by (auto simp: Let_def split: if_splits)
  have "sl_base ?u = base" using Cons.prems(2) upd_base by simp
  then have "balanced {#} ?s1" "sl_base ?s1 = base" "sl_files ?s1 = sl_files s"
    using load_balanced [OF assms, of ?u path n "{#}"] load_same [of ?u n scripts path] clear_balanced [OF Cons.prems(4)] Cons.prems(3) upd_files
    by (auto simp: same_loader_def)
  then show ?case using Cons.IH [OF s1] Cons.prems(3) by auto
qed simp

end

interpretation npc_table: file_table sl_npc_files sl_npc_files_update
proof
  show "listed (sl_npc_files_update (AList.update path []) s) + held (entities_of path (sl_npc_files s)) = listed s" for path s
    using held_files_update [of path "[]" "sl_npc_files s"] by (simp add: listed_def)
qed simp_all

interpretation warpgate_table: file_table sl_warpgate_files sl_warpgate_files_update
proof
  show "listed (sl_warpgate_files_update (AList.update path []) s) + held (entities_of path (sl_warpgate_files s)) = listed s" for path s
    using held_files_update [of path "[]" "sl_warpgate_files s"] by (simp add: listed_def)
qed simp_all

interpretation spawner_table: file_table sl_spawner_files sl_spawner_files_update
proof
  show "listed (sl_spawner_files_update (AList.update path []) s) + held (entities_of path (sl_spawner_files s)) = listed s" for path s
    using held_files_update [of path "[]" "sl_spawner_files s"] by (simp add: listed_def)
qed simp_all

section \<open>The life of a loader\<close>

text \<open>Any sequence of loads and reloads, with other scripts each time, while others create entities. In a tidy life every
  file that is loaded loads well, and Lua allows as many nested runs as its rank needs.\<close>

definition tidy_step :: "bool \<Rightarrow> nat \<Rightarrow> cstring \<Rightarrow> scripts \<Rightarrow> cstring set \<Rightarrow> bool" where
  "tidy_step tidy n base scripts R \<longleftrightarrow> (tidy \<longrightarrow> (\<exists>rank S. loads_well base scripts rank S \<and> R \<subseteq> {p \<in> S. rank p < n}))"

inductive loader_life :: "bool \<Rightarrow> ScriptLoader \<Rightarrow> bool" for tidy where
  start: "ScriptLoader_new n map_id path = Some s \<Longrightarrow> loader_life tidy s"
| load: "loader_life tidy s \<Longrightarrow> tidy_step tidy n (sl_base s) scripts {path} \<Longrightarrow> loader_life tidy (load_script n scripts path s)"
| npcs: "loader_life tidy s \<Longrightarrow> tidy_step tidy n (sl_base s) scripts (set order) \<Longrightarrow> load_npcs n scripts order s = Some s' \<Longrightarrow> loader_life tidy s'"
| gates: "loader_life tidy s \<Longrightarrow> tidy_step tidy n (sl_base s) scripts (set order) \<Longrightarrow> load_warpgates n scripts order s = Some s' \<Longrightarrow> loader_life tidy s'"
| spawners: "loader_life tidy s \<Longrightarrow> tidy_step tidy n (sl_base s) scripts (set order) \<Longrightarrow> load_spawners n scripts order s = Some s' \<Longrightarrow> loader_life tidy s'"
| others: "loader_life tidy s \<Longrightarrow> loader_life tidy (s\<lparr>sl_created := sl_created s + k\<rparr>)"

lemmas load_table_defs = load_npcs_def load_warpgates_def load_spawners_def

lemma loader_life_balanced: "loader_life True s \<Longrightarrow> balanced {#} s"
proof (induction rule: loader_life.induct)
  case (start n map_id path s)
  then show ?case
    by (auto simp: ScriptLoader_new_def balanced_def listed_def live_def fresh_handles_def split: if_splits)
next
  case (load s n scripts path)
  then show ?case using load_balanced by (auto simp: tidy_step_def)
next
  case (npcs s n scripts order s')
  then show ?case using npc_table.reload_balanced by (fastforce simp: tidy_step_def load_table_defs)
next
  case (gates s n scripts order s')
  then show ?case using warpgate_table.reload_balanced by (fastforce simp: tidy_step_def load_table_defs)
next
  case (spawners s n scripts order s')
  then show ?case using spawner_table.reload_balanced by (fastforce simp: tidy_step_def load_table_defs)
next
  case (others s k)
  then show ?case by (auto simp: balanced_def listed_def live_def intro: fresh_handles_mono)
qed

lemma load_files [simp]: "sl_files (load_script n scripts path s) = sl_files s"
  using load_same [of s n scripts path] by (simp add: same_loader_def)

lemma reload_files_same:
  "reload_files files upd n scripts order s = Some s' \<Longrightarrow> (\<And>f s. sl_files (upd f s) = sl_files s) \<Longrightarrow> sl_files s' = sl_files s"
proof (induction order arbitrary: s)
  case (Cons path order)
  then show ?case by (fastforce simp: Let_def split: if_splits)
qed simp

lemma loader_life_files: "loader_life tidy s \<Longrightarrow> sl_files s = []"
proof (induction rule: loader_life.induct)
  case (start n map_id path s)
  then show ?case by (auto simp: ScriptLoader_new_def split: if_splits)
qed (auto simp: load_table_defs dest!: reload_files_same)

section \<open>A file that includes no other\<close>

fun npc_here :: "ScriptLoader \<Rightarrow> lua_call \<Rightarrow> bool" where
  "npc_here s (Npc lua npc_id m x y z angle) = on_map m s"
| "npc_here s _ = False"

fun gate_here :: "ScriptLoader \<Rightarrow> lua_call \<Rightarrow> bool" where
  "gate_here s (Warp_gate alias dm dx dy dz m x y z angle sx sy sz) = on_map m s"
| "gate_here s _ = False"

definition newer :: "nat \<Rightarrow> entity option list \<Rightarrow> bool" where
  "newer k es \<longleftrightarrow> (\<forall>h \<in> set es. \<exists>e \<ge> k. h = Some e)"

definition created_by :: "ScriptLoader \<Rightarrow> lua_call list \<Rightarrow> vectors \<Rightarrow> vectors \<Rightarrow> ScriptLoader \<Rightarrow> bool" where
  "created_by s cs v v' s' \<longleftrightarrow> (\<exists>gs ns. fst v' = fst v @ gs \<and> fst (snd v') = fst (snd v) @ ns \<and> newer (sl_created s) gs \<and> newer (sl_created s) ns
     \<and> length gs = length (filter (gate_here s) cs) \<and> length ns = length (filter (npc_here s) cs)
     \<and> (\<exists>cmds. sl_commands s' = sl_commands s @ cmds) \<and> sl_npc_files s' = sl_npc_files s \<and> sl_warpgate_files s' = sl_warpgate_files s
     \<and> sl_map_id s' = sl_map_id s \<and> sl_base s' = sl_base s \<and> sl_created s' = sl_created s + length gs + length ns)"

lemma created_by_refl: "created_by s [] v v s"
  by (auto simp: created_by_def newer_def)

lemma created_by_step:
  "create_call c v s = (v1, s1) \<Longrightarrow> (\<And>q. c \<noteq> Include q) \<Longrightarrow> created_by s [c] v v1 s1"
  by (induction c v s rule: create_call.induct) (auto simp: created_by_def newer_def split: if_splits)

lemma here_cong: "sl_map_id s1 = sl_map_id s \<Longrightarrow> npc_here s1 = npc_here s \<and> gate_here s1 = gate_here s"
proof -
  assume "sl_map_id s1 = sl_map_id s"
  then have "on_map m s1 = on_map m s" for m by (simp add: on_map_def)
  then have "npc_here s1 c = npc_here s c \<and> gate_here s1 c = gate_here s c" for c by (cases c) simp_all
  then show ?thesis by blast
qed

lemma created_by_Cons:
  assumes "created_by s [c] v v1 s1" and "created_by s1 cs v1 v' s'"
  shows "created_by s (c # cs) v v' s'"
proof -
  have "sl_map_id s1 = sl_map_id s" using assms(1) by (auto simp: created_by_def)
  note here = here_cong [OF this]
  have older: "newer (sl_created s1) es \<Longrightarrow> newer (sl_created s) es" for es
    using assms(1) by (fastforce simp: created_by_def newer_def)
  obtain gs ns where 1: "fst v1 = fst v @ gs" "fst (snd v1) = fst (snd v) @ ns" "newer (sl_created s) gs" "newer (sl_created s) ns"
      "length gs = length (filter (gate_here s) [c])" "length ns = length (filter (npc_here s) [c])"
    using assms(1) by (auto simp: created_by_def)
  obtain gs' ns' where 2: "fst v' = fst v1 @ gs'" "fst (snd v') = fst (snd v1) @ ns'" "newer (sl_created s1) gs'" "newer (sl_created s1) ns'"
      "length gs' = length (filter (gate_here s) cs)" "length ns' = length (filter (npc_here s) cs)"
    using assms(2) here by (auto simp: created_by_def)
  have "newer (sl_created s) (gs @ gs')" "newer (sl_created s) (ns @ ns')"
    using 1(3,4) older [OF 2(3)] older [OF 2(4)] by (auto simp: newer_def)
  moreover have "length (gs @ gs') = length (filter (gate_here s) (c # cs))" "length (ns @ ns') = length (filter (npc_here s) (c # cs))"
    using 1(5,6) 2(5,6) by simp_all
  moreover have "fst v' = fst v @ gs @ gs'" "fst (snd v') = fst (snd v) @ ns @ ns'" using 1(1,2) 2(1,2) by simp_all
  moreover have "\<exists>cmds. sl_commands s' = sl_commands s @ cmds" "sl_npc_files s' = sl_npc_files s" "sl_warpgate_files s' = sl_warpgate_files s"
      "sl_map_id s' = sl_map_id s" "sl_base s' = sl_base s"
    using assms by (auto simp: created_by_def)
  moreover have "sl_created s' = sl_created s + length (gs @ gs') + length (ns @ ns')"
    using assms here 1(5,6) 2(5,6) by (auto simp: created_by_def)
  ultimately show ?thesis unfolding created_by_def by metis
qed

lemma run_plain:
  "(\<And>q. Include q \<notin> set cs) \<Longrightarrow> created_by s cs v (fst (run_calls n scripts cs v s)) (snd (run_calls n scripts cs v s))"
proof (induction cs arbitrary: v s)
  case (Cons c cs)
  have c: "c \<noteq> Include q" for q using Cons.prems [of q] by auto
  obtain v1 s1 where s1: "create_call c v s = (v1, s1)" by (cases "create_call c v s")
  have "created_by s1 cs v1 (fst (run_calls n scripts cs v1 s1)) (snd (run_calls n scripts cs v1 s1))"
    using Cons.prems by (intro Cons.IH) auto
  then show ?case
    using created_by_Cons [OF created_by_step [OF s1 c]] s1 c by (simp add: run_calls_create)
qed (simp add: created_by_refl)

lemma length_update: "map_of files path \<noteq> None \<Longrightarrow> length (AList.update path es files) = length files"
  by (induction files) auto

lemma entities_of_inserted: "entities_of path (insert_files path es files) = (if es = [] then entities_of path files else es)"
  by (simp add: insert_files_def)

text \<open>A file that ends by including itself is run as often as Lua allows; every run but the first is forgotten.\<close>

lemma run_calls_append: "run_calls n scripts (cs @ ds) v s = (let (v1, s1) = run_calls n scripts cs v s in run_calls n scripts ds v1 s1)"
proof (induction cs arbitrary: v s)
  case (Cons c cs)
  show ?case
  proof (cases "\<exists>q. c = Include q")
    case True
    then obtain q where "c = Include q" by blast
    then show ?thesis using Cons.IH by simp
  next
    case False
    then show ?thesis using Cons.IH by (simp add: run_calls_create split: prod.splits)
  qed
qed simp

definition self_including :: "scripts \<Rightarrow> cstring \<Rightarrow> cstring \<Rightarrow> lua_call list \<Rightarrow> bool" where
  "self_including scripts base path cs \<longleftrightarrow> (\<exists>q. fst (scripts path) = cs @ [Include q] \<and> base @ q = path)
     \<and> (\<forall>p. Include p \<notin> set cs) \<and> \<not> snd (scripts path)"

lemma self_include_step:
  assumes "self_including scripts (sl_base s) path cs"
  obtains g ns sp s1 where "load_script (Suc n) scripts path s = finish_load path g ns sp (load_script n scripts path s1)"
    and "created_by (take_tables path s) cs (take_vectors path s) (g, ns, sp) s1"
proof -
  obtain q where q: "fst (scripts path) = cs @ [Include q]" "sl_base s @ q = path" "\<not> snd (scripts path)" "\<And>p. Include p \<notin> set cs"
    using assms by (auto simp: self_including_def)
  obtain g ns sp s1 where r: "run_calls n scripts cs (take_vectors path s) (take_tables path s) = ((g, ns, sp), s1)"
    by (metis prod_cases3 surj_pair)
  then have c: "created_by (take_tables path s) cs (take_vectors path s) (g, ns, sp) s1"
    using run_plain [OF q(4), of "take_tables path s" "take_vectors path s" n scripts] by simp
  then have "sl_base s1 = sl_base s" by (auto simp: created_by_def)
  then have "load_script (Suc n) scripts path s = finish_load path g ns sp (load_script n scripts path s1)"
    using q r by (simp add: run_calls_append)
  with c that show ?thesis by blast
qed

lemma self_include_runs:
  "self_including scripts (sl_base s) path cs \<Longrightarrow> sl_created (load_script n scripts path s)
    = sl_created s + n * (length (filter (gate_here s) cs) + length (filter (npc_here s) cs))"
proof (induction n arbitrary: s)
  case (Suc n)
  from Suc.prems show ?case
  proof (rule self_include_step [where n = n])
    fix g ns sp s1
    assume l: "load_script (Suc n) scripts path s = finish_load path g ns sp (load_script n scripts path s1)"
      and c: "created_by (take_tables path s) cs (take_vectors path s) (g, ns, sp) s1"
    have here: "npc_here (take_tables path s) = npc_here s" "gate_here (take_tables path s) = gate_here s"
      using here_cong [of "take_tables path s" s] by simp_all
    then have s1: "sl_base s1 = sl_base s" "npc_here s1 = npc_here s" "gate_here s1 = gate_here s"
        "sl_created s1 = sl_created s + length (filter (gate_here s) cs) + length (filter (npc_here s) cs)"
      using c here_cong [of s1 s] by (auto simp: created_by_def)
    then show ?thesis using Suc.IH [of s1] Suc.prems l by simp
  qed
qed simp

lemma self_include_lists:
  assumes "self_including scripts (sl_base s) path cs" and "filter (npc_here s) cs \<noteq> []" and "0 < n"
  shows "length (entities_of path (sl_npc_files (load_script n scripts path s)))
    = length (entities_of path (sl_npc_files s)) + length (filter (npc_here s) cs)"
proof -
  obtain m where n: "n = Suc m" using assms(3) by (cases n) auto
  obtain g ns sp s1 where l: "load_script n scripts path s = finish_load path g ns sp (load_script m scripts path s1)"
      and c: "created_by (take_tables path s) cs (take_vectors path s) (g, ns, sp) s1"
    using self_include_step [OF assms(1)] n by metis
  have "npc_here (take_tables path s) = npc_here s" using here_cong [of "take_tables path s" s] by simp
  then have "length ns = length (entities_of path (sl_npc_files s)) + length (filter (npc_here s) cs)" 
    using c by (auto simp: created_by_def take_vectors_def)
  moreover from this have "ns \<noteq> []" using assms(2) by auto
  ultimately show ?thesis using l by (simp add: entities_of_inserted)
qed

section \<open>Properties\<close>

text \<open>C27. The loader knows its entities: as long as scripts run without errors and includes have no cycles and do not
  nest deeper than Lua allows, every entity
  that a script created and nobody destroyed is in exactly one table, once, whatever is loaded and reloaded.\<close>

theorem loader_owns_entities:
  assumes "loader_life True s"
  shows "listed s = live s \<and> count (live s) e \<le> 1 \<and> (e \<in># live s \<longrightarrow> e < sl_created s)"
  using loader_life_balanced [OF assms] by (simp add: balanced_def fresh_handles_def)

text \<open>C28. Loading ends by itself, if the scripts run without errors, includes have no cycles and they do not nest deeper
  than Lua allows: the recursion of the code, without the limit of Lua, has exactly the result of \<open>load_script\<close>. Without
  that limit a file that includes itself would never be done. With it, a file that ends by including itself is run as often
  as runs may nest, and each run creates the entities of the file again; but the table lists the NPCs of one run only.\<close>

theorem loading_terminates:
  "(loads_well (sl_base s) scripts rank R \<and> path \<in> R \<and> rank path < n
      \<longrightarrow> (loads scripts path s s' \<longleftrightarrow> s' = load_script n scripts path s))
   \<and> (Include q \<in> set (fst (scripts path)) \<and> sl_base s @ q = path \<longrightarrow> \<not> loads scripts path s s')
   \<and> (self_including scripts (sl_base s) path cs \<longrightarrow>
        sl_created (load_script n scripts path s)
          = sl_created s + n * (length (filter (gate_here s) cs) + length (filter (npc_here s) cs))
        \<and> (filter (npc_here s) cs \<noteq> [] \<and> 0 < n \<longrightarrow> length (entities_of path (sl_npc_files (load_script n scripts path s)))
          = length (entities_of path (sl_npc_files s)) + length (filter (npc_here s) cs)))"
  using load_returns [OF _ refl, of s scripts rank R path n] loads_det [of scripts path s "load_script n scripts path s" s']
    self_include_never_returns(1) [of scripts path s s' q] self_include_runs [of scripts s path cs n]
    self_include_lists [of scripts s path cs n] by metis

text \<open>Reloading NPCs replaces the NPCs of a file by new ones, one for each call for this map, and has the old ones
  destroyed; but the file is run as a whole, so its warp gates, which are kept, are all created once more.\<close>

theorem npc_reload_repeats_gates:
  assumes "map_of (sl_npc_files s) path = Some old" and "\<not> snd (scripts path)" and "\<And>q. Include q \<notin> set (fst (scripts path))"
  shows "\<exists>s' npcs gates. load_npcs (Suc n) scripts [path] s = Some s'
    \<and> (\<exists>cmds. sl_commands s' = sl_commands s @ BulkDestroy old # cmds)
    \<and> entities_of path (sl_npc_files s') = npcs \<and> newer (sl_created s) npcs
    \<and> length npcs = length (filter (npc_here s) (fst (scripts path)))
    \<and> entities_of path (sl_warpgate_files s') = entities_of path (sl_warpgate_files s) @ gates \<and> newer (sl_created s) gates
    \<and> length gates = length (filter (gate_here s) (fst (scripts path)))"
proof -
  define u where "u = s\<lparr>sl_commands := sl_commands s @ [BulkDestroy old], sl_npc_files := AList.update path [] (sl_npc_files s)\<rparr>"
  define t where "t = take_tables path u"
  have empty: "entities_of path (sl_npc_files u) = []" by (simp add: u_def)
  let ?v = "take_vectors path u"
  obtain g ns sp t' where r: "run_calls n scripts (fst (scripts path)) ?v t = ((g, ns, sp), t')"
    by (metis prod_cases3 surj_pair)
  then have run: "created_by t (fst (scripts path)) ?v (g, ns, sp) t'"
    using run_plain [OF assms(3), of t ?v n scripts] by simp
  have here: "npc_here t = npc_here s" "gate_here t = gate_here s" "sl_created t = sl_created s"
    using here_cong [of t s] by (simp_all add: t_def u_def)
  obtain gs where g: "g = entities_of path (sl_warpgate_files s) @ gs" "newer (sl_created s) gs" "newer (sl_created s) ns"
      "length gs = length (filter (gate_here s) (fst (scripts path)))" "length ns = length (filter (npc_here s) (fst (scripts path)))"
      "sl_npc_files t' = sl_npc_files t" "sl_warpgate_files t' = sl_warpgate_files t" "\<exists>cmds. sl_commands t' = sl_commands t @ cmds"
    using run empty here by (auto simp: created_by_def u_def take_vectors_def)
  let ?s = "finish_load path g ns sp t'"
  have load: "load_script (Suc n) scripts path u = ?s"
    using r assms(2) by (simp add: t_def)
  have upd: "sl_npc_files_update (AList.update path []) (s\<lparr>sl_commands := sl_commands s @ [BulkDestroy (entities_of path (sl_npc_files s))]\<rparr>) = u"
    using assms(1) by (simp add: u_def entities_of_def)
  have key: "map_of (sl_npc_files u) path = Some []" by (simp add: u_def update_conv')
  then have "map_of (sl_npc_files t) path = Some []" "length (sl_npc_files t) = length (sl_npc_files u)"
    by (simp_all add: t_def take_tables_def take_entities_def moved_def length_update update_conv')
  then have len: "length (sl_npc_files ?s) = length (sl_npc_files s)"
    using assms(1) g(6) by (simp add: insert_files_def length_update u_def)
  have "load_npcs (Suc n) scripts [path] s = Some ?s"
    unfolding load_npcs_def reload_files.simps upd load using len by simp
  moreover have "entities_of path (sl_npc_files ?s) = ns" using g(6) by (simp add: entities_of_inserted t_def take_tables_def entities_of_take)
  moreover have "entities_of path (sl_warpgate_files ?s) = g"
    using g(1,7) by (auto simp: entities_of_inserted t_def take_tables_def entities_of_take u_def)
  moreover have "\<exists>cmds. sl_commands ?s = sl_commands s @ BulkDestroy old # cmds" using g(8) by (auto simp: t_def u_def)
  ultimately show ?thesis using g(1-5) by blast
qed

text \<open>The list of files for the fuzzy search stays empty: the vectors that decide whether a file is added are tested after
  they were moved away. So a search for at least one file reads past the end of its results.\<close>

theorem fuzzy_files_out_of_bounds:
  assumes "loader_life tidy s" and "sorts_descending arrange" and "0 < max_res"
  shows "sl_files s = [] \<and> get_fuzzy_files arrange g pattern max_res s = None"
proof -
  have "arrange [] = []" using assms(2) by (metis mset_zero_iff_right sorts_descending_def)
  then show ?thesis
    using loader_life_files [OF assms(1)] assms(3)
    by (simp add: get_fuzzy_files_def fuzzy_match_def List.map_filter_simps)
qed

subsection \<open>Witnesses\<close>

definition sample_scripts :: scripts where
  "sample_scripts path = (if path = [47, 97] then ([Npc [] 1 5 0 0 0 0, Warp_gate [] 1 0 0 0 5 0 0 0 0 0 0 0, Include [98]], False)
     else if path = [47, 98] then ([Npc [] 2 5 0 0 0 0, Npc [] 2 6 0 0 0 0, Warp_gate [] 1 0 0 0 5 0 0 0 0 0 0 0], False)
     else ([Include (tl path)], True))"

definition sample_loader :: ScriptLoader where
  "sample_loader = \<lparr>sl_path = [47, 97], sl_base = [47], sl_map_id = 5, sl_files = [], sl_npc_files = [], sl_warpgate_files = [],
     sl_spawner_files = [], sl_created = 3, sl_commands = []\<rparr>"

lemma sample_well: "loads_well [47] sample_scripts (\<lambda>p. if p = [47, 97] then 1 else 0) {[47, 97], [47, 98]}"
  by (auto simp: loads_well_def sample_scripts_def)

lemma sample_loader_life: "loader_life tidy sample_loader"
  by (rule loader_life.start [of 3 5 "[47, 97]"]) (simp add: ScriptLoader_new_def sample_loader_def)

lemma sample_loaded: "\<exists>s. loader_life True s \<and> load_script (Suc (Suc 0)) sample_scripts [47, 97] sample_loader = s
    \<and> live s = {#3, 4, 5, 6#} \<and> map_of (sl_npc_files s) [47, 98] = Some [Some 5]"
proof -
  define s where "s = load_script (Suc (Suc 0)) sample_scripts [47, 97] sample_loader"
  have "tidy_step True (Suc (Suc 0)) (sl_base sample_loader) sample_scripts {[47, 97]}"
    unfolding tidy_step_def using sample_well by (force simp: sample_loader_def)
  from loader_life.load [OF sample_loader_life this] have "loader_life True s" by (simp add: s_def)
  moreover have "live s = {#3, 4, 5, 6#} \<and> map_of (sl_npc_files s) [47, 98] = Some [Some 5]"
    by (simp add: s_def sample_loader_def sample_scripts_def on_map_def entities_of_def take_entities_def finish_load_def
        take_tables_def take_vectors_def insert_files_def moved_def live_def)
  ultimately show ?thesis using s_def by blast
qed

theorem loader_owns_entities_witness: "\<exists>s. loader_life True s \<and> listed s = {#3, 4, 5, 6#}"
proof -
  obtain s where "loader_life True s" "live s = {#3, 4, 5, 6#}" using sample_loaded by blast
  with loader_owns_entities [of s 0] show ?thesis by auto
qed

definition looping_scripts :: scripts where
  "looping_scripts path = ([Npc [] 1 5 0 0 0 0, Include [97]], False)"

theorem loading_terminates_witness:
  "loads sample_scripts [47, 97] sample_loader (load_script 200 sample_scripts [47, 97] sample_loader)
   \<and> \<not> (\<exists>s. loads looping_scripts [47, 97] sample_loader s)
   \<and> sl_created (load_script 200 looping_scripts [47, 97] sample_loader) = 203
   \<and> length (entities_of [47, 97] (sl_npc_files (load_script 200 looping_scripts [47, 97] sample_loader))) = 1"
proof -
  have "loads sample_scripts [47, 97] sample_loader (load_script 200 sample_scripts [47, 97] sample_loader)"
    using loading_terminates [of sample_loader sample_scripts "\<lambda>p. if p = [47, 97] then 1 else 0" "{[47, 97], [47, 98]}" "[47, 97]" 200]
      sample_well by (simp add: sample_loader_def)
  moreover have "self_including looping_scripts (sl_base sample_loader) [47, 97] [Npc [] 1 5 0 0 0 0]"
    by (simp add: self_including_def looping_scripts_def sample_loader_def)
  moreover have "Include [97] \<in> set (fst (looping_scripts [47, 97]))" "sl_base sample_loader @ [97] = [47, 97]"
    by (simp_all add: looping_scripts_def sample_loader_def)
  moreover have "entities_of [47, 97] (sl_npc_files sample_loader) = []" "sl_created sample_loader = 3"
      "filter (npc_here sample_loader) [Npc [] 1 5 0 0 0 0] = [Npc [] 1 5 0 0 0 0]"
      "filter (gate_here sample_loader) [Npc [] 1 5 0 0 0 0] = []"
    by (simp_all add: sample_loader_def entities_of_def on_map_def)
  ultimately show ?thesis
    using loading_terminates [of sample_loader looping_scripts _ _ "[47, 97]" 200 _ "[97]" "[Npc [] 1 5 0 0 0 0]"] by simp
qed

theorem npc_reload_repeats_gates_witness:
  "\<exists>s s' gates. loader_life True s \<and> load_npcs 1 sample_scripts [[47, 98]] s = Some s'
   \<and> entities_of [47, 98] (sl_warpgate_files s') = entities_of [47, 98] (sl_warpgate_files s) @ gates \<and> length gates = 1"
proof -
  obtain s where s: "loader_life True s" "map_of (sl_npc_files s) [47, 98] = Some [Some 5]"
      "load_script (Suc (Suc 0)) sample_scripts [47, 97] sample_loader = s" using sample_loaded by blast
  have "sl_map_id s = 5" using load_same [of sample_loader "Suc (Suc 0)" sample_scripts "[47, 97]"] unfolding s(3) by (simp add: same_loader_def sample_loader_def)
  then have "length (filter (gate_here s) (fst (sample_scripts [47, 98]))) = 1" by (simp add: sample_scripts_def on_map_def)
  moreover have "\<not> snd (sample_scripts [47, 98])" "Include q \<notin> set (fst (sample_scripts [47, 98]))" for q
    by (simp_all add: sample_scripts_def)
  ultimately show ?thesis using npc_reload_repeats_gates [OF s(2), of sample_scripts 0] s(1) by fastforce
qed

theorem fuzzy_files_out_of_bounds_witness:
  "\<exists>s. loader_life True s \<and> listed s \<noteq> {#} \<and> get_fuzzy_files sample_sort (replicate 256 0) [97] 3 s = None"
proof -
  obtain s where s: "loader_life True s" "live s = {#3, 4, 5, 6#}" using sample_loaded by blast
  then have "listed s \<noteq> {#}" using loader_life_balanced [OF s(1)] by (auto simp: balanced_def)
  with fuzzy_files_out_of_bounds [OF s(1) sample_sorts, of 3 "replicate 256 0" "[97]"] s(1) show ?thesis by auto
qed

end
