(* ===== verification/NodeProxy.thy ===== *)
theory NodeProxy
  imports CLoginClient
begin

text \<open>
  The node (\<open>node/src/nodeclient.cpp\<close>, \<open>nodeserver.cpp\<close>, \<open>nodeisc.cpp\<close>), a proxy between the clients and the map
  servers. A client of the node has up to ten sockets: number 0 to the player's client and nine to the map servers
  around the player. What comes from the player goes to the current map, what comes from a map server goes to the
  player, with the address of the node in place of the server's.

  Socket 0 is the \<open>CRoseSocket\<close> itself, as for the other clients; \<open>nc_sockets\<close> has the others, each with the flag
  \<open>is_server\<close> it was registered with.
\<close>

section \<open>Clients of the node\<close>

datatype SocketType = Client | NortWestMap | NorthMap | NorthEastMap | WestMap | CurrentMap | EastMap
  | SouthWestMap | SouthMap | SouthEastMap

fun socket_id :: "SocketType \<Rightarrow> nat" where
  "socket_id Client = 0"
| "socket_id NortWestMap = 1"
| "socket_id NorthMap = 2"
| "socket_id NorthEastMap = 3"
| "socket_id WestMap = 4"
| "socket_id CurrentMap = 5"
| "socket_id EastMap = 6"
| "socket_id SouthWestMap = 7"
| "socket_id SouthMap = 8"
| "socket_id SouthEastMap = 9"

definition MaxSockets :: nat where
  "MaxSockets = 10"

record NodeClient = CRoseSocket +
  nc_access_rights :: u16
  nc_username :: cstring
  nc_login_state :: eSTATE
  nc_userid :: u32
  nc_session_id :: u32
  nc_server_connection :: CRoseSocket
  nc_sockets :: "(bool \<times> CNetwork_Asio) option list"

text \<open>The configuration: the address of this server and the port for clients.\<close>

record node_config =
  config_ip :: cstring
  config_clientPort :: u16

text \<open>\<open>conn\<close> is the connection object that \<open>server_connection_\<close> gets; nothing uses it.\<close>

definition NodeClient_new :: "CNetwork_Asio \<Rightarrow> CNetwork_Asio \<Rightarrow> NodeClient" where
  "NodeClient_new conn sock = CRoseSocket.CRoseSocket.extend (CRoseClient_new sock)
     (NodeClient.fields 0 [] DEFAULT 0 0 (CRoseSocket_new conn) (replicate (MaxSockets - 1) None))"

text \<open>\<open>set_socket\<close> for a map server.\<close>

definition NodeClient_set_socket :: "CNetwork_Asio \<Rightarrow> SocketType \<Rightarrow> bool \<Rightarrow> NodeClient \<Rightarrow> NodeClient" where
  "NodeClient_set_socket sock st is_server s = s\<lparr>nc_sockets := (nc_sockets s)[socket_id st - 1 := Some (is_server, sock)]\<rparr>"

definition slot_callbacks :: "u32 list list \<Rightarrow> bool \<Rightarrow> CNetwork_Asio callbacks" where
  "slot_callbacks rt is_server =
    initCallbacks\<lparr>OnSend := if is_server then CRoseSocket_OnServerSend rt else CRoseSocket_OnSend rt\<rparr>"

text \<open>\<open>send(buffer, socket_id)\<close>: a socket that was never set is a null pointer.\<close>

definition NodeClient_send :: "u32 list list \<Rightarrow> byte list \<Rightarrow> SocketType \<Rightarrow> NodeClient \<Rightarrow> NodeClient option" where
  "NodeClient_send rt buf st s =
    (if st = Client then send_data (client_callbacks rt) buf s
     else case nc_sockets s ! (socket_id st - 1) of
       None \<Rightarrow> None
     | Some (is_server, sock) \<Rightarrow>
         map_option (\<lambda>sock'. NodeClient_set_socket sock' st is_server s) (send_data (slot_callbacks rt is_server) buf sock))"

definition NodeClient_ServerSelectReply :: "u32 list list \<Rightarrow> node_config \<Rightarrow> byte list \<Rightarrow> SrvSrvSelectReply \<Rightarrow> NodeClient
    \<Rightarrow> (bool \<times> NodeClient) option" where
  "NodeClient_ServerSelectReply rt config g P s = map_option (Pair True)
     (send_packet (client_callbacks rt) PAKLC_SRV_SELECT_REPLY
       (SrvSrvSelectReply_pack \<lparr>SrvSrvSelectReply.m_result = SrvSrvSelectReply.m_result P,
          m_sessionId = SrvSrvSelectReply.m_sessionId P, m_cryptVal = SrvSrvSelectReply.m_cryptVal P,
          m_ip = config_ip config, m_port = config_clientPort config\<rparr>) g s)"

definition NodeClient_HandlePacket :: "u32 list list \<Rightarrow> byte list \<Rightarrow> NodeClient \<Rightarrow> (bool \<times> NodeClient) option" where
  "NodeClient_HandlePacket rt buf s =
    map_option (Pair True) (NodeClient_send rt (take (unat (packet_size buf)) buf) CurrentMap s)"

definition NodeClient_HandleServerPacket :: "u32 list list \<Rightarrow> node_config \<Rightarrow> byte list \<Rightarrow> byte list \<Rightarrow> NodeClient
    \<Rightarrow> (bool \<times> NodeClient) option" where
  "NodeClient_HandleServerPacket rt config g buf s =
    (if packet_type buf = PAKLC_SRV_SELECT_REPLY then
       (case SrvSrvSelectReply_recv g buf of Inl e \<Rightarrow> None | Inr P \<Rightarrow> NodeClient_ServerSelectReply rt config g P s)
     else map_option (Pair True) (NodeClient_send rt (take (unat (packet_size buf)) buf) Client s))"

section \<open>Other servers\<close>

record NodeISC = CRoseSocket +
  ni_server_name :: cstring
  ni_channel_count :: u32
  ni_min_right :: u32
  ni_test_server :: bool
  ni_channel_list :: "tChannelInfo list"

definition NodeISC_new :: "CNetwork_Asio \<Rightarrow> NodeISC" where
  "NodeISC_new sock = CRoseSocket.CRoseSocket.extend (CRoseClient_new sock) (NodeISC.fields [] 0 0 False [])"

definition NodeISC_ServerRegister :: "IscServerRegister \<Rightarrow> NodeISC \<Rightarrow> bool \<times> NodeISC" where
  "NodeISC_ServerRegister P s =
    (True,
     if IscServerRegister.m_serverType P = server_type CHAR_SERVER then
       s\<lparr>ni_server_name := IscServerRegister.m_name P,
         m_network_address := IscServerRegister.m_addr P,
         m_network_port := ucast (IscServerRegister.m_port P),
         ni_min_right := IscServerRegister.m_right P,
         m_network_type := ucast (IscServerRegister.m_serverType P)\<rparr>
     else if IscServerRegister.m_serverType P = server_type MAP_MASTER then
       s\<lparr>ni_channel_list := tChannelInfo_new\<lparr>channelName := IscServerRegister.m_name P,
             ChannelID := ucast (IscServerRegister.m_id P), MinRight := IscServerRegister.m_right P\<rparr>
           # ni_channel_list s,
         ni_channel_count := ni_channel_count s + 1\<rparr>
     else s)"

definition NodeISC_ServerShutdown :: "IscShutdown \<Rightarrow> NodeISC \<Rightarrow> bool \<times> NodeISC" where
  "NodeISC_ServerShutdown P s =
    (True, s\<lparr>ni_channel_list := filter (\<lambda>c. ucast (ChannelID c) \<noteq> IscShutdown.m_id P) (ni_channel_list s)\<rparr>)"

definition NodeISC_HandlePacket :: "byte list \<Rightarrow> byte list \<Rightarrow> NodeISC \<Rightarrow> (bool \<times> NodeISC) option" where
  "NodeISC_HandlePacket g buf s =
    (let ty = packet_type buf in
     if ty = ISC_ALIVE \<or> ty = ISC_SERVER_AUTH \<or> ty = ISC_TRANSFER then Some (True, s)
     else if ty = ISC_SERVER_REGISTER then
       (case IscServerRegister_recv g buf of Inl e \<Rightarrow> None | Inr P \<Rightarrow> Some (NodeISC_ServerRegister P s))
     else if ty = ISC_SHUTDOWN then
       (case IscShutdown_recv g buf of Inl e \<Rightarrow> None | Inr P \<Rightarrow> Some (NodeISC_ServerShutdown P s))
     else CRoseISC_HandlePacket buf s)"

section \<open>The server\<close>

text \<open>\<open>OnAccepted\<close> makes a client in either case and puts it into the list of peer servers.\<close>

definition NodeServer_OnAccepted :: "'a CRoseSocket_scheme callbacks \<Rightarrow> (CNetwork_Asio \<Rightarrow> 'a CRoseSocket_scheme)
    \<Rightarrow> nat \<Rightarrow> int \<Rightarrow> CNetwork_Asio \<Rightarrow> ('a CRoseSocket_scheme, 'b) counting_server_scheme
    \<Rightarrow> ('a CRoseSocket_scheme, 'b) counting_server_scheme option" where
  "NodeServer_OnAccepted cb mk ptr now sock srv =
    (case start_client cb (m_server_count srv) now (mk sock) of
       None \<Rightarrow> None
     | Some c \<Rightarrow> Some (srv\<lparr>m_server_count := m_server_count srv + 1, m_isc_list := (ptr, c) # m_isc_list srv\<rparr>))"

text \<open>What happens to the server: it accepts connections, and the process thread of the base class sweeps.\<close>

datatype node_event = Accepted nat CNetwork_Asio int | Sweep int

fun node_run :: "'a CRoseSocket_scheme callbacks \<Rightarrow> (CNetwork_Asio \<Rightarrow> 'a CRoseSocket_scheme) \<Rightarrow> node_event list
    \<Rightarrow> ('a CRoseSocket_scheme, 'b) counting_server_scheme \<Rightarrow> ('a CRoseSocket_scheme, 'b) counting_server_scheme option" where
  "node_run cb mk [] srv = Some srv"
| "node_run cb mk (Accepted ptr sock now # es) srv =
    (case NodeServer_OnAccepted cb mk ptr now sock srv of None \<Rightarrow> None | Some srv' \<Rightarrow> node_run cb mk es srv')"
| "node_run cb mk (Sweep now # es) srv = node_run cb mk es (process_thread cb now srv)"

fun accepted_ptrs :: "node_event list \<Rightarrow> nat list" where
  "accepted_ptrs [] = []"
| "accepted_ptrs (Accepted ptr sock now # es) = ptr # accepted_ptrs es"
| "accepted_ptrs (Sweep now # es) = accepted_ptrs es"

section \<open>The life of a client\<close>

definition node_keeps :: "NodeClient \<Rightarrow> NodeClient \<Rightarrow> bool" where
  "node_keeps s t \<longleftrightarrow> nc_sockets t = nc_sockets s"

definition unconnected :: "NodeClient \<Rightarrow> bool" where
  "unconnected s \<longleftrightarrow> nc_sockets s = replicate 9 None"

lemma node_keeps_more:
  "CRoseSocket.CRoseSocket.more s = CRoseSocket.CRoseSocket.more t \<Longrightarrow> node_keeps s t"
  by (cases s, cases t) (simp add: node_keeps_def)

interpretation node: owner "client_callbacks rt" node_keeps
proof
  show "node_keeps s t" if "CRoseSocket.CRoseSocket.more s = CRoseSocket.CRoseSocket.more t" for s t
    using that by (rule node_keeps_more)
  show "node_keeps s s'" if "OnReceived (client_callbacks rt) s = Some (ok, s')" for s ok s'
    using that receive_packet_more
    by (intro node_keeps_more) (auto simp: client_callbacks_def CRoseSocket_OnReceived_def)
qed (auto simp: node_keeps_def client_callbacks_def initCallbacks_def)

lemma unconnected_HandlePacket: "unconnected s \<Longrightarrow> NodeClient_HandlePacket rt buf s = None"
  by (simp add: unconnected_def NodeClient_HandlePacket_def NodeClient_send_def)

abbreviation node_reachable :: "u32 list list \<Rightarrow> CNetwork_Asio \<Rightarrow> NodeClient \<Rightarrow> bool" where
  "node_reachable rt conn \<equiv> client_life (\<lambda>e :: unit. client_callbacks rt) (\<lambda>e. NodeClient_HandlePacket rt) (\<lambda>e s. s)
     (NodeClient_new conn)"

interpretation node_life: client_class "\<lambda>e :: unit. client_callbacks rt" "\<lambda>e. NodeClient_HandlePacket rt" "\<lambda>e s. s"
  "NodeClient_new conn" node_keeps unconnected
proof (rule client_class.intro)
  show "unconnected (NodeClient_new conn sock)" for sock
    by (simp add: unconnected_def NodeClient_new_def MaxSockets_def CRoseSocket.CRoseSocket.defs NodeClient.defs)
  show "unconnected t" if "node_keeps s t" "unconnected s" for s t
    using that by (simp add: node_keeps_def unconnected_def)
qed (simp_all add: node.owner_axioms unconnected_HandlePacket)

section \<open>Forwarding\<close>

lemma wire_buffer_crypt: "crypt_packet p \<Longrightarrow> wire_buffer p \<and> take (unat (packet_size p)) p = p"
  by (simp add: crypt_packet_def wire_buffer_def)

lemma HandleServerPacket_forwards:
  assumes "idle s" and "crypt_packet p" and "packet_type p \<noteq> PAKLC_SRV_SELECT_REPLY"
  shows "NodeClient_HandleServerPacket rt config g p s = Some (True, writing (the (encodeServerPacket rt p)) s)"
  using assms wire_buffer_crypt [OF assms(2)] send_data_idle [OF _ assms(1), of p "client_callbacks rt" rt]
  by (simp add: NodeClient_HandleServerPacket_def NodeClient_send_def client_callbacks_def)

lemma ServerSelectReply_own_address:
  assumes "idle s" and "SrvSrvSelectReply_ok d" and "length g = MAX_PACKET_SIZE" and "6 + length (SrvSrvSelectReply_wire d) < MAX_PACKET_SIZE"
    and "18 + length (config_ip config) < MAX_PACKET_SIZE"
  shows "NodeClient_HandleServerPacket rt config g
      (header_bytes (length (SrvSrvSelectReply_wire d)) PAKLC_SRV_SELECT_REPLY crc @ SrvSrvSelectReply_wire d) s
    = Some (True, writing (wire_image rt PAKLC_SRV_SELECT_REPLY (SrvSrvSelectReply_wire
        (d\<lparr>SrvSrvSelectReply.m_ip := config_ip config, SrvSrvSelectReply.m_port := config_clientPort config\<rparr>))) s)"
proof -
  let ?d = "d\<lparr>SrvSrvSelectReply.m_ip := config_ip config, SrvSrvSelectReply.m_port := config_clientPort config\<rparr>"
  have "6 + length (SrvSrvSelectReply_wire ?d) < MAX_PACKET_SIZE" using assms(5) by (simp add: SrvSrvSelectReply_wire_def)
  from send_packet_idle [OF SrvSrvSelectReply.emits_pack [of ?d] assms(3) this assms(1), of "client_callbacks rt" rt]
  have "NodeClient_ServerSelectReply rt config g d s
      = Some (True, writing (wire_image rt PAKLC_SRV_SELECT_REPLY (SrvSrvSelectReply_wire ?d)) s)"
    by (cases d) (simp add: NodeClient_ServerSelectReply_def client_callbacks_def)
  then show ?thesis
    using SrvSrvSelectReply.recv_wire [OF assms(2,4), of g PAKLC_SRV_SELECT_REPLY crc] assms(3)
    by (simp add: NodeClient_HandleServerPacket_def SrvSrvSelectReply_recv_def packet_type_header)
qed

text \<open>Connections are put into the list of peer servers, which the process thread of a server for clients does not
  sweep.\<close>

lemma node_run_keeps:
  assumes "\<not> m_isc_server srv" and "node_run cb mk es srv = Some srv'"
  shows "\<not> m_isc_server srv' \<and> map fst (m_isc_list srv') = rev (accepted_ptrs es) @ map fst (m_isc_list srv)"
  using assms
proof (induction es arbitrary: srv)
  case (Cons e es)
  show ?case
  proof (cases e)
    case (Accepted ptr sock now)
    then obtain c where "node_run cb mk es (srv\<lparr>m_server_count := m_server_count srv + 1, m_isc_list := (ptr, c) # m_isc_list srv\<rparr>) = Some srv'"
      using Cons.prems by (auto simp: NodeServer_OnAccepted_def split: option.splits)
    from Cons.IH [OF _ this] Cons.prems(1) Accepted show ?thesis by simp
  next
    case (Sweep now)
    then show ?thesis
      using Cons.prems Cons.IH [of "process_thread cb now srv"] by (simp add: process_thread_def)
  qed
qed simp

text \<open>If the socket were set, packets would go there, but encoded as a server encodes its own, while a map
  server decodes what it receives as packets of a client.\<close>

lemma HandlePacket_to_server:
  assumes "crypt_packet p" and "m_active sock" and "m_send_queue sock = []" and "m_discard_queue sock = []"
    and "length (nc_sockets s) = 9"
  shows "NodeClient_HandlePacket rt p (NodeClient_set_socket sock CurrentMap is_server s)
    = Some (True, NodeClient_set_socket (sock\<lparr>m_discard_queue := [the (encodeServerPacket rt p)],
        m_written := m_written sock @ [the (encodeServerPacket rt p)]\<rparr>) CurrentMap is_server s)"
proof -
  have p: "wire_buffer p" "take (unat (packet_size p)) p = p" using wire_buffer_crypt [OF assms(1)] by auto
  obtain e where "encodeServerPacket rt p = Some e" "length e = length p"
    using encode_packet_total [OF p(1), of HeadCryptedServer 260 rt] by (auto simp: encodeServerPacket_def)
  then have "send_data (slot_callbacks rt is_server) p sock
      = Some (sock\<lparr>m_discard_queue := [the (encodeServerPacket rt p)], m_written := m_written sock @ [the (encodeServerPacket rt p)]\<rparr>)"
    using p(1) assms(2-4)
    by (simp add: send_data_def ProcessSend_def slot_callbacks_def CRoseSocket_OnServerSend_def CRoseSocket_OnSend_def
        wire_buffer_def Let_def)
  then show ?thesis
    using p(2) assms(5)
    by (simp add: NodeClient_HandlePacket_def NodeClient_send_def NodeClient_set_socket_def)
qed

section \<open>Properties\<close>

text \<open>C35. The node forwards to the player: a packet that came from a map server and is no reply to a server selection is
  written to the player's socket, and the player's client, which reads it in pieces of any size, receives the same
  packet. A reply to a server selection is replaced by one that differs only in the address and the port, which are
  those of the node.\<close>

theorem node_forwards_to_player:
  assumes "idle s" and "crypt_packet p" and "packet_type p \<noteq> PAKLC_SRV_SELECT_REPLY"
    and "waiting c" and "receives (server_callbacks rt) c (the (encodeServerPacket rt p)) c'"
    and "SrvSrvSelectReply_ok d" and "length g = MAX_PACKET_SIZE" and "6 + length (SrvSrvSelectReply_wire d) < MAX_PACKET_SIZE"
    and "18 + length (config_ip config) < MAX_PACKET_SIZE"
  shows "NodeClient_HandleServerPacket rt config g p s = Some (True, writing (the (encodeServerPacket rt p)) s)
    \<and> (\<exists>q. m_recv_queue c' = m_recv_queue c @ [q] \<and> same_packet p q)
    \<and> NodeClient_HandleServerPacket rt config g
        (header_bytes (length (SrvSrvSelectReply_wire d)) PAKLC_SRV_SELECT_REPLY crc @ SrvSrvSelectReply_wire d) s
      = Some (True, writing (wire_image rt PAKLC_SRV_SELECT_REPLY (SrvSrvSelectReply_wire
          (d\<lparr>SrvSrvSelectReply.m_ip := config_ip config, SrvSrvSelectReply.m_port := config_clientPort config\<rparr>))) s)"
proof -
  have "receives (server_callbacks rt) c (concat (map (\<lambda>p. the (encodeServerPacket rt p)) [p])) c'" using assms(5) by simp
  from server_frames.delivered [OF this assms(4)] assms(2)
  obtain q where "m_recv_queue c' = m_recv_queue c @ [q]" "same_packet p q" by (auto simp: list_all2_Cons1)
  then show ?thesis
    using HandleServerPacket_forwards [OF assms(1-3)] ServerSelectReply_own_address [OF assms(1,6-9)] by blast
qed

text \<open>The node never forwards to a map server: no step of a client's life sets the socket of the current map, so the
  first packet that arrives from the player, in pieces of any size, dereferences a null pointer when it is handled.\<close>

theorem node_first_packet_crashes:
  assumes "node_reachable rt conn s" and "waiting s" and "m_recv_queue s = []" and "crypt_packet p"
    and "receives (client_callbacks rt) s (the (encodeClientPacket rt p)) s'"
  shows "node_reachable rt conn s' \<and> run_task (client_callbacks rt) (NodeClient_HandlePacket rt) s' = None"
proof -
  have "receives (client_callbacks rt) s (concat (map (\<lambda>p. the (encodeClientPacket rt p)) [p])) s'" using assms(5) by simp
  from client_frames.delivered [OF this assms(2)] assms(3,4)
  obtain q where q: "m_recv_queue s' = [q]" "waiting s'" by (auto simp: list_all2_Cons1)
  have life: "node_reachable rt conn s'"
    by (rule receives_life [where cb = "\<lambda>e :: unit. client_callbacks rt", OF assms(5,1)])
  then have "unconnected s'" by (rule node_life.life_inv)
  then have "unconnected (s'\<lparr>m_tasks := n, m_recv_queue := b\<rparr>)" for n b by (simp add: unconnected_def)
  then show ?thesis
    using life q by (simp add: run_task_def unconnected_HandlePacket waiting_def)
qed

text \<open>A node for clients never drops a connection: its clients are in the list of peer servers, and the process thread
  looks through the other list, so after any accepts and sweeps every connection it ever accepted is still there.\<close>

theorem node_drops_no_connection:
  assumes "\<not> m_isc_server srv" and "m_isc_list srv = []" and "node_run cb mk es srv = Some srv'"
  shows "map fst (m_isc_list srv') = rev (accepted_ptrs es)"
  using node_run_keeps [OF assms(1,3)] assms(2) by simp

section \<open>Witnesses\<close>

lemma sample_chunk:
  assumes "waiting c" and "crypt_packet p"
  shows "\<exists>c'. receives (server_callbacks rt) c (the (encodeServerPacket rt p)) c'"
  using server_frames.receives_one [OF assms] .

definition sample_reply :: SrvSrvSelectReply where
  "sample_reply = \<lparr>SrvSrvSelectReply.m_result = 0, m_sessionId = 7, m_cryptVal = 0, m_ip = [49], m_port = 80\<rparr>"

definition sample_node_config :: node_config where
  "sample_node_config = \<lparr>config_ip = [50, 51], config_clientPort = 29000\<rparr>"

definition sample_node_client :: NodeClient where
  "sample_node_client = (NodeClient_new (CNetwork_Asio_new (replicate 2047 0) 0) (CNetwork_Asio_new (replicate 2047 0) 0))"

lemma sample_node_idle: "idle sample_node_client"
  by (simp add: sample_node_client_def NodeClient_new_def idle_def CRoseClient_new_def CRoseSocket_new_def set_active_def
      reset_internal_buffer_def CNetwork_Asio_new_def CNetwork_Asio.CNetwork_Asio.defs
      CRoseSocket.CRoseSocket.defs)

theorem node_forwards_to_player_witness:
  "\<exists>c'. receives (server_callbacks sample_keys) sample_socket (the (encodeServerPacket sample_keys sample_buffer)) c'
    \<and> NodeClient_HandleServerPacket sample_keys sample_node_config (replicate 2047 0) sample_buffer sample_node_client
      = Some (True, writing (the (encodeServerPacket sample_keys sample_buffer)) sample_node_client)
    \<and> (\<exists>q. m_recv_queue c' = [q] \<and> same_packet sample_buffer q)"
proof -
  obtain c' where c': "receives (server_callbacks sample_keys) sample_socket (the (encodeServerPacket sample_keys sample_buffer)) c'"
    using sample_chunk [OF sample_socket_waiting(1) sample_buffer_crypt_packet] by blast
  have "packet_type sample_buffer \<noteq> PAKLC_SRV_SELECT_REPLY" by (simp add: sample_buffer_def packet_type_def PAKLC_SRV_SELECT_REPLY_def)
  moreover have "SrvSrvSelectReply_ok sample_reply" by (simp add: SrvSrvSelectReply_ok_def sample_reply_def)
  ultimately show ?thesis
    using node_forwards_to_player [OF sample_node_idle sample_buffer_crypt_packet _ sample_socket_waiting(1) c',
        of sample_reply "replicate 2047 0" sample_node_config] c'
    by (auto simp: sample_reply_def sample_node_config_def SrvSrvSelectReply_wire_def MAX_PACKET_SIZE_def sample_socket_waiting)
qed

theorem node_first_packet_crashes_witness:
  "\<exists>s s'. waiting s \<and> receives (client_callbacks sample_keys) s (the (encodeClientPacket sample_keys sample_buffer)) s'
    \<and> run_task (client_callbacks sample_keys) (NodeClient_HandlePacket sample_keys) s' = None"
proof -
  let ?sock = "CNetwork_Asio_new (replicate 2047 0) 0"
  obtain s where s: "start_client (client_callbacks sample_keys) 0 0 (NodeClient_new ?sock ?sock) = Some s"
      "waiting s" "m_recv_queue s = []"
    by (simp add: start_client_def NodeClient_new_def recv_data_def BytesToRead_def client_callbacks_def initCallbacks_def
        CRoseClient_new_def CRoseSocket_new_def set_active_def set_id_def set_update_time_def waiting_def
        reset_internal_buffer_def CNetwork_Asio_new_def CNetwork_Asio.CNetwork_Asio.defs
        CRoseSocket.CRoseSocket.defs MAX_PACKET_SIZE_def)
  then have "node_reachable sample_keys ?sock s" by (intro client_life.connected)
  moreover obtain s' where s': "receives (client_callbacks sample_keys) s (the (encodeClientPacket sample_keys sample_buffer)) s'"
    using client_frames.receives_one [OF s(2) sample_buffer_crypt_packet] by blast
  ultimately show ?thesis
    using node_first_packet_crashes [OF _ s(2,3) sample_buffer_crypt_packet s'] s(2) by blast
qed

theorem node_drops_no_connection_witness:
  "\<exists>srv. node_run (client_callbacks sample_keys) CRoseClient_new
      [Accepted 1 (CNetwork_Asio_new (replicate 2047 0) 0) 0, Sweep 500000, Sweep 500050, Accepted 2 (CNetwork_Asio_new (replicate 2047 0) 0) 0]
      sample_server = Some srv
    \<and> map fst (m_isc_list srv) = [2, 1]"
proof -
  obtain srv where srv: "node_run (client_callbacks sample_keys) CRoseClient_new
      [Accepted 1 (CNetwork_Asio_new (replicate 2047 0) 0) 0, Sweep 500000, Sweep 500050, Accepted 2 (CNetwork_Asio_new (replicate 2047 0) 0) 0]
      sample_server = Some srv"
    by (simp add: NodeServer_OnAccepted_def start_client_def recv_data_def BytesToRead_def client_callbacks_def initCallbacks_def
        CRoseClient_new_def CRoseSocket_new_def set_active_def set_id_def set_update_time_def sample_server_def process_thread_def
        reset_internal_buffer_def CNetwork_Asio_new_def CNetwork_Asio.CNetwork_Asio.defs
        CRoseSocket.CRoseSocket.defs MAX_PACKET_SIZE_def)
  then show ?thesis
    using node_drops_no_connection [OF _ _ srv] by (simp add: sample_server_def)
qed

end
