(* ===== verification/ThreadPool.thy ===== *)
theory ThreadPool
  imports Prelude "HOL-Library.Multiset"
begin

text \<open>
  The pools of \<open>core/include/threadpool.h\<close> and \<open>core/include/network_thread_pool.h\<close>, which run everything the network
  layer does. The state of the thread pool has the queue of tasks, what each worker thread is doing, and the
  notifications that are under way: \<open>enqueue\<close> and the destructor release the mutex before they notify the condition
  variable, so other threads may run in between. A section under the mutex is a step. \<open>tp_accepted\<close>, \<open>tp_started\<close>
  and \<open>tp_finished\<close> record the tasks that were put into the queue, taken from it and finished, in this order.
\<close>

section \<open>The thread pool\<close>

text \<open>A worker is about to evaluate the condition of \<open>wait\<close>, is blocked in it, runs a task or has left its loop.\<close>

datatype 'a worker = Checking | Asleep | Running 'a | Exited

record 'a thread_pool =
  tp_workers :: "'a worker list"
  tp_tasks :: "'a list"
  tp_stop :: bool
  tp_notify :: nat
  tp_notify_all :: bool
  tp_accepted :: "'a list"
  tp_started :: "'a list"
  tp_finished :: "'a list"

definition ThreadPool_new :: "nat \<Rightarrow> 'a thread_pool" where
  "ThreadPool_new threads = \<lparr>tp_workers = replicate threads Checking, tp_tasks = [], tp_stop = False, tp_notify = 0,
     tp_notify_all = False, tp_accepted = [], tp_started = [], tp_finished = []\<rparr>"

text \<open>\<open>enqueue\<close> throws when the pool was stopped.\<close>

definition pool_enqueue :: "'a \<Rightarrow> 'a thread_pool \<Rightarrow> 'a thread_pool option" where
  "pool_enqueue task p =
    (if tp_stop p then None
     else Some (p\<lparr>tp_tasks := tp_tasks p @ [task], tp_accepted := tp_accepted p @ [task], tp_notify := Suc (tp_notify p)\<rparr>))"

text \<open>The destructor, up to the joins: it returns when every worker has left its loop.\<close>

definition pool_destroy :: "'a thread_pool \<Rightarrow> 'a thread_pool" where
  "pool_destroy p = p\<lparr>tp_stop := True, tp_notify_all := True\<rparr>"

definition pool_joined :: "'a thread_pool \<Rightarrow> bool" where
  "pool_joined p \<longleftrightarrow> list_all (\<lambda>w. w = Exited) (tp_workers p)"

text \<open>A worker holds the mutex: it blocks, leaves, or takes a task.\<close>

definition worker_check :: "nat \<Rightarrow> 'a thread_pool \<Rightarrow> 'a thread_pool" where
  "worker_check i p =
    (case tp_tasks p of
       [] \<Rightarrow> p\<lparr>tp_workers := (tp_workers p)[i := if tp_stop p then Exited else Asleep]\<rparr>
     | task # rest \<Rightarrow> p\<lparr>tp_workers := (tp_workers p)[i := Running task], tp_tasks := rest,
                         tp_started := tp_started p @ [task]\<rparr>)"

definition worker_finish :: "nat \<Rightarrow> 'a \<Rightarrow> 'a thread_pool \<Rightarrow> 'a thread_pool" where
  "worker_finish i task p = p\<lparr>tp_workers := (tp_workers p)[i := Checking], tp_finished := tp_finished p @ [task]\<rparr>"

text \<open>\<open>notify_one\<close> wakes a blocked thread, if there is one, \<open>notify_all\<close> all of them.\<close>

definition worker_wake :: "nat \<Rightarrow> 'a thread_pool \<Rightarrow> 'a thread_pool" where
  "worker_wake i p = p\<lparr>tp_workers := (tp_workers p)[i := Checking]\<rparr>"

definition wake_all :: "'a thread_pool \<Rightarrow> 'a thread_pool" where
  "wake_all p = p\<lparr>tp_workers := map (\<lambda>w. if w = Asleep then Checking else w) (tp_workers p), tp_notify_all := False\<rparr>"

definition does :: "'a thread_pool \<Rightarrow> nat \<Rightarrow> 'a worker \<Rightarrow> bool" where
  "does p i w \<longleftrightarrow> i < length (tp_workers p) \<and> tp_workers p ! i = w"

text \<open>What the pool does by itself: its workers run and its notifications arrive.\<close>

inductive pool_signals :: "'a thread_pool \<Rightarrow> 'a thread_pool \<Rightarrow> bool" where
  notify: "0 < tp_notify p \<Longrightarrow> does p i Asleep \<Longrightarrow> pool_signals p (worker_wake i (p\<lparr>tp_notify := tp_notify p - 1\<rparr>))"
| unheard: "0 < tp_notify p \<Longrightarrow> Asleep \<notin> set (tp_workers p) \<Longrightarrow> pool_signals p (p\<lparr>tp_notify := tp_notify p - 1\<rparr>)"
| notify_all: "tp_notify_all p \<Longrightarrow> pool_signals p (wake_all p)"

inductive pool_works :: "'a thread_pool \<Rightarrow> 'a thread_pool \<Rightarrow> bool" where
  check: "does p i Checking \<Longrightarrow> pool_works p (worker_check i p)"
| finish: "does p i (Running task) \<Longrightarrow> pool_works p (worker_finish i task p)"
| signal: "pool_signals p p' \<Longrightarrow> pool_works p p'"

text \<open>Everything that can happen: threads of the program call \<open>enqueue\<close>, the pool is destroyed once, and a blocked
  thread may wake up without a notification.\<close>

inductive pool_reachable :: "nat \<Rightarrow> 'a thread_pool \<Rightarrow> bool" for threads where
  created: "pool_reachable threads (ThreadPool_new threads)"
| works: "pool_reachable threads p \<Longrightarrow> pool_works p p' \<Longrightarrow> pool_reachable threads p'"
| enqueue: "pool_reachable threads p \<Longrightarrow> pool_enqueue task p = Some p' \<Longrightarrow> pool_reachable threads p'"
| destroy: "pool_reachable threads p \<Longrightarrow> \<not> tp_stop p \<Longrightarrow> pool_reachable threads (pool_destroy p)"
| spurious: "pool_reachable threads p \<Longrightarrow> does p i Asleep \<Longrightarrow> pool_reachable threads (worker_wake i p)"

section \<open>Invariants\<close>

fun running :: "'a worker \<Rightarrow> 'a list" where
  "running (Running task) = [task]"
| "running _ = []"

definition held :: "'a thread_pool \<Rightarrow> 'a multiset" where
  "held p = mset (concat (map running (tp_workers p)))"

definition pool_inv :: "nat \<Rightarrow> 'a thread_pool \<Rightarrow> bool" where
  "pool_inv threads p \<longleftrightarrow> length (tp_workers p) = threads
     \<and> tp_accepted p = tp_started p @ tp_tasks p
     \<and> mset (tp_started p) = mset (tp_finished p) + held p"

text \<open>No notification is lost: a worker only blocks when there is nothing to do.\<close>

definition awake :: "'a thread_pool \<Rightarrow> bool" where
  "awake p \<longleftrightarrow> (tp_tasks p \<noteq> [] \<and> list_all (\<lambda>w. w = Asleep) (tp_workers p) \<longrightarrow> 0 < tp_notify p)
     \<and> (tp_stop p \<and> Asleep \<in> set (tp_workers p) \<longrightarrow> tp_notify_all p)
     \<and> (Exited \<in> set (tp_workers p) \<longrightarrow> tp_stop p \<and> tp_tasks p = [])
     \<and> (tp_notify_all p \<longrightarrow> tp_stop p)"

lemma held_update:
  assumes "i < length (tp_workers p)"
  shows "held (p\<lparr>tp_workers := (tp_workers p)[i := w]\<rparr>) + mset (running (tp_workers p ! i)) = held p + mset (running w)"
proof -
  let ?r = "map running (tp_workers p)"
  have "mset (concat (xs[j := y])) + mset (xs ! j) = mset (concat xs) + mset y" if "j < length xs" for xs :: "'a list list" and j y
    using that by (induction xs arbitrary: j) (auto split: nat.splits simp: ac_simps)
  from this [of i ?r "running w"] assms show ?thesis by (simp add: held_def map_update)
qed

lemma held_more [simp]:
  "held (p\<lparr>tp_tasks := a\<rparr>) = held p" "held (p\<lparr>tp_stop := b\<rparr>) = held p" "held (p\<lparr>tp_notify := c\<rparr>) = held p"
  "held (p\<lparr>tp_notify_all := b\<rparr>) = held p" "held (p\<lparr>tp_accepted := a\<rparr>) = held p" "held (p\<lparr>tp_started := a\<rparr>) = held p"
  "held (p\<lparr>tp_finished := a\<rparr>) = held p"
  by (simp_all add: held_def)


lemma check_inv:
  assumes "does p i Checking" and "pool_inv threads p"
  shows "pool_inv threads (worker_check i p)"
  using assms held_update [of i p "if tp_stop p then Exited else Asleep"] held_update [of i p "Running (hd (tp_tasks p))"]
  by (cases "tp_tasks p") (auto simp: pool_inv_def worker_check_def does_def)

lemma finish_inv:
  assumes "does p i (Running task)" and "pool_inv threads p"
  shows "pool_inv threads (worker_finish i task p)"
  using assms held_update [of i p Checking] by (auto simp: pool_inv_def worker_finish_def does_def)

lemma wake_inv:
  assumes "does p i Asleep" and "pool_inv threads p"
  shows "pool_inv threads (worker_wake i p)"
  using assms held_update [of i p Checking] by (auto simp: pool_inv_def worker_wake_def does_def)

lemma held_wake_all: "held (wake_all p) = held p"
proof -
  have "running (if w = Asleep then Checking else w) = running w" for w :: "'a worker" by simp
  then have "(running :: 'a worker \<Rightarrow> _) \<circ> (\<lambda>w. if w = Asleep then Checking else w) = running" by (simp only: fun_eq_iff comp_def) simp
  then show ?thesis by (simp add: held_def wake_all_def)
qed

lemma pool_inv_notify [simp]: "pool_inv threads (p\<lparr>tp_notify := n\<rparr>) = pool_inv threads p"
  by (simp add: pool_inv_def)

lemma does_notify [simp]: "does (p\<lparr>tp_notify := n\<rparr>) = does p"
  by (simp add: does_def fun_eq_iff)

lemma signals_inv: "pool_signals p p' \<Longrightarrow> pool_inv threads p \<Longrightarrow> pool_inv threads p'"
proof (induction rule: pool_signals.induct)
  case (notify_all p)
  then show ?case using held_wake_all [of p] by (simp add: pool_inv_def wake_all_def)
qed (simp_all add: wake_inv)

lemma works_inv: "pool_works p p' \<Longrightarrow> pool_inv threads p \<Longrightarrow> pool_inv threads p'"
  by (induction rule: pool_works.induct) (simp_all add: check_inv finish_inv signals_inv)

lemma enqueue_inv: "pool_enqueue task p = Some p' \<Longrightarrow> pool_inv threads p \<Longrightarrow> pool_inv threads p'"
  by (auto simp: pool_enqueue_def pool_inv_def split: if_splits)

lemma destroy_inv: "pool_inv threads p \<Longrightarrow> pool_inv threads (pool_destroy p)"
  by (simp add: pool_destroy_def pool_inv_def)

lemma reachable_inv: "pool_reachable threads p \<Longrightarrow> pool_inv threads p"
proof (induction rule: pool_reachable.induct)
  case created
  have "concat (map running (replicate n Checking)) = ([] :: 'a list)" for n by (induction n) auto
  then show ?case by (simp add: pool_inv_def ThreadPool_new_def held_def)
qed (simp_all add: works_inv enqueue_inv destroy_inv wake_inv)

text \<open>Who is awake.\<close>

lemma set_update_in: "i < length xs \<Longrightarrow> y \<in> set (xs[i := x]) \<Longrightarrow> y \<noteq> x \<Longrightarrow> y \<in> set xs"
  using set_update_subset_insert [of xs i x] by blast

lemma all_update: "i < length xs \<Longrightarrow> list_all P (xs[i := x]) \<Longrightarrow> P x"
  by (simp add: list_all_length) (metis nth_list_update_eq)

lemma check_awake:
  assumes "does p i Checking" and "awake p"
  shows "awake (worker_check i p)"
  using assms set_update_in [of i "tp_workers p" Asleep] set_update_in [of i "tp_workers p" Exited]
    all_update [of i "tp_workers p" "\<lambda>w. w = Asleep"]
  by (fastforce simp: awake_def worker_check_def does_def split: list.splits if_splits)

lemma run_awake:
  assumes "i < length (tp_workers p)" and "awake p"
  shows "awake (worker_wake i p)" and "awake (worker_finish i task p)"
  using assms set_update_in [of i "tp_workers p" Asleep Checking] set_update_in [of i "tp_workers p" Exited Checking]
    all_update [of i "tp_workers p" "\<lambda>w. w = Asleep" Checking]
  by (auto simp: awake_def worker_wake_def worker_finish_def)

lemma notify_awake:
  assumes "does p i Asleep" and "awake p"
  shows "awake (worker_wake i (p\<lparr>tp_notify := n\<rparr>))"
  using assms set_update_in [of i "tp_workers p" Asleep Checking] set_update_in [of i "tp_workers p" Exited Checking]
    all_update [of i "tp_workers p" "\<lambda>w. w = Asleep" Checking]
  by (auto simp: awake_def worker_wake_def does_def)

lemma signals_awake: "pool_signals p p' \<Longrightarrow> awake p \<Longrightarrow> tp_workers p \<noteq> [] \<Longrightarrow> awake p'"
proof (induction rule: pool_signals.induct)
  case (notify p i)
  from notify(2,3) show ?case by (rule notify_awake)
next
  case (unheard p)
  then have "\<not> list_all (\<lambda>w. w = Asleep) (tp_workers p)" by (cases "tp_workers p") auto
  with unheard show ?case by (simp add: awake_def)
next
  case (notify_all p)
  have "Asleep \<notin> (\<lambda>w. if w = Asleep then Checking else w) ` set (tp_workers p)" by auto
  moreover have "Exited \<in> (\<lambda>w. if w = Asleep then Checking else w) ` set (tp_workers p) \<longleftrightarrow> Exited \<in> set (tp_workers p)"
    by (auto split: if_splits)
  moreover have "\<not> list_all (\<lambda>w. w = Asleep) (map (\<lambda>w. if w = Asleep then Checking else w) (tp_workers p))"
    using notify_all.prems(2) by (cases "tp_workers p") auto
  ultimately show ?case using notify_all by (simp add: awake_def wake_all_def)
qed

lemma works_awake: "pool_works p p' \<Longrightarrow> awake p \<Longrightarrow> tp_workers p \<noteq> [] \<Longrightarrow> awake p'"
proof (induction rule: pool_works.induct)
  case (check p i)
  from check(1,2) show ?case by (rule check_awake)
next
  case (finish p i task)
  then have "i < length (tp_workers p)" by (simp add: does_def)
  then show ?case using finish.prems(1) by (rule run_awake(2))
next
  case (signal p p')
  then show ?case by (rule signals_awake)
qed

lemma enqueue_awake: "pool_enqueue task p = Some p' \<Longrightarrow> awake p \<Longrightarrow> awake p'"
  by (auto simp: pool_enqueue_def awake_def split: if_splits)

lemma destroy_awake: "awake p \<Longrightarrow> awake (pool_destroy p)"
  by (simp add: pool_destroy_def awake_def)

lemma reachable_awake: "pool_reachable threads p \<Longrightarrow> 0 < threads \<Longrightarrow> awake p"
proof (induction rule: pool_reachable.induct)
  case created
  then show ?case by (simp add: awake_def ThreadPool_new_def)
next
  case (works p p')
  then have "tp_workers p \<noteq> []" using reachable_inv [OF works.hyps(1)] by (auto simp: pool_inv_def)
  with works show ?case by (auto intro: works_awake)
next
  case (spurious p i)
  then have "i < length (tp_workers p)" by (simp add: does_def)
  then show ?case using spurious.IH [OF spurious.prems] by (rule run_awake(1))
qed (simp_all add: enqueue_awake destroy_awake)

section \<open>The pool comes to rest\<close>

fun weight :: "'a worker \<Rightarrow> nat" where
  "weight Checking = 2"
| "weight Asleep = 0"
| "weight (Running task) = 3"
| "weight Exited = 0"

text \<open>What is left to do; every step of the pool itself takes something away.\<close>

definition pool_left :: "'a thread_pool \<Rightarrow> nat" where
  "pool_left p = 2 * length (tp_tasks p) + 3 * tp_notify p + (if tp_notify_all p then Suc (2 * length (tp_workers p)) else 0)
     + sum_list (map weight (tp_workers p))"

lemma weight_update:
  assumes "does p i w"
  shows "sum_list (map weight ((tp_workers p)[i := w'])) + weight w = sum_list (map weight (tp_workers p)) + weight w'"
proof -
  have "weight w \<le> sum_list (map weight (tp_workers p))"
    using assms elem_le_sum_list [of i "map weight (tp_workers p)"] by (auto simp: does_def)
  then show ?thesis using assms sum_list_update [of i "map weight (tp_workers p)" "weight w'"] by (simp add: does_def map_update)
qed

lemma weight_wake_all:
  "sum_list (map weight (map (\<lambda>w. if w = Asleep then Checking else w) ws)) \<le> sum_list (map weight ws) + 2 * length ws"
  by (induction ws) auto

lemma signals_left: "pool_signals p p' \<Longrightarrow> pool_left p' < pool_left p"
proof (induction rule: pool_signals.induct)
  case (notify p i)
  then show ?case using weight_update [OF notify(2), of Checking] by (simp add: pool_left_def worker_wake_def)
next
  case (unheard p)
  then show ?case by (simp add: pool_left_def)
next
  case (notify_all p)
  then show ?case using weight_wake_all [of "tp_workers p"] by (simp add: pool_left_def wake_all_def)
qed

lemma works_left: "pool_works p p' \<Longrightarrow> pool_left p' < pool_left p"
proof (induction rule: pool_works.induct)
  case (check p i)
  note w = weight_update [OF check]
  show ?case
    using w [of Exited] w [of Asleep] w [of "Running (hd (tp_tasks p))"]
    by (cases "tp_tasks p") (auto simp: pool_left_def worker_check_def)
next
  case (finish p i task)
  then show ?case using weight_update [OF finish, of Checking] by (simp add: pool_left_def worker_finish_def)
next
  case (signal p p')
  then show ?case by (rule signals_left)
qed

lemma works_bounded: "(pool_works ^^ n) p p' \<Longrightarrow> n + pool_left p' \<le> pool_left p"
proof (induction n arbitrary: p')
  case (Suc n)
  then obtain q where "(pool_works ^^ n) p q" "pool_works q p'" by auto
  then show ?case using Suc.IH works_left by fastforce
qed simp

lemma at_rest:
  assumes "\<not> (\<exists>p'. pool_works p p')" and "awake p" and "tp_workers p \<noteq> []"
  shows "tp_tasks p = [] \<and> held p = {#} \<and> (\<forall>w \<in> set (tp_workers p). w = (if tp_stop p then Exited else Asleep))"
proof -
  have quiet: "w = Asleep \<or> w = Exited" if w: "w \<in> set (tp_workers p)" for w
  proof -
    obtain i where "does p i w" using w by (auto simp: in_set_conv_nth does_def)
    then show ?thesis using assms(1) by (cases w) (auto intro: pool_works.intros)
  qed
  have "tp_notify p = 0 \<and> \<not> tp_notify_all p"
    using assms(1) by (metis gr0I in_set_conv_nth does_def pool_works.signal pool_signals.intros)
  with assms(2,3) quiet
  have "tp_tasks p = [] \<and> (\<forall>w \<in> set (tp_workers p). w = (if tp_stop p then Exited else Asleep))"
    by (cases "tp_stop p"; cases "tp_workers p") (auto simp: awake_def list_all_iff dest: quiet)
  moreover have "held p = {#}" using quiet by (fastforce simp: held_def)
  ultimately show ?thesis by simp
qed

lemma works_frame:
  assumes "pool_works p p'"
  shows "tp_stop p' = tp_stop p \<and> tp_accepted p' = tp_accepted p"
proof -
  have "tp_stop p' = tp_stop p \<and> tp_accepted p' = tp_accepted p" if "pool_signals p p'" for p p' :: "'a thread_pool"
    using that by (cases rule: pool_signals.cases) (simp_all add: worker_wake_def wake_all_def)
  with assms show ?thesis
    by (cases rule: pool_works.cases) (auto simp: worker_check_def worker_finish_def split: list.splits)
qed

section \<open>The network thread pool\<close>

text \<open>\<open>NetworkThreadPool\<close> puts one task per slot into the pool. A task runs one handler of asio, which may take any time,
  tests whether its slot is still active and, if so, enqueues itself again; then it returns. An exception of \<open>enqueue\<close>
  ends in the future of the task. The phase of a worker says how far its task is.\<close>

definition MAX_NETWORK_THREADS :: u16 where
  "MAX_NETWORK_THREADS = 512"

definition core_count :: "u32 \<Rightarrow> u16 \<Rightarrow> u16" where
  "core_count hw maxthreads =
    (let c = (if hw \<noteq> 0 then ucast hw else 1);
         c1 = (if maxthreads \<noteq> 0 \<and> maxthreads < c then maxthreads else c)
     in if MAX_NETWORK_THREADS < c1 then MAX_NETWORK_THREADS else if c1 \<le> 0 then 1 else c1)"

datatype phase = Serving | Tested bool | Returning

record net_pool =
  np_pool :: "nat thread_pool"
  np_phases :: "phase list"
  np_active :: "bool list"
  np_count :: nat
  np_next :: nat
  np_shut :: bool

text \<open>The constructor, and one iteration of its loop.\<close>

definition NetworkThreadPool_new :: "u32 \<Rightarrow> u16 \<Rightarrow> net_pool" where
  "NetworkThreadPool_new hw maxthreads = \<lparr>np_pool = ThreadPool_new (unat hw), np_phases = replicate (unat hw) Returning,
     np_active = replicate (unat MAX_NETWORK_THREADS) False, np_count = unat (core_count hw maxthreads), np_next = 0, np_shut = False\<rparr>"

definition net_launch :: "net_pool \<Rightarrow> net_pool option" where
  "net_launch np =
    (if np_next np < np_count np then
       map_option (\<lambda>p. np\<lparr>np_pool := p, np_active := (np_active np)[np_next np := True], np_next := Suc (np_next np)\<rparr>)
         (pool_enqueue (np_next np) (np_pool np))
     else None)"

definition net_check :: "nat \<Rightarrow> net_pool \<Rightarrow> net_pool" where
  "net_check i np = np\<lparr>np_pool := worker_check i (np_pool np), np_phases := (np_phases np)[i := Serving]\<rparr>"

text \<open>\<open>operator()\<close>\<close>

definition net_test :: "nat \<Rightarrow> nat \<Rightarrow> net_pool \<Rightarrow> net_pool" where
  "net_test i k np = np\<lparr>np_phases := (np_phases np)[i := Tested (np_active np ! k)]\<rparr>"

definition net_requeue :: "nat \<Rightarrow> nat \<Rightarrow> bool \<Rightarrow> net_pool \<Rightarrow> net_pool" where
  "net_requeue i k again np =
    np\<lparr>np_pool := (if again then (case pool_enqueue k (np_pool np) of None \<Rightarrow> np_pool np | Some p \<Rightarrow> p) else np_pool np),
       np_phases := (np_phases np)[i := Returning]\<rparr>"

text \<open>\<open>Shutdown\<close>; the pool is destroyed after it, with the members.\<close>

definition net_shutdown :: "net_pool \<Rightarrow> net_pool" where
  "net_shutdown np = np\<lparr>np_active := replicate (length (np_active np)) False, np_shut := True\<rparr>"

inductive net_works :: "net_pool \<Rightarrow> net_pool \<Rightarrow> bool" where
  check: "does (np_pool np) i Checking \<Longrightarrow> net_works np (net_check i np)"
| test: "does (np_pool np) i (Running k) \<Longrightarrow> np_phases np ! i = Serving \<Longrightarrow> net_works np (net_test i k np)"
| requeue: "does (np_pool np) i (Running k) \<Longrightarrow> np_phases np ! i = Tested b \<Longrightarrow> net_works np (net_requeue i k b np)"
| finish: "does (np_pool np) i (Running k) \<Longrightarrow> np_phases np ! i = Returning
    \<Longrightarrow> net_works np (np\<lparr>np_pool := worker_finish i k (np_pool np)\<rparr>)"
| signal: "pool_signals (np_pool np) p' \<Longrightarrow> net_works np (np\<lparr>np_pool := p'\<rparr>)"

inductive net_reachable :: "u32 \<Rightarrow> u16 \<Rightarrow> net_pool \<Rightarrow> bool" for hw maxthreads where
  created: "net_reachable hw maxthreads (NetworkThreadPool_new hw maxthreads)"
| launch: "net_reachable hw maxthreads np \<Longrightarrow> net_launch np = Some np' \<Longrightarrow> net_reachable hw maxthreads np'"
| works: "net_reachable hw maxthreads np \<Longrightarrow> net_works np np' \<Longrightarrow> net_reachable hw maxthreads np'"
| spurious: "net_reachable hw maxthreads np \<Longrightarrow> does (np_pool np) i Asleep
    \<Longrightarrow> net_reachable hw maxthreads (np\<lparr>np_pool := worker_wake i (np_pool np)\<rparr>)"
| shutdown: "net_reachable hw maxthreads np \<Longrightarrow> np_next np = np_count np \<Longrightarrow> net_reachable hw maxthreads (net_shutdown np)"
| destroy: "net_reachable hw maxthreads np \<Longrightarrow> np_shut np \<Longrightarrow> \<not> tp_stop (np_pool np)
    \<Longrightarrow> net_reachable hw maxthreads (np\<lparr>np_pool := pool_destroy (np_pool np)\<rparr>)"

text \<open>The network pool uses the thread pool as everyone does.\<close>

lemma net_pool_works: "net_works np np' \<Longrightarrow> pool_reachable n (np_pool np) \<Longrightarrow> pool_reachable n (np_pool np')"
proof (induction rule: net_works.induct)
  case (requeue np i k b)
  then show ?case
    by (cases "pool_enqueue k (np_pool np)") (auto simp: net_requeue_def intro: pool_reachable.enqueue)
qed (auto simp: net_check_def net_test_def intro: pool_reachable.works pool_works.intros)

lemma net_refines_pool: "net_reachable hw maxthreads np \<Longrightarrow> pool_reachable (unat hw) (np_pool np)"
proof (induction rule: net_reachable.induct)
  case created
  show ?case by (simp add: NetworkThreadPool_new_def pool_reachable.created)
next
  case (launch np np')
  then show ?case by (auto simp: net_launch_def intro: pool_reachable.enqueue split: if_splits)
next
  case (works np np')
  then show ?case using net_pool_works by blast
qed (auto simp: net_shutdown_def intro: pool_reachable.intros)

lemma core_count_bounds: "0 < unat (core_count hw maxthreads)" "unat (core_count hw maxthreads) \<le> unat MAX_NETWORK_THREADS"
  by (auto simp: core_count_def MAX_NETWORK_THREADS_def Let_def word_le_nat_alt word_less_nat_alt unat_gt_0)

text \<open>How many tasks of a slot there are, in the queue or with a worker that will still test whether to go on.\<close>

definition carries :: "nat \<Rightarrow> nat worker \<Rightarrow> phase \<Rightarrow> nat" where
  "carries k w ph = (if w = Running k \<and> ph \<noteq> Returning then 1 else 0)"

definition tokens :: "nat \<Rightarrow> net_pool \<Rightarrow> nat" where
  "tokens k np = count_list (tp_tasks (np_pool np)) k + sum_list (map2 (carries k) (tp_workers (np_pool np)) (np_phases np))"

lemma sum_map2_update:
  fixes f :: "'a \<Rightarrow> 'b \<Rightarrow> nat"
  assumes "length xs = length ys" and "i < length xs"
  shows "sum_list (map2 f (xs[i := x]) (ys[i := y])) + f (xs ! i) (ys ! i) = sum_list (map2 f xs ys) + f x y"
  using assms
proof (induction xs ys arbitrary: i rule: list_induct2)
  case (Cons a xs b ys)
  then show ?case by (cases i) auto
qed simp

lemma carries_update:
  assumes "length ph = length (tp_workers p)" and "does p i w"
  shows "sum_list (map2 (carries k) ((tp_workers p)[i := w']) (ph[i := h])) + carries k w (ph ! i)
    = sum_list (map2 (carries k) (tp_workers p) ph) + carries k w' h"
    and "sum_list (map2 (carries k) ((tp_workers p)[i := w']) ph) + carries k w (ph ! i)
    = sum_list (map2 (carries k) (tp_workers p) ph) + carries k w' (ph ! i)"
    and "sum_list (map2 (carries k) (tp_workers p) (ph[i := h])) + carries k w (ph ! i)
    = sum_list (map2 (carries k) (tp_workers p) ph) + carries k w h"
  using assms sum_map2_update [of "tp_workers p" ph i "carries k" w' h] sum_map2_update [of "tp_workers p" ph i "carries k" w' "ph ! i"]
    sum_map2_update [of "tp_workers p" ph i "carries k" w h]
  by (auto simp: does_def)

lemma carries_wake_all:
  "sum_list (map2 (carries k) (map (\<lambda>w. if w = Asleep then Checking else w) ws) ph) = sum_list (map2 (carries k) ws ph)"
proof (induction ws arbitrary: ph)
  case (Cons w ws)
  then show ?case by (cases ph) (auto simp: carries_def)
qed simp

lemma tokens_signal:
  assumes "pool_signals (np_pool np) p'" and "length (np_phases np) = length (tp_workers (np_pool np))"
  shows "tokens k (np\<lparr>np_pool := p'\<rparr>) = tokens k np"
  using assms(1)
proof (cases rule: pool_signals.cases)
  case (notify i)
  then show ?thesis
    using carries_update(2) [OF assms(2) notify(3), of k Checking] by (simp add: tokens_def worker_wake_def carries_def)
next
  case notify_all
  then show ?thesis by (simp add: tokens_def wake_all_def carries_wake_all)
qed (simp add: tokens_def)

lemma tokens_check:
  assumes "does (np_pool np) i Checking" and "length (np_phases np) = length (tp_workers (np_pool np))"
  shows "tokens k (net_check i np) = tokens k np"
  using carries_update(1) [OF assms(2,1), of k "if tp_stop (np_pool np) then Exited else Asleep" Serving]
    carries_update(1) [OF assms(2,1), of k "Running (hd (tp_tasks (np_pool np)))" Serving]
  by (cases "tp_tasks (np_pool np)") (auto simp: tokens_def net_check_def worker_check_def carries_def)

lemma tokens_test:
  assumes "does (np_pool np) i (Running j)" and "np_phases np ! i = Serving"
    and "length (np_phases np) = length (tp_workers (np_pool np))"
  shows "tokens k (net_test i j np) = tokens k np"
  using carries_update(3) [OF assms(3,1), of k "Tested (np_active np ! j)"] assms(2)
  by (simp add: tokens_def net_test_def carries_def split: if_splits)

lemma tokens_requeue:
  assumes "does (np_pool np) i (Running j)" and "np_phases np ! i = Tested b"
    and "length (np_phases np) = length (tp_workers (np_pool np))"
  shows "tokens k (net_requeue i j b np) + (if k = j \<and> \<not> (b \<and> \<not> tp_stop (np_pool np)) then 1 else 0) = tokens k np"
  using carries_update(3) [OF assms(3,1), of k Returning] assms(2)
  by (auto simp: tokens_def net_requeue_def carries_def pool_enqueue_def split: if_splits)

lemma tokens_finish:
  assumes "does (np_pool np) i (Running j)" and "np_phases np ! i = Returning"
    and "length (np_phases np) = length (tp_workers (np_pool np))"
  shows "tokens k (np\<lparr>np_pool := worker_finish i j (np_pool np)\<rparr>) = tokens k np"
  using carries_update(2) [OF assms(3,1), of k Checking] assms(2)
  by (simp add: tokens_def worker_finish_def carries_def)

lemma tokens_wake:
  assumes "does (np_pool np) i Asleep" and "length (np_phases np) = length (tp_workers (np_pool np))"
  shows "tokens k (np\<lparr>np_pool := worker_wake i (np_pool np)\<rparr>) = tokens k np"
  using carries_update(2) [OF assms(2,1), of k Checking] by (simp add: tokens_def worker_wake_def carries_def)

text \<open>A worker that carries a task of a slot accounts for one.\<close>

lemma tokens_carried:
  assumes "does (np_pool np) i (Running k)" and "np_phases np ! i \<noteq> Returning"
    and "length (np_phases np) = length (tp_workers (np_pool np))"
  shows "0 < tokens k np"
  using carries_update(3) [OF assms(3,1), of k Returning] assms(2) by (simp add: tokens_def carries_def)

lemma tokens_none:
  assumes "tp_tasks (np_pool np) = []" and "\<forall>w \<in> set (tp_workers (np_pool np)). w = Asleep \<or> w = Exited"
  shows "tokens k np = 0"
  using assms by (fastforce simp: tokens_def carries_def dest: set_zip_leftD)

definition net_inv :: "net_pool \<Rightarrow> bool" where
  "net_inv np \<longleftrightarrow> length (np_phases np) = length (tp_workers (np_pool np))
     \<and> length (np_active np) = unat MAX_NETWORK_THREADS
     \<and> np_next np \<le> np_count np \<and> np_count np \<le> unat MAX_NETWORK_THREADS
     \<and> (\<forall>k. tokens k np \<le> 1 \<and> (np_next np \<le> k \<longrightarrow> tokens k np = 0))
     \<and> (np_shut np \<longrightarrow> np_next np = np_count np \<and> True \<notin> set (np_active np))
     \<and> (\<not> np_shut np \<longrightarrow> \<not> tp_stop (np_pool np) \<and> Tested False \<notin> set (np_phases np)
         \<and> (\<forall>k < np_next np. np_active np ! k \<and> tokens k np = 1))"

text \<open>Most steps change neither the slots nor the number of tasks of each.\<close>

lemma net_inv_same:
  assumes "net_inv np" and "\<And>k. tokens k np' = tokens k np" and "np_active np' = np_active np" and "np_count np' = np_count np"
    and "np_next np' = np_next np" and "np_shut np' = np_shut np" and "length (np_phases np') = length (tp_workers (np_pool np'))"
    and "tp_stop (np_pool np') = tp_stop (np_pool np)"
    and "\<not> np_shut np \<Longrightarrow> Tested False \<in> set (np_phases np') \<Longrightarrow> Tested False \<in> set (np_phases np)"
  shows "net_inv np'"
  using assms by (auto simp: net_inv_def)

lemma tested_update: "Tested False \<in> set (xs[i := x]) \<Longrightarrow> x \<noteq> Tested False \<Longrightarrow> Tested False \<in> set xs"
  using set_update_subset_insert [of xs i x] by auto

lemma length_signals: "pool_signals p p' \<Longrightarrow> length (tp_workers p') = length (tp_workers p)"
  by (induction rule: pool_signals.induct) (simp_all add: worker_wake_def wake_all_def)

lemma net_inv_requeue:
  assumes "does (np_pool np) i (Running j)" and "np_phases np ! i = Tested b" and "net_inv np"
  shows "net_inv (net_requeue i j b np)"
proof -
  let ?np = "net_requeue i j b np"
  have len: "length (np_phases np) = length (tp_workers (np_pool np))" using assms(3) by (simp add: net_inv_def)
  have same: "np_active ?np = np_active np" "np_count ?np = np_count np" "np_next ?np = np_next np" "np_shut ?np = np_shut np"
    "length (np_phases ?np) = length (tp_workers (np_pool ?np))" "tp_stop (np_pool ?np) = tp_stop (np_pool np)"
    using len by (auto simp: net_requeue_def pool_enqueue_def split: option.splits)
  have tested: "Tested False \<in> set (np_phases np)" if "Tested False \<in> set (np_phases ?np)"
    using that tested_update [of "np_phases np" i Returning] by (simp add: net_requeue_def)
  note tok = tokens_requeue [OF assms(1,2) len]
  show ?thesis
  proof (cases "b \<and> \<not> tp_stop (np_pool np)")
    case True
    then have "tokens k ?np = tokens k np" for k using tok [of k] by simp
    then show ?thesis using same tested by (rule net_inv_same [OF assms(3)])
  next
    case False
    have le: "tokens k ?np \<le> tokens k np" for k using tok [of k] by (simp split: if_splits)
    have "b" if "\<not> np_shut np"
    proof -
      have "Tested b \<in> set (np_phases np)" using assms(1,2) len by (metis does_def nth_mem)
      then show ?thesis using that assms(3) by (cases b) (auto simp: net_inv_def)
    qed
    then have "np_shut np" using False assms(3) by (auto simp: net_inv_def)
    moreover have "tokens k ?np \<le> 1 \<and> (np_next np \<le> k \<longrightarrow> tokens k ?np = 0)" for k
      using le [of k] assms(3) unfolding net_inv_def by (metis le_zero_eq order_trans)
    ultimately show ?thesis using assms(3) same by (simp add: net_inv_def)
  qed
qed

lemma net_inv_works: "net_works np np' \<Longrightarrow> net_inv np \<Longrightarrow> net_inv np'"
proof (induction rule: net_works.induct)
  case (check np i)
  have "length (np_phases np) = length (tp_workers (np_pool np))" using check by (simp add: net_inv_def)
  then show ?case
    using check tested_update [of "np_phases np" i Serving]
    by (intro net_inv_same [OF check(2)] tokens_check) (auto simp: net_check_def worker_check_def split: list.splits)
next
  case (test np i k)
  have len: "length (np_phases np) = length (tp_workers (np_pool np))" using test by (simp add: net_inv_def)
  have "np_active np ! k" if "\<not> np_shut np"
  proof -
    have "0 < tokens k np" using tokens_carried [OF test(1) _ len] test(2) by simp
    then have "k < np_next np" using test(3) by (metis less_numeral_extra(3) net_inv_def not_le)
    then show ?thesis using test(3) that by (simp add: net_inv_def)
  qed
  then show ?case
    using tokens_test [OF test(1,2) len] len tested_update [of "np_phases np" i "Tested (np_active np ! k)"]
    by (intro net_inv_same [OF test(3)]) (auto simp: net_test_def)
next
  case (requeue np i k b)
  then show ?case by (rule net_inv_requeue)
next
  case (finish np i k)
  have "length (np_phases np) = length (tp_workers (np_pool np))" using finish by (simp add: net_inv_def)
  then show ?case
    using tokens_finish [OF finish(1,2)] by (intro net_inv_same [OF finish(3)]) (auto simp: worker_finish_def)
next
  case (signal np p')
  have len: "length (np_phases np) = length (tp_workers (np_pool np))" using signal by (simp add: net_inv_def)
  have "tp_stop p' = tp_stop (np_pool np)" using works_frame pool_works.signal [OF signal(1)] by blast
  then show ?case
    using tokens_signal [OF signal(1) len] length_signals [OF signal(1)] len
    by (intro net_inv_same [OF signal(2)]) auto
qed

lemma net_inv_launch:
  assumes "net_launch np = Some np'" and "net_inv np"
  shows "net_inv np'"
proof -
  obtain p where p: "pool_enqueue (np_next np) (np_pool np) = Some p" "np_next np < np_count np"
      "np' = np\<lparr>np_pool := p, np_active := (np_active np)[np_next np := True], np_next := Suc (np_next np)\<rparr>"
    using assms(1) by (auto simp: net_launch_def split: if_splits)
  have tok: "tokens k np' = tokens k np + (if k = np_next np then 1 else 0)" for k
    using p by (auto simp: tokens_def pool_enqueue_def split: if_splits)
  have "\<not> np_shut np" using p(2) assms(2) by (auto simp: net_inv_def)
  moreover have "tokens k np' \<le> 1 \<and> (Suc (np_next np) \<le> k \<longrightarrow> tokens k np' = 0)" for k
    using assms(2) tok [of k] by (auto simp: net_inv_def)
  moreover have "np_active np' ! k \<and> tokens k np' = 1" if "k < Suc (np_next np)" for k
    using that assms(2) calculation(1) p tok [of k] by (auto simp: net_inv_def nth_list_update less_Suc_eq)
  moreover have "tp_workers p = tp_workers (np_pool np)" "tp_stop p = tp_stop (np_pool np)"
    using p(1) by (auto simp: pool_enqueue_def split: if_splits)
  ultimately show ?thesis using assms(2) p(2,3) by (simp add: net_inv_def)
qed

lemma net_reachable_inv: "net_reachable hw maxthreads np \<Longrightarrow> net_inv np"
proof (induction rule: net_reachable.induct)
  case created
  show ?case
    using core_count_bounds [of hw maxthreads]
    by (auto simp: net_inv_def NetworkThreadPool_new_def ThreadPool_new_def tokens_def carries_def sum_list_replicate)
next
  case (launch np np')
  then show ?case by (auto intro: net_inv_launch)
next
  case (works np np')
  then show ?case by (auto intro: net_inv_works)
next
  case (spurious np i)
  have "length (np_phases np) = length (tp_workers (np_pool np))" using spurious.IH by (simp add: net_inv_def)
  then show ?case
    using tokens_wake [OF spurious(2)] by (intro net_inv_same [OF spurious.IH]) (auto simp: worker_wake_def)
next
  case (shutdown np)
  then show ?case by (auto simp: net_inv_def net_shutdown_def tokens_def)
next
  case (destroy np)
  then show ?case by (auto simp: net_inv_def pool_destroy_def tokens_def)
qed

text \<open>What is left to do once the pool is shut down. A task that was tested before may still enqueue itself.\<close>

fun net_weight :: "nat worker \<Rightarrow> phase \<Rightarrow> nat" where
  "net_weight Checking ph = 2"
| "net_weight Asleep ph = 0"
| "net_weight Exited ph = 0"
| "net_weight (Running k) Serving = 5"
| "net_weight (Running k) (Tested b) = (if b then 11 else 4)"
| "net_weight (Running k) Returning = 3"

definition net_left :: "net_pool \<Rightarrow> nat" where
  "net_left np = 4 * length (tp_tasks (np_pool np)) + 3 * tp_notify (np_pool np)
     + (if tp_notify_all (np_pool np) then Suc (2 * length (tp_workers (np_pool np))) else 0)
     + sum_list (map2 net_weight (tp_workers (np_pool np)) (np_phases np))"

lemma net_weight_update:
  assumes "length ph = length (tp_workers p)" and "does p i w"
  shows "sum_list (map2 net_weight ((tp_workers p)[i := w']) (ph[i := h])) + net_weight w (ph ! i)
    = sum_list (map2 net_weight (tp_workers p) ph) + net_weight w' h"
    and "sum_list (map2 net_weight ((tp_workers p)[i := w']) ph) + net_weight w (ph ! i)
    = sum_list (map2 net_weight (tp_workers p) ph) + net_weight w' (ph ! i)"
    and "sum_list (map2 net_weight (tp_workers p) (ph[i := h])) + net_weight w (ph ! i)
    = sum_list (map2 net_weight (tp_workers p) ph) + net_weight w h"
  using assms sum_map2_update [of "tp_workers p" ph i net_weight w' h] sum_map2_update [of "tp_workers p" ph i net_weight w' "ph ! i"]
    sum_map2_update [of "tp_workers p" ph i net_weight w h]
  by (auto simp: does_def)

lemma net_weight_wake_all:
  "sum_list (map2 net_weight (map (\<lambda>w. if w = Asleep then Checking else w) ws) ph) \<le> sum_list (map2 net_weight ws ph) + 2 * length ws"
proof (induction ws arbitrary: ph)
  case (Cons w ws)
  then show ?case
  proof (cases ph)
    case (Cons h hs)
    then show ?thesis using Cons.IH [of hs] by (cases w) auto
  qed simp
qed simp

lemma net_signals_left:
  assumes "pool_signals (np_pool np) p'" and "length (np_phases np) = length (tp_workers (np_pool np))"
  shows "net_left (np\<lparr>np_pool := p'\<rparr>) < net_left np"
  using assms(1)
proof (cases rule: pool_signals.cases)
  case (notify i)
  then show ?thesis
    using net_weight_update(2) [OF assms(2) notify(3), of Checking] by (simp add: net_left_def worker_wake_def)
next
  case unheard
  then show ?thesis by (simp add: net_left_def)
next
  case notify_all
  then show ?thesis
    using net_weight_wake_all [of "tp_workers (np_pool np)" "np_phases np"] by (simp add: net_left_def wake_all_def)
qed

lemma net_works_left: "net_works np np' \<Longrightarrow> net_inv np \<Longrightarrow> np_shut np \<Longrightarrow> net_left np' < net_left np"
proof (induction rule: net_works.induct)
  case (check np i)
  have len: "length (np_phases np) = length (tp_workers (np_pool np))" using check by (simp add: net_inv_def)
  note w = net_weight_update(1) [OF len check(1), of _ Serving]
  show ?case
    using w [of Exited] w [of Asleep] w [of "Running (hd (tp_tasks (np_pool np)))"]
    by (cases "tp_tasks (np_pool np)") (auto simp: net_left_def net_check_def worker_check_def)
next
  case (test np i k)
  have len: "length (np_phases np) = length (tp_workers (np_pool np))" using test by (simp add: net_inv_def)
  have "0 < tokens k np" using tokens_carried [OF test(1) _ len] test(2) by simp
  then have "k < np_next np" using test(3) by (metis less_numeral_extra(3) net_inv_def not_le)
  then have "\<not> np_active np ! k" using test(3,4) by (auto simp: net_inv_def in_set_conv_nth)
  then show ?case
    using net_weight_update(3) [OF len test(1), of "Tested False"] test(2) by (simp add: net_left_def net_test_def)
next
  case (requeue np i k b)
  have len: "length (np_phases np) = length (tp_workers (np_pool np))" using requeue by (simp add: net_inv_def)
  show ?case
    using net_weight_update(3) [OF len requeue(1), of Returning] requeue(2)
    by (auto simp: net_left_def net_requeue_def pool_enqueue_def split: if_splits)
next
  case (finish np i k)
  have len: "length (np_phases np) = length (tp_workers (np_pool np))" using finish by (simp add: net_inv_def)
  show ?case
    using net_weight_update(2) [OF len finish(1), of Checking] finish(2) by (simp add: net_left_def worker_finish_def)
next
  case (signal np p')
  then show ?case using net_signals_left by (simp add: net_inv_def)
qed

lemma net_works_frame: "net_works np np' \<Longrightarrow> np_shut np' = np_shut np \<and> tp_stop (np_pool np') = tp_stop (np_pool np)"
proof (induction rule: net_works.induct)
  case (signal np p')
  then show ?case using works_frame pool_works.signal by fastforce
qed (auto simp: net_check_def net_test_def net_requeue_def worker_check_def worker_finish_def pool_enqueue_def
    split: list.splits option.splits)

lemma net_works_bounded:
  "(net_works ^^ n) np np' \<Longrightarrow> net_inv np \<Longrightarrow> np_shut np \<Longrightarrow> n + net_left np' \<le> net_left np \<and> net_inv np' \<and> np_shut np'"
proof (induction n arbitrary: np')
  case (Suc n)
  then obtain q where q: "(net_works ^^ n) np q" "net_works q np'" by auto
  with Suc have "n + net_left q \<le> net_left np" "net_inv q" "np_shut q" by auto
  moreover from this have "net_left np' < net_left q" using net_works_left [OF q(2)] by simp
  ultimately show ?case using net_inv_works [OF q(2)] net_works_frame [OF q(2)] by simp
qed simp

text \<open>A network pool that cannot go on has a thread pool that cannot.\<close>

lemma net_at_rest:
  assumes "\<not> (\<exists>np'. net_works np np')"
  shows "\<not> (\<exists>p'. pool_works (np_pool np) p')"
proof
  assume "\<exists>p'. pool_works (np_pool np) p'"
  then obtain p' where "pool_works (np_pool np) p'" by blast
  then show False
  proof (cases rule: pool_works.cases)
    case (finish i k)
    then show False using assms by (cases "np_phases np ! i") (auto intro: net_works.intros)
  qed (use assms in \<open>auto intro: net_works.intros\<close>)
qed

lemma net_life:
  assumes "net_works\<^sup>*\<^sup>* np np'" and "net_reachable hw maxthreads np"
  shows "net_reachable hw maxthreads np' \<and> tp_stop (np_pool np') = tp_stop (np_pool np)"
  using assms(1)
proof (induction rule: rtranclp_induct)
  case (step q r)
  then show ?case using net_works_frame [OF step(2)] net_reachable.works [of hw maxthreads q r] by simp
qed (simp add: assms(2))

section \<open>Properties of the thread pool\<close>

text \<open>Every task is run once, in order: the tasks that were accepted are those that workers took, in the order of
  \<open>enqueue\<close>, and then those in the queue; and of those taken each is finished or is being run by one worker.\<close>

theorem pool_runs_in_order:
  assumes "pool_reachable threads p"
  shows "tp_accepted p = tp_started p @ tp_tasks p
    \<and> mset (tp_started p) = mset (tp_finished p) + mset (concat (map running (tp_workers p)))
    \<and> length (concat (map running (tp_workers p))) \<le> threads"
proof -
  have "length (concat (map running ws)) \<le> length ws" for ws :: "'a worker list"
  proof (induction ws)
    case (Cons w ws)
    then show ?case by (cases w) auto
  qed simp
  then show ?thesis using reachable_inv [OF assms] by (auto simp: pool_inv_def held_def)
qed

text \<open>C23. The pool comes to rest: whatever was enqueued, however the notifications arrive and whichever threads run, it takes
  a bounded number of steps until nothing is left to do. Then every task it accepted is finished, and the workers are
  all blocked, or, if the pool is being destroyed, have all left their loops, so that the destructor returns.\<close>

theorem pool_finishes_tasks:
  assumes "pool_reachable threads p" and "0 < threads"
  shows "(\<forall>n p'. (pool_works ^^ n) p p' \<longrightarrow> n \<le> pool_left p)
    \<and> (\<forall>p'. pool_works\<^sup>*\<^sup>* p p' \<and> \<not> (\<exists>p''. pool_works p' p'') \<longrightarrow>
         tp_tasks p' = [] \<and> mset (tp_finished p') = mset (tp_accepted p)
         \<and> (if tp_stop p then pool_joined p' else \<forall>w \<in> set (tp_workers p'). w = Asleep))"
proof -
  have reach: "pool_reachable threads p' \<and> tp_stop p' = tp_stop p \<and> tp_accepted p' = tp_accepted p" if "pool_works\<^sup>*\<^sup>* p p'" for p'
    using that
  proof (induction rule: rtranclp_induct)
    case (step q r)
    have "tp_stop r = tp_stop q \<and> tp_accepted r = tp_accepted q" using step(2) by (rule works_frame)
    then show ?case using step pool_reachable.works by metis
  qed (simp add: assms)
  have "tp_tasks p' = [] \<and> mset (tp_finished p') = mset (tp_accepted p)
       \<and> (if tp_stop p then pool_joined p' else \<forall>w \<in> set (tp_workers p'). w = Asleep)"
    if "pool_works\<^sup>*\<^sup>* p p'" "\<not> (\<exists>p''. pool_works p' p'')" for p'
  proof -
    note r = reach [OF that(1)]
    have inv: "pool_inv threads p'" using reachable_inv r by blast
    then have "tp_workers p' \<noteq> []" using assms(2) by (auto simp: pool_inv_def)
    from at_rest [OF that(2) _ this] reachable_awake assms(2) r inv
    show ?thesis by (auto simp: pool_inv_def pool_joined_def list_all_iff)
  qed
  moreover have "n \<le> pool_left p" if "(pool_works ^^ n) p p'" for n p' using works_bounded [OF that] by simp
  ultimately show ?thesis by blast
qed

section \<open>Properties of the network pool\<close>

text \<open>C24. Every slot is served: however the threads interleave, until it is shut down the network pool has exactly one task
  for each slot it launched, waiting or at work, and never more than one; the slots fit the bitset, and there is at
  least one.\<close>

theorem net_slots_served:
  assumes "net_reachable hw maxthreads np"
  shows "tokens k np \<le> 1 \<and> (k < np_next np \<and> \<not> np_shut np \<longrightarrow> tokens k np = 1)
    \<and> np_next np \<le> unat (core_count hw maxthreads) \<and> 1 \<le> unat (core_count hw maxthreads) \<and> unat (core_count hw maxthreads) \<le> length (np_active np)"
proof -
  have "np_count np = unat (core_count hw maxthreads)" using assms
  proof (induction rule: net_reachable.induct)
    case (works np np')
    from works(2) have "np_count np' = np_count np"
      by (cases rule: net_works.cases) (simp_all add: net_check_def net_test_def net_requeue_def)
    with works show ?case by simp
  qed (auto simp: NetworkThreadPool_new_def net_launch_def net_shutdown_def split: if_splits)
  then show ?thesis
    using net_reachable_inv [OF assms] core_count_bounds [of hw maxthreads] by (simp add: net_inv_def)
qed

text \<open>The network pool shuts down: after \<open>Shutdown\<close>, if the handlers return, it takes a bounded number of steps until no
  task is left, although tasks that were tested before may still be enqueued again; and when the pool is being
  destroyed, all workers have then left, so the destructor returns.\<close>

theorem net_pool_shuts_down:
  assumes "net_reachable hw maxthreads np" and "np_shut np" and "0 < hw"
  shows "(\<forall>n np'. (net_works ^^ n) np np' \<longrightarrow> n \<le> net_left np)
    \<and> (\<forall>np'. net_works\<^sup>*\<^sup>* np np' \<and> \<not> (\<exists>np''. net_works np' np'') \<longrightarrow>
         tp_tasks (np_pool np') = [] \<and> (\<forall>k. tokens k np' = 0)
         \<and> (if tp_stop (np_pool np) then pool_joined (np_pool np') else \<forall>w \<in> set (tp_workers (np_pool np')). w = Asleep))"
proof -
  have "n \<le> net_left np" if "(net_works ^^ n) np np'" for n np'
    using net_works_bounded [OF that net_reachable_inv [OF assms(1)] assms(2)] by simp
  moreover have "tp_tasks (np_pool np') = [] \<and> (\<forall>k. tokens k np' = 0)
      \<and> (if tp_stop (np_pool np) then pool_joined (np_pool np') else \<forall>w \<in> set (tp_workers (np_pool np')). w = Asleep)"
    if "net_works\<^sup>*\<^sup>* np np'" "\<not> (\<exists>np''. net_works np' np'')" for np'
  proof -
    have r: "net_reachable hw maxthreads np'" "tp_stop (np_pool np') = tp_stop (np_pool np)" using net_life [OF that(1) assms(1)] by auto
    have hw: "0 < unat hw" using assms(3) by (simp add: unat_gt_0 word_neq_0_conv)
    have "tp_workers (np_pool np') \<noteq> []" using reachable_inv [OF net_refines_pool [OF r(1)]] hw by (auto simp: pool_inv_def)
    note rest = at_rest [OF net_at_rest [OF that(2)] reachable_awake [OF net_refines_pool [OF r(1)] hw] this]
    then have "tokens k np' = 0" for k by (intro tokens_none) (auto split: if_splits)
    with rest show ?thesis using r(2) by (auto simp: pool_joined_def list_all_iff)
  qed
  ultimately show ?thesis by blast
qed

section \<open>Witnesses\<close>

text \<open>One worker and one task, which it took.\<close>

definition sample_pool :: "nat thread_pool" where
  "sample_pool = \<lparr>tp_workers = [Running 7], tp_tasks = [], tp_stop = False, tp_notify = 1, tp_notify_all = False,
     tp_accepted = [7], tp_started = [7], tp_finished = []\<rparr>"

lemma sample_pool_reachable: "pool_reachable 1 sample_pool"
proof -
  define p where "p = (the (pool_enqueue 7 (ThreadPool_new 1)) :: nat thread_pool)"
  have "pool_enqueue 7 (ThreadPool_new 1) = Some p" by (simp add: p_def pool_enqueue_def ThreadPool_new_def)
  from pool_reachable.enqueue [OF pool_reachable.created this] have "pool_reachable 1 p" .
  moreover have "does p 0 Checking" "worker_check 0 p = sample_pool"
    by (simp_all add: p_def pool_enqueue_def ThreadPool_new_def does_def worker_check_def sample_pool_def)
  ultimately show ?thesis using pool_reachable.works [of 1 p sample_pool] pool_works.check [of p 0] by simp
qed

theorem pool_runs_in_order_witness:
  "pool_reachable 1 sample_pool \<and> tp_accepted sample_pool = [7]
    \<and> mset (tp_started sample_pool) = mset (tp_finished sample_pool) + mset (concat (map running (tp_workers sample_pool)))"
  using pool_runs_in_order [OF sample_pool_reachable] sample_pool_reachable by (simp add: sample_pool_def)

theorem pool_finishes_tasks_witness:
  "pool_reachable 1 sample_pool \<and> \<not> (\<exists>p'. (pool_works ^^ 7) sample_pool p')"
proof -
  have "pool_left sample_pool = 6" by (simp add: pool_left_def sample_pool_def)
  then show ?thesis
    using pool_finishes_tasks [OF sample_pool_reachable] sample_pool_reachable by auto
qed

definition sample_net :: net_pool where
  "sample_net = the (net_launch (NetworkThreadPool_new 1 1))"

lemma sample_core_count: "core_count 1 1 = 1"
  by (simp add: core_count_def MAX_NETWORK_THREADS_def)

lemma sample_net_facts:
  "net_reachable 1 1 sample_net" "np_next sample_net = 1" "np_count sample_net = 1" "\<not> np_shut sample_net"
  "net_left sample_net = 9"
proof -
  have "net_launch (NetworkThreadPool_new 1 1) = Some sample_net"
    by (simp add: sample_net_def net_launch_def NetworkThreadPool_new_def sample_core_count pool_enqueue_def ThreadPool_new_def)
  then show "net_reachable 1 1 sample_net" by (rule net_reachable.launch [OF net_reachable.created])
qed (simp_all add: sample_net_def net_launch_def NetworkThreadPool_new_def sample_core_count pool_enqueue_def ThreadPool_new_def
      net_left_def)

theorem net_slots_served_witness:
  "net_reachable 1 1 sample_net \<and> tokens 0 sample_net = 1"
  using net_slots_served [OF sample_net_facts(1), of 0] sample_net_facts by simp

theorem net_pool_shuts_down_witness:
  "net_reachable 1 1 (net_shutdown sample_net) \<and> \<not> (\<exists>np'. (net_works ^^ 10) (net_shutdown sample_net) np')"
proof -
  have r: "net_reachable 1 1 (net_shutdown sample_net)"
    using sample_net_facts by (intro net_reachable.shutdown) simp_all
  have "net_left (net_shutdown np) = net_left np" for np by (simp add: net_shutdown_def net_left_def)
  moreover have "np_shut (net_shutdown sample_net)" by (simp add: net_shutdown_def)
  ultimately have "np_shut (net_shutdown sample_net)" "net_left (net_shutdown sample_net) = 9" using sample_net_facts by simp_all
  then show ?thesis using net_pool_shuts_down [OF r] r by auto
qed

end
