(* ===== verification/ConnectionPool.thy ===== *)
theory ConnectionPool
  imports Prelude "HOL-Library.Multiset"
begin

text \<open>
  The pool of database connections (\<open>core/include/connectionpool.h\<close>). Every handler that uses the database takes a
  connection from it with \<open>getConnection\<close> and holds it as a \<open>Wrapper\<close>, whose destructor gives it back. A connection is
  the address of its object. What a factory yields is an argument: the address of a new connection, or an exception.

  The class has no lock. \<open>getConnection\<close> and \<open>unMark\<close> are whole calls, and \<open>pool_life\<close> runs them one after the other: it
  describes the pool as long as no two calls overlap. The servers use the pool from several threads, so \<open>get_step\<close> also
  splits \<open>getConnection\<close> into its reads and writes, between which another thread can come.
\<close>

section \<open>The pool\<close>

type_synonym entry = "bool \<times> nat"

record connection_pool =
  cp_factories :: "cstring list"
  cp_connections :: "cstring \<Rightarrow> entry list"

record Wrapper =
  w_conn :: nat
  w_name :: cstring

datatype pool_error = NoFactory cstring | FactoryThrew

definition ConnectionPool_new :: connection_pool where
  "ConnectionPool_new = \<lparr>cp_factories = [], cp_connections = (\<lambda>_. [])\<rparr>"

definition addConnector :: "cstring \<Rightarrow> connection_pool \<Rightarrow> connection_pool" where
  "addConnector name cp = cp\<lparr>cp_factories := List.insert name (cp_factories cp)\<rparr>"

text \<open>The loop of \<open>getConnection\<close> marks the first entry that is available.\<close>

fun mark_free :: "entry list \<Rightarrow> (nat \<times> entry list) option" where
  "mark_free [] = None"
| "mark_free ((used, c) # xs) =
    (if \<not> used then Some (c, (True, c) # xs) else map_option (\<lambda>(c', ys). (c', (used, c) # ys)) (mark_free xs))"

definition getConnection :: "nat option \<Rightarrow> cstring \<Rightarrow> connection_pool \<Rightarrow> pool_error + (Wrapper \<times> connection_pool)" where
  "getConnection made name cp =
    (if name \<notin> set (cp_factories cp) then Inl (NoFactory name)
     else case mark_free (cp_connections cp name) of
       Some (c, xs) \<Rightarrow> Inr (\<lparr>w_conn = c, w_name = name\<rparr>, cp\<lparr>cp_connections := (cp_connections cp)(name := xs)\<rparr>)
     | None \<Rightarrow>
         (case made of
            None \<Rightarrow> Inl FactoryThrew
          | Some c \<Rightarrow> Inr (\<lparr>w_conn = c, w_name = name\<rparr>,
              cp\<lparr>cp_connections := (cp_connections cp)(name := cp_connections cp name @ [(True, c)])\<rparr>)))"

fun unmark_entry :: "nat \<Rightarrow> entry list \<Rightarrow> entry list" where
  "unmark_entry c [] = []"
| "unmark_entry c ((used, c') # xs) = (if used \<and> c' = c then (False, c') # xs else (used, c') # unmark_entry c xs)"

definition unMark :: "cstring \<Rightarrow> nat \<Rightarrow> connection_pool \<Rightarrow> connection_pool" where
  "unMark name c cp = cp\<lparr>cp_connections := (cp_connections cp)(name := unmark_entry c (cp_connections cp name))\<rparr>"

definition Wrapper_destroy :: "Wrapper \<Rightarrow> connection_pool \<Rightarrow> connection_pool" where
  "Wrapper_destroy w cp = unMark (w_name w) (w_conn w) cp"

text \<open>The pool and the wrappers that the program holds. A new connection is at an address that no other has, because the
  pool never deletes one. \<open>peak\<close> is the highest number of wrappers of a name that were ever held at once.\<close>

definition held_count :: "cstring \<Rightarrow> Wrapper list \<Rightarrow> nat" where
  "held_count name live = length (filter (\<lambda>w. w_name w = name) live)"

definition raise_peak :: "Wrapper list \<Rightarrow> (cstring \<Rightarrow> nat) \<Rightarrow> cstring \<Rightarrow> nat" where
  "raise_peak live peak name = max (peak name) (held_count name live)"

inductive pool_life :: "connection_pool \<Rightarrow> Wrapper list \<Rightarrow> (cstring \<Rightarrow> nat) \<Rightarrow> bool" where
  start: "pool_life ConnectionPool_new [] (\<lambda>_. 0)"
| connector: "pool_life cp live peak \<Longrightarrow> pool_life (addConnector name cp) live peak"
| get: "pool_life cp live peak \<Longrightarrow> getConnection made name cp = Inr (w, cp')
    \<Longrightarrow> (\<And>c n. made = Some c \<Longrightarrow> c \<notin> snd ` set (cp_connections cp n)) \<Longrightarrow> pool_life cp' (w # live) (raise_peak (w # live) peak)"
| release: "pool_life cp live peak \<Longrightarrow> w \<in> set live \<Longrightarrow> pool_life (Wrapper_destroy w cp) (remove1 w live) peak"

section \<open>Calls that overlap\<close>

text \<open>Where a call of \<open>getConnection\<close> is: before the test of the factory, before it reads an entry, before it marks the
  entry that it found, before it adds one, or at its end. A step reads or writes the pool once.\<close>

datatype getting = Asking cstring | Looking cstring nat | Marking cstring nat | Adding cstring | Got Wrapper | Failed pool_error

fun get_step :: "nat option \<Rightarrow> getting \<times> connection_pool \<Rightarrow> getting \<times> connection_pool" where
  "get_step made (Asking name, cp) = (if name \<notin> set (cp_factories cp) then Failed (NoFactory name) else Looking name 0, cp)"
| "get_step made (Looking name i, cp) =
    (let xs = cp_connections cp name in
     (if length xs \<le> i then Adding name else if fst (xs ! i) then Looking name (Suc i) else Marking name i, cp))"
| "get_step made (Marking name i, cp) =
    (let xs = cp_connections cp name; c = snd (xs ! i) in
     (Got \<lparr>w_conn = c, w_name = name\<rparr>, cp\<lparr>cp_connections := (cp_connections cp)(name := xs[i := (True, c)])\<rparr>))"
| "get_step made (Adding name, cp) =
    (case made of
       None \<Rightarrow> (Failed FactoryThrew, cp)
     | Some c \<Rightarrow> (Got \<lparr>w_conn = c, w_name = name\<rparr>,
         cp\<lparr>cp_connections := (cp_connections cp)(name := cp_connections cp name @ [(True, c)])\<rparr>))"
| "get_step made (Got w, cp) = (Got w, cp)"
| "get_step made (Failed e, cp) = (Failed e, cp)"

text \<open>Two threads and the pool they share; in a schedule \<open>True\<close> is a step of the first.\<close>

fun two_step :: "nat option \<Rightarrow> bool \<Rightarrow> getting \<times> getting \<times> connection_pool \<Rightarrow> getting \<times> getting \<times> connection_pool" where
  "two_step made True (a, b, cp) = (let (a', cp') = get_step made (a, cp) in (a', b, cp'))"
| "two_step made False (a, b, cp) = (let (b', cp') = get_step made (b, cp) in (a, b', cp'))"

definition overlap :: "nat option \<Rightarrow> bool list \<Rightarrow> getting \<times> getting \<times> connection_pool \<Rightarrow> getting \<times> getting \<times> connection_pool" where
  "overlap made schedule = fold (two_step made) schedule"

lemma overlap_first:
  "(get_step made ^^ n) (a, cp) = (a', cp') \<Longrightarrow> overlap made (replicate n True) (a, b, cp) = (a', b, cp')"
proof (induction n arbitrary: a cp)
  case (Suc n)
  obtain a1 cp1 where "get_step made (a, cp) = (a1, cp1)" by fastforce
  then show ?case using Suc by (simp add: overlap_def funpow_swap1)
qed (simp add: overlap_def)

lemma overlap_second:
  "(get_step made ^^ n) (b, cp) = (b', cp') \<Longrightarrow> overlap made (replicate n False) (a, b, cp) = (a, b', cp')"
proof (induction n arbitrary: b cp)
  case (Suc n)
  obtain b1 cp1 where "get_step made (b, cp) = (b1, cp1)" by fastforce
  then show ?case using Suc by (simp add: overlap_def funpow_swap1)
qed (simp add: overlap_def)

lemma overlap_append: "overlap made (xs @ ys) s = overlap made ys (overlap made xs s)"
  by (simp add: overlap_def)

text \<open>The loop finds the entry that \<open>mark_free\<close> marks, and has not marked it yet.\<close>

lemma looking_free:
  "mark_free (drop i (cp_connections cp name)) = Some (c, ys) \<Longrightarrow> i \<le> length (cp_connections cp name) \<Longrightarrow>
    \<exists>k n. snd (cp_connections cp name ! k) = c \<and> k < length (cp_connections cp name) \<and> i \<le> k
      \<and> take i (cp_connections cp name) @ ys = (cp_connections cp name)[k := (True, c)]
      \<and> (get_step made ^^ n) (Looking name i, cp) = (Marking name k, cp)"
proof (induction "length (cp_connections cp name) - i" arbitrary: i ys)
  case 0
  then show ?case by simp
next
  case (Suc m)
  let ?xs = "cp_connections cp name"
  have i: "i < length ?xs" using Suc.hyps(2) by simp
  obtain u d where e: "?xs ! i = (u, d)" by fastforce
  have d: "drop i ?xs = (u, d) # drop (Suc i) ?xs" using i e by (metis Cons_nth_drop_Suc)
  show ?case
  proof (cases u)
    case False
    then have "c = d" "ys = (True, d) # drop (Suc i) ?xs" using Suc.prems(1) d by auto
    then have "take i ?xs @ ys = ?xs[i := (True, c)]" using i by (simp add: upd_conv_take_nth_drop)
    moreover have "(get_step made ^^ 1) (Looking name i, cp) = (Marking name i, cp)" using False e i by simp
    ultimately show ?thesis using i e \<open>c = d\<close> by (intro exI [of _ i] exI [of _ 1]) simp
  next
    case True
    then obtain zs where zs: "mark_free (drop (Suc i) ?xs) = Some (c, zs)" "ys = (u, d) # zs" using Suc.prems(1) d by auto
    have "m = length ?xs - Suc i" using Suc.hyps(2) by simp
    from Suc.hyps(1) [OF this zs(1)] i obtain k n where k: "snd (?xs ! k) = c" "k < length ?xs" "Suc i \<le> k"
        "take (Suc i) ?xs @ zs = ?xs[k := (True, c)]" "(get_step made ^^ n) (Looking name (Suc i), cp) = (Marking name k, cp)"
      by auto
    have "(get_step made ^^ Suc n) (Looking name i, cp) = (Marking name k, cp)"
      using k(5) True e i by (simp add: funpow_swap1)
    moreover have "take i ?xs @ ys = ?xs[k := (True, c)]" using k(4) zs(2) e i by (simp add: take_Suc_conv_app_nth)
    ultimately show ?thesis using k(1-3) by (intro exI [of _ k] exI [of _ "Suc n"]) simp
  qed
qed

lemma looking_full:
  "mark_free (drop i (cp_connections cp name)) = None \<Longrightarrow> i \<le> length (cp_connections cp name) \<Longrightarrow>
    \<exists>n. (get_step made ^^ n) (Looking name i, cp) = (Adding name, cp)"
proof (induction "length (cp_connections cp name) - i" arbitrary: i)
  case 0
  then have "(get_step made ^^ 1) (Looking name i, cp) = (Adding name, cp)" by simp
  then show ?case by blast
next
  case (Suc m)
  let ?xs = "cp_connections cp name"
  have i: "i < length ?xs" using Suc.hyps(2) by simp
  obtain u d where e: "?xs ! i = (u, d)" by fastforce
  have d: "drop i ?xs = (u, d) # drop (Suc i) ?xs" using i e by (metis Cons_nth_drop_Suc)
  then have u: u "mark_free (drop (Suc i) ?xs) = None" using Suc.prems(1) by (auto split: if_splits)
  have "m = length ?xs - Suc i" using Suc.hyps(2) by simp
  then obtain n where n: "(get_step made ^^ n) (Looking name (Suc i), cp) = (Adding name, cp)"
    using Suc.hyps(1) [OF _ u(2)] i by auto
  have "(get_step made ^^ Suc n) (Looking name i, cp) = (Adding name, cp)"
    using n u(1) e i by (simp add: funpow_swap1)
  then show ?case by blast
qed

lemma steps_trans: "(f ^^ m) x = y \<Longrightarrow> (f ^^ n) y = z \<Longrightarrow> (f ^^ (n + m)) x = z"
  by (simp add: funpow_add)

text \<open>The steps of a call that nobody disturbs make up \<open>getConnection\<close>.\<close>

lemma get_steps_getConnection:
  "\<exists>n. (get_step made ^^ n) (Asking name, cp)
    = (case getConnection made name cp of Inl e \<Rightarrow> (Failed e, cp) | Inr (w, cp') \<Rightarrow> (Got w, cp'))"
proof (cases "name \<in> set (cp_factories cp)")
  case False
  then have "(get_step made ^^ 1) (Asking name, cp) = (Failed (NoFactory name), cp)" by simp
  then show ?thesis using False by (intro exI [of _ 1]) (simp add: getConnection_def)
next
  case True
  then have a: "(get_step made ^^ 1) (Asking name, cp) = (Looking name 0, cp)" by simp
  show ?thesis
  proof (cases "mark_free (cp_connections cp name)")
    case None
    then obtain n where n: "(get_step made ^^ n) (Looking name 0, cp) = (Adding name, cp)"
      using looking_full [of 0 cp name made] by auto
    have "(get_step made ^^ 1) (Adding name, cp)
        = (case getConnection made name cp of Inl e \<Rightarrow> (Failed e, cp) | Inr (w, cp') \<Rightarrow> (Got w, cp'))"
      using True None by (simp add: getConnection_def split: option.split)
    from steps_trans [OF steps_trans [OF a n] this] show ?thesis by blast
  next
    case (Some r)
    obtain c ys where r: "r = (c, ys)" by fastforce
    then obtain k n where k: "snd (cp_connections cp name ! k) = c" "k < length (cp_connections cp name)"
        "ys = (cp_connections cp name)[k := (True, c)]" "(get_step made ^^ n) (Looking name 0, cp) = (Marking name k, cp)"
      using looking_free [of 0 cp name c ys made] Some by auto
    have "(get_step made ^^ 1) (Marking name k, cp)
        = (case getConnection made name cp of Inl e \<Rightarrow> (Failed e, cp) | Inr (w, cp') \<Rightarrow> (Got w, cp'))"
      using True Some r k(1,3) by (simp add: getConnection_def)
    from steps_trans [OF steps_trans [OF a k(4)] this] show ?thesis by blast
  qed
qed

text \<open>Two calls that both look before either marks get the same connection.\<close>

lemma overlap_same_connection:
  assumes "name \<in> set (cp_factories cp)" and "mark_free (cp_connections cp name) = Some (c, ys)"
  shows "\<exists>schedule. overlap made schedule (Asking name, Asking name, cp)
    = (Got \<lparr>w_conn = c, w_name = name\<rparr>, Got \<lparr>w_conn = c, w_name = name\<rparr>, cp\<lparr>cp_connections := (cp_connections cp)(name := ys)\<rparr>)"
proof -
  obtain k n where k: "snd (cp_connections cp name ! k) = c" "k < length (cp_connections cp name)"
      "ys = (cp_connections cp name)[k := (True, c)]" "(get_step made ^^ n) (Looking name 0, cp) = (Marking name k, cp)"
    using looking_free [of 0 cp name c ys made] assms(2) by auto
  have "(get_step made ^^ 1) (Asking name, cp) = (Looking name 0, cp)" using assms(1) by simp
  note looked = steps_trans [OF this k(4)]
  define cp' where "cp' = cp\<lparr>cp_connections := (cp_connections cp)(name := ys)\<rparr>"
  have 1: "(get_step made ^^ 1) (Marking name k, cp) = (Got \<lparr>w_conn = c, w_name = name\<rparr>, cp')"
    using k(1,3) by (simp add: cp'_def)
  have 2: "(get_step made ^^ 1) (Marking name k, cp') = (Got \<lparr>w_conn = c, w_name = name\<rparr>, cp')"
    using k(1-3) by (simp add: cp'_def)
  let ?s = "replicate (n + 1) True @ replicate (n + 1) False @ replicate 1 True @ replicate 1 False"
  have "overlap made ?s (Asking name, Asking name, cp) = (Got \<lparr>w_conn = c, w_name = name\<rparr>, Got \<lparr>w_conn = c, w_name = name\<rparr>, cp')"
    unfolding overlap_append overlap_first [OF looked] overlap_second [OF looked] overlap_first [OF 1] overlap_second [OF 2] ..
  then show ?thesis unfolding cp'_def by blast
qed

section \<open>Invariant\<close>

definition used_entries :: "entry list \<Rightarrow> nat multiset" where
  "used_entries xs = mset (map snd (filter fst xs))"

definition held_conns :: "cstring \<Rightarrow> Wrapper list \<Rightarrow> nat multiset" where
  "held_conns name live = mset (map w_conn (filter (\<lambda>w. w_name w = name) live))"

definition conns_ok :: "connection_pool \<Rightarrow> Wrapper list \<Rightarrow> (cstring \<Rightarrow> nat) \<Rightarrow> bool" where
  "conns_ok cp live peak \<longleftrightarrow>
     (\<forall>n. distinct (map snd (cp_connections cp n)) \<and> used_entries (cp_connections cp n) = held_conns n live
        \<and> length (cp_connections cp n) = peak n)
     \<and> (\<forall>m n. m \<noteq> n \<longrightarrow> snd ` set (cp_connections cp m) \<inter> snd ` set (cp_connections cp n) = {})"

lemma used_simps [simp]:
  "used_entries [] = {#}" "used_entries (e # xs) = (if fst e then add_mset (snd e) (used_entries xs) else used_entries xs)"
  "used_entries (xs @ ys) = used_entries xs + used_entries ys"
  by (simp_all add: used_entries_def)

lemma size_used: "size (used_entries xs) \<le> length xs"
  by (induction xs) auto

lemma mark_free_Some:
  "mark_free xs = Some (c, ys) \<Longrightarrow> map snd ys = map snd xs \<and> used_entries ys = add_mset c (used_entries xs)
     \<and> size (used_entries xs) < length xs"
proof (induction xs arbitrary: ys)
  case (Cons e xs)
  obtain u d where "e = (u, d)" by (cases e)
  then show ?case
    using Cons size_used [of xs] by (cases u) (auto simp: less_Suc_eq_le)
qed simp

lemma mark_free_None: "mark_free xs = None \<Longrightarrow> size (used_entries xs) = length xs"
proof (induction xs)
  case (Cons e xs)
  then show ?case by (cases e) (auto split: if_splits)
qed simp

lemma unmark_entry_used:
  "c \<in># used_entries xs \<Longrightarrow> map snd (unmark_entry c xs) = map snd xs \<and> used_entries (unmark_entry c xs) = used_entries xs - {#c#}"
proof (induction xs)
  case (Cons e xs)
  then show ?case by (cases e) (auto split: if_splits)
qed simp

lemma held_simps [simp]:
  "held_conns n [] = {#}" "held_conns n (w # live) = (if w_name w = n then add_mset (w_conn w) (held_conns n live) else held_conns n live)"
  by (simp_all add: held_conns_def)

lemma held_remove:
  "w \<in> set live \<Longrightarrow> held_conns n (remove1 w live) = (if w_name w = n then held_conns n live - {#w_conn w#} else held_conns n live)"
  by (induction live) (auto simp: held_conns_def)

lemma size_held: "size (held_conns n live) = held_count n live"
  by (induction live) (simp_all add: held_count_def)

lemma conns_ok_get:
  assumes "conns_ok cp live peak" and "getConnection made name cp = Inr (w, cp')"
    and "\<And>c n. made = Some c \<Longrightarrow> c \<notin> snd ` set (cp_connections cp n)"
  shows "conns_ok cp' (w # live) (raise_peak (w # live) peak)"
proof -
  let ?xs = "cp_connections cp name"
  have ok: "distinct (map snd (cp_connections cp n))" "used_entries (cp_connections cp n) = held_conns n live"
    "length (cp_connections cp n) = peak n" for n using assms(1) by (auto simp: conns_ok_def)
  have bound: "held_count n live \<le> peak n" for n
    using size_used [of "cp_connections cp n"] ok(2,3) [of n] size_held [of n live] by simp
  have disj: "snd ` set (cp_connections cp m) \<inter> snd ` set (cp_connections cp n) = {}" if "m \<noteq> n" for m n
    using assms(1) that by (auto simp: conns_ok_def)
  have others: "raise_peak (w # live) peak n = peak n" if "n \<noteq> w_name w" for n
    using that bound [of n] by (simp add: raise_peak_def held_count_def)
  show ?thesis
  proof (cases "mark_free ?xs")
    case (Some r)
    obtain c ys where r: "r = (c, ys)" by (cases r)
    with Some assms(2) have w: "w = \<lparr>w_conn = c, w_name = name\<rparr>" and cp': "cp' = cp\<lparr>cp_connections := (cp_connections cp)(name := ys)\<rparr>"
      by (auto simp: getConnection_def split: if_splits)
    have ys: "map snd ys = map snd ?xs" "used_entries ys = add_mset c (used_entries ?xs)" "size (used_entries ?xs) < length ?xs"
      using mark_free_Some [of ?xs c ys] Some r by auto
    have set: "snd ` set ys = snd ` set ?xs" using ys(1) by (metis set_map)
    have "length ys = length ?xs" using ys(1) by (metis length_map)
    moreover have "raise_peak (w # live) peak name = peak name"
      using ys(3) ok(2,3) [of name] by (simp add: raise_peak_def held_count_def w size_held [symmetric]) (simp add: size_held held_count_def)
    ultimately show ?thesis
      using ok disj set ys others by (simp add: conns_ok_def cp' w)
  next
    case None
    then obtain c where c: "made = Some c" "w = \<lparr>w_conn = c, w_name = name\<rparr>"
        "cp' = cp\<lparr>cp_connections := (cp_connections cp)(name := ?xs @ [(True, c)])\<rparr>"
      using assms(2) by (auto simp: getConnection_def split: if_splits option.splits)
    have new: "c \<notin> snd ` set (cp_connections cp n)" for n using assms(3) [OF c(1)] .
    have "raise_peak (w # live) peak name = Suc (peak name)"
      using mark_free_None [OF None] ok(2,3) [of name] size_held [of name live] by (simp add: raise_peak_def held_count_def c)
    then show ?thesis
      using ok disj new others by (auto simp: conns_ok_def c)
  qed
qed

lemma conns_ok_release:
  assumes "conns_ok cp live peak" and "w \<in> set live"
  shows "conns_ok (Wrapper_destroy w cp) (remove1 w live) peak"
proof -
  let ?xs = "cp_connections cp (w_name w)"
  have "w_conn w \<in># used_entries ?xs" using assms by (auto simp: conns_ok_def held_conns_def)
  note u = unmark_entry_used [OF this]
  then have "snd ` set (unmark_entry (w_conn w) ?xs) = snd ` set ?xs" "length (unmark_entry (w_conn w) ?xs) = length ?xs"
    by (metis set_map, metis length_map)
  then show ?thesis
    using assms u held_remove [OF assms(2)] by (simp add: conns_ok_def Wrapper_destroy_def unMark_def)
qed

lemma pool_life_ok: "pool_life cp live peak \<Longrightarrow> conns_ok cp live peak"
proof (induction rule: pool_life.induct)
  case start
  show ?case by (simp add: conns_ok_def ConnectionPool_new_def)
next
  case (connector cp live peak name)
  then show ?case by (simp add: conns_ok_def addConnector_def)
next
  case (get cp live peak made name w cp')
  then show ?case by (intro conns_ok_get)
next
  case (release cp live peak w)
  then show ?case by (intro conns_ok_release)
qed

text \<open>Wrappers of different names have connections from disjoint sets.\<close>

lemma distinct_by_name:
  assumes "\<And>w. w \<in> set ws \<Longrightarrow> w_conn w \<in> S (w_name w)" and "\<And>m n. m \<noteq> n \<Longrightarrow> S m \<inter> S n = {}"
    and "\<And>n. distinct (map w_conn (filter (\<lambda>w. w_name w = n) ws))"
  shows "distinct (map w_conn ws)"
  using assms(1,3)
proof (induction ws)
  case (Cons w ws)
  have "distinct (map w_conn (filter (\<lambda>v. w_name v = n) ws))" for n using Cons.prems(2) [of n] by (simp split: if_splits)
  then have "distinct (map w_conn ws)" using Cons by simp
  moreover have "w_conn v \<noteq> w_conn w" if v: "v \<in> set ws" for v
  proof (cases "w_name v = w_name w")
    case True
    then have "w_conn v \<in> w_conn ` set (filter (\<lambda>u. w_name u = w_name w) ws)" using v by auto
    moreover have "w_conn w \<notin> w_conn ` set (filter (\<lambda>u. w_name u = w_name w) ws)" using Cons.prems(2) [of "w_name w"] by simp
    ultimately show ?thesis by metis
  next
    case False
    then show ?thesis using assms(2) [of "w_name v" "w_name w"] Cons.prems(1) [of v] Cons.prems(1) [of w] v by (metis IntI empty_iff list.set_intros)
  qed
  then have "w_conn w \<notin> w_conn ` set ws" by (metis imageE)
  ultimately show ?case by simp
qed simp

lemma connections_distinct:
  assumes "pool_life cp live peak"
  shows "distinct (map w_conn live)
    \<and> used_entries (cp_connections cp name) = mset (map w_conn (filter (\<lambda>w. w_name w = name) live))
    \<and> length (cp_connections cp name) = peak name"
proof -
  note ok = pool_life_ok [OF assms]
  have one: "distinct (map w_conn (filter (\<lambda>w. w_name w = n) live))" for n
  proof -
    have "distinct (map snd (filter fst (cp_connections cp n)))" using ok by (simp add: conns_ok_def distinct_map_filter)
    moreover have "mset (map snd (filter fst (cp_connections cp n))) = mset (map w_conn (filter (\<lambda>w. w_name w = n) live))"
      using ok by (simp add: conns_ok_def used_entries_def held_conns_def)
    ultimately show ?thesis by (metis mset_eq_imp_distinct_iff)
  qed
  have own: "w_conn w \<in> snd ` set (cp_connections cp (w_name w))" if "w \<in> set live" for w
  proof -
    have "w_conn w \<in># used_entries (cp_connections cp (w_name w))" using ok that by (auto simp: conns_ok_def held_conns_def)
    then show ?thesis by (auto simp: used_entries_def)
  qed
  have disj: "snd ` set (cp_connections cp m) \<inter> snd ` set (cp_connections cp n) = {}" if "m \<noteq> n" for m n
    using ok that by (simp add: conns_ok_def)
  have "distinct (map w_conn live)"
    by (rule distinct_by_name [where S = "\<lambda>n. snd ` set (cp_connections cp n)"]) (erule own, erule disj, rule one)
  moreover have "used_entries (cp_connections cp name) = held_conns name live" "length (cp_connections cp name) = peak name"
    using ok by (simp_all add: conns_ok_def)
  ultimately show ?thesis by (simp only: held_conns_def)
qed

section \<open>Properties\<close>

text \<open>C25. As long as calls of the pool do not overlap, a connection has one user: the connections of all wrappers that are
  held are different, they are exactly those that the pool marks as used, and the pool made no more connections to a
  database than were ever held at once. For calls that do overlap this is false: whenever an entry is free, two threads
  that call \<open>getConnection\<close>, each of whose steps is one read or write, can both be given that entry.\<close>

theorem connections_exclusive:
  "(pool_life cp live peak \<longrightarrow> distinct (map w_conn live)
      \<and> used_entries (cp_connections cp name) = mset (map w_conn (filter (\<lambda>w. w_name w = name) live))
      \<and> length (cp_connections cp name) = peak name)
   \<and> (name \<in> set (cp_factories cp) \<and> mark_free (cp_connections cp name) = Some (c, ys) \<longrightarrow>
       (\<exists>schedule. overlap made schedule (Asking name, Asking name, cp)
         = (Got \<lparr>w_conn = c, w_name = name\<rparr>, Got \<lparr>w_conn = c, w_name = name\<rparr>, cp\<lparr>cp_connections := (cp_connections cp)(name := ys)\<rparr>)))"
  using connections_distinct [of cp live peak name] overlap_same_connection [of name cp c ys made] by blast

section \<open>Witness\<close>

definition sample_connections :: connection_pool where
  "sample_connections = \<lparr>cp_factories = [[111]], cp_connections = (\<lambda>n. if n = [111] then [(True, 1), (True, 2)] else [])\<rparr>"

lemma sample_connections_life:
  "\<exists>peak. pool_life sample_connections [\<lparr>w_conn = 2, w_name = [111]\<rparr>, \<lparr>w_conn = 1, w_name = [111]\<rparr>] peak \<and> peak [111] = 2"
proof -
  define p1 where "p1 = addConnector [111] ConnectionPool_new"
  define p2 where "p2 = p1\<lparr>cp_connections := (cp_connections p1)([111] := [(True, 1)])\<rparr>"
  have 1: "pool_life p1 [] (\<lambda>_. 0)" unfolding p1_def by (intro pool_life.intros)
  have "getConnection (Some 1) [111] p1 = Inr (\<lparr>w_conn = 1, w_name = [111]\<rparr>, p2)"
    by (simp add: getConnection_def p1_def p2_def addConnector_def ConnectionPool_new_def)
  note 2 = pool_life.get [OF 1 this]
  have "getConnection (Some 2) [111] p2 = Inr (\<lparr>w_conn = 2, w_name = [111]\<rparr>, sample_connections)"
    by (auto simp: getConnection_def p1_def p2_def addConnector_def ConnectionPool_new_def sample_connections_def fun_eq_iff)
  note 3 = pool_life.get [OF 2 this]
  show ?thesis
    by (rule exI, rule conjI, rule 3)
      (auto simp: p2_def p1_def addConnector_def ConnectionPool_new_def raise_peak_def held_count_def split: if_splits)
qed

definition idle_connections :: connection_pool where
  "idle_connections = \<lparr>cp_factories = [[111]], cp_connections = (\<lambda>n. if n = [111] then [(True, 1), (False, 2)] else [])\<rparr>"

theorem connections_exclusive_witness:
  "(\<exists>live peak. pool_life sample_connections live peak \<and> length live = 2 \<and> distinct (map w_conn live))
   \<and> (\<exists>schedule cp'. overlap None schedule (Asking [111], Asking [111], idle_connections)
       = (Got \<lparr>w_conn = 2, w_name = [111]\<rparr>, Got \<lparr>w_conn = 2, w_name = [111]\<rparr>, cp'))"
proof -
  obtain peak where p: "pool_life sample_connections [\<lparr>w_conn = 2, w_name = [111]\<rparr>, \<lparr>w_conn = 1, w_name = [111]\<rparr>] peak"
    using sample_connections_life by blast
  have "[111] \<in> set (cp_factories idle_connections)"
      "mark_free (cp_connections idle_connections [111]) = Some (2, [(True, 1), (True, 2)])"
    by (simp_all add: idle_connections_def)
  then show ?thesis
    using connections_exclusive [of sample_connections "[\<lparr>w_conn = 2, w_name = [111]\<rparr>, \<lparr>w_conn = 1, w_name = [111]\<rparr>]" peak "[111]"] p
      connections_exclusive [of idle_connections _ _ "[111]" 2 "[(True, 1), (True, 2)]" None] by fastforce
qed

end
