(* ===== verification/Dialogue.thy ===== *)
theory Dialogue
  imports ClientLife
begin

text \<open>
  Two programs that talk to each other over a connection. A turn of one side is what happens to a packet that arrives:
  its bytes come in chunks of any size, the task that was dispatched calls the handler, and the answer is written. A
  dialogue lets the two sides take turns. The locale \<open>endpoint\<close> is what a side needs of its callbacks: it reads what the
  other side encodes and writes what the other side reads; it proves once, for any codecs, what a turn does and that it
  can be taken.
\<close>

section \<open>Turns\<close>

definition turn :: "'a CRoseSocket_scheme callbacks
    \<Rightarrow> (byte list \<Rightarrow> 'a CRoseSocket_scheme \<Rightarrow> (bool \<times> 'a CRoseSocket_scheme) option)
    \<Rightarrow> byte list \<Rightarrow> 'a CRoseSocket_scheme \<Rightarrow> 'a CRoseSocket_scheme \<Rightarrow> bool" where
  "turn cb handle bytes s s' \<longleftrightarrow> (\<exists>s1 s2 now. receives cb s bytes s1 \<and> run_task cb handle s1 = Some s2
     \<and> (if m_discard_queue s2 = [] then s' = s2 else write_done cb now None s2 = Some s'))"

text \<open>A side that can take a turn: it waits for a packet and has nothing to write.\<close>

definition ready :: "'a CRoseSocket_scheme \<Rightarrow> bool" where
  "ready s \<longleftrightarrow> waiting s \<and> idle s \<and> m_recv_queue s = []"

text \<open>The state after a packet arrived and before its handler runs differs from the one before in the receiving side only.\<close>

definition arrived :: "'a CRoseSocket_scheme \<Rightarrow> 'a CRoseSocket_scheme \<Rightarrow> bool" where
  "arrived s t \<longleftrightarrow> only_received s t \<and> ready t"

lemma arrived_ready: "arrived s t \<Longrightarrow> ready t"
  by (simp add: arrived_def)

lemma arrived_fields:
  assumes "arrived s t"
  shows "m_written t = m_written s" and "m_network_address t = m_network_address s"
    and "CRoseSocket.CRoseSocket.more t = CRoseSocket.CRoseSocket.more s"
  using assms by (subst assms [unfolded arrived_def only_received_def, THEN conjunct1], simp)+

text \<open>What was written, when the other side has it.\<close>

definition sent :: "byte list \<Rightarrow> int \<Rightarrow> 'a CRoseSocket_scheme \<Rightarrow> 'a CRoseSocket_scheme" where
  "sent img now s = s\<lparr>m_written := m_written s @ [img], m_update_time := now\<rparr>"

lemma ready_sent [simp]: "ready (sent img now s) = ready s"
  by (simp add: ready_def sent_def waiting_def idle_def)

lemma last_sent [simp]: "last (m_written (sent img now s)) = img"
  by (simp add: sent_def)

locale endpoint = packet_codec cb dec_head dec_body encode + sender cb image
  for cb :: "'a CRoseSocket_scheme callbacks" and dec_head dec_body encode image +
  assumes OnSent_none: "OnSent cb s = s"
begin

lemma send_ready:
  assumes "ready s" and "emits pack bs" and "length g = MAX_PACKET_SIZE" and "6 + length bs < MAX_PACKET_SIZE"
  shows "send_packet cb ty pack g s = Some (writing (image (header_bytes (length bs) ty 0 @ bs)) s)"
proof -
  let ?p = "header_bytes (length bs) ty 0 @ bs"
  have w: "wire_buffer ?p" by (rule wire_buffer_header [OF assms(4)])
  have "send_data cb ?p s = Some (writing (image ?p) s)"
    using w OnSend_image [OF w] length_image [OF w] assms(1)
    by (auto simp: send_data_def ProcessSend_def wire_buffer_def Let_def ready_def idle_def writing_def)
  then show ?thesis
    using getPacked_pkt_of [OF assms(2,3), of "[]" ty 0] assms(3,4)
    by (simp add: send_packet_def CRosePacket_new_eq)
qed

lemma written_sent:
  assumes "ready s"
  shows "write_done cb now None (writing img s) = Some (sent img now s)"
  using assms by (simp add: write_done_def OnSent_none writing_def ProcessSend_def ready_def idle_def sent_def)

text \<open>A packet arrives whole.\<close>

lemma task_runs:
  assumes "ready s" and "6 + length bs < MAX_PACKET_SIZE" and "unat ty < 2 ^ 11"
    and "receives cb s (encode (header_bytes (length bs) ty 0 @ bs)) s1"
  shows "\<exists>t crc. arrived s t \<and> run_task cb handle s1 =
    (case handle (header_bytes (length bs) ty crc @ bs) t of
       None \<Rightarrow> None | Some (ok, s2) \<Rightarrow> Some (if ok then s2 else snd (shutdown cb False s2)))"
proof -
  have s: "waiting s" "m_recv_queue s = []" "idle s" using assms(1) by (simp_all add: ready_def)
  obtain crc where s1: "only_received s s1" "waiting s1" "m_recv_queue s1 = [header_bytes (length bs) ty crc @ bs]"
    using packet_arrives [OF s(1,2) request_crypt [OF assms(2,3)] assms(4)] by blast
  let ?t = "s1\<lparr>m_tasks := m_tasks s1 - 1, m_recv_queue := []\<rparr>"
  have "only_received s1 ?t" by (simp add: only_received_def)
  then have "only_received s ?t" by (rule only_received_trans [OF s1(1)])
  moreover have "idle ?t" using s(3) by (subst s1(1) [unfolded only_received_def], simp add: idle_def)
  ultimately have "arrived s ?t" using s1(2) by (simp add: arrived_def ready_def waiting_def)
  moreover have "run_task cb handle s1 = (case handle (header_bytes (length bs) ty crc @ bs) ?t of
       None \<Rightarrow> None | Some (ok, s2) \<Rightarrow> Some (if ok then s2 else snd (shutdown cb False s2)))"
    using s1(2,3) by (simp add: run_task_def waiting_def)
  ultimately show ?thesis by blast
qed

text \<open>A turn in which the handler answers, and one in which it ends the conversation.\<close>

lemma turn_answer:
  assumes "ready s" and "6 + length bs < MAX_PACKET_SIZE" and "unat ty < 2 ^ 11"
    and "\<And>t crc. arrived s t \<Longrightarrow> handle (header_bytes (length bs) ty crc @ bs) t = Some (True, writing img (f t)) \<and> ready (f t)"
  shows "\<exists>s'. turn cb handle (encode (header_bytes (length bs) ty 0 @ bs)) s s'"
    and "turn cb handle (encode (header_bytes (length bs) ty 0 @ bs)) s s' \<Longrightarrow>
      \<exists>t now. arrived s t \<and> ready (f t) \<and> s' = sent img now (f t)"
proof -
  let ?bytes = "encode (header_bytes (length bs) ty 0 @ bs)"
  have busy: "m_discard_queue (writing img s2) \<noteq> []" for s2 :: "'a CRoseSocket_scheme" by (simp add: writing_def)
  have step: "\<exists>t. arrived s t \<and> ready (f t) \<and> run_task cb handle s1 = Some (writing img (f t))" if "receives cb s ?bytes s1" for s1
    using task_runs [OF assms(1-3) that, of handle] assms(4) by fastforce
  obtain s1 where r: "receives cb s ?bytes s1"
    using receives_one [of s] request_crypt [OF assms(2,3)] assms(1) by (auto simp: ready_def)
  then obtain t where "ready (f t)" "run_task cb handle s1 = Some (writing img (f t))" using step by blast
  then show "\<exists>s'. turn cb handle ?bytes s s'"
    using r busy written_sent [of "f t"] unfolding turn_def by (metis (no_types, lifting))
  show "\<exists>t now. arrived s t \<and> ready (f t) \<and> s' = sent img now (f t)" if taken: "turn cb handle ?bytes s s'"
  proof -
    obtain s1 s2 now where u: "receives cb s ?bytes s1" "run_task cb handle s1 = Some s2"
        "if m_discard_queue s2 = [] then s' = s2 else write_done cb now None s2 = Some s'"
      using taken unfolding turn_def by blast
    obtain t where t: "arrived s t" "ready (f t)" "s2 = writing img (f t)" using step [OF u(1)] u(2) by auto
    then have "s' = sent img now (f t)" using u(3) busy written_sent [OF t(2), of now img] by simp
    with t show ?thesis by blast
  qed
qed

lemma turn_close:
  assumes "ready s" and "6 + length bs < MAX_PACKET_SIZE" and "unat ty < 2 ^ 11"
    and "\<And>t crc. arrived s t \<Longrightarrow> handle (header_bytes (length bs) ty crc @ bs) t = Some (False, f t) \<and> ready (f t)"
  shows "\<exists>s'. turn cb handle (encode (header_bytes (length bs) ty 0 @ bs)) s s'"
    and "turn cb handle (encode (header_bytes (length bs) ty 0 @ bs)) s s' \<Longrightarrow>
      \<exists>t. arrived s t \<and> s' = snd (shutdown cb False (f t))"
proof -
  let ?bytes = "encode (header_bytes (length bs) ty 0 @ bs)"
  have quiet: "m_discard_queue (snd (shutdown cb False s2)) = []" if "ready s2" for s2
    using that shutdown_frame [of False s2] by (simp add: same_queues_def ready_def idle_def)
  have step: "\<exists>t. arrived s t \<and> ready (f t) \<and> run_task cb handle s1 = Some (snd (shutdown cb False (f t)))"
    if "receives cb s ?bytes s1" for s1
    using task_runs [OF assms(1-3) that, of handle] assms(4) by fastforce
  obtain s1 where r: "receives cb s ?bytes s1"
    using receives_one [of s] request_crypt [OF assms(2,3)] assms(1) by (auto simp: ready_def)
  then show "\<exists>s'. turn cb handle ?bytes s s'" using step [OF r] quiet unfolding turn_def by metis
  show "\<exists>t. arrived s t \<and> s' = snd (shutdown cb False (f t))" if "turn cb handle ?bytes s s'"
    using that step quiet unfolding turn_def by (metis option.inject)
qed

end

section \<open>Dialogues\<close>

text \<open>The client speaks first: the last packet it wrote goes to the server, whose last packet goes back. The server's
  handler may be another one in each round, because it depends on the database and the time.\<close>

fun dialogue :: "'a CRoseSocket_scheme callbacks
    \<Rightarrow> (byte list \<Rightarrow> 'a CRoseSocket_scheme \<Rightarrow> (bool \<times> 'a CRoseSocket_scheme) option)
    \<Rightarrow> 'b CRoseSocket_scheme callbacks
    \<Rightarrow> (byte list \<Rightarrow> 'b CRoseSocket_scheme \<Rightarrow> (bool \<times> 'b CRoseSocket_scheme) option) list
    \<Rightarrow> 'a CRoseSocket_scheme \<times> 'b CRoseSocket_scheme \<Rightarrow> 'a CRoseSocket_scheme \<times> 'b CRoseSocket_scheme \<Rightarrow> bool" where
  "dialogue cb handle server_cb [] (c, s) (c', s') \<longleftrightarrow> c' = c \<and> s' = s"
| "dialogue cb handle server_cb (server_handle # rest) (c, s) (c', s') \<longleftrightarrow>
    (\<exists>s1 c1. turn server_cb server_handle (last (m_written c)) s s1 \<and> turn cb handle (last (m_written s1)) c c1
      \<and> dialogue cb handle server_cb rest (c1, s1) (c', s'))"

text \<open>A round that always works out takes a dialogue on.\<close>

lemma dialogue_round:
  assumes "\<exists>s1. turn server_cb server_handle (last (m_written c)) s s1"
    and "\<And>s1. turn server_cb server_handle (last (m_written c)) s s1 \<Longrightarrow> \<exists>c1. turn cb handle (last (m_written s1)) c c1"
    and "\<And>s1 c1. turn server_cb server_handle (last (m_written c)) s s1 \<Longrightarrow> turn cb handle (last (m_written s1)) c c1 \<Longrightarrow>
      (\<exists>x. dialogue cb handle server_cb rest (c1, s1) x) \<and> (\<forall>c' s'. dialogue cb handle server_cb rest (c1, s1) (c', s') \<longrightarrow> Q c' s')"
  shows "(\<exists>x. dialogue cb handle server_cb (server_handle # rest) (c, s) x)
    \<and> (\<forall>c' s'. dialogue cb handle server_cb (server_handle # rest) (c, s) (c', s') \<longrightarrow> Q c' s')"
proof
  obtain s1 where s1: "turn server_cb server_handle (last (m_written c)) s s1" using assms(1) by blast
  then obtain c1 where c1: "turn cb handle (last (m_written s1)) c c1" using assms(2) by blast
  obtain c' s' where "dialogue cb handle server_cb rest (c1, s1) (c', s')" using assms(3) [OF s1 c1] by (metis surj_pair)
  then have "dialogue cb handle server_cb (server_handle # rest) (c, s) (c', s')" using s1 c1 by auto
  then show "\<exists>x. dialogue cb handle server_cb (server_handle # rest) (c, s) x" by blast
  show "\<forall>c' s'. dialogue cb handle server_cb (server_handle # rest) (c, s) (c', s') \<longrightarrow> Q c' s'"
    using assms(3) by auto
qed

text \<open>Two endpoints that read each other's packets. \<open>asks\<close>: the client is ready and the last thing it wrote is this
  packet.\<close>

definition plain :: "u16 \<Rightarrow> byte list \<Rightarrow> byte list" where
  "plain ty bs = header_bytes (length bs) ty 0 @ bs"

definition fits :: "u16 \<Rightarrow> byte list \<Rightarrow> bool" where
  "fits ty bs \<longleftrightarrow> 6 + length bs < MAX_PACKET_SIZE \<and> unat ty < 2 ^ 11"

locale conversation = client: endpoint cb dec_head dec_body answer ask
    + server: endpoint server_cb sdec_head sdec_body ask answer
  for cb :: "'a CRoseSocket_scheme callbacks" and dec_head dec_body answer ask
    and server_cb :: "'b CRoseSocket_scheme callbacks" and sdec_head sdec_body
begin

definition asks :: "u16 \<Rightarrow> byte list \<Rightarrow> 'a CRoseSocket_scheme \<Rightarrow> bool" where
  "asks ty bs c \<longleftrightarrow> ready c \<and> fits ty bs \<and> last (m_written c) = ask (plain ty bs)"

text \<open>A round in which both sides go on.\<close>

lemma round:
  assumes "asks ty bs c" and "ready s" and "fits ty' bs'" and "fits ty'' bs''"
    and server: "\<And>t crc. arrived s t \<Longrightarrow>
      server_handle (header_bytes (length bs) ty crc @ bs) t = Some (True, writing (answer (plain ty' bs')) (f t)) \<and> ready (f t)"
    and client: "\<And>t crc. arrived c t \<Longrightarrow>
      handle (header_bytes (length bs') ty' crc @ bs') t = Some (True, writing (ask (plain ty'' bs'')) t)"
    and rest: "\<And>t u now now'. arrived s t \<Longrightarrow> arrived c u \<Longrightarrow> ready (f t) \<Longrightarrow> asks ty'' bs'' (sent (ask (plain ty'' bs'')) now u) \<Longrightarrow>
      (\<exists>x. dialogue cb handle server_cb rest (sent (ask (plain ty'' bs'')) now u, sent (answer (plain ty' bs')) now' (f t)) x)
      \<and> (\<forall>c' s'. dialogue cb handle server_cb rest
          (sent (ask (plain ty'' bs'')) now u, sent (answer (plain ty' bs')) now' (f t)) (c', s') \<longrightarrow> Q c' s')"
  shows "(\<exists>x. dialogue cb handle server_cb (server_handle # rest) (c, s) x)
    \<and> (\<forall>c' s'. dialogue cb handle server_cb (server_handle # rest) (c, s) (c', s') \<longrightarrow> Q c' s')"
proof -
  have c: "ready c" "6 + length bs < MAX_PACKET_SIZE" "unat ty < 2 ^ 11" "last (m_written c) = ask (header_bytes (length bs) ty 0 @ bs)"
    using assms(1) by (simp_all add: asks_def fits_def plain_def)
  have b': "6 + length bs' < MAX_PACKET_SIZE" "unat ty' < 2 ^ 11" using assms(3) by (simp_all add: fits_def)
  have u: "ready u" if "arrived c u" for u using that by (simp add: arrived_def)
  note st = server.turn_answer [where handle = server_handle and f = f and img = "answer (plain ty' bs')", OF assms(2) c(2,3) server]
  have ct: "handle (header_bytes (length bs') ty' crc @ bs') u = Some (True, writing (ask (plain ty'' bs'')) u) \<and> ready u"
    if "arrived c u" for u crc using client [OF that] u [OF that] by simp
  note ct = client.turn_answer [where handle = handle and f = "\<lambda>u. u" and img = "ask (plain ty'' bs'')", OF c(1) b' ct]
  have last: "last (m_written s1) = answer (header_bytes (length bs') ty' 0 @ bs')"
    if "turn server_cb server_handle (last (m_written c)) s s1" for s1
    using st(2) [of s1] that c(4) by (auto simp: plain_def)
  show ?thesis
  proof (rule dialogue_round)
    show "\<exists>s1. turn server_cb server_handle (last (m_written c)) s s1" using st(1) c(4) by simp
    show "\<exists>c1. turn cb handle (last (m_written s1)) c c1" if "turn server_cb server_handle (last (m_written c)) s s1" for s1
      using ct(1) last [OF that] by simp
    fix s1 c1
    assume 1: "turn server_cb server_handle (last (m_written c)) s s1" and 2: "turn cb handle (last (m_written s1)) c c1"
    obtain t now' where t: "arrived s t" "ready (f t)" "s1 = sent (answer (plain ty' bs')) now' (f t)" using st(2) [of s1] 1 c(4) by auto
    obtain u now where v: "arrived c u" "c1 = sent (ask (plain ty'' bs'')) now u" using ct(2) [of c1] 2 last [OF 1] by auto
    have "asks ty'' bs'' c1" using v u assms(4) by (simp add: asks_def)
    then show "(\<exists>x. dialogue cb handle server_cb rest (c1, s1) x) \<and> (\<forall>c' s'. dialogue cb handle server_cb rest (c1, s1) (c', s') \<longrightarrow> Q c' s')"
      using rest t v by simp
  qed
qed

text \<open>The last round: the client has what it wants and closes the connection.\<close>

lemma last_round:
  assumes "asks ty bs c" and "ready s" and "fits ty' bs'"
    and server: "\<And>t crc. arrived s t \<Longrightarrow>
      server_handle (header_bytes (length bs) ty crc @ bs) t = Some (True, writing (answer (plain ty' bs')) (f t)) \<and> ready (f t)"
    and client: "\<And>t crc. arrived c t \<Longrightarrow> handle (header_bytes (length bs') ty' crc @ bs') t = Some (False, h t) \<and> ready (h t)"
    and final: "\<And>t u now'. arrived s t \<Longrightarrow> arrived c u \<Longrightarrow>
      Q (snd (shutdown cb False (h u))) (sent (answer (plain ty' bs')) now' (f t))"
  shows "(\<exists>x. dialogue cb handle server_cb [server_handle] (c, s) x)
    \<and> (\<forall>c' s'. dialogue cb handle server_cb [server_handle] (c, s) (c', s') \<longrightarrow> Q c' s')"
proof -
  have c: "ready c" "6 + length bs < MAX_PACKET_SIZE" "unat ty < 2 ^ 11" "last (m_written c) = ask (header_bytes (length bs) ty 0 @ bs)"
    using assms(1) by (simp_all add: asks_def fits_def plain_def)
  have b': "6 + length bs' < MAX_PACKET_SIZE" "unat ty' < 2 ^ 11" using assms(3) by (simp_all add: fits_def)
  note st = server.turn_answer [where handle = server_handle and f = f and img = "answer (plain ty' bs')", OF assms(2) c(2,3) server]
  note ct = client.turn_close [where handle = handle and f = h, OF c(1) b' client]
  have last: "last (m_written s1) = answer (header_bytes (length bs') ty' 0 @ bs')"
    if "turn server_cb server_handle (last (m_written c)) s s1" for s1
    using st(2) [of s1] that c(4) by (auto simp: plain_def)
  show ?thesis
  proof (rule dialogue_round)
    show "\<exists>s1. turn server_cb server_handle (last (m_written c)) s s1" using st(1) c(4) by simp
    show "\<exists>c1. turn cb handle (last (m_written s1)) c c1" if "turn server_cb server_handle (last (m_written c)) s s1" for s1
      using ct(1) last [OF that] by simp
    fix s1 c1
    assume 1: "turn server_cb server_handle (last (m_written c)) s s1" and 2: "turn cb handle (last (m_written s1)) c c1"
    obtain t now' where t: "arrived s t" "s1 = sent (answer (plain ty' bs')) now' (f t)" using st(2) [of s1] 1 c(4) by auto
    obtain u where v: "arrived c u" "c1 = snd (shutdown cb False (h u))" using ct(2) [of c1] 2 last [OF 1] by auto
    then show "(\<exists>x. dialogue cb handle server_cb [] (c1, s1) x) \<and> (\<forall>c' s'. dialogue cb handle server_cb [] (c1, s1) (c', s') \<longrightarrow> Q c' s')"
      using final t by auto
  qed
qed

end

end
