(* ===== verification/Bot.thy ===== *)
theory Bot
  imports Dialogue CLoginClient CCharClient
begin

text \<open>
  The test client of \<open>bot/src/main.cpp\<close>: it logs in, asks for the channels of the first server, selects the first
  channel, goes to the char server, selects the first character and goes to the map server. It is the other side of the
  protocol, so its dialogues with the login and the char server show that the two sides fit together, from the bytes on
  the wire up.

  \<open>g\<close> is what the memory of a new packet held; members that no constructor sets are arguments of the constructors.
\<close>

section \<open>The base class\<close>

definition Bot_OnSend :: "u32 list list \<Rightarrow> byte list \<Rightarrow> (bool \<times> byte list) option" where
  "Bot_OnSend rt buf = map_option (Pair True) (encodeClientPacket rt buf)"

definition Bot_OnReceived :: "u32 list list \<Rightarrow> 'a CRoseSocket_scheme \<Rightarrow> (bool \<times> 'a CRoseSocket_scheme) option" where
  "Bot_OnReceived rt = receive_packet (decodeServerHeader rt) (decodeServerBody rt)"

text \<open>\<open>OnConnected\<close> asks to be accepted; sending on a connection that was just made cannot fail.\<close>

definition Bot_OnConnected :: "'a CRoseSocket_scheme callbacks \<Rightarrow> byte list \<Rightarrow> 'a CRoseSocket_scheme \<Rightarrow> 'a CRoseSocket_scheme" where
  "Bot_OnConnected cb g s =
    (case send_packet cb PAKCS_ACCEPT_REQ (CliAcceptReq_pack CliAcceptReq) g s of None \<Rightarrow> s | Some s' \<Rightarrow> s')"

definition bot_callbacks :: "u32 list list \<Rightarrow> byte list \<Rightarrow> 'a CRoseSocket_scheme callbacks" where
  "bot_callbacks rt g =
    (let cb = initCallbacks\<lparr>OnReceived := Bot_OnReceived rt, OnSend := Bot_OnSend rt\<rparr> in cb\<lparr>OnConnected := Bot_OnConnected cb g\<rparr>)"

text \<open>\<open>connect\<close> and \<open>start_recv\<close>.\<close>

definition bot_start :: "'a CRoseSocket_scheme callbacks \<Rightarrow> 'a CRoseSocket_scheme \<Rightarrow> 'a CRoseSocket_scheme option" where
  "bot_start cb s = recv_data cb (snd (connect cb False s))"

definition bot_password :: cstring where
  "bot_password = ascii ''098f6bcd4621d373cade4e832627b4f6''"

section \<open>At the login server\<close>

record LoginClient = CRoseSocket +
  lc_sessionId :: u32
  lc_ip :: cstring
  lc_port :: u16

definition LoginClient_new :: "u32 \<Rightarrow> u16 \<Rightarrow> CNetwork_Asio \<Rightarrow> LoginClient" where
  "LoginClient_new sid port sock = CRoseSocket.CRoseSocket.extend (CRoseSocket_new sock) (LoginClient.fields sid [] port)"

definition bot_login :: CliLoginReq where
  "bot_login = \<lparr>CliLoginReq.m_password = bot_password, m_username = ascii ''test2''\<rparr>"

definition LoginClient_HandlePacket :: "LoginClient callbacks \<Rightarrow> byte list \<Rightarrow> byte list \<Rightarrow> LoginClient
    \<Rightarrow> (bool \<times> LoginClient) option" where
  "LoginClient_HandlePacket cb g buf s =
    (let ty = packet_type buf in
     if ty = PAKSS_ACCEPT_REPLY then
       map_option (Pair True) (send_packet cb PAKCS_LOGIN_REQ (CliLoginReq_pack bot_login) g s)
     else if ty = PAKLC_LOGIN_REPLY then
       (case SrvLoginReply_recv g buf of
          Inl e \<Rightarrow> None
        | Inr reply \<Rightarrow>
            if m_login_result reply \<noteq> 0 then Some (False, s)
            else case m_servers reply of
              [] \<Rightarrow> None
            | server # _ \<Rightarrow> map_option (Pair True) (send_packet cb PAKCS_CHANNEL_LIST_REQ
                (CliChannelListReq_pack \<lparr>CliChannelListReq.m_serverId = m_server_id server\<rparr>) g s))
     else if ty = PAKLC_CHANNEL_LIST_REPLY then
       (case SrvChannelListReply_recv g buf of
          Inl e \<Rightarrow> None
        | Inr reply \<Rightarrow>
            (case m_channels reply of
               [] \<Rightarrow> Some (False, s)
             | channel # _ \<Rightarrow> map_option (Pair True) (send_packet cb PAKCS_SRV_SELECT_REQ
                 (CliSrvSelectReq_pack \<lparr>CliSrvSelectReq.m_serverId = m_list_id reply, m_channelId = m_channel_id channel\<rparr>) g s)))
     else if ty = PAKLC_SRV_SELECT_REPLY then
       (case SrvSrvSelectReply_recv g buf of
          Inl e \<Rightarrow> None
        | Inr reply \<Rightarrow>
            if SrvSrvSelectReply.m_result reply \<noteq> 0 then Some (False, s)
            else Some (False, s\<lparr>lc_sessionId := SrvSrvSelectReply.m_sessionId reply, lc_ip := SrvSrvSelectReply.m_ip reply,
                   lc_port := SrvSrvSelectReply.m_port reply\<rparr>))
     else Some (False, s))"

section \<open>At the char server\<close>

record CharClient = CRoseSocket +
  cc_sessionId :: u32
  cc_port :: u16
  cc_sessionSeed :: u32
  cc_ip :: cstring

definition CharClient_new :: "u32 \<Rightarrow> u16 \<Rightarrow> u32 \<Rightarrow> CNetwork_Asio \<Rightarrow> CharClient" where
  "CharClient_new sid port seed sock = CRoseSocket.CRoseSocket.extend (CRoseSocket_new sock) (CharClient.fields sid port seed [])"

definition CharClient_HandlePacket :: "CharClient callbacks \<Rightarrow> byte list \<Rightarrow> byte list \<Rightarrow> CharClient
    \<Rightarrow> (bool \<times> CharClient) option" where
  "CharClient_HandlePacket cb g buf s =
    (let ty = packet_type buf in
     if ty = PAKSS_ACCEPT_REPLY then
       map_option (Pair True) (send_packet cb PAKCS_JOIN_SERVER_REQ
         (CliJoinServerReq_pack \<lparr>CliJoinServerReq.m_sessionId = cc_sessionId s, m_password = bot_password\<rparr>) g s)
     else if ty = PAKSC_JOIN_SERVER_REPLY then
       (case SrvJoinServerReply_recv g buf of
          Inl e \<Rightarrow> None
        | Inr reply \<Rightarrow>
            if SrvJoinServerReply.m_result reply \<noteq> 0 then Some (False, s)
            else map_option (Pair True) (send_packet cb PAKCS_CHAR_LIST_REQ (CliCharListReq_pack CliCharListReq) g s))
     else if ty = PAKCC_CHAR_LIST_REPLY then
       (case SrvCharacterListReply_recv g buf of
          Inl e \<Rightarrow> None
        | Inr reply \<Rightarrow>
            (case m_character_list reply of
               [] \<Rightarrow> None
             | c # _ \<Rightarrow> map_option (Pair True) (send_packet cb PAKCS_SELECT_CHAR_REQ
                 (CliSelectCharReq_pack \<lparr>CliSelectCharReq.m_charId = 0, m_runMode = 0, m_rideMode = 0, m_name = ci_name c\<rparr>) g s)))
     else if ty = PAKCC_SWITCH_SERVER then
       (case SrvSwitchServer_recv g buf of
          Inl e \<Rightarrow> None
        | Inr reply \<Rightarrow> Some (False, s\<lparr>cc_ip := SrvSwitchServer.m_ip reply, cc_port := SrvSwitchServer.m_port reply,
              cc_sessionId := SrvSwitchServer.m_sessionId reply, cc_sessionSeed := SrvSwitchServer.m_sessionSeed reply\<rparr>))
     else Some (False, s))"

section \<open>At the map server\<close>

record MapClient = CRoseSocket +
  mc_sessionId :: u32
  mc_sessionSeed :: u32

definition MapClient_new :: "u32 \<Rightarrow> u32 \<Rightarrow> CNetwork_Asio \<Rightarrow> MapClient" where
  "MapClient_new sid seed sock = CRoseSocket.CRoseSocket.extend (CRoseSocket_new sock) (MapClient.fields sid seed)"

definition MapClient_HandlePacket :: "MapClient callbacks \<Rightarrow> byte list \<Rightarrow> byte list \<Rightarrow> MapClient
    \<Rightarrow> (bool \<times> MapClient) option" where
  "MapClient_HandlePacket cb g buf s =
    (let ty = packet_type buf in
     if ty = PAKSS_ACCEPT_REPLY then
       map_option (Pair True) (send_packet cb PAKCS_JOIN_SERVER_REQ
         (CliJoinServerReq_pack \<lparr>CliJoinServerReq.m_sessionId = mc_sessionId s, m_password = bot_password\<rparr>) g s)
     else Some (ty \<in> {PAKSC_JOIN_SERVER_REPLY, PAKWC_SELECT_CHAR_REPLY, PAKWC_INVENTORY_DATA, PAKWC_QUEST_DATA,
       PAKWC_BILLING_MESSAGE}, s))"

text \<open>What \<open>main\<close> does when a client has become inactive: it goes on if it was told an address.\<close>

definition main_char :: "u16 \<Rightarrow> u32 \<Rightarrow> CNetwork_Asio \<Rightarrow> LoginClient \<Rightarrow> CharClient option" where
  "main_char port seed sock login =
    (if lc_ip login \<noteq> [] then Some (CharClient_new (lc_sessionId login) port seed (snd (init (lc_ip login) (lc_port login) sock))) else None)"

definition main_map :: "CNetwork_Asio \<Rightarrow> CharClient \<Rightarrow> MapClient option" where
  "main_map sock c =
    (if cc_ip c \<noteq> [] then Some (MapClient_new (cc_sessionId c) (cc_sessionSeed c) (snd (init (cc_ip c) (cc_port c) sock))) else None)"

section \<open>The two sides fit\<close>

interpretation bot: endpoint "bot_callbacks rt g :: 'a CRoseSocket_scheme callbacks" "decodeServerHeader rt" "decodeServerBody rt"
  "\<lambda>p. the (encodeServerPacket rt p)" "\<lambda>p. the (encodeClientPacket rt p)"
proof
  fix buf :: "byte list" assume w: "wire_buffer buf"
  from encode_packet_total [OF w, of HeadCryptedClient 0 rt]
  show "OnSend (bot_callbacks rt g :: 'a CRoseSocket_scheme callbacks) buf = Some (True, the (encodeClientPacket rt buf))"
    and "length (the (encodeClientPacket rt buf)) = length buf"
    by (auto simp: bot_callbacks_def Let_def Bot_OnSend_def encodeClientPacket_def)
qed (auto simp: bot_callbacks_def Let_def Bot_OnReceived_def initCallbacks_def same_queues_def server_frames.decodes_ok
      shutdown_def disconnect_def)

interpretation login_side: endpoint "login_callbacks rt hs" "decodeClientHeader rt" "decodeClientBody rt"
  "\<lambda>p. the (encodeClientPacket rt p)" "\<lambda>p. the (encodeServerPacket rt p)"
proof
  fix buf :: "byte list" assume w: "wire_buffer buf"
  from client_sends.OnSend_image [OF w, of rt] client_sends.length_image [OF w, of rt]
  show "OnSend (login_callbacks rt hs) buf = Some (True, the (encodeServerPacket rt buf))"
    and "length (the (encodeServerPacket rt buf)) = length buf"
    by (simp_all add: login_OnSend client_callbacks_def)
qed (auto simp: login_callbacks_def client_callbacks_def initCallbacks_def same_queues_def CLoginClient_OnDisconnected_def)

interpretation char_side: endpoint "char_callbacks rt onl" "decodeClientHeader rt" "decodeClientBody rt"
  "\<lambda>p. the (encodeClientPacket rt p)" "\<lambda>p. the (encodeServerPacket rt p)"
proof
  fix buf :: "byte list" assume w: "wire_buffer buf"
  from client_sends.OnSend_image [OF w, of rt] client_sends.length_image [OF w, of rt]
  show "OnSend (char_callbacks rt onl) buf = Some (True, the (encodeServerPacket rt buf))"
    and "length (the (encodeServerPacket rt buf)) = length buf"
    by (simp_all add: char_OnSend client_callbacks_def)
qed (auto simp: char_callbacks_def client_callbacks_def initCallbacks_def same_queues_def CCharClient_OnDisconnected_def char_log_def
    split: option.splits)

interpretation at_login: conversation "bot_callbacks rt g" "decodeServerHeader rt" "decodeServerBody rt"
  "\<lambda>p. the (encodeServerPacket rt p)" "\<lambda>p. the (encodeClientPacket rt p)" "login_callbacks rt hs" "decodeClientHeader rt" "decodeClientBody rt"
  ..

interpretation at_char: conversation "bot_callbacks rt g" "decodeServerHeader rt" "decodeServerBody rt"
  "\<lambda>p. the (encodeServerPacket rt p)" "\<lambda>p. the (encodeClientPacket rt p)" "char_callbacks rt onl" "decodeClientHeader rt" "decodeClientBody rt"
  ..

text \<open>The packet identifiers that the handlers tell apart.\<close>

lemmas login_packet_ids = PAKCS_LOGIN_REQ_def PAKCS_CHANNEL_LIST_REQ_def PAKCS_SRV_SELECT_REQ_def PAKCS_ACCEPT_REQ_def PAKCS_ALIVE_def
  PAKSS_ACCEPT_REPLY_def PAKLC_LOGIN_REPLY_def PAKLC_CHANNEL_LIST_REPLY_def PAKLC_SRV_SELECT_REPLY_def

lemma bot_texts:
  "length bot_password = 32" "0 \<notin> set bot_password" "0 \<notin> set (CliLoginReq.m_username bot_login)"
  "length (CliLoginReq.m_username bot_login) = 5" "CliLoginReq.m_password bot_login = bot_password"
  by (simp_all add: bot_password_def ascii_def bot_login_def)

lemma bot_login_fits: "CliLoginReq_ok bot_login" "fits PAKCS_LOGIN_REQ (CliLoginReq_wire bot_login)"
proof -
  have "length (takeWhile (\<lambda>c. c \<noteq> 0) bot_password) \<le> 32" using length_takeWhile_le [of _ bot_password] bot_texts(1) by metis
  then show "fits PAKCS_LOGIN_REQ (CliLoginReq_wire bot_login)"
    by (simp add: fits_def CliLoginReq_wire_def bot_texts MAX_PACKET_SIZE_def PAKCS_LOGIN_REQ_def)
qed (simp add: CliLoginReq_ok_def bot_texts)

text \<open>A bot that has connected has asked to be accepted.\<close>

lemma bot_connected:
  fixes s :: "'a CRoseSocket_scheme"
  assumes "waiting (s\<lparr>m_reading := Some 6\<rparr>)" and "idle s" and "m_recv_queue s = []" and "length g = MAX_PACKET_SIZE"
  shows "\<exists>b. bot_start (bot_callbacks rt g) s = Some b \<and>
    write_done (bot_callbacks rt g) now None b = Some (sent (the (encodeClientPacket rt (plain PAKCS_ACCEPT_REQ []))) now
      (s\<lparr>m_socket_open := True, m_remote_connection := True, m_reading := Some 6\<rparr>))"
proof -
  let ?cb0 = "initCallbacks\<lparr>OnReceived := Bot_OnReceived rt, OnSend := Bot_OnSend rt\<rparr> :: 'a CRoseSocket_scheme callbacks"
  let ?p = "plain PAKCS_ACCEPT_REQ []"
  let ?s = "s\<lparr>m_socket_open := True, m_remote_connection := True\<rparr>"
  have w: "wire_buffer ?p" unfolding plain_def by (rule wire_buffer_header) (simp add: MAX_PACKET_SIZE_def)
  obtain e where e: "encodeClientPacket rt ?p = Some e" "length e = length ?p"
    using encode_packet_total [OF w, of HeadCryptedClient 0 rt] by (auto simp: encodeClientPacket_def)
  have "fst (getPacked (CliAcceptReq_pack CliAcceptReq) (CRosePacket_new PAKCS_ACCEPT_REQ 0 g)) = ?p"
    using getPacked_pkt_of [OF CliAcceptReq.emits_pack [of CliAcceptReq] assms(4), of "[]" PAKCS_ACCEPT_REQ 0] assms(4)
    by (simp add: CRosePacket_new_eq plain_def CliAcceptReq_wire_def MAX_PACKET_SIZE_def)
  then have "send_packet ?cb0 PAKCS_ACCEPT_REQ (CliAcceptReq_pack CliAcceptReq) g ?s = Some (writing e ?s)"
    using e w assms(2) by (simp add: send_packet_def send_data_def ProcessSend_def wire_buffer_def Let_def idle_def writing_def Bot_OnSend_def)
  then have c: "snd (connect (bot_callbacks rt g) False s) = writing e ?s"
    using assms(2) by (simp add: connect_def bot_callbacks_def Let_def initCallbacks_def Bot_OnConnected_def writing_def idle_def)
  have "bot_start (bot_callbacks rt g) s = Some (writing e (?s\<lparr>m_reading := Some 6\<rparr>))"
    unfolding bot_start_def c
    by (subst bot.recv_data_start [where a = 0 and n = 6])
       (use assms(1) in \<open>simp_all add: writing_def waiting_def MAX_PACKET_SIZE_def\<close>)
  moreover have "ready (?s\<lparr>m_reading := Some 6\<rparr>)" using assms(1-3) by (simp add: ready_def waiting_def idle_def)
  ultimately show ?thesis using bot.written_sent e(1) by fastforce
qed

lemma connected_asks:
  fixes s :: "'a CRoseSocket_scheme"
  assumes "waiting (s\<lparr>m_reading := Some 6\<rparr>)" and "idle s" and "m_recv_queue s = []" and "length g = MAX_PACKET_SIZE"
  shows "\<exists>b b'. bot_start (bot_callbacks rt g) s = Some b \<and> write_done (bot_callbacks rt g) now None b = Some b'
    \<and> ready b' \<and> fits PAKCS_ACCEPT_REQ [] \<and> last (m_written b') = the (encodeClientPacket rt (plain PAKCS_ACCEPT_REQ []))
    \<and> CRoseSocket.CRoseSocket.more b' = CRoseSocket.CRoseSocket.more s"
proof -
  let ?s = "s\<lparr>m_socket_open := True, m_remote_connection := True, m_reading := Some 6\<rparr>"
  have "ready ?s" using assms(1-3) by (simp add: ready_def waiting_def idle_def)
  moreover have "CRoseSocket.CRoseSocket.more (sent img now ?s) = CRoseSocket.CRoseSocket.more s" for img by (simp add: sent_def)
  moreover have "fits PAKCS_ACCEPT_REQ []" by (simp add: fits_def MAX_PACKET_SIZE_def PAKCS_ACCEPT_REQ_def)
  ultimately show ?thesis using bot_connected [OF assms, of rt now] by (metis last_sent ready_sent)
qed

end
