(* ===== verification/BotLogin.thy ===== *)
theory BotLogin
  imports Bot
begin

text \<open>
  The dialogue of the bot with the login server: what each of the two makes of the other's packets, and the four rounds
  from the request to be accepted to the address of the char server.
\<close>

section \<open>What the login server answers\<close>

lemma accept_handled:
  assumes "ready t" and "length (env_memory env) = MAX_PACKET_SIZE"
  shows "CLoginClient_HandlePacket (login_callbacks rt hs) env (header_bytes 0 PAKCS_ACCEPT_REQ crc @ []) t
    = Some (True, writing (the (encodeServerPacket rt (plain PAKSS_ACCEPT_REPLY (SrvAcceptReply_wire \<lparr>SrvAcceptReply.m_result = 2, m_randValue = env_now env\<rparr>)))) t)"
proof -
  have "packet_type (header_bytes 0 PAKCS_ACCEPT_REQ crc @ []) = PAKCS_ACCEPT_REQ" by (rule packet_type_header)
  then show ?thesis
    using login_side.send_ready [OF assms(1) SrvAcceptReply.emits_pack assms(2), of "\<lparr>SrvAcceptReply.m_result = 2, m_randValue = env_now env\<rparr>"]
    by (simp add: CLoginClient_HandlePacket_def CRoseSocket_HandlePacket_def login_packet_ids plain_def SrvAcceptReply_wire_def MAX_PACKET_SIZE_def)
qed

text \<open>The channels of a server, as the login server lists them.\<close>

definition offered :: "login_env \<Rightarrow> u32 \<Rightarrow> SrvChannelListReply" where
  "offered env sid = fold (\<lambda>server p.
       if is_char_server server \<and> m_network_id server = sid - 1
       then fold (\<lambda>info. addChannel (channelName info) (ucast (ChannelID info + 1)) 0 0 0) (m_channel_list server) p
       else p)
     (env_iscs env) (SrvChannelListReply_new sid)"

lemma offered_id: "m_list_id (offered env sid) = sid"
proof -
  have inner: "m_list_id (fold (\<lambda>info. addChannel (channelName info) (ucast (ChannelID info + 1)) 0 0 0) cs p) = m_list_id p" for cs p
    by (induction cs arbitrary: p) (simp_all add: addChannel_def)
  have "m_list_id (fold (\<lambda>server p. if is_char_server server \<and> m_network_id server = sid - 1
       then fold (\<lambda>info. addChannel (channelName info) (ucast (ChannelID info + 1)) 0 0 0) (m_channel_list server) p else p) iscs p)
     = m_list_id p" for iscs p
    by (induction iscs arbitrary: p) (simp_all add: inner)
  then show ?thesis by (simp add: offered_def SrvChannelListReply_new_def)
qed

lemma channels_handled:
  assumes "ready t" and "m_login_state t = LOGGEDIN" and "length (env_memory env) = MAX_PACKET_SIZE"
    and "fits PAKLC_CHANNEL_LIST_REPLY (SrvChannelListReply_wire (offered env sid))"
  shows "CLoginClient_HandlePacket (login_callbacks rt hs) env
      (header_bytes (length (CliChannelListReq_wire \<lparr>CliChannelListReq.m_serverId = sid\<rparr>)) PAKCS_CHANNEL_LIST_REQ crc
        @ CliChannelListReq_wire \<lparr>CliChannelListReq.m_serverId = sid\<rparr>) t
    = Some (True, writing (the (encodeServerPacket rt (plain PAKLC_CHANNEL_LIST_REPLY (SrvChannelListReply_wire (offered env sid))))) t)"
proof -
  let ?P = "\<lparr>CliChannelListReq.m_serverId = sid\<rparr>"
  have "6 + length (CliChannelListReq_wire ?P) < MAX_PACKET_SIZE" by (simp add: CliChannelListReq_wire_def MAX_PACKET_SIZE_def)
  from CliChannelListReq.recv_wire [OF _ this, of "env_memory env" PAKCS_CHANNEL_LIST_REQ crc] assms(3)
  have "CLoginClient_HandlePacket (login_callbacks rt hs) env
      (header_bytes (length (CliChannelListReq_wire ?P)) PAKCS_CHANNEL_LIST_REQ crc @ CliChannelListReq_wire ?P) t
    = ChannelList (login_callbacks rt hs) env ?P t"
    by (simp add: CLoginClient_HandlePacket_def CliChannelListReq_recv_def CliChannelListReq_ok_def)
  also have "\<dots> = Some (True, writing (the (encodeServerPacket rt (plain PAKLC_CHANNEL_LIST_REPLY (SrvChannelListReply_wire (offered env sid))))) t)"
    using login_side.send_ready [OF assms(1) SrvChannelListReply.emits_pack assms(3), where ty = PAKLC_CHANNEL_LIST_REPLY] assms(2,4)
    by (simp add: ChannelList_def offered_def [symmetric] plain_def fits_def)
  finally show ?thesis .
qed

lemma find_first: "filter P xs = x # ys \<Longrightarrow> find (\<lambda>y. P y \<and> f y = f x) xs = Some x"
  by (induction xs) (auto split: if_splits dest: filter_eq_ConsD)

text \<open>The client after it selected a server.\<close>

definition transferred :: "u8 \<Rightarrow> CLoginClient \<Rightarrow> CLoginClient" where
  "transferred ch s = s\<lparr>m_login_state := TRANSFERING, m_sql := m_sql s @ [InsertSession (m_session_id s) (m_userid s) (ch - 1)]\<rparr>"

definition select_reply :: "CLoginISC \<Rightarrow> u32 \<Rightarrow> SrvSrvSelectReply" where
  "select_reply svr session = \<lparr>SrvSrvSelectReply.m_result = 0, m_sessionId = session, m_cryptVal = 0, m_ip = m_network_address svr,
     m_port = m_network_port svr\<rparr>"

lemma select_handled:
  assumes "ready t" and "m_login_state t = LOGGEDIN" and "length (env_memory env) = MAX_PACKET_SIZE" and "q_statement env"
    and "filter is_char_server (env_iscs env) = svr # rest"
    and "fits PAKLC_SRV_SELECT_REPLY (SrvSrvSelectReply_wire (select_reply svr (m_session_id t)))"
  shows "CLoginClient_HandlePacket (login_callbacks rt hs) env
      (header_bytes (length (CliSrvSelectReq_wire \<lparr>CliSrvSelectReq.m_serverId = m_network_id svr + 1, m_channelId = ch\<rparr>)) PAKCS_SRV_SELECT_REQ crc
        @ CliSrvSelectReq_wire \<lparr>CliSrvSelectReq.m_serverId = m_network_id svr + 1, m_channelId = ch\<rparr>) t
    = Some (True, writing (the (encodeServerPacket rt (plain PAKLC_SRV_SELECT_REPLY
        (SrvSrvSelectReply_wire (select_reply svr (m_session_id t)))))) (transferred ch t))"
proof -
  let ?P = "\<lparr>CliSrvSelectReq.m_serverId = m_network_id svr + 1, m_channelId = ch\<rparr>"
  have "6 + length (CliSrvSelectReq_wire ?P) < MAX_PACKET_SIZE" by (simp add: CliSrvSelectReq_wire_def MAX_PACKET_SIZE_def)
  from CliSrvSelectReq.recv_wire [OF _ this, of "env_memory env" PAKCS_SRV_SELECT_REQ crc] assms(3)
  have "CLoginClient_HandlePacket (login_callbacks rt hs) env
      (header_bytes (length (CliSrvSelectReq_wire ?P)) PAKCS_SRV_SELECT_REQ crc @ CliSrvSelectReq_wire ?P) t
    = ServerSelect (login_callbacks rt hs) env ?P t"
    by (simp add: CLoginClient_HandlePacket_def CliSrvSelectReq_recv_def CliSrvSelectReq_ok_def login_packet_ids)
  moreover have "find (\<lambda>server. is_char_server server \<and> m_network_id server = m_network_id svr) (env_iscs env) = Some svr"
    by (rule find_first [OF assms(5)])
  moreover have "send_packet (login_callbacks rt hs) PAKLC_SRV_SELECT_REPLY (SrvSrvSelectReply_pack (select_reply svr (m_session_id t)))
      (env_memory env) (transferred ch t)
    = Some (writing (the (encodeServerPacket rt (plain PAKLC_SRV_SELECT_REPLY (SrvSrvSelectReply_wire (select_reply svr (m_session_id t))))))
        (transferred ch t))"
    unfolding plain_def
    by (rule login_side.send_ready [OF _ SrvSrvSelectReply.emits_pack assms(3)])
       (use assms(1,6) in \<open>simp_all add: ready_def waiting_def idle_def transferred_def fits_def\<close>)
  ultimately show ?thesis
    using assms(2,4) by (simp add: ServerSelect_def Let_def transferred_def select_reply_def)
qed

text \<open>The reader of a login reply looks for the end of the list behind it. Whatever the memory of the bot held there, the
  servers of the reply come first.\<close>

lemma login_reply_received:
  assumes "length g = MAX_PACKET_SIZE" and "6 + length (SrvLoginReply_wire d) < MAX_PACKET_SIZE"
    and "m_login_result d = 0" and "list_all (\<lambda>i. 0 \<notin> set (ServerInfo.m_server_name i)) (m_servers d)"
  shows "\<exists>extra. SrvLoginReply_recv g (header_bytes (length (SrvLoginReply_wire d)) PAKLC_LOGIN_REPLY crc @ SrvLoginReply_wire d)
    = Inr (d\<lparr>m_servers := m_servers d @ extra\<rparr>)"
proof -
  let ?n = "6 + length (SrvLoginReply_wire d)"
  let ?p = "\<lparr>m_buffer = header_bytes (length (SrvLoginReply_wire d)) PAKLC_LOGIN_REPLY crc @ SrvLoginReply_wire d @ drop ?n g,
           m_current = 6, m_size = of_nat ?n, m_type = PAKLC_LOGIN_REPLY, m_CRC = crc\<rparr>"
  have "at_bytes ?p (SrvLoginReply_wire d)" using assms(1,2) by (simp add: at_bytes_def)
  then obtain extra where "fst (SrvLoginReply_read ?p) = d\<lparr>m_servers := m_servers d @ extra\<rparr>"
    using SrvLoginReply_prefix [OF assms(3,4)] by blast
  then show ?thesis
    using CRosePacket_recv_eq [of "SrvLoginReply_wire d" g PAKLC_LOGIN_REPLY crc] assms(1,2)
    by (intro exI [of _ extra]) (simp add: SrvLoginReply_recv_def recv_packet_def)
qed

section \<open>What the bot asks next\<close>

lemma bot_accepted:
  assumes "ready u" and "length g = MAX_PACKET_SIZE"
  shows "LoginClient_HandlePacket (bot_callbacks rt g) g (header_bytes n PAKSS_ACCEPT_REPLY crc @ bs) u
    = Some (True, writing (the (encodeClientPacket rt (plain PAKCS_LOGIN_REQ (CliLoginReq_wire bot_login)))) u)"
  using bot.send_ready [OF assms(1) CliLoginReq.emits_pack assms(2), where ty = PAKCS_LOGIN_REQ] bot_login_fits(2)
  by (simp add: LoginClient_HandlePacket_def plain_def fits_def)

lemma bot_listed:
  assumes "ready u" and "length g = MAX_PACKET_SIZE" and "SrvLoginReply_recv g (header_bytes n PAKLC_LOGIN_REPLY crc @ bs) = Inr reply"
    and "m_login_result reply = 0" and "m_servers reply = server # servers"
  shows "LoginClient_HandlePacket (bot_callbacks rt g) g (header_bytes n PAKLC_LOGIN_REPLY crc @ bs) u
    = Some (True, writing (the (encodeClientPacket rt (plain PAKCS_CHANNEL_LIST_REQ
        (CliChannelListReq_wire \<lparr>CliChannelListReq.m_serverId = m_server_id server\<rparr>)))) u)"
  using bot.send_ready [OF assms(1) CliChannelListReq.emits_pack assms(2), where ty = PAKCS_CHANNEL_LIST_REQ] assms(3-)
  by (simp add: LoginClient_HandlePacket_def plain_def login_packet_ids CliChannelListReq_wire_def MAX_PACKET_SIZE_def)

lemma bot_channels:
  assumes "ready u" and "length g = MAX_PACKET_SIZE" and "SrvChannelListReply_ok reply"
    and "fits PAKLC_CHANNEL_LIST_REPLY (SrvChannelListReply_wire reply)" and "m_channels reply = channel # channels"
  shows "LoginClient_HandlePacket (bot_callbacks rt g) g
      (header_bytes (length (SrvChannelListReply_wire reply)) PAKLC_CHANNEL_LIST_REPLY crc @ SrvChannelListReply_wire reply) u
    = Some (True, writing (the (encodeClientPacket rt (plain PAKCS_SRV_SELECT_REQ (CliSrvSelectReq_wire
        \<lparr>CliSrvSelectReq.m_serverId = m_list_id reply, m_channelId = m_channel_id channel\<rparr>)))) u)"
  using bot.send_ready [OF assms(1) CliSrvSelectReq.emits_pack assms(2), where ty = PAKCS_SRV_SELECT_REQ]
    SrvChannelListReply.recv_wire [OF assms(3) _ assms(2)] assms(4,5)
  by (simp add: LoginClient_HandlePacket_def SrvChannelListReply_recv_def fits_def plain_def login_packet_ids CliSrvSelectReq_wire_def
      MAX_PACKET_SIZE_def)

lemma bot_selected:
  assumes "length g = MAX_PACKET_SIZE" and "SrvSrvSelectReply_ok reply"
    and "fits PAKLC_SRV_SELECT_REPLY (SrvSrvSelectReply_wire reply)" and "SrvSrvSelectReply.m_result reply = 0"
  shows "LoginClient_HandlePacket (bot_callbacks rt g) g
      (header_bytes (length (SrvSrvSelectReply_wire reply)) PAKLC_SRV_SELECT_REPLY crc @ SrvSrvSelectReply_wire reply) u
    = Some (False, u\<lparr>lc_sessionId := SrvSrvSelectReply.m_sessionId reply, lc_ip := SrvSrvSelectReply.m_ip reply,
        lc_port := SrvSrvSelectReply.m_port reply\<rparr>)"
  using SrvSrvSelectReply.recv_wire [OF assms(2) _ assms(1)] assms(3,4)
  by (simp add: LoginClient_HandlePacket_def SrvSrvSelectReply_recv_def fits_def login_packet_ids)

section \<open>A login from end to end\<close>

text \<open>What the four requests of a bot meet: the account may log in, the servers do not change while it talks to the login
  server, the session can be stored, the first char server has a channel, no name and no address of a server contains a zero
  byte, and the replies fit into packets. \<open>g\<close> is the memory of the bot, which may hold anything.\<close>

definition lets_in :: "byte list \<Rightarrow> login_env list \<Rightarrow> account_row \<Rightarrow> int \<Rightarrow> CLoginISC \<Rightarrow> ChannelInfo \<Rightarrow> bool" where
  "lets_in g envs row a svr ch \<longleftrightarrow> length envs = 4 \<and> list_all (\<lambda>e. length (env_memory e) = MAX_PACKET_SIZE) envs
     \<and> may_login (envs ! 1) bot_login row a \<and> env_iscs (envs ! 2) = env_iscs (envs ! 1) \<and> env_iscs (envs ! 3) = env_iscs (envs ! 1)
     \<and> q_statement (envs ! 3)
     \<and> hd (filter is_char_server (env_iscs (envs ! 1))) = svr
     \<and> list_all (\<lambda>v. 0 \<notin> set (CLoginISC.m_server_name v)) (env_iscs (envs ! 1))
     \<and> length g = MAX_PACKET_SIZE
     \<and> SrvChannelListReply_ok (offered (envs ! 2) (m_network_id svr + 1))
     \<and> fits PAKLC_CHANNEL_LIST_REPLY (SrvChannelListReply_wire (offered (envs ! 2) (m_network_id svr + 1)))
     \<and> m_channels (offered (envs ! 2) (m_network_id svr + 1)) \<noteq> []
     \<and> hd (m_channels (offered (envs ! 2) (m_network_id svr + 1))) = ch
     \<and> 0 \<notin> set (m_network_address svr) \<and> length (m_network_address svr) < 2000"

abbreviation login_talk :: "u32 list list \<Rightarrow> (u32 \<Rightarrow> bool) \<Rightarrow> byte list \<Rightarrow> login_env list \<Rightarrow> LoginClient \<times> CLoginClient
    \<Rightarrow> LoginClient \<times> CLoginClient \<Rightarrow> bool" where
  "login_talk rt hs g envs \<equiv> dialogue (bot_callbacks rt g) (LoginClient_HandlePacket (bot_callbacks rt g) g) (login_callbacks rt hs)
     (map (CLoginClient_HandlePacket (login_callbacks rt hs)) envs)"

lemma arrived_login:
  fixes s :: CLoginClient
  assumes "arrived s t"
  shows "m_login_state t = m_login_state s" "m_session_id t = m_session_id s" "m_userid t = m_userid s" "m_sql t = m_sql s"
    "m_network_address t = m_network_address s"
  using assms by (subst assms [unfolded arrived_def only_received_def, THEN conjunct1], simp)+

lemma sent_login:
  fixes s :: CLoginClient
  shows "m_login_state (sent img now s) = m_login_state s" "m_session_id (sent img now s) = m_session_id s"
    "m_userid (sent img now s) = m_userid s" "m_sql (sent img now s) = m_sql s" "m_network_address (sent img now s) = m_network_address s"
  by (simp_all add: sent_def)

lemma bot_closed:
  fixes b :: LoginClient and rt g
  defines "b' \<equiv> snd (shutdown (bot_callbacks rt g) False b)"
  shows "lc_sessionId b' = lc_sessionId b" "lc_ip b' = lc_ip b" "lc_port b' = lc_port b" "\<not> m_active b'"
  unfolding b'_def by (auto simp: shutdown_def disconnect_def bot_callbacks_def initCallbacks_def Let_def)

lemma ready_moves: "ready (transferred ch t) = ready t" "ready (logged_in env P row right t) = ready t"
  "ready (u\<lparr>lc_sessionId := i, lc_ip := ip, lc_port := port\<rparr>) = ready u"
  by (simp_all add: ready_def waiting_def idle_def transferred_def logged_in_def)

text \<open>The last round.\<close>

lemma select_round:
  assumes "at_login.asks rt PAKCS_SRV_SELECT_REQ (CliSrvSelectReq_wire \<lparr>CliSrvSelectReq.m_serverId = m_network_id svr + 1, m_channelId = ch\<rparr>) b"
    and "ready s" and "m_login_state s = LOGGEDIN" and "length (env_memory env) = MAX_PACKET_SIZE" and "length g = MAX_PACKET_SIZE"
    and "q_statement env" and "filter is_char_server (env_iscs env) = svr # rest"
    and "0 \<notin> set (m_network_address svr)" and "length (m_network_address svr) < 2000"
  shows "(\<exists>x. login_talk rt hs g [env] (b, s) x)
    \<and> (\<forall>b' s'. login_talk rt hs g [env] (b, s) (b', s') \<longrightarrow>
        (lc_sessionId b' = m_session_id s \<and> lc_ip b' = m_network_address svr \<and> lc_port b' = m_network_port svr \<and> \<not> m_active b')
        \<and> m_login_state s' = TRANSFERING \<and> m_session_id s' = m_session_id s \<and> m_userid s' = m_userid s
        \<and> m_sql s' = m_sql s @ [InsertSession (m_session_id s) (m_userid s) (ch - 1)])"
proof -
  let ?r = "select_reply svr (m_session_id s)"
  have fit: "fits PAKLC_SRV_SELECT_REPLY (SrvSrvSelectReply_wire ?r)"
    using assms(9) by (simp add: fits_def SrvSrvSelectReply_wire_def select_reply_def MAX_PACKET_SIZE_def PAKLC_SRV_SELECT_REPLY_def)
  show ?thesis
    unfolding list.map
  proof (rule at_login.last_round [OF assms(1,2) fit, where f = "transferred ch" and
        h = "\<lambda>u. u\<lparr>lc_sessionId := m_session_id s, lc_ip := m_network_address svr, lc_port := m_network_port svr\<rparr>"], goal_cases)
    case (1 t crc)
    then show ?case
      using select_handled [OF _ _ assms(4,6,7), of t rt hs ch crc] fit assms(3)
      by (simp add: arrived_login arrived_ready ready_moves)
  next
    case (2 t crc)
    then show ?case
      using bot_selected [OF assms(5) _ fit, of rt crc t] assms(8)
      by (simp add: arrived_def ready_moves(3) select_reply_def SrvSrvSelectReply_ok_def)
  next
    case (3 t u now')
    show ?case
      using arrived_login [OF 3(1)] by (simp add: bot_closed transferred_def sent_def)
  qed
qed

text \<open>The last two rounds, the last three, and all of them.\<close>

lemma channel_rounds:
  assumes "at_login.asks rt PAKCS_CHANNEL_LIST_REQ (CliChannelListReq_wire \<lparr>CliChannelListReq.m_serverId = m_network_id svr + 1\<rparr>) b"
    and "ready s" and "m_login_state s = LOGGEDIN" and e: "lets_in g [e1, e2, e3, e4] row a svr ch"
  shows "(\<exists>x. login_talk rt hs g [e3, e4] (b, s) x)
    \<and> (\<forall>b' s'. login_talk rt hs g [e3, e4] (b, s) (b', s') \<longrightarrow>
        (lc_sessionId b' = m_session_id s \<and> lc_ip b' = m_network_address svr \<and> lc_port b' = m_network_port svr \<and> \<not> m_active b')
        \<and> m_login_state s' = TRANSFERING \<and> m_session_id s' = m_session_id s \<and> m_userid s' = m_userid s
        \<and> m_sql s' = m_sql s @ [InsertSession (m_session_id s) (m_userid s) (m_channel_id ch - 1)])"
proof -
  let ?r = "offered e3 (m_network_id svr + 1)"
  let ?P = "\<lparr>CliSrvSelectReq.m_serverId = m_network_id svr + 1, m_channelId = m_channel_id ch\<rparr>"
  note lets = e [unfolded lets_in_def, simplified]
  have ne: "filter is_char_server (env_iscs e2) \<noteq> []" using lets by (auto simp: may_login_def list_ex_iff filter_empty_conv)
  then obtain rest where svr: "filter is_char_server (env_iscs e4) = svr # rest" using lets by (metis list.collapse)
  obtain chs where ch: "m_channels ?r = ch # chs" using lets by (metis list.collapse)
  have fit: "fits PAKLC_CHANNEL_LIST_REPLY (SrvChannelListReply_wire ?r)" "fits PAKCS_SRV_SELECT_REQ (CliSrvSelectReq_wire ?P)"
    using lets by (simp_all add: fits_def CliSrvSelectReq_wire_def MAX_PACKET_SIZE_def PAKCS_SRV_SELECT_REQ_def)
  show ?thesis
    unfolding list.map
  proof (rule at_login.round [OF assms(1,2) fit, where f = "\<lambda>t. t"], goal_cases)
    case (1 t crc)
    then show ?case
      using channels_handled [OF _ _ _ fit(1), of t rt hs crc] lets assms(3) by (simp add: arrived_login arrived_ready)
  next
    case (2 u crc)
    then show ?case
      using bot_channels [OF arrived_ready _ _ fit(1) ch, of b u g rt crc] lets by (simp add: offered_id)
  next
    case (3 t u now now')
    let ?s = "sent (the (encodeServerPacket rt (plain PAKLC_CHANNEL_LIST_REPLY (SrvChannelListReply_wire ?r)))) now' t"
    have "ready ?s" "m_login_state ?s = LOGGEDIN" using 3(3) arrived_login [OF 3(1)] assms(3) by (simp_all add: sent_login)
    moreover have "length (env_memory e4) = MAX_PACKET_SIZE" "length g = MAX_PACKET_SIZE" "q_statement e4"
      "0 \<notin> set (m_network_address svr)" "length (m_network_address svr) < 2000" using lets by simp_all
    ultimately show ?case
      using select_round [OF 3(4), of ?s e4 g rest hs] svr by (simp add: sent_login arrived_login [OF 3(1)] del: dialogue.simps)
  qed
qed

lemma login_rounds:
  assumes "at_login.asks rt PAKCS_LOGIN_REQ (CliLoginReq_wire bot_login) b"
    and "ready s" and "m_login_state s = DEFAULT" and e: "lets_in g [e1, e2, e3, e4] row a svr ch"
  shows "(\<exists>x. login_talk rt hs g [e2, e3, e4] (b, s) x)
    \<and> (\<forall>b' s'. login_talk rt hs g [e2, e3, e4] (b, s) (b', s') \<longrightarrow>
        (lc_sessionId b' = env_now e2 \<and> lc_ip b' = m_network_address svr \<and> lc_port b' = m_network_port svr \<and> \<not> m_active b')
        \<and> m_login_state s' = TRANSFERING \<and> m_session_id s' = env_now e2 \<and> m_userid s' = word_of_int (row_id row)
        \<and> m_sql s' = m_sql s @ [SetOnline (word_of_int (row_id row)) (row_loginCount row + 1) (m_network_address s),
            InsertSession (env_now e2) (word_of_int (row_id row)) (m_channel_id ch - 1)])"
proof -
  let ?r = "accepted_reply e2 (word_of_int a)"
  let ?P = "\<lparr>CliChannelListReq.m_serverId = m_network_id svr + 1\<rparr>"
  note lets = e [unfolded lets_in_def, simplified]
  have may: "may_login e2 bot_login row a" using lets by simp
  then have ne: "filter is_char_server (env_iscs e2) \<noteq> []" by (auto simp: may_login_def list_ex_iff filter_empty_conv)
  then obtain rest where svr: "filter is_char_server (env_iscs e2) = svr # rest" using lets by (metis list.collapse)
  have names: "list_all (\<lambda>i. 0 \<notin> set (ServerInfo.m_server_name i)) (m_servers ?r)"
    using lets by (auto simp: list_all_iff accepted_reply_def listed_def)
  have fit: "fits PAKLC_LOGIN_REPLY (SrvLoginReply_wire ?r)" "fits PAKCS_CHANNEL_LIST_REQ (CliChannelListReq_wire ?P)"
    using may by (simp_all add: may_login_def fits_def CliChannelListReq_wire_def MAX_PACKET_SIZE_def login_packet_ids)
  show ?thesis
    unfolding list.map
  proof (rule at_login.round [OF assms(1,2) fit, where f = "logged_in e2 bot_login row (word_of_int a)"], goal_cases)
    case (1 t crc)
    then have "idle t" "m_login_state t = DEFAULT" "ready t" using arrived_login [OF 1] assms(3) by (simp_all add: arrived_def ready_def)
    then show ?case
      using login_request_handled [OF _ _ may bot_login_fits(1)] bot_login_fits(2)
      by (simp add: fits_def wire_image_def plain_def ready_moves)
  next
    case (2 u crc)
    have "\<exists>extra. SrvLoginReply_recv g (header_bytes (length (SrvLoginReply_wire ?r)) PAKLC_LOGIN_REPLY crc @ SrvLoginReply_wire ?r)
        = Inr (?r\<lparr>m_servers := m_servers ?r @ extra\<rparr>)"
      by (rule login_reply_received [OF _ _ _ names]) (use lets may in \<open>simp_all add: may_login_def accepted_reply_def\<close>)
    then obtain extra where "SrvLoginReply_recv g (header_bytes (length (SrvLoginReply_wire ?r)) PAKLC_LOGIN_REPLY crc @ SrvLoginReply_wire ?r)
        = Inr (?r\<lparr>m_servers := m_servers ?r @ extra\<rparr>)" by blast
    from bot_listed [OF arrived_ready [OF 2] _ this, of "listed svr" "map listed rest @ extra"] svr lets
    show ?case by (simp add: accepted_reply_def listed_def)
  next
    case (3 t u now now')
    let ?s = "sent (the (encodeServerPacket rt (plain PAKLC_LOGIN_REPLY (SrvLoginReply_wire ?r)))) now' (logged_in e2 bot_login row (word_of_int a) t)"
    have "ready ?s" "m_login_state ?s = LOGGEDIN" using 3(3) by (simp_all add: sent_login logged_in_def)
    from channel_rounds [OF 3(4) this e] show ?case
      by (simp add: sent_login arrived_login [OF 3(1)] logged_in_def del: dialogue.simps)
  qed
qed

lemma accept_rounds:
  assumes "at_login.asks rt PAKCS_ACCEPT_REQ [] b" and "ready s" and "m_login_state s = DEFAULT" and e: "lets_in g [e1, e2, e3, e4] row a svr ch"
  shows "(\<exists>x. login_talk rt hs g [e1, e2, e3, e4] (b, s) x)
    \<and> (\<forall>b' s'. login_talk rt hs g [e1, e2, e3, e4] (b, s) (b', s') \<longrightarrow>
        (lc_sessionId b' = env_now e2 \<and> lc_ip b' = m_network_address svr \<and> lc_port b' = m_network_port svr \<and> \<not> m_active b')
        \<and> m_login_state s' = TRANSFERING \<and> m_session_id s' = env_now e2 \<and> m_userid s' = word_of_int (row_id row)
        \<and> m_sql s' = m_sql s @ [SetOnline (word_of_int (row_id row)) (row_loginCount row + 1) (m_network_address s),
            InsertSession (env_now e2) (word_of_int (row_id row)) (m_channel_id ch - 1)])"
proof -
  let ?r = "\<lparr>SrvAcceptReply.m_result = 2, m_randValue = env_now e1\<rparr>"
  note lets = e [unfolded lets_in_def, simplified]
  have fit: "fits PAKSS_ACCEPT_REPLY (SrvAcceptReply_wire ?r)"
    by (simp add: fits_def SrvAcceptReply_wire_def MAX_PACKET_SIZE_def PAKSS_ACCEPT_REPLY_def)
  show ?thesis
    unfolding list.map
  proof (rule at_login.round [OF assms(1,2) fit bot_login_fits(2), where f = "\<lambda>t. t"], goal_cases)
    case (1 t crc)
    then show ?case using accept_handled [OF arrived_ready [OF 1], of e1 rt hs crc] lets by (simp add: arrived_ready)
  next
    case (2 u crc)
    then show ?case using bot_accepted [OF arrived_ready [OF 2]] lets by simp
  next
    case (3 t u now now')
    let ?s = "sent (the (encodeServerPacket rt (plain PAKSS_ACCEPT_REPLY (SrvAcceptReply_wire ?r)))) now' t"
    have "ready ?s" "m_login_state ?s = DEFAULT" using 3(3) arrived_login [OF 3(1)] assms(3) by (simp_all add: sent_login)
    from login_rounds [OF 3(4) this e] show ?case
      unfolding list.map by (simp add: sent_login arrived_login [OF 3(1)] del: dialogue.simps)
  qed
qed

text \<open>The socket that \<open>main\<close> makes.\<close>

definition bot_socket :: "cstring \<Rightarrow> u16 \<Rightarrow> byte list \<Rightarrow> int \<Rightarrow> CNetwork_Asio" where
  "bot_socket ip port mem now = snd (init ip port (CNetwork_Asio_new mem now))"

lemma bot_socket_waits:
  fixes i :: u32 and p port :: u16 and now :: int
  assumes "length ip \<ge> 2" and "length mem = MAX_PACKET_SIZE"
  defines "b \<equiv> LoginClient_new i p (bot_socket ip port mem now)"
  shows "waiting (b\<lparr>m_reading := Some 6\<rparr>)" "idle b" "m_recv_queue b = []"
  using assms(1,2) unfolding b_def
  by (simp_all add: bot_socket_def init_def LoginClient_new_def waiting_def idle_def new_socket_defs LoginClient.defs)

lemma login_bot_starts:
  assumes "length ip \<ge> 2" and "length mem = MAX_PACKET_SIZE" and "length g = MAX_PACKET_SIZE"
  shows "\<exists>b0 b. bot_start (bot_callbacks rt g) (LoginClient_new i p (bot_socket ip port mem now0)) = Some b0
    \<and> write_done (bot_callbacks rt g) now None b0 = Some b \<and> at_login.asks rt PAKCS_ACCEPT_REQ [] b"
  using connected_asks [OF bot_socket_waits [OF assms(1,2), of i p port now0] assms(3), of rt now] by (auto simp: at_login.asks_def)

text \<open>A char server with one map server behind it.\<close>

definition sample_channel_isc :: CLoginISC where
  "sample_channel_isc = snd (CLoginISC_ServerRegister \<lparr>IscServerRegister.m_serverType = server_type MAP_MASTER, m_name = [0x42], m_addr = [0x31],
     m_port = 29110, m_right = 1, m_id = 6\<rparr> (sample_isc\<lparr>m_network_address := [0x31, 0x32]\<rparr>))"

definition sample_bot_env :: login_env where
  "sample_bot_env = sample_env\<lparr>env_iscs := [sample_channel_isc], q_account := (\<lambda>u p. Some (Some sample_account))\<rparr>"

lemma sample_channel_isc_facts: "is_char_server sample_channel_isc" "CLoginISC.m_server_name sample_channel_isc = [0x41]"
  "m_network_id sample_channel_isc = 0" "m_network_address sample_channel_isc = [0x31, 0x32]" "m_network_port sample_channel_isc = 29100"
  "m_channel_list sample_channel_isc = [\<lparr>ChannelID = 6, Port = 0, MinRight = 1, channelName = [0x42], IPAddress = []\<rparr>]"
  using sample_isc_char
  by (simp_all add: sample_channel_isc_def CLoginISC_ServerRegister_def is_char_server_def get_type_def tChannelInfo_new_def)
     (simp add: sample_isc_def CLoginISC_ServerRegister_def sample_register_def CLoginISC_new_def new_socket_defs CLoginISC.defs Let_def)

lemma sample_offered: "offered sample_bot_env 1 = \<lparr>m_list_id = 1, m_channels = [\<lparr>m_channel_name = [0x42], m_channel_id = 7, m_lowAge = 0,
    m_highAge = 0, m_capacity = 0\<rparr>]\<rparr>"
  by (simp add: offered_def sample_bot_env_def sample_env_def sample_channel_isc_facts addChannel_def SrvChannelListReply_new_def)

lemma sample_lets_in:
  "lets_in (replicate 2047 0) [sample_bot_env, sample_bot_env, sample_bot_env, sample_bot_env] sample_account 100 sample_channel_isc
     \<lparr>m_channel_name = [0x42], m_channel_id = 7, m_lowAge = 0, m_highAge = 0, m_capacity = 0\<rparr>"
proof -
  have "length (SrvLoginReply_wire (accepted_reply sample_bot_env 100)) = 12"
    by (simp add: accepted_reply_def listed_def sample_bot_env_def sample_env_def sample_channel_isc_facts SrvLoginReply_wire_def ServerInfo_wire_def)
  moreover have "may_login sample_bot_env bot_login sample_account 100"
    using calculation by (simp add: may_login_def sample_bot_env_def sample_env_def sample_account_def sample_channel_isc_facts MAX_PACKET_SIZE_def)
  ultimately show ?thesis
    by (simp add: lets_in_def sample_offered sample_channel_isc_facts SrvChannelListReply_ok_def fits_def SrvChannelListReply_wire_def
        ChannelInfo_wire_def MAX_PACKET_SIZE_def PAKLC_CHANNEL_LIST_REPLY_def)
       (simp add: sample_bot_env_def sample_env_def sample_channel_isc_facts)
qed

section \<open>Properties\<close>

text \<open>C4. The bot and the login server understand each other. The bot's \<open>main\<close> makes a socket for an address of at least two
  bytes, connects it, asks to be accepted and starts to read; at the other end a new client of the login server waits. The
  environment lets the bot in (\<open>lets_in\<close>): its account may log in, the servers that are registered stay the same, the
  session can be stored, the first char server has a channel, names and addresses of servers hold no zero byte, and the
  replies fit into packets; the memory in which the bot unpacks them may hold anything. Then, whatever the sizes of the
  chunks in which the bytes arrive, the four rounds (accept, login, channels, selection) can be taken, and after them the bot
  has closed its connection and knows the session and the address and port of the first char server, and the login server has
  recorded that the account is online and the session that the bot was told, for the first channel.\<close>

theorem bot_logs_in:
  assumes "length ip \<ge> 2" and "length mem = MAX_PACKET_SIZE"
    and "ready s" and "m_login_state s = DEFAULT" and "lets_in g [e1, e2, e3, e4] row a svr ch"
  shows "\<exists>b0 b. bot_start (bot_callbacks rt g) (LoginClient_new i p (bot_socket ip port mem now0)) = Some b0
    \<and> write_done (bot_callbacks rt g) now None b0 = Some b
    \<and> (\<exists>x. login_talk rt hs g [e1, e2, e3, e4] (b, s) x)
    \<and> (\<forall>b' s'. login_talk rt hs g [e1, e2, e3, e4] (b, s) (b', s') \<longrightarrow>
        (lc_sessionId b' = env_now e2 \<and> lc_ip b' = m_network_address svr \<and> lc_port b' = m_network_port svr \<and> \<not> m_active b')
        \<and> m_login_state s' = TRANSFERING \<and> m_session_id s' = env_now e2 \<and> m_userid s' = word_of_int (row_id row)
        \<and> m_sql s' = m_sql s @ [SetOnline (word_of_int (row_id row)) (row_loginCount row + 1) (m_network_address s),
            InsertSession (env_now e2) (word_of_int (row_id row)) (m_channel_id ch - 1)])"
proof -
  have g: "length g = MAX_PACKET_SIZE" using assms(5) by (simp add: lets_in_def)
  obtain b0 b where "bot_start (bot_callbacks rt g) (LoginClient_new i p (bot_socket ip port mem now0)) = Some b0"
      "write_done (bot_callbacks rt g) now None b0 = Some b" "at_login.asks rt PAKCS_ACCEPT_REQ [] b"
    using login_bot_starts [OF assms(1,2) g] by blast
  with accept_rounds [OF _ assms(3-)] show ?thesis by blast
qed

theorem bot_logs_in_witness:
  "\<exists>b0 b b' s'. bot_start (bot_callbacks sample_keys (replicate 2047 0)) (LoginClient_new 0 0 (bot_socket [0x31, 0x32] 29000 (replicate 2047 0) 0)) = Some b0
    \<and> write_done (bot_callbacks sample_keys (replicate 2047 0)) 0 None b0 = Some b
    \<and> login_talk sample_keys (\<lambda>_. False) (replicate 2047 0) [sample_bot_env, sample_bot_env, sample_bot_env, sample_bot_env] (b, sample_client) (b', s')
    \<and> lc_sessionId b' = 1000 \<and> lc_ip b' = [0x31, 0x32] \<and> lc_port b' = 29100 \<and> m_sql s' = [SetOnline 5 3 [], InsertSession 1000 5 6]"
proof -
  let ?m = "replicate 2047 0 :: byte list"
  have s: "ready sample_client" using sample_client_facts by (simp add: ready_def)
  have now: "env_now sample_bot_env = 1000" by (simp add: sample_bot_env_def sample_env_def)
  have "length [0x31, 0x32 :: byte] \<ge> 2" "length ?m = MAX_PACKET_SIZE" by (simp_all add: MAX_PACKET_SIZE_def)
  from bot_logs_in [OF this s sample_client_facts(4) sample_lets_in, of sample_keys 0 0 29000 0 0 "\<lambda>_. False"]
  obtain b0 b b' s' where
    "bot_start (bot_callbacks sample_keys ?m) (LoginClient_new 0 0 (bot_socket [0x31, 0x32] 29000 ?m 0)) = Some b0"
    "write_done (bot_callbacks sample_keys ?m) 0 None b0 = Some b"
    "login_talk sample_keys (\<lambda>_. False) ?m [sample_bot_env, sample_bot_env, sample_bot_env, sample_bot_env] (b, sample_client) (b', s')"
    "lc_sessionId b' = 1000" "lc_ip b' = [0x31, 0x32]" "lc_port b' = 29100"
    "m_sql s' = m_sql sample_client @ [SetOnline (word_of_int (row_id sample_account)) (row_loginCount sample_account + 1)
       (m_network_address sample_client), InsertSession 1000 (word_of_int (row_id sample_account)) 6]"
    unfolding now sample_channel_isc_facts by (auto simp del: dialogue.simps)
  then show ?thesis using sample_client_facts(5,6) unfolding sample_account_def by (intro exI conjI) (assumption | simp)+
qed

end
