(* ===== verification/BotChar.thy ===== *)
theory BotChar
  imports Bot
begin

text \<open>
  The dialogue of the bot with the char server: the four rounds from the request to be accepted to the address of the map
  server. The session and the password decide whether the bot may join; it picks the first of its characters.
\<close>

section \<open>What the char server answers\<close>

lemmas bot_packet_ids = char_packet_ids PAKSS_ACCEPT_REPLY_def PAKCS_ACCEPT_REQ_def PAKSC_JOIN_SERVER_REPLY_def PAKCC_CHAR_LIST_REPLY_def
  PAKCC_SWITCH_SERVER_def

definition bot_join :: "u32 \<Rightarrow> CliJoinServerReq" where
  "bot_join sid = \<lparr>CliJoinServerReq.m_sessionId = sid, m_password = bot_password\<rparr>"

definition bot_choice :: "cstring \<Rightarrow> CliSelectCharReq" where
  "bot_choice name = \<lparr>CliSelectCharReq.m_charId = 0, m_runMode = 0, m_rideMode = 0, m_name = name\<rparr>"

lemma bot_join_fits: "CliJoinServerReq_ok (bot_join sid)" "fits PAKCS_JOIN_SERVER_REQ (CliJoinServerReq_wire (bot_join sid))"
proof -
  have "length (takeWhile (\<lambda>c. c \<noteq> 0) bot_password) \<le> 32" using length_takeWhile_le [of _ bot_password] bot_texts(1) by metis
  then show "fits PAKCS_JOIN_SERVER_REQ (CliJoinServerReq_wire (bot_join sid))"
    by (simp add: fits_def CliJoinServerReq_wire_def bot_join_def MAX_PACKET_SIZE_def PAKCS_JOIN_SERVER_REQ_def)
qed (simp add: CliJoinServerReq_ok_def bot_join_def bot_texts)

lemma char_accept_handled:
  assumes "ready t" and "length (c_memory env) = MAX_PACKET_SIZE"
  shows "CCharClient_HandlePacket (char_callbacks rt onl) env (header_bytes 0 PAKCS_ACCEPT_REQ crc @ []) t
    = Some (True, writing (the (encodeServerPacket rt (plain PAKSS_ACCEPT_REPLY (SrvAcceptReply_wire \<lparr>SrvAcceptReply.m_result = 2, m_randValue = c_now env\<rparr>)))) t)"
proof -
  have "packet_type (header_bytes 0 PAKCS_ACCEPT_REQ crc @ []) = PAKCS_ACCEPT_REQ" by (rule packet_type_header)
  then show ?thesis
    using char_side.send_ready [OF assms(1) SrvAcceptReply.emits_pack assms(2), of "\<lparr>SrvAcceptReply.m_result = 2, m_randValue = c_now env\<rparr>"]
    by (simp add: CCharClient_HandlePacket_def CRoseSocket_HandlePacket_def bot_packet_ids plain_def SrvAcceptReply_wire_def MAX_PACKET_SIZE_def)
qed

text \<open>A client that joined, that has the list of its characters, and that chose one.\<close>

definition joined :: "u32 \<Rightarrow> int \<Rightarrow> int \<Rightarrow> CCharClient \<Rightarrow> CCharClient" where
  "joined sid uid cid t = char_log [SelectSession sid (word_of_int uid) (word_of_int cid)]
     (t\<lparr>m_loginState := LOGGEDIN, m_userId := word_of_int uid, m_charChannelId := word_of_int cid, m_charSessionId := sid\<rparr>)"

definition shown :: "list_row list \<Rightarrow> CCharClient \<Rightarrow> CCharClient" where
  "shown rows t = char_log [SelectCharacters (m_userId t) (map (\<lambda>row. word_of_int (lr_id row)) rows)]
     (t\<lparr>m_characterRealId := map (\<lambda>row. word_of_int (lr_id row)) rows\<rparr>)"

definition chosen :: "u32 \<Rightarrow> CCharClient \<Rightarrow> CCharClient" where
  "chosen c t = char_log [UpdateSessionWithCharacter (m_charSessionId t) c] (t\<lparr>m_loginState := TRANSFERING\<rparr>)"

lemma ready_stages: "ready (joined sid uid cid t) = ready t" "ready (shown rows t) = ready t" "ready (chosen c t) = ready t"
  by (simp_all add: ready_def waiting_def idle_def joined_def shown_def chosen_def char_log_def)

definition join_reply :: "u32 \<Rightarrow> SrvJoinServerReply" where
  "join_reply i = \<lparr>SrvJoinServerReply.m_result = 0, m_id = i, m_payFlag = 0\<rparr>"

lemma join_handled:
  assumes "ready t" and "m_loginState t = DEFAULT" and "length (c_memory env) = MAX_PACKET_SIZE"
    and "q_join env sid (escapeData bot_password) = Some (Some (uid, cid))"
  shows "CCharClient_HandlePacket (char_callbacks rt onl) env
      (header_bytes (length (CliJoinServerReq_wire (bot_join sid))) PAKCS_JOIN_SERVER_REQ crc @ CliJoinServerReq_wire (bot_join sid)) t
    = Some (True, writing (the (encodeServerPacket rt (plain PAKSC_JOIN_SERVER_REPLY (SrvJoinServerReply_wire (join_reply (c_now env))))))
        (joined sid uid cid t))"
proof -
  have "6 + length (CliJoinServerReq_wire (bot_join sid)) < MAX_PACKET_SIZE" using bot_join_fits(2) by (simp add: fits_def)
  from CliJoinServerReq.recv_wire [OF bot_join_fits(1) this, of "c_memory env" PAKCS_JOIN_SERVER_REQ crc] assms(3)
  have "CCharClient_HandlePacket (char_callbacks rt onl) env
      (header_bytes (length (CliJoinServerReq_wire (bot_join sid))) PAKCS_JOIN_SERVER_REQ crc @ CliJoinServerReq_wire (bot_join sid)) t
    = CCharClient_JoinServerReply (char_callbacks rt onl) env (bot_join sid) t"
    by (simp add: CCharClient_HandlePacket_def CliJoinServerReq_recv_def)
  also have "\<dots> = join_replied (char_callbacks rt onl) env 0 (c_now env) (joined sid uid cid t)"
    using assms(2,4) by (simp add: CCharClient_JoinServerReply_def Let_def joined_def bot_join_def)
  also have "\<dots> = Some (True, writing (the (encodeServerPacket rt (plain PAKSC_JOIN_SERVER_REPLY (SrvJoinServerReply_wire (join_reply (c_now env))))))
        (joined sid uid cid t))"
    using char_side.send_ready [OF _ SrvJoinServerReply.emits_pack assms(3), of "joined sid uid cid t" "join_reply (c_now env)"] assms(1)
    by (simp add: join_replied_def join_reply_def plain_def ready_stages SrvJoinServerReply_wire_def MAX_PACKET_SIZE_def)
  finally show ?thesis .
qed

lemma list_handled:
  assumes "ready t" and "m_loginState t = LOGGEDIN" and "length (c_memory env) = MAX_PACKET_SIZE"
    and "q_characters env (m_userId t) = Some rows" and "list_rows env 0 rows SrvCharacterListReply_new = Some d"
    and "fits PAKCC_CHAR_LIST_REPLY (SrvCharacterListReply_wire d)"
  shows "CCharClient_HandlePacket (char_callbacks rt onl) env (header_bytes 0 PAKCS_CHAR_LIST_REQ crc @ []) t
    = Some (True, writing (the (encodeServerPacket rt (plain PAKCC_CHAR_LIST_REPLY (SrvCharacterListReply_wire d)))) (shown rows t))"
proof -
  have "packet_type (header_bytes 0 PAKCS_CHAR_LIST_REQ crc @ []) = PAKCS_CHAR_LIST_REQ" by (rule packet_type_header)
  then have "CCharClient_HandlePacket (char_callbacks rt onl) env (header_bytes 0 PAKCS_CHAR_LIST_REQ crc @ []) t
      = map_option (Pair True) (send_packet (char_callbacks rt onl) PAKCC_CHAR_LIST_REPLY (SrvCharacterListReply_pack d) (c_memory env) (shown rows t))"
    using assms(2,4,5) by (simp add: CCharClient_HandlePacket_def bot_packet_ids SendCharListReply_def Let_def shown_def)
  then show ?thesis
    using char_side.send_ready [OF _ SrvCharacterListReply.emits_pack assms(3), of "shown rows t" d] assms(1,6)
    by (simp add: ready_stages plain_def fits_def)
qed

definition switch_reply :: "CRoseSocket \<Rightarrow> int \<Rightarrow> u32 \<Rightarrow> SrvSwitchServer" where
  "switch_reply svr m sid = \<lparr>SrvSwitchServer.m_port = m_network_port svr + word_of_int m, m_sessionId = sid, m_sessionSeed = 0,
     m_ip = m_network_address svr\<rparr>"

lemma choice_handled:
  assumes "ready t" and "m_loginState t = LOGGEDIN" and "length (c_memory env) = MAX_PACKET_SIZE" and "q_execute env"
    and "m_characterRealId t = c # cs" and "q_map env c = Some m" and "0 \<notin> set name" and "fits PAKCS_SELECT_CHAR_REQ (CliSelectCharReq_wire (bot_choice name))"
    and "filter (\<lambda>v. get_type v = server_type MAP_MASTER \<and> m_network_id v = m_charChannelId t) (c_iscs env) = [svr]"
    and "length (m_network_address svr) < 2000"
  shows "CCharClient_HandlePacket (char_callbacks rt onl) env
      (header_bytes (length (CliSelectCharReq_wire (bot_choice name))) PAKCS_SELECT_CHAR_REQ crc @ CliSelectCharReq_wire (bot_choice name)) t
    = Some (True, writing (the (encodeServerPacket rt (plain PAKCC_SWITCH_SERVER (SrvSwitchServer_wire (switch_reply svr m (m_charSessionId t))))))
        (chosen c t))"
proof -
  have "CliSelectCharReq_ok (bot_choice name)" using assms(7) by (simp add: CliSelectCharReq_ok_def bot_choice_def)
  moreover have "6 + length (CliSelectCharReq_wire (bot_choice name)) < MAX_PACKET_SIZE" using assms(8) by (simp add: fits_def)
  ultimately have "CliSelectCharReq_recv (c_memory env)
      (header_bytes (length (CliSelectCharReq_wire (bot_choice name))) PAKCS_SELECT_CHAR_REQ crc @ CliSelectCharReq_wire (bot_choice name)) = Inr (bot_choice name)"
    using CliSelectCharReq.recv_wire assms(3) by (simp add: CliSelectCharReq_recv_def)
  then have "CCharClient_HandlePacket (char_callbacks rt onl) env
      (header_bytes (length (CliSelectCharReq_wire (bot_choice name))) PAKCS_SELECT_CHAR_REQ crc @ CliSelectCharReq_wire (bot_choice name)) t
    = SendCharSelectReply (char_callbacks rt onl) env (bot_choice name) t"
    by (simp add: CCharClient_HandlePacket_def bot_packet_ids)
  also have "\<dots> = Some (True, writing (the (encodeServerPacket rt (plain PAKCC_SWITCH_SERVER (SrvSwitchServer_wire (switch_reply svr m (m_charSessionId t))))))
        (chosen c t))"
    using select_switches [of t env "bot_choice name" c m svr rt onl] assms
    by (simp add: ready_def bot_choice_def wire_image_def plain_def switch_reply_def chosen_def)
  finally show ?thesis .
qed

section \<open>What the bot asks next\<close>

lemma bot_char_accepted:
  assumes "ready u" and "length g = MAX_PACKET_SIZE"
  shows "CharClient_HandlePacket (bot_callbacks rt g) g (header_bytes n PAKSS_ACCEPT_REPLY crc @ bs) u
    = Some (True, writing (the (encodeClientPacket rt (plain PAKCS_JOIN_SERVER_REQ (CliJoinServerReq_wire (bot_join (cc_sessionId u)))))) u)"
  using bot.send_ready [OF assms(1) CliJoinServerReq.emits_pack assms(2), where ty = PAKCS_JOIN_SERVER_REQ] bot_join_fits(2)
  by (simp add: CharClient_HandlePacket_def plain_def fits_def bot_join_def)

lemma bot_joined:
  assumes "ready u" and "length g = MAX_PACKET_SIZE"
  shows "CharClient_HandlePacket (bot_callbacks rt g) g
      (header_bytes (length (SrvJoinServerReply_wire (join_reply i))) PAKSC_JOIN_SERVER_REPLY crc @ SrvJoinServerReply_wire (join_reply i)) u
    = Some (True, writing (the (encodeClientPacket rt (plain PAKCS_CHAR_LIST_REQ []))) u)"
proof -
  have "6 + length (SrvJoinServerReply_wire (join_reply i)) < MAX_PACKET_SIZE" by (simp add: SrvJoinServerReply_wire_def MAX_PACKET_SIZE_def)
  from SrvJoinServerReply.recv_wire [OF _ this assms(2), of PAKSC_JOIN_SERVER_REPLY crc]
    bot.send_ready [OF assms(1) CliCharListReq.emits_pack assms(2), where ty = PAKCS_CHAR_LIST_REQ and d1 = CliCharListReq]
  show ?thesis
    by (simp add: CharClient_HandlePacket_def SrvJoinServerReply_recv_def SrvJoinServerReply_ok_def plain_def bot_packet_ids CliCharListReq_wire_def
        MAX_PACKET_SIZE_def) (simp add: join_reply_def)
qed

lemma bot_shown:
  assumes "ready u" and "length g = MAX_PACKET_SIZE" and "SrvCharacterListReply_ok d" and "fits PAKCC_CHAR_LIST_REPLY (SrvCharacterListReply_wire d)"
    and "m_character_list d = c # cs" and "fits PAKCS_SELECT_CHAR_REQ (CliSelectCharReq_wire (bot_choice (ci_name c)))"
  shows "CharClient_HandlePacket (bot_callbacks rt g) g
      (header_bytes (length (SrvCharacterListReply_wire d)) PAKCC_CHAR_LIST_REPLY crc @ SrvCharacterListReply_wire d) u
    = Some (True, writing (the (encodeClientPacket rt (plain PAKCS_SELECT_CHAR_REQ (CliSelectCharReq_wire (bot_choice (ci_name c)))))) u)"
  using bot.send_ready [OF assms(1) CliSelectCharReq.emits_pack assms(2), where ty = PAKCS_SELECT_CHAR_REQ]
    SrvCharacterListReply.recv_wire [OF assms(3) _ assms(2)] assms(4-6)
  by (simp add: CharClient_HandlePacket_def SrvCharacterListReply_recv_def fits_def plain_def bot_packet_ids bot_choice_def)

lemma bot_switched:
  assumes "length g = MAX_PACKET_SIZE" and "SrvSwitchServer_ok reply" and "fits PAKCC_SWITCH_SERVER (SrvSwitchServer_wire reply)"
  shows "CharClient_HandlePacket (bot_callbacks rt g) g
      (header_bytes (length (SrvSwitchServer_wire reply)) PAKCC_SWITCH_SERVER crc @ SrvSwitchServer_wire reply) u
    = Some (False, u\<lparr>cc_ip := SrvSwitchServer.m_ip reply, cc_port := SrvSwitchServer.m_port reply,
        cc_sessionId := SrvSwitchServer.m_sessionId reply, cc_sessionSeed := SrvSwitchServer.m_sessionSeed reply\<rparr>)"
  using SrvSwitchServer.recv_wire [OF assms(2) _ assms(1)] assms(3)
  by (simp add: CharClient_HandlePacket_def SrvSwitchServer_recv_def fits_def bot_packet_ids)

section \<open>From the session to the map server\<close>


text \<open>The list has the characters in the order of the database, and every packet the char server can build of it is readable.\<close>

lemma map_update_same: "(map f xs)[i := f (xs ! i)] = map f xs"
  by (induction xs arbitrary: i) (auto split: nat.splits)

lemma addEquipItem_names: "map ci_name (m_character_list (addEquipItem c slot i gem socket grade d)) = map ci_name (m_character_list d)"
  by (simp add: addEquipItem_def Let_def map_update map_update_same)

lemma add_row_names: "map ci_name (m_character_list (add_row env k row worn d)) = map ci_name (m_character_list d) @ [lr_name row]"
proof -
  have "map ci_name (m_character_list (fold (\<lambda>(slot, itemid). addEquipItem (of_nat k) (getPosition (word_of_int slot)) (word_of_int itemid) 0 0 0) worn e))
      = map ci_name (m_character_list e)" for e
    by (induction worn arbitrary: e) (auto simp: addEquipItem_names)
  then show ?thesis by (simp add: add_row_def addCharacter_def char_info_new_def)
qed

lemma add_row_ok:
  assumes "SrvCharacterListReply_ok d" and "0 \<notin> set (lr_name row)" and "length (m_character_list d) < 255"
  shows "SrvCharacterListReply_ok (add_row env k row worn d)"
proof -
  have "SrvCharacterListReply_ok e \<Longrightarrow>
      SrvCharacterListReply_ok (fold (\<lambda>(slot, itemid). addEquipItem (of_nat k) (getPosition (word_of_int slot)) (word_of_int itemid) 0 0 0) worn e)" for e
    by (induction worn arbitrary: e) (auto simp: addEquipItem_ok)
  then show ?thesis using addCharacter_ok [OF assms] by (simp add: add_row_def)
qed

lemma list_rows_shape:
  "list_rows env k rows d = Some d' \<Longrightarrow> SrvCharacterListReply_ok d \<Longrightarrow> list_all (\<lambda>row. 0 \<notin> set (lr_name row)) rows \<Longrightarrow>
    length (m_character_list d) + length rows < 256 \<Longrightarrow>
    SrvCharacterListReply_ok d' \<and> map ci_name (m_character_list d') = map ci_name (m_character_list d) @ map lr_name rows"
proof (induction rows arbitrary: k d)
  case (Cons row rows)
  have "length (m_character_list (add_row env k row worn d)) = Suc (length (m_character_list d))" for worn
    using arg_cong [OF add_row_names, of length env k row worn d] by simp
  with Cons add_row_ok [OF Cons.prems(2), of row env k] show ?case
    by (force simp: add_row_names split: option.splits)
qed simp

text \<open>What the four requests of a bot with the session \<open>sid\<close> meet: the database has the session for the account \<open>uid\<close> and
  the channel \<open>cid\<close>, the account has characters, and one map server has the channel.\<close>

definition lets_play :: "byte list \<Rightarrow> char_env list \<Rightarrow> u32 \<Rightarrow> int \<Rightarrow> int \<Rightarrow> list_row list \<Rightarrow> SrvCharacterListReply \<Rightarrow> int \<Rightarrow> CRoseSocket \<Rightarrow> bool" where
  "lets_play g envs sid uid cid rows d m svr \<longleftrightarrow> length envs = 4 \<and> length g = MAX_PACKET_SIZE
     \<and> list_all (\<lambda>e. length (c_memory e) = MAX_PACKET_SIZE) envs
     \<and> q_join (envs ! 1) sid (escapeData bot_password) = Some (Some (uid, cid))
     \<and> q_characters (envs ! 2) (word_of_int uid) = Some rows \<and> rows \<noteq> [] \<and> length rows < 256
     \<and> list_all (\<lambda>row. 0 \<notin> set (lr_name row)) rows \<and> length (lr_name (hd rows)) < 2000
     \<and> list_rows (envs ! 2) 0 rows SrvCharacterListReply_new = Some d \<and> fits PAKCC_CHAR_LIST_REPLY (SrvCharacterListReply_wire d)
     \<and> q_execute (envs ! 3) \<and> q_map (envs ! 3) (word_of_int (lr_id (hd rows))) = Some m
     \<and> filter (\<lambda>v. get_type v = server_type MAP_MASTER \<and> m_network_id v = word_of_int cid) (c_iscs (envs ! 3)) = [svr]
     \<and> 0 \<notin> set (m_network_address svr) \<and> length (m_network_address svr) < 2000"

abbreviation char_talk :: "u32 list list \<Rightarrow> (u32 \<Rightarrow> bool option) \<Rightarrow> byte list \<Rightarrow> char_env list \<Rightarrow> CharClient \<times> CCharClient
    \<Rightarrow> CharClient \<times> CCharClient \<Rightarrow> bool" where
  "char_talk rt onl g envs \<equiv> dialogue (bot_callbacks rt g) (CharClient_HandlePacket (bot_callbacks rt g) g) (char_callbacks rt onl)
     (map (CCharClient_HandlePacket (char_callbacks rt onl)) envs)"

lemma arrived_char:
  fixes s :: CCharClient
  assumes "arrived s t"
  shows "m_loginState t = m_loginState s" "m_charSessionId t = m_charSessionId s" "m_userId t = m_userId s" "m_charChannelId t = m_charChannelId s"
    "m_characterRealId t = m_characterRealId s" "m_char_sql t = m_char_sql s"
  using assms by (subst assms [unfolded arrived_def only_received_def, THEN conjunct1], simp)+

lemma arrived_bot_session:
  fixes c :: CharClient
  assumes "arrived c u"
  shows "cc_sessionId u = cc_sessionId c"
  using assms by (subst assms [unfolded arrived_def only_received_def, THEN conjunct1], simp)

lemma sent_char:
  fixes s :: CCharClient
  shows "m_loginState (sent img now s) = m_loginState s" "m_charSessionId (sent img now s) = m_charSessionId s"
    "m_userId (sent img now s) = m_userId s" "m_charChannelId (sent img now s) = m_charChannelId s"
    "m_characterRealId (sent img now s) = m_characterRealId s" "m_char_sql (sent img now s) = m_char_sql s"
  by (simp_all add: sent_def)

lemma bot_char_closed:
  fixes b :: CharClient and rt g
  defines "b' \<equiv> snd (shutdown (bot_callbacks rt g) False b)"
  shows "cc_sessionId b' = cc_sessionId b" "cc_ip b' = cc_ip b" "cc_port b' = cc_port b" "cc_sessionSeed b' = cc_sessionSeed b" "\<not> m_active b'"
  unfolding b'_def by (auto simp: shutdown_def disconnect_def bot_callbacks_def initCallbacks_def Let_def)

text \<open>The last round, the last two, the last three, and all of them.\<close>

definition on_the_way :: "CRoseSocket \<Rightarrow> int \<Rightarrow> u32 \<Rightarrow> CharClient \<Rightarrow> bool" where
  "on_the_way svr m sid b \<longleftrightarrow> cc_ip b = m_network_address svr \<and> cc_port b = m_network_port svr + word_of_int m
     \<and> cc_sessionId b = sid \<and> cc_sessionSeed b = 0 \<and> \<not> m_active b"

lemma choice_round:
  assumes "at_char.asks rt PAKCS_SELECT_CHAR_REQ (CliSelectCharReq_wire (bot_choice (lr_name (hd rows)))) b"
    and "ready s" and "m_loginState s = LOGGEDIN" and "m_characterRealId s = map (\<lambda>row. word_of_int (lr_id row)) rows"
    and "m_charChannelId s = word_of_int cid" and e: "lets_play g [e1, e2, e3, e4] sid uid cid rows d m svr"
  shows "(\<exists>x. char_talk rt onl g [e4] (b, s) x)
    \<and> (\<forall>b' s'. char_talk rt onl g [e4] (b, s) (b', s') \<longrightarrow> on_the_way svr m (m_charSessionId s) b' \<and> m_loginState s' = TRANSFERING
        \<and> m_char_sql s' = m_char_sql s @ [UpdateSessionWithCharacter (m_charSessionId s) (word_of_int (lr_id (hd rows)))])"
proof -
  let ?r = "switch_reply svr m (m_charSessionId s)"
  note lets = e [unfolded lets_play_def, simplified]
  obtain row rest where rows: "rows = row # rest" using lets by (metis list.exhaust)
  have fit: "fits PAKCC_SWITCH_SERVER (SrvSwitchServer_wire ?r)"
    using lets by (simp add: fits_def SrvSwitchServer_wire_def switch_reply_def MAX_PACKET_SIZE_def PAKCC_SWITCH_SERVER_def)
  have req: "fits PAKCS_SELECT_CHAR_REQ (CliSelectCharReq_wire (bot_choice (lr_name row)))" "0 \<notin> set (lr_name row)"
    using lets rows by (simp_all add: fits_def CliSelectCharReq_wire_def bot_choice_def MAX_PACKET_SIZE_def PAKCS_SELECT_CHAR_REQ_def)
  show ?thesis
    unfolding list.map
  proof (rule at_char.last_round [OF assms(1,2) fit, where f = "chosen (word_of_int (lr_id row))" and
        h = "\<lambda>u. u\<lparr>cc_ip := SrvSwitchServer.m_ip ?r, cc_port := SrvSwitchServer.m_port ?r,
          cc_sessionId := SrvSwitchServer.m_sessionId ?r, cc_sessionSeed := SrvSwitchServer.m_sessionSeed ?r\<rparr>"], goal_cases)
    case (1 t crc)
    then show ?case
      using choice_handled [OF arrived_ready [OF 1], of e4 "word_of_int (lr_id row)" "map (\<lambda>row. word_of_int (lr_id row)) rest" m "lr_name row" svr rt onl crc]
        req lets assms(3-5) rows by (simp add: arrived_char arrived_ready ready_stages)
  next
    case (2 u crc)
    then show ?case
      using bot_switched [OF _ _ fit, of g rt crc u] lets
      by (simp add: arrived_def ready_def waiting_def idle_def switch_reply_def SrvSwitchServer_ok_def)
  next
    case (3 t u now')
    show ?case
      using arrived_char [OF 3(1)] rows by (simp add: on_the_way_def bot_char_closed switch_reply_def sent_char chosen_def char_log_def)
  qed
qed

lemma list_rounds:
  assumes "at_char.asks rt PAKCS_CHAR_LIST_REQ [] b" and "ready s" and "m_loginState s = LOGGEDIN"
    and "m_userId s = word_of_int uid" and "m_charChannelId s = word_of_int cid" and e: "lets_play g [e1, e2, e3, e4] sid uid cid rows d m svr"
  shows "(\<exists>x. char_talk rt onl g [e3, e4] (b, s) x)
    \<and> (\<forall>b' s'. char_talk rt onl g [e3, e4] (b, s) (b', s') \<longrightarrow> on_the_way svr m (m_charSessionId s) b' \<and> m_loginState s' = TRANSFERING
        \<and> m_char_sql s' = m_char_sql s @ [SelectCharacters (word_of_int uid) (map (\<lambda>row. word_of_int (lr_id row)) rows),
            UpdateSessionWithCharacter (m_charSessionId s) (word_of_int (lr_id (hd rows)))])"
proof -
  note lets = e [unfolded lets_play_def, simplified]
  have fit: "fits PAKCC_CHAR_LIST_REPLY (SrvCharacterListReply_wire d)"
    "fits PAKCS_SELECT_CHAR_REQ (CliSelectCharReq_wire (bot_choice (lr_name (hd rows))))"
    using lets by (simp_all add: fits_def CliSelectCharReq_wire_def bot_choice_def MAX_PACKET_SIZE_def PAKCS_SELECT_CHAR_REQ_def)
  have d: "SrvCharacterListReply_ok d" "map ci_name (m_character_list d) = map lr_name rows"
    using list_rows_shape [of e3 0 rows SrvCharacterListReply_new d] lets new_ok by (simp_all add: SrvCharacterListReply_new_def)
  then obtain c cs where c: "m_character_list d = c # cs" "ci_name c = lr_name (hd rows)"
    using lets by (cases "m_character_list d"; cases rows) auto
  show ?thesis
    unfolding list.map
  proof (rule at_char.round [OF assms(1,2) fit, where f = "shown rows"], goal_cases)
    case (1 t crc)
    then show ?case
      using list_handled [OF arrived_ready [OF 1] _ _ _ _ fit(1), of e3 rows rt onl crc] lets assms(3,4)
      by (simp add: arrived_char arrived_ready ready_stages)
  next
    case (2 u crc)
    then show ?case using bot_shown [OF arrived_ready [OF 2] _ d(1) fit(1) c(1), of g rt crc] fit(2) c(2) lets by simp
  next
    case (3 t u now now')
    let ?s = "sent (the (encodeServerPacket rt (plain PAKCC_CHAR_LIST_REPLY (SrvCharacterListReply_wire d)))) now' (shown rows t)"
    have "ready ?s" "m_loginState ?s = LOGGEDIN" "m_characterRealId ?s = map (\<lambda>row. word_of_int (lr_id row)) rows"
      "m_charChannelId ?s = word_of_int cid"
      using 3(3) arrived_char [OF 3(1)] assms(3,5) by (simp_all add: sent_char shown_def char_log_def)
    from choice_round [OF 3(4) this e] show ?case
      unfolding list.map using assms(4) by (simp add: sent_char arrived_char [OF 3(1)] shown_def char_log_def del: dialogue.simps)
  qed
qed

lemma join_rounds:
  assumes "at_char.asks rt PAKCS_JOIN_SERVER_REQ (CliJoinServerReq_wire (bot_join sid)) b" and "ready s" and "m_loginState s = DEFAULT"
    and e: "lets_play g [e1, e2, e3, e4] sid uid cid rows d m svr"
  shows "(\<exists>x. char_talk rt onl g [e2, e3, e4] (b, s) x)
    \<and> (\<forall>b' s'. char_talk rt onl g [e2, e3, e4] (b, s) (b', s') \<longrightarrow> on_the_way svr m sid b' \<and> m_loginState s' = TRANSFERING
        \<and> m_char_sql s' = m_char_sql s @ [SelectSession sid (word_of_int uid) (word_of_int cid),
            SelectCharacters (word_of_int uid) (map (\<lambda>row. word_of_int (lr_id row)) rows),
            UpdateSessionWithCharacter sid (word_of_int (lr_id (hd rows)))])"
proof -
  note lets = e [unfolded lets_play_def, simplified]
  have fit: "fits PAKSC_JOIN_SERVER_REPLY (SrvJoinServerReply_wire (join_reply (c_now e2)))" "fits PAKCS_CHAR_LIST_REQ []"
    by (simp_all add: fits_def SrvJoinServerReply_wire_def MAX_PACKET_SIZE_def bot_packet_ids)
  show ?thesis
    unfolding list.map
  proof (rule at_char.round [OF assms(1,2) fit, where f = "joined sid uid cid"], goal_cases)
    case (1 t crc)
    then show ?case
      using join_handled [OF arrived_ready [OF 1], of e2 sid uid cid rt onl crc] lets assms(3) by (simp add: arrived_char arrived_ready ready_stages)
  next
    case (2 u crc)
    then show ?case using bot_joined [OF arrived_ready [OF 2]] lets by simp
  next
    case (3 t u now now')
    let ?s = "sent (the (encodeServerPacket rt (plain PAKSC_JOIN_SERVER_REPLY (SrvJoinServerReply_wire (join_reply (c_now e2)))))) now' (joined sid uid cid t)"
    have "ready ?s" "m_loginState ?s = LOGGEDIN" "m_userId ?s = word_of_int uid" "m_charChannelId ?s = word_of_int cid"
      using 3(3) by (simp_all add: sent_char joined_def char_log_def)
    from list_rounds [OF 3(4) this e] show ?case
      unfolding list.map by (simp add: sent_char arrived_char [OF 3(1)] joined_def char_log_def del: dialogue.simps)
  qed
qed

lemma char_accept_rounds:
  assumes "at_char.asks rt PAKCS_ACCEPT_REQ [] b" and "cc_sessionId b = sid" and "ready s" and "m_loginState s = DEFAULT"
    and e: "lets_play g [e1, e2, e3, e4] sid uid cid rows d m svr"
  shows "(\<exists>x. char_talk rt onl g [e1, e2, e3, e4] (b, s) x)
    \<and> (\<forall>b' s'. char_talk rt onl g [e1, e2, e3, e4] (b, s) (b', s') \<longrightarrow> on_the_way svr m sid b' \<and> m_loginState s' = TRANSFERING
        \<and> m_char_sql s' = m_char_sql s @ [SelectSession sid (word_of_int uid) (word_of_int cid),
            SelectCharacters (word_of_int uid) (map (\<lambda>row. word_of_int (lr_id row)) rows),
            UpdateSessionWithCharacter sid (word_of_int (lr_id (hd rows)))])"
proof -
  let ?r = "\<lparr>SrvAcceptReply.m_result = 2, m_randValue = c_now e1\<rparr>"
  note lets = e [unfolded lets_play_def, simplified]
  have fit: "fits PAKSS_ACCEPT_REPLY (SrvAcceptReply_wire ?r)"
    by (simp add: fits_def SrvAcceptReply_wire_def MAX_PACKET_SIZE_def PAKSS_ACCEPT_REPLY_def)
  show ?thesis
    unfolding list.map
  proof (rule at_char.round [OF assms(1,3) fit bot_join_fits(2) [of sid], where f = "\<lambda>t. t"], goal_cases)
    case (1 t crc)
    then show ?case using char_accept_handled [OF arrived_ready [OF 1], of e1 rt onl crc] lets by (simp add: arrived_ready)
  next
    case (2 u crc)
    then show ?case using bot_char_accepted [OF arrived_ready [OF 2]] arrived_bot_session [OF 2] assms(2) lets by simp
  next
    case (3 t u now now')
    let ?s = "sent (the (encodeServerPacket rt (plain PAKSS_ACCEPT_REPLY (SrvAcceptReply_wire ?r)))) now' t"
    have "ready ?s" "m_loginState ?s = DEFAULT" using 3(3) arrived_char [OF 3(1)] assms(4) by (simp_all add: sent_char)
    from join_rounds [OF 3(4) this e] show ?case
      unfolding list.map by (simp add: sent_char arrived_char [OF 3(1)] del: dialogue.simps)
  qed
qed

lemma char_socket_waits:
  fixes i seed :: u32 and p port :: u16 and now :: int
  assumes "length ip \<ge> 2" and "length mem = MAX_PACKET_SIZE"
  defines "b \<equiv> CharClient_new i p seed (snd (init ip port (CNetwork_Asio_new mem now)))"
  shows "waiting (b\<lparr>m_reading := Some 6\<rparr>)" "idle b" "m_recv_queue b = []" "cc_sessionId b = i"
  using assms(1,2) unfolding b_def
  by (simp_all add: init_def CharClient_new_def waiting_def idle_def new_char_defs CharClient.defs)

lemma char_bot_starts:
  assumes "length (lc_ip login) \<ge> 2" and "length mem = MAX_PACKET_SIZE" and "length g = MAX_PACKET_SIZE"
  shows "\<exists>c b0 b. main_char p seed (CNetwork_Asio_new mem now0) login = Some c \<and> bot_start (bot_callbacks rt g) c = Some b0
    \<and> write_done (bot_callbacks rt g) now None b0 = Some b \<and> at_char.asks rt PAKCS_ACCEPT_REQ [] b \<and> cc_sessionId b = lc_sessionId login"
proof -
  let ?c = "CharClient_new (lc_sessionId login) p seed (snd (init (lc_ip login) (lc_port login) (CNetwork_Asio_new mem now0)))"
  note new = char_socket_waits [OF assms(1,2), of "lc_sessionId login" p seed "lc_port login" now0]
  obtain b0 b where b: "bot_start (bot_callbacks rt g) ?c = Some b0" "write_done (bot_callbacks rt g) now None b0 = Some b"
      "at_char.asks rt PAKCS_ACCEPT_REQ [] b" "CRoseSocket.CRoseSocket.more b = CRoseSocket.CRoseSocket.more ?c"
    using connected_asks [OF new(1-3) assms(3), of rt now] by (auto simp: at_char.asks_def)
  have "cc_sessionId b = cc_sessionId ?c" using b(4) by (cases b, cases ?c) simp
  moreover have "main_char p seed (CNetwork_Asio_new mem now0) login = Some ?c" using assms(1) by (auto simp: main_char_def)
  ultimately show ?thesis using b(1-3) new(4) by auto
qed

definition sample_channel :: CRoseSocket where
  "sample_channel = sample_map_server\<lparr>m_network_id := 6\<rparr>"

definition sample_play_env :: char_env where
  "sample_play_env = sample_char_env\<lparr>q_join := (\<lambda>sid p. Some (if sid = 1000 then Some (5, 6) else None)), c_iscs := [sample_channel]\<rparr>"

lemma sample_lets_play:
  "\<exists>rows d. map (\<lambda>row. word_of_int (lr_id row)) rows = [40 :: u32] \<and> lets_play (replicate 2047 0)
     [sample_play_env, sample_play_env, sample_play_env, sample_play_env] 1000 5 6 rows d 20 sample_channel"
proof -
  let ?rows = "the (q_characters sample_play_env 5)"
  let ?d = "the (list_rows sample_play_env 0 ?rows SrvCharacterListReply_new)"
  have "length (SrvCharacterListReply_wire ?d) = 53" by code_simp
  then have "lets_play (replicate 2047 0) [sample_play_env, sample_play_env, sample_play_env, sample_play_env] 1000 5 6 ?rows ?d 20 sample_channel"
    by (simp add: lets_play_def fits_def MAX_PACKET_SIZE_def PAKCC_CHAR_LIST_REPLY_def sample_play_env_def sample_char_env_def sample_channel_def sample_map_server_def get_type_def)
  moreover have "map (\<lambda>row. word_of_int (lr_id row)) ?rows = [40 :: u32]" by (simp add: sample_play_env_def sample_char_env_def)
  ultimately show ?thesis by (intro exI conjI)
qed

section \<open>Properties\<close>

text \<open>C5. The bot and the char server understand each other. A bot that has logged in goes on with the session and the
  address it was told; at the other end a new client of the char server waits. If the database has the session for the
  password of the bot, its account has characters and one map server has the channel of the session, then whatever the
  sizes of the chunks in which the bytes arrive, the four rounds (accept, join, list, selection) can be taken, and after them the
  bot has closed its connection and goes on to the map server of its channel, at the port of the map of its character, with the session it came
  with, and the char server has given the first character of the account to that session.\<close>

theorem bot_reaches_map:
  assumes "length (lc_ip login) \<ge> 2" and "length mem = MAX_PACKET_SIZE" and "ready s" and "m_loginState s = DEFAULT"
    and "lets_play g [e1, e2, e3, e4] (lc_sessionId login) uid cid rows d m svr"
  shows "\<exists>c b0 b. main_char p seed (CNetwork_Asio_new mem now0) login = Some c \<and> bot_start (bot_callbacks rt g) c = Some b0
    \<and> write_done (bot_callbacks rt g) now None b0 = Some b \<and> (\<exists>x. char_talk rt onl g [e1, e2, e3, e4] (b, s) x)
    \<and> (\<forall>b' s'. char_talk rt onl g [e1, e2, e3, e4] (b, s) (b', s') \<longrightarrow> \<not> m_active b'
        \<and> main_map sock b' = (if m_network_address svr = [] then None
            else Some (MapClient_new (lc_sessionId login) 0 (snd (init (m_network_address svr) (m_network_port svr + word_of_int m) sock))))
        \<and> m_loginState s' = TRANSFERING
        \<and> m_char_sql s' = m_char_sql s @ [SelectSession (lc_sessionId login) (word_of_int uid) (word_of_int cid),
            SelectCharacters (word_of_int uid) (map (\<lambda>row. word_of_int (lr_id row)) rows),
            UpdateSessionWithCharacter (lc_sessionId login) (word_of_int (lr_id (hd rows)))])"
proof -
  have g: "length g = MAX_PACKET_SIZE" using assms(5) by (simp add: lets_play_def)
  obtain c b0 b where b: "main_char p seed (CNetwork_Asio_new mem now0) login = Some c" "bot_start (bot_callbacks rt g) c = Some b0"
      "write_done (bot_callbacks rt g) now None b0 = Some b" "at_char.asks rt PAKCS_ACCEPT_REQ [] b" "cc_sessionId b = lc_sessionId login"
    using char_bot_starts [OF assms(1,2) g] by blast
  note talk = char_accept_rounds [OF b(4,5) assms(3-)]
  have "main_map sock b' = (if m_network_address svr = [] then None
      else Some (MapClient_new (lc_sessionId login) 0 (snd (init (m_network_address svr) (m_network_port svr + word_of_int m) sock)))) \<and> \<not> m_active b'"
    if "on_the_way svr m (lc_sessionId login) b'" for b'
    using that by (simp add: on_the_way_def main_map_def)
  with b(1-3) talk show ?thesis by blast
qed

theorem bot_reaches_map_witness:
  "\<exists>c b0 b b' s'. main_char 0 0 (CNetwork_Asio_new (replicate 2047 0) 0)
       ((LoginClient_new 1000 29100 (CNetwork_Asio_new (replicate 2047 0) 0))\<lparr>lc_ip := [0x31, 0x32]\<rparr>) = Some c
    \<and> bot_start (bot_callbacks sample_keys (replicate 2047 0)) c = Some b0
    \<and> write_done (bot_callbacks sample_keys (replicate 2047 0)) 0 None b0 = Some b
    \<and> char_talk sample_keys (\<lambda>_. None) (replicate 2047 0) [sample_play_env, sample_play_env, sample_play_env, sample_play_env] (b, sample_char_client) (b', s')
    \<and> m_loginState s' = TRANSFERING
    \<and> m_char_sql s' = [SelectSession 1000 5 6, SelectCharacters 5 [40], UpdateSessionWithCharacter 1000 40]"
proof -
  let ?m = "replicate 2047 0 :: byte list"
  let ?l = "(LoginClient_new 1000 29100 (CNetwork_Asio_new ?m 0))\<lparr>lc_ip := [0x31, 0x32]\<rparr>"
  obtain rows d where r: "map (\<lambda>row. word_of_int (lr_id row)) rows = [40 :: u32]"
      "lets_play ?m [sample_play_env, sample_play_env, sample_play_env, sample_play_env] 1000 5 6 rows d 20 sample_channel"
    using sample_lets_play by (elim exE conjE)
  have id: "lc_sessionId ?l = 1000" by (simp add: LoginClient_new_def new_char_defs LoginClient.defs)
  have s: "ready sample_char_client" using sample_char_client_facts by (simp add: ready_def)
  have hd: "word_of_int (lr_id (hd rows)) = (40 :: u32)" using r(1) by (cases rows) auto
  have "length (lc_ip ?l) \<ge> 2" "length ?m = MAX_PACKET_SIZE" by (simp_all add: MAX_PACKET_SIZE_def)
  from bot_reaches_map [OF this s sample_char_client_facts(4), unfolded id, OF r(2), of 0 0 0 sample_keys 0 "\<lambda>_. None" "CNetwork_Asio_new ?m 0"]
  show ?thesis
    unfolding r(1) hd sample_char_client_facts(5) split_paired_Ex
  proof (elim exE conjE, goal_cases)
    case (1 c b0 b b' s')
    from 1(1-3) 1(5) 1(4) [rule_format, OF 1(5)] show ?case by (elim conjE) (intro exI conjI, assumption+, simp_all)
  qed
qed

end
