(* ===== verification/Programs.thy ===== *)
theory Programs
  imports IscServers CCharClient
begin

text \<open>
  How the programs start: the configuration (\<open>core/include/config.h\<close>, \<open>core/src/config.cpp\<close>), the command lines and the
  servers that each \<open>main.cpp\<close> and \<open>map/src/map_manager.cpp\<close> open, and the sweep of stale sessions that the login server
  runs. The command line parser and the reader of configuration files are libraries: an argument says which options
  were given and what the file holds. Signals, logging, crash reports and the checks of the user are left out.
\<close>

section \<open>The configuration\<close>

record Database =
  db_host :: cstring
  db_database :: cstring
  db_user :: cstring
  db_password :: cstring
  db_port :: u16

record ServerData =
  sd_id :: u32
  sd_ip :: cstring
  sd_iscListenIp :: cstring
  sd_autoConfigureUrl :: cstring
  sd_core_dump_path :: cstring
  sd_parentId :: u32
  sd_maxConnections :: u32
  sd_maxThreads :: u32
  sd_useThreads :: bool
  sd_autoConfigureAddress :: bool
  sd_accessLevel :: u8
  sd_mode :: u8

record LoginServer =
  ls_createAccountOnFail :: bool
  ls_clientPort :: u16
  ls_iscPort :: u16
  ls_accessLevel :: u8
  ls_logLevel :: u8

record CharServer =
  cs_worldName :: cstring
  cs_loginIp :: cstring
  cs_clientPort :: u16
  cs_iscPort :: u16
  cs_accessLevel :: u8
  cs_logLevel :: u8

record MapServer_data =
  ms_channelName :: cstring
  ms_charIp :: cstring
  ms_clientPort :: u16
  ms_iscPort :: u16
  ms_accessLevel :: u8
  ms_mapId :: "u16 list"
  ms_luaScript :: cstring
  ms_logLevel :: u8

record Configuration =
  database :: Database
  serverData :: ServerData
  loginServer :: LoginServer
  charServer :: CharServer
  mapServer :: MapServer_data

definition Configuration_new :: Configuration where
  "Configuration_new =
    \<lparr>database = \<lparr>db_host = ascii ''127.0.0.1'', db_database = ascii ''osirose'', db_user = ascii ''root'', db_password = [], db_port = 3306\<rparr>,
     serverData = \<lparr>sd_id = 0, sd_ip = ascii ''127.0.0.1'', sd_iscListenIp = ascii ''127.0.0.1'',
       sd_autoConfigureUrl = ascii ''http://ipv4.myexternalip.com/raw'', sd_core_dump_path = ascii ''/tmp/dumps'', sd_parentId = 0,
       sd_maxConnections = 0, sd_maxThreads = 512, sd_useThreads = True, sd_autoConfigureAddress = False, sd_accessLevel = 1, sd_mode = 0\<rparr>,
     loginServer = \<lparr>ls_createAccountOnFail = False, ls_clientPort = 29000, ls_iscPort = 29010, ls_accessLevel = 1, ls_logLevel = 2\<rparr>,
     charServer = \<lparr>cs_worldName = ascii ''osIROSE'', cs_loginIp = ascii ''127.0.0.1'', cs_clientPort = 29100, cs_iscPort = 29110,
       cs_accessLevel = 1, cs_logLevel = 2\<rparr>,
     mapServer = \<lparr>ms_channelName = ascii ''Athena'', ms_charIp = ascii ''127.0.0.1'', ms_clientPort = 29200, ms_iscPort = 29210,
       ms_accessLevel = 1, ms_mapId = [1], ms_luaScript = ascii ''scripts/root.lua'', ms_logLevel = 2\<rparr>\<rparr>"

text \<open>\<open>files\<close>: what the reader makes of a configuration file, if there is one; it starts from the defaults. A file that is not
  there is written with the defaults.\<close>

definition Config_new :: "(cstring \<Rightarrow> (Configuration \<Rightarrow> Configuration) option) \<Rightarrow> cstring \<Rightarrow> Configuration \<times> (cstring \<times> Configuration) option" where
  "Config_new files name =
    (case files name of
       None \<Rightarrow> (Configuration_new, Some (name, Configuration_new))
     | Some read \<Rightarrow> (read Configuration_new, None))"

section \<open>The command line\<close>

record options =
  opt_help :: bool
  opt_config_file :: cstring
  opt_log_level :: "int option"
  opt_core_path :: "cstring option"
  opt_client_ip :: "cstring option"
  opt_client_port :: "int option"
  opt_isc_ip :: "cstring option"
  opt_isc_port :: "int option"
  opt_max_threads :: "int option"
  opt_url :: "cstring option"
  opt_db_host :: "cstring option"
  opt_db_port :: "int option"
  opt_db_name :: "cstring option"
  opt_db_user :: "cstring option"
  opt_db_pass :: "cstring option"
  opt_map_ids :: "u16 list option"

definition no_options :: options where
  "no_options = \<lparr>opt_help = False, opt_config_file = ascii ''server.json'', opt_log_level = None, opt_core_path = None, opt_client_ip = None,
     opt_client_port = None, opt_isc_ip = None, opt_isc_port = None, opt_max_threads = None, opt_url = None, opt_db_host = None,
     opt_db_port = None, opt_db_name = None, opt_db_user = None, opt_db_pass = None, opt_map_ids = None\<rparr>"

text \<open>\<open>if (options.count(x)) \<dots>\<close>.\<close>

definition given :: "'a option \<Rightarrow> ('a \<Rightarrow> 'c \<Rightarrow> 'c) \<Rightarrow> 'c \<Rightarrow> 'c" where
  "given v assign c = (case v of None \<Rightarrow> c | Some x \<Rightarrow> assign x c)"

text \<open>The assignments of \<open>ParseCommandLine\<close>. They are the same in the four programs, and so are the members they assign to.\<close>

definition override_login :: "options \<Rightarrow> LoginServer \<Rightarrow> LoginServer" where
  "override_login opts = given (opt_isc_port opts) (\<lambda>p. ls_iscPort_update (\<lambda>_. word_of_int p))
     \<circ> given (opt_client_port opts) (\<lambda>p. ls_clientPort_update (\<lambda>_. word_of_int p))
     \<circ> given (opt_log_level opts) (\<lambda>l. ls_logLevel_update (\<lambda>_. word_of_int l))"

definition override_server :: "options \<Rightarrow> ServerData \<Rightarrow> ServerData" where
  "override_server opts = given (opt_core_path opts) (\<lambda>p. sd_core_dump_path_update (\<lambda>_. p))
     \<circ> given (opt_max_threads opts) (\<lambda>n. sd_maxThreads_update (\<lambda>_. word_of_int n))
     \<circ> given (opt_url opts) (\<lambda>u d. d\<lparr>sd_autoConfigureAddress := True, sd_autoConfigureUrl := u\<rparr>)
     \<circ> given (opt_isc_ip opts) (\<lambda>ip. sd_iscListenIp_update (\<lambda>_. ip))
     \<circ> given (opt_client_ip opts) (\<lambda>ip. sd_ip_update (\<lambda>_. ip))"

definition override_database :: "options \<Rightarrow> Database \<Rightarrow> Database" where
  "override_database opts = given (opt_db_pass opts) (\<lambda>p. db_password_update (\<lambda>_. p))
     \<circ> given (opt_db_user opts) (\<lambda>u. db_user_update (\<lambda>_. u))
     \<circ> given (opt_db_name opts) (\<lambda>n. db_database_update (\<lambda>_. n))
     \<circ> given (opt_db_port opts) (\<lambda>p. db_port_update (\<lambda>_. word_of_int p))
     \<circ> given (opt_db_host opts) (\<lambda>h. db_host_update (\<lambda>_. h))"

definition override :: "options \<Rightarrow> Configuration \<Rightarrow> Configuration" where
  "override opts cfg = cfg\<lparr>database := override_database opts (database cfg), serverData := override_server opts (serverData cfg),
     loginServer := override_login opts (loginServer cfg)\<rparr>"

definition override_map :: "options \<Rightarrow> Configuration \<Rightarrow> Configuration" where
  "override_map opts cfg = (override opts cfg)\<lparr>mapServer := given (opt_map_ids opts) (\<lambda>ids. ms_mapId_update (\<lambda>_. ids)) (mapServer cfg)\<rparr>"

text \<open>\<open>ParseCommandLine\<close>: an option that the parser refuses and a request for help end the program with an exit code.
  \<open>GetInstance\<close> makes the network threads when it is called for the first time; \<open>main\<close> calls it again.\<close>

datatype started = Exit int | Run Configuration u32

definition ParseCommandLine :: "(options \<Rightarrow> Configuration \<Rightarrow> Configuration) \<Rightarrow> (cstring \<Rightarrow> (Configuration \<Rightarrow> Configuration) option) \<Rightarrow> options option
    \<Rightarrow> started" where
  "ParseCommandLine ov files parsed =
    (case parsed of
       None \<Rightarrow> Exit 1
     | Some opts \<Rightarrow>
         if opt_help opts then Exit 0
         else let cfg = ov opts (fst (Config_new files (opt_config_file opts))) in Run cfg (sd_maxThreads (serverData cfg)))"

text \<open>The four programs; only the map server has the option for its maps.\<close>

definition ParseCommandLine_login :: "(cstring \<Rightarrow> (Configuration \<Rightarrow> Configuration) option) \<Rightarrow> options option \<Rightarrow> started" where
  "ParseCommandLine_login = ParseCommandLine override"

definition ParseCommandLine_char :: "(cstring \<Rightarrow> (Configuration \<Rightarrow> Configuration) option) \<Rightarrow> options option \<Rightarrow> started" where
  "ParseCommandLine_char = ParseCommandLine override"

definition ParseCommandLine_node :: "(cstring \<Rightarrow> (Configuration \<Rightarrow> Configuration) option) \<Rightarrow> options option \<Rightarrow> started" where
  "ParseCommandLine_node = ParseCommandLine override"

definition ParseCommandLine_map :: "(cstring \<Rightarrow> (Configuration \<Rightarrow> Configuration) option) \<Rightarrow> options option \<Rightarrow> started" where
  "ParseCommandLine_map = ParseCommandLine override_map"

section \<open>The servers that listen\<close>

text \<open>\<open>init\<close> and \<open>listen\<close>; the result of \<open>init\<close> is not looked at.\<close>

definition serve :: "cstring \<Rightarrow> u16 \<Rightarrow> CNetwork_Asio \<Rightarrow> CNetwork_Asio" where
  "serve ip port sock = snd (listen initCallbacks (snd (init ip port sock)))"

text \<open>What the connection to the next server says of this one when it is made.\<close>

definition char_isc_config :: "Configuration \<Rightarrow> server_config" where
  "char_isc_config cfg = \<lparr>cfg_name = cs_worldName (charServer cfg), cfg_ip = sd_ip (serverData cfg),
     cfg_clientPort = ucast (cs_clientPort (charServer cfg)), cfg_accessLevel = ucast (cs_accessLevel (charServer cfg))\<rparr>"

definition map_isc_config :: "Configuration \<Rightarrow> server_config" where
  "map_isc_config cfg = \<lparr>cfg_name = ms_channelName (mapServer cfg), cfg_ip = sd_ip (serverData cfg),
     cfg_clientPort = ucast (ms_clientPort (mapServer cfg)), cfg_accessLevel = ucast (ms_accessLevel (mapServer cfg))\<rparr>"

definition registering :: "(CRoseSocket \<Rightarrow> CRoseSocket option) \<Rightarrow> CRoseSocket callbacks" where
  "registering register = isc_callbacks\<lparr>OnConnected := (\<lambda>s. case register s of None \<Rightarrow> s | Some s' \<Rightarrow> s')\<rparr>"

text \<open>\<open>init\<close>, \<open>connect\<close> and \<open>start_recv\<close> of the connection to the next server, whose type is set in between; \<open>failed\<close> says
  whether the connection could not be made.\<close>

definition join_server :: "(CRoseSocket \<Rightarrow> CRoseSocket option) \<Rightarrow> bool \<Rightarrow> cstring \<Rightarrow> u16 \<Rightarrow> ServerType \<Rightarrow> CRoseSocket \<Rightarrow> CRoseSocket option" where
  "join_server register failed ip port ty s =
    recv_data (registering register) (snd (connect (registering register) failed (set_type (ucast (server_type ty)) (snd (init ip port s)))))"

text \<open>The login server listens for players and for servers.\<close>

definition login_main :: "Configuration \<Rightarrow> CNetwork_Asio \<Rightarrow> CNetwork_Asio \<Rightarrow> CNetwork_Asio \<times> CNetwork_Asio" where
  "login_main cfg client isc =
    (serve (sd_ip (serverData cfg)) (ls_clientPort (loginServer cfg)) client,
     serve (sd_iscListenIp (serverData cfg)) (ls_iscPort (loginServer cfg)) isc)"

text \<open>The char server goes to the login server first.\<close>

definition char_main :: "byte list \<Rightarrow> bool \<Rightarrow> Configuration \<Rightarrow> CNetwork_Asio \<Rightarrow> CNetwork_Asio \<Rightarrow> CRoseSocket
    \<Rightarrow> (CRoseSocket \<times> CNetwork_Asio \<times> CNetwork_Asio) option" where
  "char_main g failed cfg client isc peer =
    (case join_server (CCharISC_OnConnected isc_callbacks g (char_isc_config cfg)) failed
            (cs_loginIp (charServer cfg)) (ls_iscPort (loginServer cfg)) LOGIN peer of
       None \<Rightarrow> None
     | Some login \<Rightarrow> Some (login,
         serve (sd_ip (serverData cfg)) (cs_clientPort (charServer cfg)) client,
         serve (sd_iscListenIp (serverData cfg)) (cs_iscPort (charServer cfg)) isc))"

text \<open>The map server has a server for every map; \<open>socks\<close> are their sockets.\<close>

definition MapManager_new :: "byte list \<Rightarrow> bool \<Rightarrow> Configuration \<Rightarrow> CNetwork_Asio \<Rightarrow> CRoseSocket \<Rightarrow> (u16 \<Rightarrow> CNetwork_Asio)
    \<Rightarrow> (CNetwork_Asio \<times> CRoseSocket \<times> (u16 \<times> CNetwork_Asio) list) option" where
  "MapManager_new g failed cfg isc peer socks =
    (case join_server (CMapISC_OnConnected isc_callbacks g (map_isc_config cfg)) failed
            (ms_charIp (mapServer cfg)) (cs_iscPort (charServer cfg)) CHAR_SERVER peer of
       None \<Rightarrow> None
     | Some char \<Rightarrow> Some (serve (sd_iscListenIp (serverData cfg)) (ms_iscPort (mapServer cfg)) isc, char,
         map (\<lambda>mid. (mid, serve (sd_ip (serverData cfg)) (ms_clientPort (mapServer cfg) + mid) (socks mid))) (ms_mapId (mapServer cfg))))"

section \<open>The address of the node server\<close>

text \<open>\<open>WriteMemoryCallback\<close>: \<open>fresh\<close> is the memory that \<open>realloc\<close> adds to the old, if there is any. The result is the number
  of bytes taken.\<close>

record MemoryStruct =
  mem_memory :: "byte list option"
  mem_size :: nat

definition WriteMemoryCallback :: "byte list option \<Rightarrow> byte list \<Rightarrow> MemoryStruct \<Rightarrow> nat \<times> MemoryStruct" where
  "WriteMemoryCallback realloc contents m =
    (case realloc of
       None \<Rightarrow> (0, m\<lparr>mem_memory := None\<rparr>)
     | Some fresh \<Rightarrow>
         let old = (case mem_memory m of None \<Rightarrow> [] | Some bs \<Rightarrow> bs)
         in (length contents,
             \<lparr>mem_memory = Some (take (mem_size m) (old @ fresh) @ contents @ [0]), mem_size = mem_size m + length contents\<rparr>))"

text \<open>\<open>get_current_net_address\<close>: the library calls back with the chunks of the answer until a callback does not take all of a chunk, and then reports an
  error; \<open>ok\<close> says whether the transfer worked otherwise. \<open>g\<close> is the byte that \<open>malloc\<close> returned; reading a text stops at
  a zero, and past the end of the memory it is not defined.\<close>

fun write_chunks :: "(byte list option \<times> byte list) list \<Rightarrow> MemoryStruct \<Rightarrow> bool \<times> MemoryStruct" where
  "write_chunks [] m = (True, m)"
| "write_chunks ((realloc, contents) # chunks) m =
    (let (n, m') = WriteMemoryCallback realloc contents m in if n \<noteq> length contents then (False, m') else write_chunks chunks m')"

definition read_text :: "byte list option \<Rightarrow> cstring option" where
  "read_text mem = (case mem of None \<Rightarrow> None | Some bs \<Rightarrow> if 0 \<in> set bs then Some (takeWhile (\<lambda>b. b \<noteq> 0) bs) else None)"

definition get_current_net_address :: "byte \<Rightarrow> bool \<Rightarrow> (byte list option \<times> byte list) list \<Rightarrow> cstring option" where
  "get_current_net_address g ok chunks =
    (let (all, m) = write_chunks chunks \<lparr>mem_memory = Some [g], mem_size = 0\<rparr> in
     if ok \<and> all then read_text (mem_memory m) else Some [])"

text \<open>\<open>std::string::replace\<close> with two iterators, a number and a character replaces what is between the iterators by that many
  characters.\<close>

definition string_replace :: "nat \<Rightarrow> nat \<Rightarrow> nat \<Rightarrow> byte \<Rightarrow> cstring \<Rightarrow> cstring" where
  "string_replace from to n c s = take from s @ replicate n c @ drop to s"

definition node_address :: "Configuration \<Rightarrow> cstring option \<Rightarrow> cstring option" where
  "node_address cfg fetched =
    (if sd_autoConfigureAddress (serverData cfg)
     then map_option (\<lambda>ip. string_replace 0 (length ip) 10 0 ip) fetched
     else Some (sd_ip (serverData cfg)))"

definition node_main :: "Configuration \<Rightarrow> cstring option \<Rightarrow> CNetwork_Asio \<Rightarrow> CNetwork_Asio \<Rightarrow> CNetwork_Asio \<Rightarrow> CNetwork_Asio list option" where
  "node_main cfg fetched login char world =
    map_option (\<lambda>ip. [serve ip (ls_clientPort (loginServer cfg)) login, serve ip (cs_clientPort (charServer cfg)) char,
       serve ip (ms_clientPort (mapServer cfg)) world]) (node_address cfg fetched)"

section \<open>Stale sessions\<close>

text \<open>The rows of the two tables that \<open>deleteStaleSessions\<close> touches, and its static variable. Times are milliseconds.\<close>

record session_row =
  sr_id :: u32
  sr_userid :: u32
  sr_time :: int

record session_store =
  st_last :: int
  st_online :: "u32 \<Rightarrow> bool option"
  st_sessions :: "session_row list"

definition minute :: int where "minute = 60000"

text \<open>\<open>floor<minutes>(now) - 5min\<close>.\<close>

definition stale_before :: "int \<Rightarrow> int" where
  "stale_before now = now div minute * minute - 5 * minute"

definition set_offline :: "int \<Rightarrow> session_row list \<Rightarrow> (u32 \<Rightarrow> bool option) \<Rightarrow> u32 \<Rightarrow> bool option" where
  "set_offline now rows online u =
    (if (\<exists>r \<in> set rows. sr_userid r = u \<and> sr_time r < stale_before now) then map_option (\<lambda>_. False) (online u) else online u)"

text \<open>\<open>now1\<close> and \<open>now2\<close>: the clock is read for each of the two statements; \<open>ok1\<close> and \<open>ok2\<close>: whether they succeed. An
  exception of the database is not caught.\<close>

definition deleteStaleSessions :: "int \<Rightarrow> int \<Rightarrow> int \<Rightarrow> bool \<Rightarrow> bool \<Rightarrow> session_store \<Rightarrow> session_store option" where
  "deleteStaleSessions tick now1 now2 ok1 ok2 st =
    (if tick - st_last st < 5 * minute then Some st
     else if \<not> ok1 \<or> \<not> ok2 then None
     else Some \<lparr>st_last = tick, st_online = set_offline now1 (st_sessions st) (st_online st),
       st_sessions = filter (\<lambda>r. stale_before now2 \<le> sr_time r) (st_sessions st)\<rparr>)"

text \<open>The char server keeps sessions alive: \<open>alive_run\<close> lets clients send their alive packets at the given times. The timer of
  \<open>updateSession\<close> is a static variable, so all clients share it. The clock of the timer and the clock of the table are taken
  to be one.\<close>

definition session_timer :: "int \<Rightarrow> int \<Rightarrow> int" where
  "session_timer tick timer = (if tick - timer < 2 * minute then timer else tick)"

fun touch_rows :: "char_sql list \<Rightarrow> session_row list \<Rightarrow> session_row list" where
  "touch_rows (TouchSession u t # qs) rows = touch_rows qs (map (\<lambda>r. if sr_userid r = u then r\<lparr>sr_time := t\<rparr> else r) rows)"
| "touch_rows (_ # qs) rows = touch_rows qs rows"
| "touch_rows [] rows = rows"

fun alive_run :: "char_env \<Rightarrow> (int \<times> CCharClient) list \<Rightarrow> int \<times> session_row list \<Rightarrow> (int \<times> session_row list) option" where
  "alive_run env [] (timer, rows) = Some (timer, rows)"
| "alive_run env ((tick, s) # packets) (timer, rows) =
    (case updateSession (env\<lparr>c_tick := tick, c_last_update := timer\<rparr>) s of
       None \<Rightarrow> None
     | Some s' \<Rightarrow> alive_run env packets (session_timer tick timer, touch_rows (drop (length (m_char_sql s)) (m_char_sql s')) rows))"

section \<open>How many sessions a shared timer keeps\<close>

lemma stale_before_bounds: "now - 6 * minute < stale_before now" "stale_before now \<le> now - 5 * minute"
  by (simp_all add: stale_before_def minute_def)

text \<open>A packet touches the rows of its account or none.\<close>

lemma updateSession_rows:
  assumes "updateSession (env\<lparr>c_tick := tick, c_last_update := timer\<rparr>) s = Some s'"
  shows "touch_rows (drop (length (m_char_sql s)) (m_char_sql s')) rows =
    (if tick - timer < 2 * minute then rows else map (\<lambda>r. if sr_userid r = m_userId s then r\<lparr>sr_time := tick\<rparr> else r) rows)"
  using assms by (auto simp: updateSession_def minute_def char_log_def split: if_splits)

text \<open>The touches of a run are two minutes apart, so that in the time from \<open>lo\<close> to \<open>hi\<close> there are only so many.\<close>

lemma alive_run_touches:
  assumes "alive_run env packets (timer, rows) = Some (timer', rows')" and "sorted (map fst packets)"
    and "\<forall>(tick, s) \<in> set packets. lo \<le> tick \<and> tick < hi"
  shows "\<exists>us. map sr_userid rows' = map sr_userid rows \<and> (\<forall>r \<in> set rows. sr_userid r \<notin> set us \<longrightarrow> r \<in> set rows')
    \<and> (us = [] \<or> int (length us) * (2 * minute) < hi - max lo (timer + 2 * minute) + 2 * minute)"
  using assms
proof (induction packets arbitrary: timer rows lo)
  case Nil
  then show ?case by (intro exI [of _ "[]"]) simp
next
  case (Cons packet packets)
  obtain tick s where p: "packet = (tick, s)" by (cases packet)
  have run: "alive_run env packets (session_timer tick timer,
      if tick - timer < 2 * minute then rows else map (\<lambda>r. if sr_userid r = m_userId s then r\<lparr>sr_time := tick\<rparr> else r) rows) = Some (timer', rows')"
    using Cons.prems(1) updateSession_rows [of timer tick env s] by (auto simp: p split: option.splits)
  have later: "sorted (map fst packets)" "\<forall>(t, s) \<in> set packets. tick \<le> t \<and> t < hi" "lo \<le> tick" "tick < hi"
    using Cons.prems(2,3) by (auto simp: p)
  show ?case
  proof (cases "tick - timer < 2 * minute")
    case True
    have "\<forall>(t, s) \<in> set packets. lo \<le> t \<and> t < hi" using later by auto
    with Cons.IH [OF run [simplified True session_timer_def, simplified] later(1)] show ?thesis by simp
  next
    case False
    let ?rows = "map (\<lambda>r. if sr_userid r = m_userId s then r\<lparr>sr_time := tick\<rparr> else r) rows"
    have run: "alive_run env packets (tick, ?rows) = Some (timer', rows')" using run False by (simp add: session_timer_def)
    from Cons.IH [OF this later(1,2)] obtain us where us: "map sr_userid rows' = map sr_userid ?rows"
        "\<forall>r \<in> set ?rows. sr_userid r \<notin> set us \<longrightarrow> r \<in> set rows'"
        "us = [] \<or> int (length us) * (2 * minute) < hi - max tick (tick + 2 * minute) + 2 * minute"
      by blast
    have "map sr_userid ?rows = map sr_userid rows" by simp
    moreover have "\<forall>r \<in> set rows. sr_userid r \<notin> set (m_userId s # us) \<longrightarrow> r \<in> set rows'" using us(2) by auto
    moreover have "int (length (m_userId s # us)) * (2 * minute) < hi - max lo (timer + 2 * minute) + 2 * minute"
      using us(3) later(3,4) False by (auto simp: minute_def algebra_simps)
    ultimately show ?thesis using us(1) by (intro exI [of _ "m_userId s # us"]) (simp only: simp_thms)
  qed
qed

section \<open>Servers that start\<close>

lemma served:
  assumes "2 \<le> length ip"
  shows "m_network_port (serve ip port sock) = port" "m_network_address (serve ip port sock) = ip" "m_listener_open (serve ip port sock)"
    "m_active (serve ip port sock)"
  using assms by (simp_all add: serve_def listen_def init_def initCallbacks_def)

interpretation joining: framing "registering reg" "\<lambda>b. (ucast (b ! 0), b)" "\<lambda>b. Some (True, b)" "\<lambda>p. p" isc_packet
proof
  show "OnReceived (registering reg) = receive_packet (\<lambda>b. (ucast (b ! 0), b)) (\<lambda>b. Some (True, b))"
    by (simp add: registering_def isc_callbacks_def CRoseISC_OnReceived_def)
qed (auto simp: registering_def isc_callbacks_def initCallbacks_def isc_frames.decodes_ok)

lemma connect_registering:
  "snd (connect (registering reg) False s) =
    (let t = s\<lparr>m_socket_open := True, m_remote_connection := True\<rparr> in case reg t of None \<Rightarrow> t | Some t' \<Rightarrow> t')\<lparr>m_active := True\<rparr>"
  by (simp add: connect_def registering_def isc_callbacks_def initCallbacks_def Let_def)

text \<open>The connection to the next server goes to the address and port that it was initialised with.\<close>

definition goes_to :: "cstring \<Rightarrow> u16 \<Rightarrow> 'a CNetwork_Asio_scheme \<Rightarrow> bool" where
  "goes_to ip port s \<longleftrightarrow> m_network_address s = ip \<and> m_network_port s = port"

lemma goes_to_send_packet: "send_packet cb ty pack g s = Some s' \<Longrightarrow> goes_to ip port s' = goes_to ip port s"
  by (auto simp: send_packet_def goes_to_def dest!: send_data_frame split: option.splits if_splits)

lemma goes_to_join:
  assumes "join_server reg failed ip port ty s = Some s'" and "2 \<le> length ip"
    and "\<And>t t'. reg t = Some t' \<Longrightarrow> goes_to ip port t' = goes_to ip port t"
  shows "goes_to ip port s'"
proof -
  define t where "t = set_type (ucast (server_type ty)) (snd (init ip port s))"
  have "goes_to ip port t" using assms(2) by (simp add: t_def goes_to_def set_type_def init_def)
  then have "goes_to ip port (snd (connect (registering reg) failed t))"
    using assms(3) by (auto simp: connect_def registering_def isc_callbacks_def initCallbacks_def goes_to_def Let_def split: option.split)
  then show ?thesis
    using assms(1) by (auto simp: join_server_def t_def [symmetric] recv_data_def registering_def isc_callbacks_def initCallbacks_def
        goes_to_def Let_def split: if_splits)
qed

text \<open>The packet with which a map server registers.\<close>

definition map_registration :: "Configuration \<Rightarrow> IscServerRegister" where
  "map_registration cfg = \<lparr>IscServerRegister.m_serverType = server_type MAP_MASTER, m_name = ms_channelName (mapServer cfg), m_addr = sd_ip (serverData cfg),
     m_port = ucast (ms_clientPort (mapServer cfg)), m_right = ucast (ms_accessLevel (mapServer cfg)), m_id = 0\<rparr>"

lemma widen_port: "ucast (ucast w :: u32) = (w :: u16)"
  by (rule bit_word_eqI) (simp add: bit_simps)

lemma map_server_joins:
  assumes "length mem = MAX_PACKET_SIZE" and "length g = MAX_PACKET_SIZE" and "2 \<le> length (ms_charIp (mapServer cfg))"
    and "length (ms_channelName (mapServer cfg)) + length (sd_ip (serverData cfg)) < 2000"
  shows "\<exists>char. join_server (CMapISC_OnConnected isc_callbacks g (map_isc_config cfg)) False (ms_charIp (mapServer cfg)) port CHAR_SERVER
      (CMapISC_new (CNetwork_Asio_new mem now)) = Some char
    \<and> m_written char = [header_bytes (length (IscServerRegister_wire (map_registration cfg))) ISC_SERVER_REGISTER 0
        @ IscServerRegister_wire (map_registration cfg)]"
proof -
  let ?bs = "IscServerRegister_wire (map_registration cfg)"
  define s where "s = (set_type (ucast (server_type CHAR_SERVER)) (snd (init (ms_charIp (mapServer cfg)) port (CMapISC_new (CNetwork_Asio_new mem now)))))
    \<lparr>m_socket_open := True, m_remote_connection := True\<rparr>"
  note defs = s_def set_type_def init_def CMapISC_new_def new_char_defs
  have s: "idle s" "m_network_id s = 0" "m_written s = []" using assms(3) by (simp_all add: defs idle_def)
  have "send_packet isc_callbacks ISC_SERVER_REGISTER (IscServerRegister_pack (map_registration cfg)) g s
      = Some (writing (header_bytes (length ?bs) ISC_SERVER_REGISTER 0 @ ?bs) s)"
    by (rule send_isc_idle [OF IscServerRegister.emits_pack assms(2) _ s(1)])
       (use assms(4) in \<open>simp add: IscServerRegister_wire_def map_registration_def MAX_PACKET_SIZE_def\<close>)
  then have "CMapISC_OnConnected isc_callbacks g (map_isc_config cfg) s = Some (writing (header_bytes (length ?bs) ISC_SERVER_REGISTER 0 @ ?bs) s)"
    using s(2) by (simp add: CMapISC_OnConnected_def map_isc_config_def map_registration_def)
  then have c: "snd (connect (registering (CMapISC_OnConnected isc_callbacks g (map_isc_config cfg))) False
      (set_type (ucast (server_type CHAR_SERVER)) (snd (init (ms_charIp (mapServer cfg)) port (CMapISC_new (CNetwork_Asio_new mem now))))))
      = (writing (header_bytes (length ?bs) ISC_SERVER_REGISTER 0 @ ?bs) s)\<lparr>m_active := True\<rparr>"
    by (simp add: connect_registering s_def [symmetric] del: server_type.simps)
  show ?thesis
    unfolding join_server_def c
    by (subst joining.recv_data_start [where a = 0 and n = 6])
       (use assms(1,3) s(3) in \<open>simp_all add: writing_def MAX_PACKET_SIZE_def\<close>, simp_all add: defs MAX_PACKET_SIZE_def)
qed

section \<open>Properties\<close>

text \<open>C12. The sweep of stale sessions, when five minutes have passed since the last one: exactly the sessions whose time is
  before the limit are removed, so that none is removed that was touched in the last five minutes and none is left that was not touched for six;
  the accounts of removed sessions are offline if the two statements ran in the same minute, and no account is set offline
  all of whose sessions were touched in the last five minutes.\<close>

theorem stale_sessions_swept:
  assumes "deleteStaleSessions tick now1 now2 ok1 ok2 st = Some st'" and "5 * minute \<le> tick - st_last st"
  shows "st_last st' = tick
    \<and> (\<forall>r \<in> set (st_sessions st). sr_time r \<ge> now2 - 5 * minute \<longrightarrow> r \<in> set (st_sessions st'))
    \<and> (\<forall>r \<in> set (st_sessions st'). r \<in> set (st_sessions st) \<and> now2 - 6 * minute < sr_time r)
    \<and> (now1 div minute = now2 div minute \<longrightarrow>
        (\<forall>r \<in> set (st_sessions st) - set (st_sessions st'). st_online st' (sr_userid r) \<noteq> Some True))
    \<and> (\<forall>u. (\<forall>r \<in> set (st_sessions st). sr_userid r = u \<longrightarrow> now1 - 5 * minute \<le> sr_time r) \<longrightarrow> st_online st' u = st_online st u)"
proof -
  have st': "st' = \<lparr>st_last = tick, st_online = set_offline now1 (st_sessions st) (st_online st),
       st_sessions = filter (\<lambda>r. stale_before now2 \<le> sr_time r) (st_sessions st)\<rparr>"
    using assms by (auto simp: deleteStaleSessions_def split: if_splits)
  have kept: "r \<in> set (st_sessions st') \<longleftrightarrow> r \<in> set (st_sessions st) \<and> stale_before now2 \<le> sr_time r" for r
    by (auto simp: st')
  have offline: "st_online st' (sr_userid r) \<noteq> Some True" if "r \<in> set (st_sessions st)" "sr_time r < stale_before now1" for r
    using that by (auto simp: st' set_offline_def)
  have same: "now1 div minute = now2 div minute \<Longrightarrow> stale_before now1 = stale_before now2" by (simp add: stale_before_def)
  have online: "st_online st' u = st_online st u" if "\<forall>r \<in> set (st_sessions st). sr_userid r = u \<longrightarrow> now1 - 5 * minute \<le> sr_time r" for u
    using that stale_before_bounds(2) [of now1] by (force simp: st' set_offline_def)
  show ?thesis
  proof (intro conjI ballI impI allI)
    show "st_online st' (sr_userid r) \<noteq> Some True"
      if "now1 div minute = now2 div minute" "r \<in> set (st_sessions st) - set (st_sessions st')" for r
      using that offline [of r] kept [of r] same by (simp add: not_le)
  qed (use kept online stale_before_bounds [of now2] in \<open>auto simp: st'\<close>)
qed

theorem stale_sessions_swept_witness:
  "\<exists>st'. deleteStaleSessions 400000 400000 400001 True True
      \<lparr>st_last = 0, st_online = (\<lambda>_. Some True), st_sessions = [\<lparr>sr_id = 1, sr_userid = 5, sr_time = 10\<rparr>]\<rparr> = Some st'
    \<and> st_last st' = 400000 \<and> st_online st' 5 \<noteq> Some True"
  using stale_sessions_swept [of 400000 400000 400001 True True
      "\<lparr>st_last = 0, st_online = (\<lambda>_. Some True), st_sessions = [\<lparr>sr_id = 1, sr_userid = 5, sr_time = 10\<rparr>]\<rparr>"]
  by (simp add: deleteStaleSessions_def minute_def stale_before_def)

text \<open>The clock is read for each statement. If a minute ends between them, a session can be removed whose account stays
  online.\<close>

theorem sweep_splits_minute:
  "\<exists>st'. deleteStaleSessions 400000 419999 420000 True True
      \<lparr>st_last = 0, st_online = (\<lambda>_. Some True), st_sessions = [\<lparr>sr_id = 1, sr_userid = 5, sr_time = 60000\<rparr>]\<rparr> = Some st'
    \<and> st_sessions st' = [] \<and> st_online st' 5 = Some True"
  by (simp add: deleteStaleSessions_def minute_def stale_before_def set_offline_def)

text \<open>C13. The timer that all clients of the char server share keeps at most three sessions. Let four or more accounts have a
  session that was last touched at \<open>t0\<close> or before. Whatever alive packets their clients send in the next six minutes, the sweep
  that the login server runs after them removes the session of one of them and sets its account offline.\<close>

theorem at_most_three_sessions_kept:
  assumes "alive_run env packets (timer, rows) = Some (timer', rows')" and "sorted (map fst packets)"
    and "\<forall>(tick, s) \<in> set packets. t0 \<le> tick \<and> tick < t0 + 6 * minute"
    and "distinct (map sr_userid rows)" and "4 \<le> length rows" and "\<forall>r \<in> set rows. sr_time r \<le> t0"
    and "deleteStaleSessions tick now1 now2 ok1 ok2 \<lparr>st_last = swept, st_online = online, st_sessions = rows'\<rparr> = Some st'"
    and "5 * minute \<le> tick - swept" and "t0 + 6 * minute \<le> now1" and "t0 + 6 * minute \<le> now2"
  shows "\<exists>r \<in> set rows. sr_userid r \<notin> sr_userid ` set (st_sessions st') \<and> st_online st' (sr_userid r) \<noteq> Some True"
proof -
  obtain us where us: "map sr_userid rows' = map sr_userid rows" "\<forall>r \<in> set rows. sr_userid r \<notin> set us \<longrightarrow> r \<in> set rows'"
      "us = [] \<or> int (length us) * (2 * minute) < t0 + 6 * minute - max t0 (timer + 2 * minute) + 2 * minute"
    using alive_run_touches [OF assms(1-3)] by blast
  have few: "length us < 4" using us(3) by (auto simp: minute_def max_def split: if_splits)
  have "\<not> set (map sr_userid rows) \<subseteq> set us"
  proof
    assume "set (map sr_userid rows) \<subseteq> set us"
    then have "card (set (map sr_userid rows)) \<le> card (set us)" by (rule card_mono [OF finite_set])
    then show False using distinct_card [OF assms(4)] card_length [of us] few assms(5) by simp
  qed
  then obtain r where r: "r \<in> set rows" "sr_userid r \<notin> set us" by auto
  then have in': "r \<in> set rows'" using us(2) by blast
  have only: "x = r" if "x \<in> set rows'" "sr_userid x = sr_userid r" for x
    using that in' assms(4) us(1) by (metis distinct_map inj_onD)
  have st': "st_online st' = set_offline now1 rows' online" "st_sessions st' = filter (\<lambda>r. stale_before now2 \<le> sr_time r) rows'"
    using assms(7,8) by (auto simp: deleteStaleSessions_def split: if_splits)
  have "sr_time r < stale_before now1" "sr_time r < stale_before now2"
    using assms(6,9,10) r(1) stale_before_bounds(1) [of now1] stale_before_bounds(1) [of now2] by force+
  then have "sr_userid r \<notin> sr_userid ` set (st_sessions st')" "st_online st' (sr_userid r) \<noteq> Some True"
    using only in' by (auto simp: st' set_offline_def)
  with r(1) show ?thesis by blast
qed

theorem at_most_three_sessions_kept_witness:
  "\<exists>rows' st' timer'. alive_run sample_char_env (map (\<lambda>u. (int (Suc u) * 60000, sample_char_client\<lparr>m_userId := of_nat u\<rparr>)) [0, 1, 2, 3])
      (0, map (\<lambda>u. \<lparr>sr_id = of_nat u, sr_userid = of_nat u, sr_time = 0\<rparr>) [0, 1, 2, 3]) = Some (timer', rows')
    \<and> deleteStaleSessions 400000 400000 400000 True True \<lparr>st_last = 0, st_online = (\<lambda>_. Some True), st_sessions = rows'\<rparr> = Some st'
    \<and> (\<exists>u \<in> {0, 1, 2, 3}. u \<notin> sr_userid ` set (st_sessions st') \<and> st_online st' u \<noteq> Some True)"
proof -
  let ?packets = "map (\<lambda>u. (int (Suc u) * 60000, sample_char_client\<lparr>m_userId := of_nat u\<rparr>)) [0, 1, 2, 3]"
  let ?rows = "map (\<lambda>u. \<lparr>sr_id = of_nat u, sr_userid = of_nat u, sr_time = 0\<rparr>) [0, 1, 2, 3]"
  obtain timer' rows' where run: "alive_run sample_char_env ?packets (0, ?rows) = Some (timer', rows')"
    by (simp add: updateSession_def sample_char_env_def char_log_def session_timer_def minute_def)
  obtain st' where st': "deleteStaleSessions 400000 400000 400000 True True \<lparr>st_last = 0, st_online = (\<lambda>_. Some True), st_sessions = rows'\<rparr> = Some st'"
    by (simp add: deleteStaleSessions_def minute_def)
  from at_most_three_sessions_kept [OF run _ _ _ _ _ st', of 0]
  have "\<exists>r \<in> set ?rows. sr_userid r \<notin> sr_userid ` set (st_sessions st') \<and> st_online st' (sr_userid r) \<noteq> Some True"
    by (simp add: minute_def)
  with run st' show ?thesis by (intro exI conjI) auto
qed

text \<open>C40. The command lines of the char and the map server. The ports that can be given are assigned to the configuration of
  the login server. So a char server listens at the ports of its configuration file whatever ports it is given, and the port
  for servers that it is given is the one at which it looks for the login server: its connection goes to the address of the
  configuration file and to that port, or to the login server's port of the file if none is given. The addresses of the
  configuration have at least two bytes, as \<open>init\<close> demands.\<close>

theorem char_server_ignores_ports:
  assumes "ParseCommandLine_char files (Some opts) = Run cfg threads"
    and "char_main g failed cfg client isc peer = Some (login, client', isc')"
    and "cfg0 = fst (Config_new files (opt_config_file opts))"
    and "2 \<le> length (sd_ip (serverData cfg))" and "2 \<le> length (sd_iscListenIp (serverData cfg))"
    and "2 \<le> length (cs_loginIp (charServer cfg))"
  shows "m_network_port client' = cs_clientPort (charServer cfg0) \<and> m_network_port isc' = cs_iscPort (charServer cfg0)
    \<and> m_network_address login = cs_loginIp (charServer cfg0)
    \<and> m_network_port login = (case opt_isc_port opts of None \<Rightarrow> ls_iscPort (loginServer cfg0) | Some p \<Rightarrow> word_of_int p)"
proof -
  have cfg: "cfg = override opts cfg0" using assms(1,3) by (auto simp: ParseCommandLine_char_def ParseCommandLine_def Let_def split: if_splits)
  have main: "client' = serve (sd_ip (serverData cfg)) (cs_clientPort (charServer cfg)) client"
      "isc' = serve (sd_iscListenIp (serverData cfg)) (cs_iscPort (charServer cfg)) isc"
      "join_server (CCharISC_OnConnected isc_callbacks g (char_isc_config cfg)) failed (cs_loginIp (charServer cfg))
        (ls_iscPort (loginServer cfg)) LOGIN peer = Some login"
    using assms(2) by (auto simp: char_main_def split: option.splits)
  have "goes_to (cs_loginIp (charServer cfg)) (ls_iscPort (loginServer cfg)) login"
    by (rule goes_to_join [OF main(3) assms(6)])
       (auto simp: CCharISC_OnConnected_def goes_to_send_packet [symmetric] goes_to_def set_type_def dest!: goes_to_send_packet)
  then show ?thesis
    using main(1,2) served(1) assms(4,5) by (auto simp: goes_to_def cfg override_def override_login_def given_def split: option.splits)
qed

theorem char_server_ignores_ports_witness:
  "\<exists>cfg threads login client' isc'. ParseCommandLine_char (\<lambda>_. None)
      (Some (no_options\<lparr>opt_client_port := Some 30001, opt_isc_port := Some 30000\<rparr>)) = Run cfg threads
    \<and> char_main (replicate 2047 0) True cfg (CNetwork_Asio_new (replicate 2047 0) 0) (CNetwork_Asio_new (replicate 2047 0) 0)
        (CRoseClient_new (CNetwork_Asio_new (replicate 2047 0) 0)) = Some (login, client', isc')
    \<and> m_network_port client' = 29100 \<and> m_network_port isc' = 29110 \<and> m_network_port login = 30000"
proof -
  let ?o = "no_options\<lparr>opt_client_port := Some 30001, opt_isc_port := Some 30000\<rparr>"
  let ?cfg = "override ?o Configuration_new"
  let ?mem = "replicate 2047 0 :: byte list"
  have parse: "ParseCommandLine_char (\<lambda>_. None) (Some ?o) = Run ?cfg (sd_maxThreads (serverData ?cfg))"
    by (simp add: ParseCommandLine_char_def ParseCommandLine_def Config_new_def no_options_def Let_def)
  have ips: "2 \<le> length (sd_ip (serverData ?cfg))" "2 \<le> length (sd_iscListenIp (serverData ?cfg))" "2 \<le> length (cs_loginIp (charServer ?cfg))"
    by (simp_all add: override_def override_server_def given_def no_options_def Configuration_new_def ascii_def)
  obtain login where "join_server (CCharISC_OnConnected isc_callbacks ?mem (char_isc_config ?cfg)) True (cs_loginIp (charServer ?cfg))
      (ls_iscPort (loginServer ?cfg)) LOGIN (CRoseClient_new (CNetwork_Asio_new ?mem 0)) = Some login"
    unfolding join_server_def
    by (subst (asm) joining.recv_data_start [where a = 0 and n = 6])
       (simp_all add: connect_def registering_def isc_callbacks_def initCallbacks_def set_type_def init_def new_char_defs MAX_PACKET_SIZE_def Let_def)
  then have "\<exists>login client' isc'. char_main ?mem True ?cfg (CNetwork_Asio_new ?mem 0) (CNetwork_Asio_new ?mem 0)
      (CRoseClient_new (CNetwork_Asio_new ?mem 0)) = Some (login, client', isc')"
    by (simp add: char_main_def)
  then obtain login client' isc' where main: "char_main ?mem True ?cfg (CNetwork_Asio_new ?mem 0) (CNetwork_Asio_new ?mem 0)
      (CRoseClient_new (CNetwork_Asio_new ?mem 0)) = Some (login, client', isc')"
    by (elim exE)
  from char_server_ignores_ports [OF parse main refl ips]
  have "m_network_port client' = 29100" "m_network_port isc' = 29110" "m_network_port login = 30000"
    by (simp_all add: Config_new_def Configuration_new_def no_options_def)
  with parse main show ?thesis by blast
qed

text \<open>C11. Players find their map. A map server that starts registers with the char server and listens for every map of its
  configuration. A player who chooses a character on one of these maps, on the channel of this map server, is sent the
  address and the port at which the server of that map listens.\<close>

theorem players_find_their_map:
  assumes "length mem = MAX_PACKET_SIZE" and "length g = MAX_PACKET_SIZE" and "2 \<le> length (ms_charIp (mapServer cfg))"
    and "length (ms_channelName (mapServer cfg)) + length (sd_ip (serverData cfg)) < 2000"
    and "2 \<le> length (sd_ip (serverData cfg))" and "mid \<in> set (ms_mapId (mapServer cfg))"
    and "idle s" and "m_loginState s = LOGGEDIN" and "q_execute env" and "length (c_memory env) = MAX_PACKET_SIZE"
    and "unat (CliSelectCharReq.m_charId P) < length (m_characterRealId s)"
    and "q_map env (m_characterRealId s ! unat (CliSelectCharReq.m_charId P)) = Some (uint mid)"
    and "filter (\<lambda>v. get_type v = server_type MAP_MASTER \<and> m_network_id v = m_charChannelId s) (c_iscs env) = [registered (map_registration cfg) peer]"
  shows "\<exists>isc' char maps sock s'. MapManager_new g False cfg isc (CMapISC_new (CNetwork_Asio_new mem now)) socks = Some (isc', char, maps)
    \<and> m_written char = [header_bytes (length (IscServerRegister_wire (map_registration cfg))) ISC_SERVER_REGISTER 0
        @ IscServerRegister_wire (map_registration cfg)]
    \<and> (mid, sock) \<in> set maps \<and> m_listener_open sock \<and> m_active sock
    \<and> SendCharSelectReply (char_callbacks rt onl) env P s = Some (True, s')
    \<and> m_written s' = m_written s @ [wire_image rt PAKCC_SWITCH_SERVER (SrvSwitchServer_wire
        \<lparr>SrvSwitchServer.m_port = m_network_port sock, m_sessionId = m_charSessionId s, m_sessionSeed = 0, m_ip = m_network_address sock\<rparr>)]"
proof -
  let ?sock = "serve (sd_ip (serverData cfg)) (ms_clientPort (mapServer cfg) + mid) (socks mid)"
  let ?v = "registered (map_registration cfg) peer"
  obtain char where char: "join_server (CMapISC_OnConnected isc_callbacks g (map_isc_config cfg)) False (ms_charIp (mapServer cfg))
      (cs_iscPort (charServer cfg)) CHAR_SERVER (CMapISC_new (CNetwork_Asio_new mem now)) = Some char"
      "m_written char = [header_bytes (length (IscServerRegister_wire (map_registration cfg))) ISC_SERVER_REGISTER 0
        @ IscServerRegister_wire (map_registration cfg)]"
    using map_server_joins [OF assms(1-4)] by blast
  have v: "m_network_port ?v = ms_clientPort (mapServer cfg)" "m_network_address ?v = sd_ip (serverData cfg)"
    by (simp_all add: registered_def map_registration_def widen_port)
  have "length (m_network_address ?v) < 2000" using assms(4) v(2) by simp
  from select_switches [OF assms(7-9,11) refl assms(12,13,10) this, of rt onl]
  have "\<exists>s'. SendCharSelectReply (char_callbacks rt onl) env P s = Some (True, s')
    \<and> m_written s' = m_written s @ [wire_image rt PAKCC_SWITCH_SERVER (SrvSwitchServer_wire
        \<lparr>SrvSwitchServer.m_port = m_network_port ?sock, m_sessionId = m_charSessionId s, m_sessionSeed = 0, m_ip = m_network_address ?sock\<rparr>)]"
    using assms(5) by (simp add: v served writing_def char_log_def)
  moreover have "(mid, ?sock) \<in> set (map (\<lambda>mid. (mid, serve (sd_ip (serverData cfg)) (ms_clientPort (mapServer cfg) + mid) (socks mid))) (ms_mapId (mapServer cfg)))"
    using assms(6) by simp
  moreover have "MapManager_new g False cfg isc (CMapISC_new (CNetwork_Asio_new mem now)) socks = Some
      (serve (sd_iscListenIp (serverData cfg)) (ms_iscPort (mapServer cfg)) isc, char,
       map (\<lambda>mid. (mid, serve (sd_ip (serverData cfg)) (ms_clientPort (mapServer cfg) + mid) (socks mid))) (ms_mapId (mapServer cfg)))"
    using char(1) by (simp add: MapManager_new_def)
  moreover note served(3,4) [OF assms(5), of "ms_clientPort (mapServer cfg) + mid" "socks mid"] char(2)
  ultimately show ?thesis by (elim exE conjE) (intro exI conjI)
qed

theorem players_find_their_map_witness:
  "\<exists>isc' char maps sock s'. MapManager_new (replicate 2047 0) False Configuration_new (CNetwork_Asio_new (replicate 2047 0) 0)
      (CMapISC_new (CNetwork_Asio_new (replicate 2047 0) 0)) (\<lambda>_. CNetwork_Asio_new (replicate 2047 0) 0) = Some (isc', char, maps)
    \<and> (1, sock) \<in> set maps \<and> m_listener_open sock
    \<and> SendCharSelectReply (char_callbacks sample_keys (\<lambda>_. None))
        (sample_char_env\<lparr>q_map := (\<lambda>_. Some 1), c_iscs := [registered (map_registration Configuration_new) sample_map_server]\<rparr>) sample_choice
        (sample_char_client\<lparr>m_loginState := LOGGEDIN, m_charSessionId := 77, m_characterRealId := [40]\<rparr>) = Some (True, s')"
proof -
  let ?s = "sample_char_client\<lparr>m_loginState := LOGGEDIN, m_charSessionId := 77, m_characterRealId := [40]\<rparr>"
  let ?v = "registered (map_registration Configuration_new) sample_map_server"
  let ?e = "sample_char_env\<lparr>q_map := (\<lambda>_. Some 1), c_iscs := [?v]\<rparr>"
  have v: "get_type ?v = server_type MAP_MASTER" "m_network_id ?v = 0"
    by (simp_all add: registered_def map_registration_def sample_map_server_def get_type_def)
  have s: "idle ?s" "m_charChannelId ?s = 0" using sample_char_client_facts by (simp_all add: idle_def sample_char_client_def new_char_defs)
  have cfg: "2 \<le> length (ms_charIp (mapServer Configuration_new))" "2 \<le> length (sd_ip (serverData Configuration_new))"
    "length (ms_channelName (mapServer Configuration_new)) + length (sd_ip (serverData Configuration_new)) < 2000"
    "1 \<in> set (ms_mapId (mapServer Configuration_new))"
    by (simp_all add: Configuration_new_def ascii_def)
  have env: "q_execute ?e" "length (c_memory ?e) = MAX_PACKET_SIZE" "q_map ?e c = Some (uint (1 :: u16))"
      "filter (\<lambda>v. get_type v = server_type MAP_MASTER \<and> m_network_id v = m_charChannelId ?s) (c_iscs ?e) = [?v]" for c
    using v s(2) by (simp_all add: sample_char_env_def MAX_PACKET_SIZE_def)
  have m: "length (replicate 2047 0 :: byte list) = MAX_PACKET_SIZE" by (simp add: MAX_PACKET_SIZE_def)
  have c: "unat (CliSelectCharReq.m_charId sample_choice) < length (m_characterRealId ?s)" by (simp add: sample_choice_def)
  from players_find_their_map [OF m m cfg(1,3,2,4) s(1) _ env(1,2) c env(3,4)] show ?thesis by (simp del: server_type.simps) blast
qed

text \<open>The address that the node server finds out is lost: in place of its line feeds all of it is replaced, by ten zero bytes.\<close>

theorem found_address_is_lost:
  assumes "sd_autoConfigureAddress (serverData cfg)" and "get_current_net_address g ok chunks = Some ip"
  shows "node_address cfg (get_current_net_address g ok chunks) = Some (replicate 10 0)"
  using assms by (simp add: node_address_def string_replace_def)

text \<open>Once a chunk of it has come, the answer of the service is a text in memory, and it is what the service sent up to the
  first zero.\<close>

lemma write_chunks_all:
  "list_all (\<lambda>(realloc, _). realloc \<noteq> None) chunks \<Longrightarrow> chunks \<noteq> [] \<Longrightarrow>
    write_chunks chunks \<lparr>mem_memory = Some (t @ [x]), mem_size = length t\<rparr>
      = (True, \<lparr>mem_memory = Some (t @ concat (map snd chunks) @ [0]), mem_size = length t + length (concat (map snd chunks))\<rparr>)"
proof (induction chunks arbitrary: t x)
  case (Cons chunk chunks)
  obtain fresh contents where ch: "chunk = (Some fresh, contents)" using Cons.prems(1) by (cases chunk) auto
  show ?case
    using Cons.IH [of "t @ contents" 0] Cons.prems(1) by (cases chunks) (auto simp: ch WriteMemoryCallback_def Let_def)
qed simp

lemma fetched_text:
  assumes "list_all (\<lambda>(realloc, _). realloc \<noteq> None) chunks" and "chunks \<noteq> []"
  shows "get_current_net_address g True chunks = Some (takeWhile (\<lambda>b. b \<noteq> 0) (concat (map snd chunks)))"
  using write_chunks_all [OF assms, of "[]" g] by (auto simp: get_current_net_address_def read_text_def takeWhile_tail)

end
