(* ===== verification/Spec2Isabelle.thy ===== *)
theory Spec2Isabelle
  imports PacketFactory Crypt_Roundtrip CLoginClient CCharClient IscServers CharacterStore CMapClient MapServer ScriptLoader NodeProxy
    ThreadPool ConnectionPool BotLogin BotChar Programs
begin

text \<open>
  The servers of osIROSE, a server for the game ROSE Online, in C++. A player's client talks to a login
  server, then to a char server, then to a map server; the servers talk to each other over inter-server
  (ISC) connections. All of them share the network layer in \<open>src/src/core\<close> and the protocol in
  \<open>src/src/rosecommon\<close>.

  \<^bold>\<open>Parts and theories.\<close>

  \<^item> \<open>Prelude\<close>: the machine types (\<open>byte\<close>, \<open>u16\<close>, \<open>u32\<close>), little-endian encodings, in-place writes
    (\<open>blit\<close>) and the generic lemmas on them.
  \<^item> \<open>CRosePacket\<close> (\<open>rosecommon/include/crosepacket.h\<close>): the packet buffer with its cursor, the stream
    operators, both constructors, \<open>getPacked\<close>. The locales \<open>emitter\<close> and \<open>serial\<close> are the contract of a
    packet class: its \<open>pack\<close> appends an encoding, its receiving constructor reads it back.
  \<^item> \<open>EPacketType\<close> (\<open>epackettype.h\<close>): the packet identifiers.
  \<^item> \<open>Packets_Client\<close>, \<open>Packets_Server\<close> (\<open>rosecommon/{include,src}/packets\<close>): one record per packet
    class, its receiving constructor and its \<open>pack\<close>; every class is an interpretation of \<open>serial\<close> (or of
    \<open>emitter\<close> where the code cannot read its own output).
  \<^item> \<open>PacketFactory\<close> (\<open>core/include/factory.h\<close>, \<open>packetfactory.h\<close>): registration and \<open>fetchPacket\<close>.
  \<^item> \<open>CRoseCrypt\<close> (\<open>crosecrypt.cpp\<close>): the random numbers, the key tables, the bit fields of the header and
    the encoders and decoders; \<open>Crypt_Roundtrip\<close> has their properties. A key table is a list of lists of
    32 bit words, an argument of everything that uses it, so the properties hold for every table.
  \<^item> \<open>CNetwork_Asio\<close> (\<open>core/src/cnetwork_asio.cpp\<close>, \<open>inetwork.h\<close>): the state of a connection, the record
    of its callbacks, its life cycle, the send queue and the receive loop. asio is the environment: it
    calls \<open>read_done\<close> and \<open>write_done\<close>, the completion handlers, with what the network delivered. The
    locale \<open>sender\<close> states what the send queue needs of its callbacks.
  \<^item> \<open>CRoseSocket\<close> (\<open>crosesocket.cpp\<close>, \<open>croseclient.cpp\<close>, \<open>croseisc.cpp\<close>): decryption and framing of
    received packets, the dispatched task, the base handlers. The locale \<open>framing\<close> proves once, for any
    codec, that a stream of packets is delivered whatever its division into chunks; it is interpreted for
    the client, the server and the ISC codec. The locale \<open>owner\<close> carries facts about the members of an
    extending class through everything the network does.
  \<^item> \<open>CRoseServer\<close> (\<open>croseserver.cpp\<close>, and the \<open>OnAccepted\<close> of the login, char and map server): the list
    of connections, the housekeeping thread, numbering and broadcast.
  \<^item> \<open>Connection\<close> (\<open>core/src/connection.cpp\<close>): \<open>escapeData\<close>.
  \<^item> \<open>ClientLife\<close>: what the clients of the login and the char server share. \<open>client_life\<close> is the transition
    system of a client (packets are handled, reads and writes complete, the connection closes, in any order);
    the locale \<open>client_class\<close> proves an invariant of the handlers for all of it, and \<open>client_codec\<close> follows a
    request from the bytes on the wire to the encrypted answer; it is a \<open>packet_codec\<close>, as is every other side that reads
    packets.
  \<^item> \<open>CLoginClient\<close> (\<open>login/src/cloginclient.cpp\<close>, \<open>cloginisc.cpp\<close>): the login server's handlers. The
    database is a record of functions (\<open>login_env\<close>), a different one at each step; statements that change
    it are collected in \<open>m_sql\<close>.
  \<^item> \<open>CharacterList\<close>, \<open>CCharClient\<close> (\<open>srv_characterlistreply.cpp\<close>, \<open>char/src/ccharclient.cpp\<close>): the char
    server's handlers, with the same treatment of the database (\<open>char_env\<close>, \<open>m_char_sql\<close>).
  \<^item> \<open>IscServers\<close> (\<open>char/src/ccharisc.cpp\<close>, \<open>map/src/cmapisc.cpp\<close>): the connections between the servers. The
    list of peers is shared by all of them, so an operation takes it whole with the key of its own peer.

  \<^item> \<open>Item\<close> (\<open>rosecommon/include/item.h\<close>, \<open>src/item.cpp\<close>, \<open>itemdb.cpp\<close>, \<open>luaapi.h\<close>): items, their bit
    fields in packets, their columns in the database, the calls into their scripts.
  \<^item> \<open>Inventory\<close> (\<open>components/inventory.h\<close>, \<open>map/src/systems/inventorysystem.cpp\<close>): equipping, dropping and
    adding items. A player is the part of its entity that these operations use.
  \<^item> \<open>CharacterStore\<close>, \<open>Components\<close> (\<open>map/src/entitysystem.cpp\<close>, \<open>rosecommon/include/components\<close>): what
    \<open>saveCharacter\<close> writes to the database and \<open>loadCharacter\<close> reads from it; a table is a list of rows.
  \<^item> \<open>IdManager\<close> (\<open>map/src/id_manager.cpp\<close>): the identifiers of entities. The locale \<open>id_source\<close> is what an
    entity needs of them.

  \<^item> \<open>SystemManager\<close> (\<open>map/include/systemmanager.h\<close>, \<open>map/src/entitysystem.cpp\<close>): the systems of the map
    server, the table of their packet handlers and the queues that \<open>update\<close> empties. The entities are kept by
    the entityx library, which is an argument.
  \<^item> \<open>PartySystem\<close> (\<open>partybase.h\<close>, \<open>components/party.h\<close>, \<open>map/src/systems/partysystem.cpp\<close>): parties. A
    shared pointer to a party is an index into the list of parties.
  \<^item> \<open>EntityPackets\<close> (\<open>rosecommon/include/components\<close>, \<open>srv_selectcharreply.cpp\<close> and the like): a character
    with all its components (\<open>avatar\<close>), \<open>loadCharacter\<close>, and the packets that are built from an entity.
  \<^item> \<open>CMapClient\<close> (\<open>map/src/cmapclient.cpp\<close>): a client of the map server. Its calls on the entity system and on
    the database are collected, as in the other clients.
  \<^item> \<open>MapWorld\<close>, \<open>WorldSystems\<close> (\<open>map/src/entitysystem.cpp\<close>, \<open>map/src/systems\<close>, \<open>gm_commands.cpp\<close>): the
    entities of a map, how they are created, move and vanish, who is told, chat and game master commands.
    Arithmetic on floats, the time, the order in which entityx enumerates entities and whether it runs a callback
    for a component that is not there are arguments (\<open>env\<close>), a different one at each step.
  \<^item> \<open>MapServer\<close>: the queues of \<open>SystemManager\<close> and the systems of \<open>WorldSystems\<close> put together, with clients that
    join and leave at any time.
  \<^item> \<open>FuzzyMatching\<close> (\<open>core/include/fts.h\<close>, \<open>core/src/fuzzy_matching.cpp\<close>): searching file names.
  \<^item> \<open>ScriptLoader\<close> (\<open>map/src/script_loader.cpp\<close>): which file created which entities. A script is the list of the
    calls it makes. The locale \<open>file_table\<close> is shared by the tables of NPCs, warp gates and spawners.
  \<^item> \<open>NodeProxy\<close> (\<open>node/src\<close>): the proxy between clients and map servers.
  \<^item> \<open>ThreadPool\<close> (\<open>core/include/threadpool.h\<close>, \<open>network_thread_pool.h\<close>): the threads that run the network layer, as
    a transition system in which a section under the mutex, a notification and the return of a task are steps.
  \<^item> \<open>ConnectionPool\<close> (\<open>core/include/connectionpool.h\<close>): the database connections that the handlers borrow.
  \<^item> \<open>Dialogue\<close>: two programs that take turns over a connection. The locale \<open>endpoint\<close> is what a side needs of its callbacks,
    and \<open>conversation\<close> puts two sides together that read each other's packets; its lemmas \<open>round\<close> and \<open>last_round\<close> take a
    dialogue on, for any codecs and any handlers.
  \<^item> \<open>Bot\<close> (\<open>bot/src/main.cpp\<close>): the test client, with the interpretations of \<open>endpoint\<close> for it, the login server and the
    char server; \<open>BotLogin\<close> and \<open>BotChar\<close> are its dialogues with the two, and \<open>bot_plays\<close> below joins them.
  \<^item> \<open>Programs\<close> (\<open>config.h\<close>, \<open>config.cpp\<close>, the \<open>main.cpp\<close> of the four servers, \<open>map/src/map_manager.cpp\<close>): the configuration, the
    command lines, the servers that are opened and the sweep of stale sessions.

  \<^bold>\<open>How state and errors are modelled.\<close> A class is a record, a derived class a record that extends it; a
  method takes the record and yields the new one. \<open>None\<close> stands for an exception that leaves the handler or
  an access outside a buffer; a theorem that a function yields \<open>Some\<close> rules both out. Memory that the code
  reads before it wrote it is an argument (\<open>g\<close>, \<open>env_memory\<close>). Strings are lists of bytes. Every loop is a
  structural recursion or has a termination proof; the loops of threads are transition systems. Only \<open>load_script\<close> takes a
  bound, the number of nested runs that Lua allows (200 in Lua 5.3), beyond which Lua refuses a run with an error that the
  code catches; \<open>loading_terminates\<close> says when the limit is not met, and what happens when it is. Mutexes are not modelled: an
  operation that takes one is a step, or, in \<open>ThreadPool\<close>, its section under the mutex is. The pool of database
  connections has no mutex: its calls are steps only as long as they do not overlap, and \<open>get_step\<close> splits
  \<open>getConnection\<close> to show what happens when they do. The callbacks that run when a connection closes are modelled
  without exceptions of the database.

  \<^bold>\<open>What is shown.\<close> Packets survive packing, encryption, transport in pieces, decryption and parsing;
  a corrupted byte is rejected; the decoders stay inside their buffer except for one wrap-around, which is
  exhibited; sending is first-in first-out with one write outstanding; the server lists drop silent
  connections and number clients uniquely. A login request that arrives byte by byte logs the account in
  and is answered; no client gets past the first state without a matching account, and a client opens one
  session at most, for its own account. On the char server a session is given one character at most, one of
  its own account, and the client is then sent to the map server of its channel; every statement concerns
  the client's own account. Items are neither lost nor made by equipping and dropping, and a saved inventory
  is what was held. Party members and parties agree, and no
  player is in two parties. A map client's calls follow the protocol of joining, playing and leaving. A connected
  player on a map has been shown every other player on it and every NPC, and chat is mutual among neighbours. All of
  this holds of the map server with its queues: an update serves every queued packet once, in the order of arrival, by the
  system of its type, and a late packet takes its type out of service; messages and movements of connected players are
  always handled, and a chat message is delivered by the next update. A character is loaded with the values of its rows. The
  script loader owns the entities its scripts created as long as they run without errors and do not nest too deep, and loading
  ends by itself if includes have no cycles. For patterns of 1 to 256 characters the fuzzy
  search finds what a plain subsequence test finds, in a bounded number of calls. The node forwards to the player what
  the map servers send. The thread pool runs every task it accepts and comes to rest, also when it is destroyed; the
  network pool keeps one task per slot; no database connection is lent to two holders unless calls of the pool overlap, when
  it can be. The test client and the servers
  understand each other: in an environment that lets the client in, from the first byte to the address of the map server every round can be taken, and the session that the client is told
  is the one that is recorded. A player is sent to the port at which the server of his map listens. The sweep of stale sessions removes no
  session that was touched in the last five minutes. Some theorems state behaviour that the code should not have, among them
  \<open>SendPacket_repeats_body\<close>, \<open>isc_long_packet_misframed\<close>, \<open>unknown_server_strands_client\<close>,
  \<open>late_packet_unregisters\<close>, \<open>leaving_party_crashes\<close>, \<open>select_past_end\<close>, \<open>missing_script_loses_item\<close>,
  \<open>skills_shifted\<close>, \<open>warpgates_never_work\<close>, \<open>grid_only_grows\<close>, \<open>npc_reload_repeats_gates\<close>,
  \<open>fuzzy_files_out_of_bounds\<close>, \<open>node_first_packet_crashes\<close>, \<open>node_drops_no_connection\<close>, \<open>at_most_three_sessions_kept\<close>,
  \<open>char_server_ignores_ports\<close>, \<open>found_address_is_lost\<close> and \<open>sweep_splits_minute\<close>.

  \<^bold>\<open>Bounds.\<close> The cipher's header has 11 bits for the length and for the command, which gives the bounds in
  \<open>crypt_packet\<close>; the receive buffer has 2047 bytes (\<open>MAX_PACKET_SIZE\<close>). ISC packets are only framed
  correctly below 256 bytes (\<open>isc_packet\<close>).

  \<^bold>\<open>Not modelled.\<close> Logging, crash reports and the titles and checks of the programs only do input and output. The database
  drivers, asio, entityx, Lua with its bindings, the parsers of command lines and configuration files and the transfer
  library are not part of the sources; what the code uses of them is an argument. The loop of the threads that run the maps
  calls \<open>server_update\<close> in turn and adds nothing to it. \<open>mwsrqueue.h\<close> is used nowhere, and the unit tests are no part
  of the servers.
\<close>

section \<open>From the login server to the map server\<close>

text \<open>C6. The whole way of the bot. It starts, talks to the login server, closes, goes to the char server that it was told, talks to
  it, closes and goes to the map server. The login server's environment lets the bot in as in the login dialogue
  (\<open>lets_in\<close>), the char server's lets it play as in its dialogue (\<open>lets_play\<close>): its database has the session that
  the login server recorded, for the account and the channel of that record, the account has from 1 to 255 characters whose list
  fits into a packet, the session can be updated, the map of the first character is known, exactly one map server has the
  channel, and names and addresses hold no zero byte; the addresses that the bot connects to are long enough, and at both
  servers a new client waits. Then both dialogues can be taken, and however they are taken the bot ends at the map server of its
  channel with the session that the login server recorded, to which the char server has given its first character.\<close>

theorem bot_plays:
  assumes "length ip \<ge> 2" and "length mem = MAX_PACKET_SIZE" and "length mem' = MAX_PACKET_SIZE"
    and "ready s" and "m_login_state s = DEFAULT" and "lets_in g [e1, e2, e3, e4] row a svr ch" and "length (m_network_address svr) \<ge> 2"
    and "ready t" and "m_loginState t = DEFAULT"
    and "lets_play g [f1, f2, f3, f4] (env_now e2) (row_id row) (uint (m_channel_id ch - 1)) rows d m world"
    and "m_network_address world \<noteq> []"
  shows "\<exists>b0 b. bot_start (bot_callbacks rt g) (LoginClient_new i p (bot_socket ip port mem now0)) = Some b0
    \<and> write_done (bot_callbacks rt g) now None b0 = Some b
    \<and> (\<exists>x. login_talk rt hs g [e1, e2, e3, e4] (b, s) x)
    \<and> (\<forall>b' s'. login_talk rt hs g [e1, e2, e3, e4] (b, s) (b', s') \<longrightarrow>
        InsertSession (env_now e2) (word_of_int (row_id row)) (m_channel_id ch - 1) \<in> set (m_sql s')
      \<and> (\<exists>c c0 c1. main_char q seed (CNetwork_Asio_new mem' now1) b' = Some c \<and> bot_start (bot_callbacks rt g) c = Some c0
        \<and> write_done (bot_callbacks rt g) now2 None c0 = Some c1
        \<and> (\<exists>y. char_talk rt onl g [f1, f2, f3, f4] (c1, t) y)
        \<and> (\<forall>c' t'. char_talk rt onl g [f1, f2, f3, f4] (c1, t) (c', t') \<longrightarrow>
            UpdateSessionWithCharacter (env_now e2) (word_of_int (lr_id (hd rows))) \<in> set (m_char_sql t')
          \<and> main_map sock c' = Some (MapClient_new (env_now e2) 0
              (snd (init (m_network_address world) (m_network_port world + word_of_int m) sock))))))"
proof -
  have g: "length g = MAX_PACKET_SIZE" using assms(6) by (simp add: lets_in_def)
  obtain b0 b where b: "bot_start (bot_callbacks rt g) (LoginClient_new i p (bot_socket ip port mem now0)) = Some b0"
      "write_done (bot_callbacks rt g) now None b0 = Some b" "at_login.asks rt PAKCS_ACCEPT_REQ [] b"
    using login_bot_starts [OF assms(1,2) g] by blast
  note talk = accept_rounds [OF b(3) assms(4-6), where hs = hs]
  have "\<exists>c c0 c1. main_char q seed (CNetwork_Asio_new mem' now1) b' = Some c \<and> bot_start (bot_callbacks rt g) c = Some c0
        \<and> write_done (bot_callbacks rt g) now2 None c0 = Some c1
        \<and> (\<exists>y. char_talk rt onl g [f1, f2, f3, f4] (c1, t) y)
        \<and> (\<forall>c' t'. char_talk rt onl g [f1, f2, f3, f4] (c1, t) (c', t') \<longrightarrow>
            UpdateSessionWithCharacter (env_now e2) (word_of_int (lr_id (hd rows))) \<in> set (m_char_sql t')
          \<and> main_map sock c' = Some (MapClient_new (env_now e2) 0
              (snd (init (m_network_address world) (m_network_port world + word_of_int m) sock))))"
    if "lc_ip b' = m_network_address svr" and sid: "lc_sessionId b' = env_now e2" for b'
  proof -
    have "length (lc_ip b') \<ge> 2" using that(1) assms(7) by simp
    then obtain c c0 c1 where c: "main_char q seed (CNetwork_Asio_new mem' now1) b' = Some c" "bot_start (bot_callbacks rt g) c = Some c0"
        "write_done (bot_callbacks rt g) now2 None c0 = Some c1" "at_char.asks rt PAKCS_ACCEPT_REQ [] c1" "cc_sessionId c1 = env_now e2"
      using char_bot_starts [OF _ assms(3) g] sid by metis
    have "main_map sock c' = Some (MapClient_new (env_now e2) 0
        (snd (init (m_network_address world) (m_network_port world + word_of_int m) sock)))" if "on_the_way world m (env_now e2) c'" for c'
      using that assms(11) by (simp add: on_the_way_def main_map_def)
    with char_accept_rounds [OF c(4,5) assms(8-10), where onl = onl] c(1-3) show ?thesis
      by (intro exI [of _ c] exI [of _ c0] exI [of _ c1] conjI) auto
  qed
  with b(1,2) talk show ?thesis by (intro exI [of _ b0] exI [of _ b] conjI) auto
qed

theorem bot_plays_witness:
  "\<exists>b0 b b' s' c c0 c1 c' t' world. bot_start (bot_callbacks sample_keys (replicate 2047 0)) (LoginClient_new 0 0 (bot_socket [0x31, 0x32] 29000 (replicate 2047 0) 0)) = Some b0
    \<and> write_done (bot_callbacks sample_keys (replicate 2047 0)) 0 None b0 = Some b
    \<and> login_talk sample_keys (\<lambda>_. False) (replicate 2047 0) [sample_bot_env, sample_bot_env, sample_bot_env, sample_bot_env] (b, sample_client) (b', s')
    \<and> InsertSession 1000 5 6 \<in> set (m_sql s')
    \<and> main_char 0 0 (CNetwork_Asio_new (replicate 2047 0) 0) b' = Some c
    \<and> bot_start (bot_callbacks sample_keys (replicate 2047 0)) c = Some c0
    \<and> write_done (bot_callbacks sample_keys (replicate 2047 0)) 0 None c0 = Some c1
    \<and> char_talk sample_keys (\<lambda>_. None) (replicate 2047 0) [sample_play_env, sample_play_env, sample_play_env, sample_play_env] (c1, sample_char_client) (c', t')
    \<and> UpdateSessionWithCharacter 1000 40 \<in> set (m_char_sql t')
    \<and> main_map (CNetwork_Asio_new (replicate 2047 0) 0) c' = Some world"
proof -
  let ?m = "replicate 2047 0 :: byte list"
  obtain rows d where r: "map (\<lambda>row. word_of_int (lr_id row)) rows = [40 :: u32]"
      "lets_play ?m [sample_play_env, sample_play_env, sample_play_env, sample_play_env] 1000 5 6 rows d 20 sample_channel"
    using sample_lets_play by (elim exE conjE)
  have hd: "word_of_int (lr_id (hd rows)) = (40 :: u32)" using r(1) by (cases rows) auto
  have facts: "length ?m = MAX_PACKET_SIZE" "length [0x31, 0x32 :: byte] \<ge> 2" "ready sample_client" "ready sample_char_client"
      "length (m_network_address sample_channel_isc) \<ge> 2" "m_network_address sample_channel \<noteq> []"
    using sample_client_facts sample_char_client_facts
    by (simp_all add: MAX_PACKET_SIZE_def ready_def sample_channel_isc_facts sample_channel_def sample_map_server_def)
  have play: "lets_play ?m [sample_play_env, sample_play_env, sample_play_env, sample_play_env] (env_now sample_bot_env) (row_id sample_account)
      (uint (m_channel_id \<lparr>m_channel_name = [0x42], m_channel_id = 7, m_lowAge = 0, m_highAge = 0, m_capacity = 0\<rparr> - 1)) rows d 20 sample_channel"
    using r(2) by (simp add: sample_bot_env_def sample_env_def sample_account_def)
  have now: "env_now sample_bot_env = 1000" "word_of_int (row_id sample_account) = (5 :: u32)"
      "m_channel_id \<lparr>m_channel_name = [0x42], m_channel_id = 7, m_lowAge = 0, m_highAge = 0, m_capacity = 0\<rparr> - 1 = 6"
    by (simp_all add: sample_bot_env_def sample_env_def sample_account_def)
  note journey = bot_plays [OF facts(2,1,1,3) sample_client_facts(4) sample_lets_in facts(5,4) sample_char_client_facts(4) play facts(6),
      where rt = sample_keys and hs = "\<lambda>_. False" and onl = "\<lambda>_. None" and i = 0 and p = 0 and port = 29000 and ?now0.0 = 0 and now = 0
        and q = 0 and seed = 0 and ?now1.0 = 0 and ?now2.0 = 0 and sock = "CNetwork_Asio_new ?m 0", unfolded now hd split_paired_Ex]
  from journey show ?thesis
  proof (elim exE conjE, goal_cases)
    case (1 b0 b b' s')
    from 1(1,2,4) 1(3) [rule_format, OF 1(4)] show ?case
    proof (elim exE conjE, goal_cases)
      case (1 c c0 c1 c' t')
      from 1(1-7) 1(9) 1(8) [rule_format, OF 1(9)] show ?case
        by (elim conjE) (intro exI conjI, assumption+)
    qed
  qed
qed

end
